(* ===== verification/Relay_Prelude.thy ===== *)
theory Relay_Prelude
  imports Main "HOL-Library.Sublist"
begin

text \<open>
  What every component shares: the Python values the sources compute with (strings as lists of
  code points, decimal conversions, \<^verbatim>\<open>str.split\<close> and \<^verbatim>\<open>str.join\<close>), exceptions as values of a
  sum type, wall-clock times in microseconds, and database tables as lists of rows in ascending
  primary-key order. The generic lemmas about them are declared into the collections
  \<open>res_simps\<close>, \<open>text_simps\<close> and \<open>table_simps\<close>.
\<close>

unbundle bit_operations_syntax

named_theorems res_simps
named_theorems text_simps
named_theorems table_simps

section \<open>Exceptions as values\<close>

text \<open>
  Every exception the modelled code raises is a constructor. A function that may raise returns
  \<open>py_error + 'a\<close>; \<open>Inl\<close> is the raise.
\<close>

datatype py_error =
    ValueError
  | UnicodeEncodeError
  | KeyError
  | IndexError
  | DoesNotExist
  | InvalidDirectMessageTextError
  | MessageTooLongError int int
  | LockedRowChangedError
  | IntegrityError
  | OperationalError bool
  | InboxRowAlreadyProcessedError

type_synonym 'a res = "py_error + 'a"

definition res_bind :: "'a res \<Rightarrow> ('a \<Rightarrow> 'b res) \<Rightarrow> 'b res" where
  "res_bind m f = (case m of Inl e \<Rightarrow> Inl e | Inr x \<Rightarrow> f x)"

definition require :: "bool \<Rightarrow> py_error \<Rightarrow> unit res" where
  "require b e = (if b then Inr () else Inl e)"

lemma res_bind_simps [simp, res_simps]:
  "res_bind (Inl e) f = Inl e"
  "res_bind (Inr x) f = f x"
  by (simp_all add: res_bind_def)

lemma res_bind_eq_Inr [res_simps]:
  "res_bind m f = Inr y \<longleftrightarrow> (\<exists>x. m = Inr x \<and> f x = Inr y)"
  by (cases m) auto

lemma require_simps [simp, res_simps]:
  "require b e = Inr v \<longleftrightarrow> b"
  "require True e = Inr ()"
  "require False e = Inl e"
  by (auto simp: require_def)

section \<open>Strings\<close>

text \<open>
  A Python \<^verbatim>\<open>str\<close> is a sequence of code points, lone surrogates included; its length counts code
  points. \<open>str ''abc''\<close> is the Python literal.
\<close>

type_synonym codepoint = nat
type_synonym pystr = "codepoint list"

definition str :: "string \<Rightarrow> pystr" where
  "str s = map of_char s"

definition space :: codepoint where
  "space = 32"

definition in_range :: "codepoint \<Rightarrow> codepoint \<Rightarrow> codepoint \<Rightarrow> bool" where
  "in_range lo hi c \<longleftrightarrow> lo \<le> c \<and> c \<le> hi"

definition is_digit :: "codepoint \<Rightarrow> bool" where
  "is_digit c \<longleftrightarrow> in_range 48 57 c"

definition is_upper :: "codepoint \<Rightarrow> bool" where
  "is_upper c \<longleftrightarrow> in_range 65 90 c"

definition is_lower :: "codepoint \<Rightarrow> bool" where
  "is_lower c \<longleftrightarrow> in_range 97 122 c"

lemmas char_class_defs = is_digit_def is_upper_def is_lower_def in_range_def

text \<open>
  \<^verbatim>\<open>str.lower()\<close> on ASCII text. The sources lower only usernames, message ids, the refresh target
  and hexadecimal codes, which are ASCII.
\<close>

definition lower_char :: "codepoint \<Rightarrow> codepoint" where
  "lower_char c = (if is_upper c then c + 32 else c)"

definition lower :: "pystr \<Rightarrow> pystr" where
  "lower s = map lower_char s"

lemma length_lower [simp]: "length (lower s) = length s"
  by (simp add: lower_def)

lemma lower_lower [simp]: "lower (lower s) = lower s"
  by (auto simp: lower_def lower_char_def is_upper_def in_range_def)

text \<open>\<^verbatim>\<open>sep.join(words)\<close>, \<^verbatim>\<open>s.split(sep)\<close> and \<^verbatim>\<open>s.split(sep, n)\<close> for a one-character separator.\<close>

fun join :: "codepoint \<Rightarrow> pystr list \<Rightarrow> pystr" where
  "join sep [] = []"
| "join sep [w] = w"
| "join sep (w # v # ws) = w @ sep # join sep (v # ws)"

fun split :: "codepoint \<Rightarrow> pystr \<Rightarrow> pystr list" where
  "split sep [] = [[]]"
| "split sep (c # cs) =
     (if c = sep then [] # split sep cs
      else (case split sep cs of [] \<Rightarrow> [[c]] | w # ws \<Rightarrow> (c # w) # ws))"

fun split_max :: "codepoint \<Rightarrow> nat \<Rightarrow> pystr \<Rightarrow> pystr list" where
  "split_max sep 0 s = [s]"
| "split_max sep (Suc n) s =
     (case dropWhile (\<lambda>c. c \<noteq> sep) s of
        [] \<Rightarrow> [s]
      | _ # rest \<Rightarrow> takeWhile (\<lambda>c. c \<noteq> sep) s # split_max sep n rest)"

lemma split_not_Nil [simp]: "split sep s \<noteq> []"
  by (cases s) (auto split: list.splits)

lemma split_max_not_Nil [simp]: "split_max sep n s \<noteq> []"
  by (cases n) (auto split: list.splits)

lemma join_Cons: "join sep (w # ws) = (if ws = [] then w else w @ sep # join sep ws)"
  by (cases ws) auto

lemma split_no_sep [text_simps]: "sep \<notin> set w \<Longrightarrow> split sep w = [w]"
  by (induction w) auto

lemma split_append_sep [text_simps]:
  "sep \<notin> set w \<Longrightarrow> split sep (w @ sep # s) = w # split sep s"
  by (induction w) auto

lemma split_join [text_simps]:
  "ws \<noteq> [] \<Longrightarrow> \<forall>w \<in> set ws. sep \<notin> set w \<Longrightarrow> split sep (join sep ws) = ws"
  by (induction sep ws rule: join.induct) (auto simp: text_simps)

lemma join_split [simp]: "join sep (split sep s) = s"
proof (induction s)
  case (Cons c s)
  then show ?case
    by (cases "split sep s") (auto simp: join_Cons split: if_splits)
qed simp

lemma split_eqD: "split sep s = ws \<Longrightarrow> s = join sep ws"
  using join_split [of sep s] by simp

lemma split_words_no_sep: "w \<in> set (split sep s) \<Longrightarrow> sep \<notin> set w"
proof (induction s arbitrary: w)
  case (Cons c s)
  then show ?case
    by (cases "split sep s") (auto split: if_splits)
qed simp

lemma takeWhile_sep: "sep \<notin> set w \<Longrightarrow> takeWhile (\<lambda>c. c \<noteq> sep) (w @ sep # s) = w"
  by (induction w) auto

lemma dropWhile_sep: "sep \<notin> set w \<Longrightarrow> dropWhile (\<lambda>c. c \<noteq> sep) (w @ sep # s) = sep # s"
  by (induction w) auto

lemma split_max_append_sep [text_simps]:
  "sep \<notin> set w \<Longrightarrow> split_max sep (Suc n) (w @ sep # s) = w # split_max sep n s"
  by (simp add: takeWhile_sep dropWhile_sep)

lemma split_max_join [text_simps]:
  "\<forall>w \<in> set ws. sep \<notin> set w \<Longrightarrow>
     split_max sep (length ws) (join sep (ws @ [tail])) = ws @ [tail]"
proof (induction ws)
  case (Cons w ws)
  then show ?case
    by (simp add: join_Cons text_simps del: split_max.simps(2))
qed simp

lemma join_split_max [simp]: "join sep (split_max sep n s) = s"
proof (induction n arbitrary: s)
  case (Suc n)
  show ?case
  proof (cases "dropWhile (\<lambda>c. c \<noteq> sep) s")
    case (Cons c rest)
    then have "c = sep"
      using hd_dropWhile [of "\<lambda>c. c \<noteq> sep" s] by simp
    moreover have "takeWhile (\<lambda>c. c \<noteq> sep) s @ c # rest = s"
      using takeWhile_dropWhile_id [of "\<lambda>c. c \<noteq> sep" s] Cons by simp
    ultimately show ?thesis
      using Suc.IH [of rest] Cons by (simp add: join_Cons)
  next
    case Nil
    then show ?thesis by (simp del: dropWhile_eq_Nil_conv)
  qed
qed simp

lemma length_join:
  "length (join sep ws) = sum_list (map length ws) + (length ws - 1)"
  by (induction sep ws rule: join.induct) auto

section \<open>Decimal numbers\<close>

text \<open>
  \<open>digits_of_nat\<close> and \<open>str_of_int\<close> are \<^verbatim>\<open>str(n)\<close>. \<open>int_of_digits\<close> is \<^verbatim>\<open>int(s)\<close> for a text of ASCII
  digits, the only texts the sources convert (each one matched a digit pattern before).
\<close>

fun digits_of_nat :: "nat \<Rightarrow> pystr" where
  "digits_of_nat n = (if n < 10 then [48 + n] else digits_of_nat (n div 10) @ [48 + n mod 10])"

declare digits_of_nat.simps [simp del]

definition str_of_int :: "int \<Rightarrow> pystr" where
  "str_of_int i = (if i < 0 then 45 # digits_of_nat (nat (- i)) else digits_of_nat (nat i))"

definition nat_of_digits :: "pystr \<Rightarrow> nat" where
  "nat_of_digits ds = foldl (\<lambda>n c. 10 * n + (c - 48)) 0 ds"

definition int_of_digits :: "pystr \<Rightarrow> int" where
  "int_of_digits ds = int (nat_of_digits ds)"

lemma nat_of_digits_snoc [simp]: "nat_of_digits (ds @ [c]) = 10 * nat_of_digits ds + (c - 48)"
  by (simp add: nat_of_digits_def)

lemma nat_of_digits_digits_of_nat [simp]: "nat_of_digits (digits_of_nat n) = n"
proof (induction n rule: digits_of_nat.induct)
  case (1 n)
  then show ?case
    by (cases "n < 10") (simp_all add: digits_of_nat.simps [of n] nat_of_digits_def)
qed

lemma digits_of_nat_digits: "c \<in> set (digits_of_nat n) \<Longrightarrow> is_digit c"
proof (induction n rule: digits_of_nat.induct)
  case (1 n)
  then show ?case
    by (cases "n < 10") (auto simp: digits_of_nat.simps [of n] char_class_defs)
qed

lemma digits_of_nat_not_Nil [simp]: "digits_of_nat n \<noteq> []"
  by (simp add: digits_of_nat.simps [of n])

lemma digits_of_nat_hd: "0 < n \<Longrightarrow> hd (digits_of_nat n) \<noteq> 48"
proof (induction n rule: digits_of_nat.induct)
  case (1 n)
  then show ?case
    by (cases "n < 10") (simp_all add: digits_of_nat.simps [of n])
qed

lemma length_digits_of_nat_le: "n < 10 ^ k \<Longrightarrow> 0 < k \<Longrightarrow> length (digits_of_nat n) \<le> k"
proof (induction n arbitrary: k rule: digits_of_nat.induct)
  case (1 n)
  show ?case
  proof (cases "n < 10")
    case False
    then obtain j where k: "k = Suc j" and j: "0 < j"
      using 1(2,3) by (cases k; cases "k = 1") auto
    have "n div 10 < 10 ^ j"
      using 1(2) k by (simp add: less_mult_imp_div_less)
    with 1(1) [OF False _ j] k show ?thesis
      by (simp add: digits_of_nat.simps [of n])
  qed (use 1(3) in \<open>simp add: digits_of_nat.simps [of n]\<close>)
qed

lemma nat_of_digits_bound:
  "\<forall>c \<in> set ds. is_digit c \<Longrightarrow> nat_of_digits ds < 10 ^ length ds"
proof (induction ds rule: rev_induct)
  case (snoc c ds)
  then have "nat_of_digits ds < 10 ^ length ds" and "c - 48 < 10"
    by (auto simp: char_class_defs)
  then show ?case by simp
qed (simp add: nat_of_digits_def)

lemma nat_of_digits_pos:
  "ds \<noteq> [] \<Longrightarrow> hd ds \<noteq> 48 \<Longrightarrow> \<forall>c \<in> set ds. is_digit c \<Longrightarrow> 0 < nat_of_digits ds"
proof (induction ds rule: rev_induct)
  case (snoc c ds)
  then show ?case
    by (cases ds) (auto simp: nat_of_digits_def char_class_defs)
qed simp

text \<open>A digit text without a leading zero is the canonical spelling of its value.\<close>

lemma digits_of_nat_of_digits:
  assumes "ds \<noteq> []" and "hd ds \<noteq> 48" and "\<forall>c \<in> set ds. is_digit c"
  shows "digits_of_nat (nat_of_digits ds) = ds"
  using assms
proof (induction ds rule: rev_induct)
  case (snoc c ds)
  have c: "is_digit c" "48 + (c - 48) = c" "c - 48 < 10"
    using snoc.prems by (auto simp: char_class_defs)
  show ?case
  proof (cases "ds = []")
    case True
    with c show ?thesis
      by (simp add: nat_of_digits_def digits_of_nat.simps [of "c - 48"])
  next
    case False
    with snoc.prems have ds: "hd ds \<noteq> 48" "\<forall>c \<in> set ds. is_digit c"
      by auto
    have "0 < nat_of_digits ds"
      using False ds by (intro nat_of_digits_pos) auto
    moreover have "digits_of_nat (nat_of_digits ds) = ds"
      using snoc.IH [OF False ds] .
    moreover have "digits_of_nat (10 * n + d) = digits_of_nat n @ [48 + d]" if "0 < n" "d < 10" for n d
      using that by (simp add: digits_of_nat.simps [of "10 * n + d"])
    ultimately show ?thesis
      using c by (metis nat_of_digits_snoc)
  qed
qed simp

lemma int_of_digits_str_of_int [simp]: "0 \<le> i \<Longrightarrow> int_of_digits (str_of_int i) = i"
  by (simp add: int_of_digits_def str_of_int_def)

section \<open>Lists\<close>

lemma in_map_filter: "y \<in> set (List.map_filter f xs) \<longleftrightarrow> (\<exists>x \<in> set xs. f x = Some y)"
  by (induction xs) (auto simp: map_filter_simps split: option.splits)

lemma distinct_map_filter_fst:
  assumes "distinct (map key rs)" "\<And>r x y. f r = Some (x, y) \<Longrightarrow> x = r"
  shows "distinct (map key (map fst (List.map_filter f rs)))"
  using assms(1)
proof (induction rs)
  case (Cons r rs)
  have "x \<in> set rs" if "(x, y) \<in> set (List.map_filter f rs)" for x y
    using that assms(2) by (auto simp: in_map_filter)
  then have "key r \<notin> set (map key (map fst (List.map_filter f rs)))"
    using Cons.prems by auto
  moreover have "distinct (map key (map fst (List.map_filter f rs)))"
    using Cons by simp
  ultimately show ?case
    using assms(2) [of r] by (cases "f r") (fastforce simp: map_filter_simps)+
qed (simp add: map_filter_simps)

end
