(* ===== verification/Tables.thy ===== *)
theory Tables
  imports Relay_Prelude
begin

text \<open>
  Database tables. A table is its rows in ascending primary-key order and the next key of its
  sequence. Django's querysets become list functions: \<^verbatim>\<open>filter\<close> is \<open>select_where\<close>,
  \<^verbatim>\<open>.first()\<close> in key order is \<open>first_where\<close>, \<^verbatim>\<open>filter(\<dots>).update(\<dots>)\<close> is \<open>update_where\<close> and
  \<^verbatim>\<open>create(\<dots>)\<close> is \<open>insert_row\<close>.
  The locale \<open>keyed_table\<close> states what a table promises its clients (keys are unique, an insert takes
  a fresh one, an update that keeps keys changes only the rows it selects); every table of the data
  model is an interpretation.
\<close>

record 'r table =
  rows :: "'r list"
  next_id :: nat

definition empty_table :: "'r table" where
  "empty_table = \<lparr>rows = [], next_id = 1\<rparr>"

definition select_where :: "('r \<Rightarrow> bool) \<Rightarrow> 'r table \<Rightarrow> 'r list" where
  "select_where P t = filter P (rows t)"

definition first_where :: "('r \<Rightarrow> bool) \<Rightarrow> 'r table \<Rightarrow> 'r option" where
  "first_where P t = find P (rows t)"

definition exists_where :: "('r \<Rightarrow> bool) \<Rightarrow> 'r table \<Rightarrow> bool" where
  "exists_where P t = list_ex P (rows t)"

definition count_where :: "('r \<Rightarrow> bool) \<Rightarrow> 'r table \<Rightarrow> nat" where
  "count_where P t = length (filter P (rows t))"

definition update_where :: "('r \<Rightarrow> bool) \<Rightarrow> ('r \<Rightarrow> 'r) \<Rightarrow> 'r table \<Rightarrow> 'r table" where
  "update_where P f t = t\<lparr>rows := map (\<lambda>r. if P r then f r else r) (rows t)\<rparr>"

definition delete_where :: "('r \<Rightarrow> bool) \<Rightarrow> 'r table \<Rightarrow> 'r table" where
  "delete_where P t = t\<lparr>rows := filter (\<lambda>r. \<not> P r) (rows t)\<rparr>"

text \<open>The new row is built from its key.\<close>

definition insert_row :: "(nat \<Rightarrow> 'r) \<Rightarrow> 'r table \<Rightarrow> 'r table" where
  "insert_row mk t = \<lparr>rows = rows t @ [mk (next_id t)], next_id = Suc (next_id t)\<rparr>"

lemmas table_defs =
  select_where_def first_where_def exists_where_def count_where_def update_where_def delete_where_def
  insert_row_def

lemma rows_insert [simp]: "rows (insert_row mk t) = rows t @ [mk (next_id t)]"
  by (simp add: insert_row_def)

lemma rows_update [simp]: "rows (update_where P f t) = map (\<lambda>r. if P r then f r else r) (rows t)"
  by (simp add: update_where_def)

lemma rows_delete [simp]: "rows (delete_where P t) = filter (\<lambda>r. \<not> P r) (rows t)"
  by (simp add: delete_where_def)

lemma next_id_simps [simp]:
  "next_id (insert_row mk t) = Suc (next_id t)"
  "next_id (update_where P f t) = next_id t"
  "next_id (delete_where P t) = next_id t"
  by (simp_all add: table_defs)

lemma update_where_id [simp]:
  "(\<forall>r \<in> set (rows t). \<not> P r) \<Longrightarrow> update_where P f t = t"
proof -
  assume "\<forall>r \<in> set (rows t). \<not> P r"
  then have "map (\<lambda>r. if P r then f r else r) (rows t) = rows t"
    by (induction "rows t") (auto intro: map_idI)
  then show ?thesis by (simp add: update_where_def)
qed

lemma update_where_cong:
  assumes "\<And>r. r \<in> set (rows t) \<Longrightarrow> P r \<longleftrightarrow> Q r" "\<And>r. r \<in> set (rows t) \<Longrightarrow> Q r \<Longrightarrow> f r = g r"
  shows "update_where P f t = update_where Q g t"
  using assms by (simp add: update_where_def)

lemma first_where_SomeD: "first_where P t = Some r \<Longrightarrow> r \<in> set (rows t) \<and> P r"
  by (auto simp: first_where_def find_Some_iff)

lemma first_where_NoneD: "first_where P t = None \<Longrightarrow> r \<in> set (rows t) \<Longrightarrow> \<not> P r"
  by (auto simp: first_where_def find_None_iff)

lemma first_where_exists: "(\<exists>r. first_where P t = Some r) \<longleftrightarrow> exists_where P t"
  by (cases "first_where P t") (auto simp: first_where_def find_Some_iff find_None_iff exists_where_def list_ex_iff)

lemma set_select_where [simp]: "set (select_where P t) = {r \<in> set (rows t). P r}"
  by (auto simp: select_where_def)

text \<open>Every row of a table satisfies \<open>Q\<close>: what an insert, an update and a delete need to keep it.\<close>

definition all_rows :: "('r \<Rightarrow> bool) \<Rightarrow> 'r table \<Rightarrow> bool" where
  "all_rows Q t \<longleftrightarrow> (\<forall>r \<in> set (rows t). Q r)"

lemma all_rows_insert [table_simps]: "all_rows Q (insert_row mk t) \<longleftrightarrow> all_rows Q t \<and> Q (mk (next_id t))"
  by (auto simp: all_rows_def)

lemma all_rows_update: "all_rows Q t \<Longrightarrow> (\<And>r. r \<in> set (rows t) \<Longrightarrow> P r \<Longrightarrow> Q r \<Longrightarrow> Q (f r)) \<Longrightarrow> all_rows Q (update_where P f t)"
  by (auto simp: all_rows_def)

lemma all_rows_delete: "all_rows Q t \<Longrightarrow> all_rows Q (delete_where P t)"
  by (auto simp: all_rows_def)

lemma all_rows_empty [simp]: "all_rows Q empty_table"
  by (simp add: all_rows_def empty_table_def)

section \<open>Keys\<close>

definition keys_ok :: "('r \<Rightarrow> nat) \<Rightarrow> 'r table \<Rightarrow> bool" where
  "keys_ok key t \<longleftrightarrow> sorted_wrt (<) (map key (rows t)) \<and> (\<forall>r \<in> set (rows t). key r < next_id t)"

lemma keys_ok_empty [simp]: "keys_ok key empty_table"
  by (simp add: keys_ok_def empty_table_def)

text \<open>
  The contract of a table with primary key \<open>key\<close>: \<open>mk\<close> builds the rows the model inserts, and it gives
  a new row the key it is told.
\<close>

locale keyed_table =
  fixes key :: "'r \<Rightarrow> nat"
    and mk :: "'a \<Rightarrow> nat \<Rightarrow> 'r"
  assumes mk_key: "key (mk a n) = n"
begin

lemma keys_insert: "keys_ok key t \<Longrightarrow> keys_ok key (insert_row (mk a) t)"
  by (auto simp: keys_ok_def sorted_wrt_append mk_key less_Suc_eq)

lemma insert_fresh: "keys_ok key t \<Longrightarrow> r \<in> set (rows t) \<Longrightarrow> key r \<noteq> key (mk a (next_id t))"
  by (auto simp: keys_ok_def mk_key)

lemma keys_update: "keys_ok key t \<Longrightarrow> (\<And>r. key (f r) = key r) \<Longrightarrow> keys_ok key (update_where P f t)"
  by (auto simp: keys_ok_def comp_def if_distrib [of key] cong: if_cong)

lemma keys_delete: "keys_ok key t \<Longrightarrow> keys_ok key (delete_where P t)"
  by (auto simp: keys_ok_def sorted_wrt_map intro: sorted_wrt_filter)

lemma key_unique:
  assumes "keys_ok key t" "r \<in> set (rows t)" "s \<in> set (rows t)" "key r = key s"
  shows "r = s"
proof -
  obtain i j where ij: "i < length (rows t)" "j < length (rows t)" "rows t ! i = r" "rows t ! j = s"
    using assms(2,3) by (auto simp: in_set_conv_nth)
  have "\<not> i < j" "\<not> j < i"
    using assms(1,4) ij unfolding keys_ok_def sorted_wrt_iff_nth_less by (metis length_map less_irrefl nth_map)+
  with ij show ?thesis by simp
qed

lemma first_by_key:
  assumes "keys_ok key t" "r \<in> set (rows t)"
  shows "first_where (\<lambda>s. key s = key r) t = Some r"
proof -
  have "\<exists>s. first_where (\<lambda>s. key s = key r) t = Some s"
    using assms(2) by (auto simp: first_where_exists exists_where_def list_ex_iff)
  then obtain s where s: "first_where (\<lambda>s. key s = key r) t = Some s" ..
  with first_where_SomeD [OF s] key_unique [OF assms(1) _ assms(2)] show ?thesis by auto
qed

text \<open>Writing the row a query found gives the written row to the next query.\<close>

lemma first_where_written:
  assumes "keys_ok key t" "first_where P t = Some r" "P r'"
  shows "first_where P (update_where (\<lambda>s. key s = key r) (\<lambda>_. r') t) = Some r'"
proof -
  from assms(2) obtain i where i: "i < length (rows t)" "rows t ! i = r" "\<forall>j < i. \<not> P (rows t ! j)"
    by (auto simp: first_where_def find_Some_iff)
  have "key (rows t ! j) \<noteq> key r" if "j < i" for j
    using assms(1) i that unfolding keys_ok_def sorted_wrt_iff_nth_less by (metis length_map less_irrefl less_trans nth_map)
  with i assms(3) show ?thesis
    by (auto simp: first_where_def find_Some_iff intro!: exI [of _ i])
qed

lemma first_where_created:
  assumes "first_where P t = None" "P (mk a (next_id t))"
  shows "first_where P (insert_row (mk a) t) = Some (mk a (next_id t))"
  unfolding first_where_def find_Some_iff
  using assms by (intro exI [of _ "length (rows t)"]) (auto simp: first_where_def find_None_iff nth_append)

end

section \<open>How a table evolves\<close>

text \<open>
  Between two states of a table every old row is still there, in its place, and related to what it was
  by \<open>R\<close>; new rows come after them.
\<close>

definition table_evolves :: "('r \<Rightarrow> 'r \<Rightarrow> bool) \<Rightarrow> 'r table \<Rightarrow> 'r table \<Rightarrow> bool" where
  "table_evolves R t t' \<longleftrightarrow>
     next_id t \<le> next_id t' \<and> length (rows t) \<le> length (rows t') \<and>
     (\<forall>i < length (rows t). R (rows t ! i) (rows t' ! i))"

lemma table_evolves_refl: "(\<And>r. R r r) \<Longrightarrow> table_evolves R t t"
  by (simp add: table_evolves_def)

lemma table_evolves_trans:
  assumes "\<And>x y z. R x y \<Longrightarrow> R y z \<Longrightarrow> R x z" "table_evolves R t u" "table_evolves R u v"
  shows "table_evolves R t v"
  using assms unfolding table_evolves_def by (meson le_trans less_le_trans)

lemma table_evolves_update:
  assumes "\<And>r. R r r" "\<And>r. r \<in> set (rows t) \<Longrightarrow> P r \<Longrightarrow> R r (f r)"
  shows "table_evolves R t (update_where P f t)"
  using assms by (simp add: table_evolves_def)

lemma table_evolves_insert: "(\<And>r. R r r) \<Longrightarrow> table_evolves R t (insert_row mk t)"
  by (simp add: table_evolves_def nth_append)

lemma table_evolvesD:
  assumes "table_evolves R t t'" "r \<in> set (rows t)"
  obtains r' where "r' \<in> set (rows t')" "R r r'"
proof -
  obtain i where "i < length (rows t)" "rows t ! i = r"
    using assms(2) by (auto simp: in_set_conv_nth)
  with assms(1) that [of "rows t' ! i"] show thesis
    by (auto simp: table_evolves_def)
qed

lemma table_evolves_mono: "table_evolves R t t' \<Longrightarrow> (\<And>r s. R r s \<Longrightarrow> Q r s) \<Longrightarrow> table_evolves Q t t'"
  by (simp add: table_evolves_def)

section \<open>Compare-and-set on a locked row\<close>

text \<open>
  \<^verbatim>\<open>update_locked_delivery\<close> and \<^verbatim>\<open>update_locked_receipt\<close> share one shape: nothing happens unless the
  instance is in one of \<open>from_states\<close>; then the row with its key, state and arm generation is changed,
  and the instance is refreshed from the stored row. \<open>f\<close> is the set of changes as a function of the
  row, so \<^verbatim>\<open>F("attempt_count") + 1\<close> reads the stored value. The instance a caller passes was read from
  the row it locked, so refreshing the changed fields and reading the row again agree.
\<close>

definition compare_and_set ::
  "('r \<Rightarrow> nat) \<Rightarrow> ('r \<Rightarrow> 's) \<Rightarrow> ('r \<Rightarrow> nat) \<Rightarrow> 'r \<Rightarrow> 's list \<Rightarrow> ('r \<Rightarrow> 'r) \<Rightarrow> 'r table \<Rightarrow> bool \<times> 'r \<times> 'r table" where
  "compare_and_set key state_of generation row from_states f t =
     (if state_of row \<notin> set from_states then (False, row, t)
      else
        let unchanged = (\<lambda>r. key r = key row \<and> state_of r = state_of row \<and> generation r = generation row)
        in case first_where unchanged t of
             None \<Rightarrow> (False, row, t)
           | Some stored \<Rightarrow> (True, f stored, update_where unchanged f t))"

text \<open>
  The contract of a table of state-machine rows: what the changes of the state machine may not touch.
\<close>

locale locked_row_table = keyed_table key mk
  for key :: "'r \<Rightarrow> nat" and mk :: "'a \<Rightarrow> nat \<Rightarrow> 'r" +
  fixes state_of :: "'r \<Rightarrow> 's" and generation :: "'r \<Rightarrow> nat"
    and cas :: "'r \<Rightarrow> 's list \<Rightarrow> ('r \<Rightarrow> 'r) \<Rightarrow> 'r table \<Rightarrow> bool \<times> 'r \<times> 'r table"
  assumes cas_eq: "cas row from_states f t = compare_and_set key state_of generation row from_states f t"
begin

lemma cas_wrong_state: "state_of row \<notin> set from_states \<Longrightarrow> cas row from_states f t = (False, row, t)"
  by (simp add: cas_eq compare_and_set_def)

lemma cas_stale:
  "(\<And>r. r \<in> set (rows t) \<Longrightarrow> key r = key row \<Longrightarrow> generation r \<noteq> generation row) \<Longrightarrow>
     cas row from_states f t = (False, row, t)"
  by (auto simp: cas_eq compare_and_set_def Let_def split: option.splits dest: first_where_SomeD)

lemma cas_failed: "cas row from_states f t = (False, row', t') \<Longrightarrow> row' = row \<and> t' = t"
  by (auto simp: cas_eq compare_and_set_def Let_def split: if_splits option.splits)

lemma cas_locked:
  assumes "keys_ok key t" "row \<in> set (rows t)" "state_of row \<in> set from_states"
  shows "cas row from_states f t = (True, f row, update_where (\<lambda>r. key r = key row) f t)"
proof -
  let ?P = "\<lambda>r. key r = key row \<and> state_of r = state_of row \<and> generation r = generation row"
  have eq: "?P r \<longleftrightarrow> key r = key row" if "r \<in> set (rows t)" for r
    using key_unique [OF assms(1) that assms(2)] by auto
  have "first_where ?P t = first_where (\<lambda>r. key r = key row) t"
    using eq unfolding first_where_def by (intro find_cong) auto
  moreover have "update_where ?P f t = update_where (\<lambda>r. key r = key row) f t"
    using eq by (auto simp: update_where_def intro!: table.equality)
  ultimately show ?thesis
    using assms first_by_key [OF assms(1,2)] by (simp add: cas_eq compare_and_set_def)
qed

lemma cas_keys: "keys_ok key t \<Longrightarrow> (\<And>r. key (f r) = key r) \<Longrightarrow> cas row from_states f t = (b, row', t') \<Longrightarrow> keys_ok key t'"
  using keys_update by (auto simp: cas_eq compare_and_set_def Let_def split: if_splits option.splits)

lemma cas_evolves:
  assumes "\<And>r. R r r"
    and "\<And>r. r \<in> set (rows t) \<Longrightarrow> key r = key row \<Longrightarrow> state_of r = state_of row \<Longrightarrow>
      state_of row \<in> set from_states \<Longrightarrow> R r (f r)"
    and "cas row from_states f t = (b, row', t')"
  shows "table_evolves R t t'"
  using assms(3)
  by (auto simp: cas_eq compare_and_set_def Let_def split: if_splits option.splits
      intro!: table_evolves_refl table_evolves_update assms(1,2))

text \<open>A property of all rows survives when the changes keep it on the states they start from.\<close>

lemma cas_all_rows:
  assumes "all_rows Q t" and "\<And>r. Q r \<Longrightarrow> r \<in> set (rows t) \<Longrightarrow> key r = key row \<Longrightarrow> state_of r = state_of row \<Longrightarrow>
      state_of row \<in> set from_states \<Longrightarrow> Q (f r)"
    and "cas row from_states f t = (b, row', t')"
  shows "all_rows Q t'"
  using assms(1,3)
  by (auto simp: cas_eq compare_and_set_def Let_def split: if_splits option.splits
      intro!: all_rows_update [OF assms(1)] assms(2))

end

end
