(* ===== verification/Field_Grammar.thy ===== *)
theory Field_Grammar
  imports Relay_Prelude
begin

text \<open>
  The limits and field rules of the protocol package: \<^verbatim>\<open>protocol/constants.py\<close>,
  \<^verbatim>\<open>protocol/text_validation.py\<close>, \<^verbatim>\<open>protocol/usernames.py\<close>, \<^verbatim>\<open>protocol/passwords.py\<close>,
  \<^verbatim>\<open>protocol/field_grammar.py\<close> and \<^verbatim>\<open>protocol/received_sets.py\<close>. A compiled regular expression
  used with \<^verbatim>\<open>fullmatch\<close> is the predicate on the whole text it stands for.
  The lemmas give the byte length of UTF-8 texts, the correspondence between received-sets and
  part masks, and what each field shape implies (no separator inside, a length bound, a
  canonical number), which the parser and the formatters build on.
\<close>

section \<open>Constants\<close>

definition PROTOCOL_VERSION :: pystr where
  "PROTOCOL_VERSION = str ''1''"

definition PROTOCOL_MAGIC :: pystr where
  "PROTOCOL_MAGIC = str ''HT''"

definition PROTOCOL_PREFIX :: pystr where
  "PROTOCOL_PREFIX = PROTOCOL_MAGIC @ PROTOCOL_VERSION @ str '' ''"

definition VERSION_NUMBER_MAXIMUM_DIGITS :: nat where
  "VERSION_NUMBER_MAXIMUM_DIGITS = 3"

definition DIRECT_MESSAGE_MAXIMUM_BYTES :: nat where
  "DIRECT_MESSAGE_MAXIMUM_BYTES = 150"

definition PART_TEXT_MAXIMUM_BYTES :: nat where
  "PART_TEXT_MAXIMUM_BYTES = 104"

definition PART_TEXT_MINIMUM_BYTES :: nat where
  "PART_TEXT_MINIMUM_BYTES = 1"

definition MAXIMUM_PART_COUNT :: int where
  "MAXIMUM_PART_COUNT = 10"

definition PART_HEADER_MAXIMUM_BYTES :: nat where
  "PART_HEADER_MAXIMUM_BYTES = 46"

definition USERNAME_MINIMUM_LENGTH :: nat where
  "USERNAME_MINIMUM_LENGTH = 3"

definition USERNAME_MAXIMUM_LENGTH :: nat where
  "USERNAME_MAXIMUM_LENGTH = 16"

definition PASSWORD_MINIMUM_CHARACTERS :: nat where
  "PASSWORD_MINIMUM_CHARACTERS = 8"

definition PASSWORD_MAXIMUM_CHARACTERS :: nat where
  "PASSWORD_MAXIMUM_CHARACTERS = 64"

definition PASSWORD_MAXIMUM_BYTES :: nat where
  "PASSWORD_MAXIMUM_BYTES = 64"

definition MESSAGE_ID_MINIMUM :: int where
  "MESSAGE_ID_MINIMUM = 1"

definition MESSAGE_ID_MAXIMUM :: int where
  "MESSAGE_ID_MAXIMUM = 9999999999999999"

definition MESSAGE_ID_MAXIMUM_DIGITS :: nat where
  "MESSAGE_ID_MAXIMUM_DIGITS = 16"

definition CONTROL_CHARACTER_RANGES :: "(codepoint \<times> codepoint) list" where
  "CONTROL_CHARACTER_RANGES = [(0x00, 0x1F), (0x7F, 0x9F)]"

definition PART_TEXT_ALLOWED_CONTROL_CHARACTERS :: "codepoint list" where
  "PART_TEXT_ALLOWED_CONTROL_CHARACTERS = [9, 10]"

definition REFRESH_ALL_PEERS_TARGET :: pystr where
  "REFRESH_ALL_PEERS_TARGET = str ''*''"

definition REFRESH_REPLY_MAXIMUM_MESSAGE_COUNT :: int where
  "REFRESH_REPLY_MAXIMUM_MESSAGE_COUNT = 9999"

definition UNKNOWN_REQUEST_TYPE :: pystr where
  "UNKNOWN_REQUEST_TYPE = str ''?''"

definition ERROR_CODE_MAXIMUM_LENGTH :: nat where
  "ERROR_CODE_MAXIMUM_LENGTH = 16"

definition RECEIVED_SET_RECEIVED :: codepoint where
  "RECEIVED_SET_RECEIVED = 49"

definition RECEIVED_SET_MISSING :: codepoint where
  "RECEIVED_SET_MISSING = 48"

definition USER_EXISTS :: pystr where
  "USER_EXISTS = str ''1''"

definition USER_DOES_NOT_EXIST :: pystr where
  "USER_DOES_NOT_EXIST = str ''0''"

lemmas protocol_constants =
  PROTOCOL_VERSION_def PROTOCOL_MAGIC_def PROTOCOL_PREFIX_def VERSION_NUMBER_MAXIMUM_DIGITS_def
  DIRECT_MESSAGE_MAXIMUM_BYTES_def PART_TEXT_MAXIMUM_BYTES_def PART_TEXT_MINIMUM_BYTES_def
  MAXIMUM_PART_COUNT_def USERNAME_MINIMUM_LENGTH_def USERNAME_MAXIMUM_LENGTH_def
  PASSWORD_MINIMUM_CHARACTERS_def PASSWORD_MAXIMUM_CHARACTERS_def PASSWORD_MAXIMUM_BYTES_def
  MESSAGE_ID_MINIMUM_def MESSAGE_ID_MAXIMUM_def MESSAGE_ID_MAXIMUM_DIGITS_def
  REFRESH_ALL_PEERS_TARGET_def REFRESH_REPLY_MAXIMUM_MESSAGE_COUNT_def UNKNOWN_REQUEST_TYPE_def
  ERROR_CODE_MAXIMUM_LENGTH_def RECEIVED_SET_RECEIVED_def RECEIVED_SET_MISSING_def
  USER_EXISTS_def USER_DOES_NOT_EXIST_def str_def

section \<open>Characters and bytes\<close>

definition SURROGATE_CODE_POINT_RANGE :: "codepoint \<times> codepoint" where
  "SURROGATE_CODE_POINT_RANGE = (0xD800, 0xDFFF)"

definition is_surrogate :: "codepoint \<Rightarrow> bool" where
  "is_surrogate c \<longleftrightarrow>
     (case SURROGATE_CODE_POINT_RANGE of (range_start, range_end) \<Rightarrow> in_range range_start range_end c)"

definition contains_surrogate :: "pystr \<Rightarrow> bool" where
  "contains_surrogate text \<longleftrightarrow> list_ex is_surrogate text"

text \<open>The UTF-8 bytes of one Unicode scalar value, as \<^verbatim>\<open>str.encode("utf-8")\<close> writes them.\<close>

definition utf8_bytes :: "codepoint \<Rightarrow> nat list" where
  "utf8_bytes c =
     (if c < 0x80 then [c]
      else if c < 0x800 then [0xC0 + c div 64, 0x80 + c mod 64]
      else if c < 0x10000 then [0xE0 + c div 4096, 0x80 + c div 64 mod 64, 0x80 + c mod 64]
      else [0xF0 + c div 262144, 0x80 + c div 4096 mod 64, 0x80 + c div 64 mod 64, 0x80 + c mod 64])"

definition encode_utf8 :: "pystr \<Rightarrow> nat list res" where
  "encode_utf8 text =
     (if contains_surrogate text then Inl UnicodeEncodeError else Inr (concat (map utf8_bytes text)))"

definition count_utf8_bytes :: "pystr \<Rightarrow> nat res" where
  "count_utf8_bytes text = res_bind (encode_utf8 text) (\<lambda>bytes. Inr (length bytes))"

definition is_control_character :: "codepoint \<Rightarrow> bool" where
  "is_control_character c \<longleftrightarrow>
     list_ex (\<lambda>(range_start, range_end). in_range range_start range_end c) CONTROL_CHARACTER_RANGES"

definition is_allowed_part_text_character :: "codepoint \<Rightarrow> bool" where
  "is_allowed_part_text_character c \<longleftrightarrow>
     (if c \<in> set PART_TEXT_ALLOWED_CONTROL_CHARACTERS then True
      else \<not> is_control_character c \<and> \<not> is_surrogate c)"

definition is_valid_part_text :: "pystr \<Rightarrow> bool res" where
  "is_valid_part_text part_text =
     (if \<not> list_all is_allowed_part_text_character part_text then Inr False
      else res_bind (count_utf8_bytes part_text)
             (\<lambda>n. Inr (PART_TEXT_MINIMUM_BYTES \<le> n \<and> n \<le> PART_TEXT_MAXIMUM_BYTES)))"

text \<open>The byte length of a text without surrogates, and the part text rule as a plain predicate.\<close>

definition utf8_length :: "pystr \<Rightarrow> nat" where
  "utf8_length text = sum_list (map (\<lambda>c. length (utf8_bytes c)) text)"

definition valid_part_text :: "pystr \<Rightarrow> bool" where
  "valid_part_text t \<longleftrightarrow>
     list_all is_allowed_part_text_character t \<and> 1 \<le> utf8_length t \<and> utf8_length t \<le> 104"

lemma utf8_length_simps [simp]:
  "utf8_length [] = 0"
  "utf8_length (c # t) = length (utf8_bytes c) + utf8_length t"
  "utf8_length (s @ t) = utf8_length s + utf8_length t"
  by (simp_all add: utf8_length_def)

lemma length_utf8_bytes_bounds [simp]:
  "0 < length (utf8_bytes c)" "length (utf8_bytes c) \<le> 4" "utf8_bytes c \<noteq> []"
  by (auto simp: utf8_bytes_def)

lemma length_utf8_bytes_ascii: "c < 128 \<Longrightarrow> length (utf8_bytes c) = 1"
  by (simp add: utf8_bytes_def)

lemma utf8_length_ascii: "\<forall>c \<in> set t. c < 128 \<Longrightarrow> utf8_length t = length t"
  by (induction t) (auto simp: length_utf8_bytes_ascii)

lemma length_le_utf8_length: "length t \<le> utf8_length t"
proof (induction t)
  case (Cons c t)
  then show ?case
    using add_mono [of 1 "length (utf8_bytes c)" "length t" "utf8_length t"] by (simp add: Suc_le_eq)
qed simp

lemma utf8_length_eq_0 [simp]: "utf8_length t = 0 \<longleftrightarrow> t = []"
  using length_le_utf8_length [of t] by auto

lemma contains_surrogate_simps [simp]:
  "contains_surrogate [] \<longleftrightarrow> False"
  "contains_surrogate (c # t) \<longleftrightarrow> is_surrogate c \<or> contains_surrogate t"
  "contains_surrogate (s @ t) \<longleftrightarrow> contains_surrogate s \<or> contains_surrogate t"
  by (simp_all add: contains_surrogate_def)

lemma is_surrogate_iff: "is_surrogate c \<longleftrightarrow> 0xD800 \<le> c \<and> c \<le> 0xDFFF"
  by (simp add: is_surrogate_def SURROGATE_CODE_POINT_RANGE_def in_range_def)

lemma ascii_no_surrogate: "\<forall>c \<in> set t. c < 128 \<Longrightarrow> \<not> contains_surrogate t"
  by (induction t) (auto simp: is_surrogate_iff)

lemma count_utf8_bytes_eq:
  "count_utf8_bytes t = (if contains_surrogate t then Inl UnicodeEncodeError else Inr (utf8_length t))"
  by (simp add: count_utf8_bytes_def encode_utf8_def utf8_length_def length_concat comp_def)

lemma is_control_character_iff: "is_control_character c \<longleftrightarrow> c \<le> 0x1F \<or> 0x7F \<le> c \<and> c \<le> 0x9F"
  by (simp add: is_control_character_def CONTROL_CHARACTER_RANGES_def in_range_def)

lemma is_allowed_part_text_character_iff:
  "is_allowed_part_text_character c \<longleftrightarrow>
     c = 9 \<or> c = 10 \<or> 0x20 \<le> c \<and> c \<le> 0x7E \<or> 0xA0 \<le> c \<and> \<not> is_surrogate c"
  by (auto simp: is_allowed_part_text_character_def PART_TEXT_ALLOWED_CONTROL_CHARACTERS_def
      is_control_character_iff is_surrogate_iff)

lemma allowed_text_no_surrogate:
  "list_all is_allowed_part_text_character t \<Longrightarrow> \<not> contains_surrogate t"
  by (induction t) (auto simp: is_allowed_part_text_character_iff is_surrogate_iff)

lemma is_valid_part_text_eq [simp]: "is_valid_part_text t = Inr (valid_part_text t)"
  using allowed_text_no_surrogate [of t]
  by (auto simp: is_valid_part_text_def valid_part_text_def count_utf8_bytes_eq
      PART_TEXT_MINIMUM_BYTES_def PART_TEXT_MAXIMUM_BYTES_def)

section \<open>Usernames and passwords\<close>

definition is_username_character :: "codepoint \<Rightarrow> bool" where
  "is_username_character c \<longleftrightarrow> is_upper c \<or> is_lower c \<or> is_digit c"

definition is_valid_username :: "pystr \<Rightarrow> bool" where
  "is_valid_username username \<longleftrightarrow>
     USERNAME_MINIMUM_LENGTH \<le> length username \<and> length username \<le> USERNAME_MAXIMUM_LENGTH \<and>
     list_all is_username_character username"

definition normalize_username_for_lookup :: "pystr \<Rightarrow> pystr" where
  "normalize_username_for_lookup username = lower username"

text \<open>
  \<open>nfc\<close> stands for \<^verbatim>\<open>unicodedata.normalize("NFC", \<cdot>)\<close>, whose tables are Unicode data: it is a
  parameter, and nothing is assumed of it.
\<close>

definition normalize_password :: "(pystr \<Rightarrow> pystr) \<Rightarrow> pystr \<Rightarrow> pystr" where
  "normalize_password nfc password = nfc password"

definition PASSWORD_EDGE_CHARACTER_NOT_ALLOWED :: codepoint where
  "PASSWORD_EDGE_CHARACTER_NOT_ALLOWED = space"

definition is_valid_password :: "pystr \<Rightarrow> bool res" where
  "is_valid_password normalized_password =
     (if contains_surrogate normalized_password then Inr False
      else if list_ex is_control_character normalized_password then Inr False
      else if prefix [PASSWORD_EDGE_CHARACTER_NOT_ALLOWED] normalized_password then Inr False
      else if suffix [PASSWORD_EDGE_CHARACTER_NOT_ALLOWED] normalized_password then Inr False
      else if \<not> (PASSWORD_MINIMUM_CHARACTERS \<le> length normalized_password \<and>
                 length normalized_password \<le> PASSWORD_MAXIMUM_CHARACTERS) then Inr False
      else res_bind (count_utf8_bytes normalized_password) (\<lambda>n. Inr (n \<le> PASSWORD_MAXIMUM_BYTES)))"

definition valid_password :: "pystr \<Rightarrow> bool" where
  "valid_password p \<longleftrightarrow>
     \<not> contains_surrogate p \<and> \<not> list_ex is_control_character p \<and>
     \<not> prefix [space] p \<and> \<not> suffix [space] p \<and>
     8 \<le> length p \<and> length p \<le> 64 \<and> utf8_length p \<le> 64"

lemma is_valid_password_eq [simp]: "is_valid_password p = Inr (valid_password p)"
  by (auto simp: is_valid_password_def valid_password_def count_utf8_bytes_eq protocol_constants
      PASSWORD_EDGE_CHARACTER_NOT_ALLOWED_def)

section \<open>The shape of each field\<close>

definition FIELD_SEPARATOR :: codepoint where
  "FIELD_SEPARATOR = space"

definition PART_FIELD_SEPARATOR :: codepoint where
  "PART_FIELD_SEPARATOR = 47"

definition NUL_CHARACTER :: codepoint where
  "NUL_CHARACTER = 0"

text \<open>\<^verbatim>\<open>[1-9][0-9]{0,n}\<close>\<close>

definition is_number_text :: "nat \<Rightarrow> pystr \<Rightarrow> bool" where
  "is_number_text n field \<longleftrightarrow>
     (case field of [] \<Rightarrow> False
      | c # cs \<Rightarrow> in_range 49 57 c \<and> length cs \<le> n \<and> list_all is_digit cs)"

definition is_message_id_field :: "pystr \<Rightarrow> bool" where
  "is_message_id_field field \<longleftrightarrow> is_number_text (MESSAGE_ID_MAXIMUM_DIGITS - 1) field"

definition match_part_field :: "pystr \<Rightarrow> (pystr \<times> pystr) option" where
  "match_part_field field =
     (case split PART_FIELD_SEPARATOR field of
        [part_number, part_count] \<Rightarrow>
          if is_number_text 1 part_number \<and> is_number_text 1 part_count
          then Some (part_number, part_count) else None
      | _ \<Rightarrow> None)"

definition is_part_field :: "pystr \<Rightarrow> bool" where
  "is_part_field field \<longleftrightarrow> match_part_field field \<noteq> None"

definition read_part_field :: "pystr \<Rightarrow> (int \<times> int) res" where
  "read_part_field field =
     (case match_part_field field of
        None \<Rightarrow> Inl ValueError
      | Some (part_number, part_count) \<Rightarrow> Inr (int_of_digits part_number, int_of_digits part_count))"

definition is_received_set_field :: "pystr \<Rightarrow> bool" where
  "is_received_set_field field \<longleftrightarrow>
     1 \<le> length field \<and> length field \<le> nat MAXIMUM_PART_COUNT \<and> list_all (\<lambda>c. c = 48 \<or> c = 49) field"

definition is_receipt_level_field :: "pystr \<Rightarrow> bool" where
  "is_receipt_level_field field \<longleftrightarrow> field = str ''D'' \<or> field = str ''R''"

definition is_existence_field :: "pystr \<Rightarrow> bool" where
  "is_existence_field field \<longleftrightarrow> field = str ''0'' \<or> field = str ''1''"

definition is_message_count_field :: "pystr \<Rightarrow> bool" where
  "is_message_count_field field \<longleftrightarrow> field = str ''0'' \<or> is_number_text 3 field"

definition is_refresh_target_field :: "pystr \<Rightarrow> bool" where
  "is_refresh_target_field field \<longleftrightarrow> field = REFRESH_ALL_PEERS_TARGET \<or> is_valid_username field"

definition is_error_code_field :: "pystr \<Rightarrow> bool" where
  "is_error_code_field field \<longleftrightarrow>
     1 \<le> length field \<and> length field \<le> ERROR_CODE_MAXIMUM_LENGTH \<and>
     list_all (\<lambda>c. is_upper c \<or> c = 95) field"

definition is_request_type_field :: "pystr \<Rightarrow> bool" where
  "is_request_type_field field \<longleftrightarrow> (case field of [c] \<Rightarrow> is_upper c \<or> c = 63 | _ \<Rightarrow> False)"

definition is_version_number_field :: "pystr \<Rightarrow> bool" where
  "is_version_number_field field \<longleftrightarrow>
     1 \<le> length field \<and> length field \<le> VERSION_NUMBER_MAXIMUM_DIGITS \<and> list_all is_digit field"

definition is_error_reference_field :: "pystr \<Rightarrow> bool" where
  "is_error_reference_field error_reference \<longleftrightarrow>
     (case split FIELD_SEPARATOR error_reference of
        [username, message_id] \<Rightarrow> is_valid_username username \<and> is_message_id_field message_id
      | [single_field] \<Rightarrow> is_refresh_target_field single_field \<or> is_version_number_field single_field
      | _ \<Rightarrow> False)"

definition is_tail_field :: "pystr \<Rightarrow> bool" where
  "is_tail_field tail \<longleftrightarrow> \<not> list_ex (\<lambda>c. c = NUL_CHARACTER \<or> is_surrogate c) tail"

section \<open>Part numbers and received-sets\<close>

definition FIRST_PART_NUMBER :: int where
  "FIRST_PART_NUMBER = 1"

definition is_valid_part_numbering :: "int \<Rightarrow> int \<Rightarrow> bool" where
  "is_valid_part_numbering part_number part_count \<longleftrightarrow>
     FIRST_PART_NUMBER \<le> part_number \<and> part_number \<le> part_count \<and> part_count \<le> MAXIMUM_PART_COUNT"

definition received_set_matches_part_count :: "pystr \<Rightarrow> int \<Rightarrow> bool" where
  "received_set_matches_part_count received_set part_count \<longleftrightarrow> int (length received_set) = part_count"

definition require_valid_part_count :: "int \<Rightarrow> unit res" where
  "require_valid_part_count part_count =
     require (FIRST_PART_NUMBER \<le> part_count \<and> part_count \<le> MAXIMUM_PART_COUNT) ValueError"

definition calculate_all_parts_mask :: "int \<Rightarrow> int res" where
  "calculate_all_parts_mask part_count =
     res_bind (require_valid_part_count part_count) (\<lambda>_. Inr (push_bit (nat part_count) 1 - 1))"

fun or_received_parts :: "nat \<Rightarrow> pystr \<Rightarrow> int \<Rightarrow> int" where
  "or_received_parts part_index [] parts_mask = parts_mask"
| "or_received_parts part_index (part_state # part_states) parts_mask =
     or_received_parts (Suc part_index) part_states
       (if part_state = RECEIVED_SET_RECEIVED then parts_mask OR push_bit part_index 1 else parts_mask)"

definition convert_received_set_to_parts_mask :: "pystr \<Rightarrow> int res" where
  "convert_received_set_to_parts_mask received_set =
     (if \<not> is_received_set_field received_set then Inl ValueError
      else Inr (or_received_parts 0 received_set 0))"

definition convert_parts_mask_to_received_set :: "int \<Rightarrow> int \<Rightarrow> pystr res" where
  "convert_parts_mask_to_received_set parts_mask part_count =
     res_bind (calculate_all_parts_mask part_count) (\<lambda>all_parts_mask.
       if \<not> (0 \<le> parts_mask \<and> parts_mask \<le> all_parts_mask) then Inl ValueError
       else Inr (map (\<lambda>part_index. if parts_mask AND push_bit part_index 1 \<noteq> 0
                                   then RECEIVED_SET_RECEIVED else RECEIVED_SET_MISSING)
                  [0..<nat part_count]))"

definition is_complete_received_set :: "pystr \<Rightarrow> bool" where
  "is_complete_received_set received_set \<longleftrightarrow>
     received_set \<noteq> [] \<and> list_all (\<lambda>c. c = RECEIVED_SET_RECEIVED) received_set"

subsection \<open>Masks and received-sets\<close>

text \<open>Bit \<open>n - 1\<close> of a mask stands for part \<open>n\<close>; both conversions only look at single bits.\<close>

lemma push_bit_1_eq: "push_bit n (1 :: int) = 2 ^ n"
  by (simp add: push_bit_eq_mult)

lemma calculate_all_parts_mask_eq:
  "calculate_all_parts_mask c = (if 1 \<le> c \<and> c \<le> 10 then Inr (mask (nat c)) else Inl ValueError)"
  by (auto simp: calculate_all_parts_mask_def require_valid_part_count_def require_def
      FIRST_PART_NUMBER_def MAXIMUM_PART_COUNT_def push_bit_1_eq mask_eq_exp_minus_1)

lemma bit_or_received_parts:
  "bit (or_received_parts k s m) i \<longleftrightarrow>
     bit m i \<or> k \<le> i \<and> i < k + length s \<and> s ! (i - k) = RECEIVED_SET_RECEIVED"
proof (induction k s m rule: or_received_parts.induct)
  case (2 k c s m)
  then show ?case
    by (cases "i = k") (auto simp: bit_or_iff push_bit_1_eq bit_exp_iff nth_Cons' less_eq_Suc_le)
qed auto

lemma bit_received_parts:
  "bit (or_received_parts 0 s 0) i \<longleftrightarrow> i < length s \<and> s ! i = RECEIVED_SET_RECEIVED"
  by (simp add: bit_or_received_parts)

lemma mask_bounds_iff: "0 \<le> m \<and> m \<le> mask n \<longleftrightarrow> take_bit n m = (m :: int)"
  by (auto simp: take_bit_int_eq_self_iff mask_eq_exp_minus_1)

lemma bit_bounded: "0 \<le> m \<Longrightarrow> m \<le> mask n \<Longrightarrow> bit (m :: int) i \<Longrightarrow> i < n"
  using mask_bounds_iff [of m n] by (metis bit_take_bit_iff)

lemma received_parts_bounds: "0 \<le> or_received_parts 0 s 0" "or_received_parts 0 s 0 \<le> mask (length s)"
proof -
  have "take_bit (length s) (or_received_parts 0 s 0) = or_received_parts 0 s 0"
    by (rule bit_eqI) (auto simp: bit_take_bit_iff bit_received_parts)
  then show "0 \<le> or_received_parts 0 s 0" "or_received_parts 0 s 0 \<le> mask (length s)"
    using mask_bounds_iff by blast+
qed

lemma convert_parts_mask_to_received_set_eq:
  assumes "1 \<le> c" "c \<le> 10" "0 \<le> m" "m \<le> mask (nat c)"
  shows "convert_parts_mask_to_received_set m c = Inr (map (\<lambda>i. if bit m i then 49 else 48) [0..<nat c])"
  using assms
  by (simp add: convert_parts_mask_to_received_set_def calculate_all_parts_mask_eq
      push_bit_1_eq and_exp_eq_0_iff_not_bit RECEIVED_SET_RECEIVED_def RECEIVED_SET_MISSING_def)

lemma received_set_of_mask_of_received_set:
  assumes "is_received_set_field s"
  shows "convert_parts_mask_to_received_set (or_received_parts 0 s 0) (int (length s)) = Inr s"
proof -
  have len: "1 \<le> int (length s)" "int (length s) \<le> 10"
    using assms by (auto simp: is_received_set_field_def MAXIMUM_PART_COUNT_def)
  have "map (\<lambda>i. if bit (or_received_parts 0 s 0) i then 49 else 48) [0..<length s] = s"
    using assms
    by (intro nth_equalityI)
      (auto simp: bit_received_parts RECEIVED_SET_RECEIVED_def is_received_set_field_def list_all_length)
  then show ?thesis
    using convert_parts_mask_to_received_set_eq [OF len] received_parts_bounds by simp
qed

lemma mask_of_received_set_of_mask:
  assumes "0 \<le> m" "m \<le> mask n"
  shows "or_received_parts 0 (map (\<lambda>i. if bit m i then 49 else 48) [0..<n]) 0 = m"
  by (rule bit_eqI)
    (use bit_bounded [OF assms] in \<open>auto simp: bit_received_parts RECEIVED_SET_RECEIVED_def split: if_splits\<close>)

lemma received_parts_complete_iff:
  "or_received_parts 0 s 0 = mask (length s) \<longleftrightarrow> list_all (\<lambda>c. c = RECEIVED_SET_RECEIVED) s"
proof
  assume "or_received_parts 0 s 0 = mask (length s)"
  then have "s ! i = RECEIVED_SET_RECEIVED" if "i < length s" for i
    using bit_received_parts [of s i] that by (simp add: bit_mask_iff)
  then show "list_all (\<lambda>c. c = RECEIVED_SET_RECEIVED) s"
    by (simp add: list_all_length)
next
  assume "list_all (\<lambda>c. c = RECEIVED_SET_RECEIVED) s"
  then show "or_received_parts 0 s 0 = mask (length s)"
    by (intro bit_eqI) (auto simp: bit_received_parts bit_mask_iff list_all_length)
qed

section \<open>What a field shape implies\<close>

text \<open>
  Every header field is non-empty ASCII without a space or NUL and of bounded length. The parser splits
  on spaces, so this is what makes it find the fields a formatter wrote.
\<close>

definition plain_field :: "nat \<Rightarrow> pystr \<Rightarrow> bool" where
  "plain_field n f \<longleftrightarrow> f \<noteq> [] \<and> length f \<le> n \<and> (\<forall>c \<in> set f. 33 \<le> c \<and> c < 128)"

lemma plain_field_mono: "plain_field m f \<Longrightarrow> m \<le> n \<Longrightarrow> plain_field n f"
  by (auto simp: plain_field_def)

lemma plain_field_no_space: "plain_field n f \<Longrightarrow> FIELD_SEPARATOR \<notin> set f"
  by (auto simp: plain_field_def FIELD_SEPARATOR_def space_def)

lemma plain_field_bytes:
  assumes "plain_field n f"
  shows "utf8_length f \<le> n" "\<not> contains_surrogate f" "NUL_CHARACTER \<notin> set f"
proof -
  have ascii: "\<forall>c \<in> set f. c < 128" using assms by (auto simp: plain_field_def)
  show "utf8_length f \<le> n"
    using utf8_length_ascii [OF ascii] assms by (simp add: plain_field_def)
  show "\<not> contains_surrogate f" using ascii_no_surrogate [OF ascii] .
  show "NUL_CHARACTER \<notin> set f" using assms by (auto simp: plain_field_def NUL_CHARACTER_def)
qed

lemma plain_username: "is_valid_username f \<Longrightarrow> plain_field 16 f"
  by (auto simp: plain_field_def is_valid_username_def is_username_character_def char_class_defs
      protocol_constants list_all_iff)

lemma is_number_text_digits:
  assumes "is_number_text n f"
  shows "f \<noteq> []" "hd f \<noteq> 48" "\<forall>c \<in> set f. is_digit c" "length f \<le> Suc n"
  using assms by (cases f; fastforce simp: is_number_text_def char_class_defs list_all_iff)+

lemma plain_number: "is_number_text n f \<Longrightarrow> plain_field (Suc n) f"
  using is_number_text_digits [of n f]
  by (fastforce simp: plain_field_def char_class_defs)

lemma plain_message_id: "is_message_id_field f \<Longrightarrow> plain_field 16 f"
  using plain_number [of 15 f] by (simp add: is_message_id_field_def MESSAGE_ID_MAXIMUM_DIGITS_def)

lemma match_part_field_Some:
  "match_part_field f = Some (a, b) \<Longrightarrow>
     f = a @ PART_FIELD_SEPARATOR # b \<and> is_number_text 1 a \<and> is_number_text 1 b"
  using join_split [of PART_FIELD_SEPARATOR f, symmetric]
  by (auto simp: match_part_field_def simp del: join_split split: list.splits if_splits)

lemma plain_part_field: "is_part_field f \<Longrightarrow> plain_field 5 f"
proof -
  assume "is_part_field f"
  then obtain a b where "match_part_field f = Some (a, b)"
    by (auto simp: is_part_field_def)
  from match_part_field_Some [OF this] plain_number [of 1 a] plain_number [of 1 b] show ?thesis
    by (auto simp: plain_field_def PART_FIELD_SEPARATOR_def)
qed

lemma plain_received_set: "is_received_set_field f \<Longrightarrow> plain_field 10 f"
  by (auto simp: plain_field_def is_received_set_field_def MAXIMUM_PART_COUNT_def list_all_iff)

lemma plain_receipt_level: "is_receipt_level_field f \<Longrightarrow> plain_field 1 f"
  by (auto simp: plain_field_def is_receipt_level_field_def str_def)

lemma plain_existence: "is_existence_field f \<Longrightarrow> plain_field 1 f"
  by (auto simp: plain_field_def is_existence_field_def str_def)

lemma plain_message_count: "is_message_count_field f \<Longrightarrow> plain_field 4 f"
  using plain_number [of 3 f]
  by (auto simp: is_message_count_field_def str_def plain_field_def)

lemma plain_refresh_target: "is_refresh_target_field f \<Longrightarrow> plain_field 16 f"
  using plain_username [of f]
  by (auto simp: is_refresh_target_field_def protocol_constants plain_field_def)

lemma plain_error_code: "is_error_code_field f \<Longrightarrow> plain_field 16 f"
  by (auto simp: plain_field_def is_error_code_field_def char_class_defs protocol_constants list_all_iff)

lemma plain_request_type: "is_request_type_field f \<Longrightarrow> plain_field 1 f"
  by (auto simp: plain_field_def is_request_type_field_def char_class_defs split: list.splits)

lemma plain_version_number: "is_version_number_field f \<Longrightarrow> plain_field 3 f"
  by (auto simp: plain_field_def is_version_number_field_def char_class_defs protocol_constants list_all_iff)

lemmas plain_fields =
  plain_username plain_message_id plain_part_field plain_received_set plain_receipt_level
  plain_existence plain_message_count plain_refresh_target plain_error_code plain_request_type
  plain_version_number

text \<open>A number field and its value determine each other.\<close>

lemma is_number_text_str_of_int:
  assumes "1 \<le> i" "i < 10 ^ Suc n"
  shows "is_number_text n (str_of_int i)"
proof -
  have i: "str_of_int i = digits_of_nat (nat i)" "0 < nat i"
    using assms by (auto simp: str_of_int_def)
  have "nat i < 10 ^ Suc n"
    using assms by (simp add: nat_less_iff)
  then have len: "length (digits_of_nat (nat i)) \<le> Suc n"
    by (intro length_digits_of_nat_le) auto
  show ?thesis
  proof (cases "digits_of_nat (nat i)")
    case (Cons c cs)
    then have "is_digit c" "\<forall>d \<in> set cs. is_digit d" "c \<noteq> 48"
      using digits_of_nat_digits [of _ "nat i"] digits_of_nat_hd [OF i(2)] by auto
    then show ?thesis
      using Cons len i by (auto simp: is_number_text_def char_class_defs list_all_iff)
  qed simp
qed

lemma str_of_int_of_digits: "is_number_text n f \<Longrightarrow> str_of_int (int_of_digits f) = f"
  using is_number_text_digits [of n f] digits_of_nat_of_digits [of f]
  by (simp add: str_of_int_def int_of_digits_def)

lemma int_of_digits_bounds:
  assumes "is_number_text n f"
  shows "1 \<le> int_of_digits f" "int_of_digits f < 10 ^ Suc n"
proof -
  note f = is_number_text_digits [OF assms]
  show "1 \<le> int_of_digits f"
    using nat_of_digits_pos [OF f(1-3)] by (simp add: int_of_digits_def)
  have "nat_of_digits f < 10 ^ length f" using nat_of_digits_bound f(3) by blast
  also have "(10::nat) ^ length f \<le> 10 ^ Suc n" using f(4) by (intro power_increasing) auto
  finally have "int (nat_of_digits f) < int (10 ^ Suc n)"
    by (simp only: of_nat_less_iff)
  then show "int_of_digits f < 10 ^ Suc n"
    by (simp add: int_of_digits_def)
qed

end
