(* ===== verification/Message_Types.thy ===== *)
theory Message_Types
  imports Field_Grammar
begin

text \<open>
  One value per HT1 message type and the other outcomes of parsing (\<^verbatim>\<open>protocol/message_types.py\<close>),
  with the type letters, receipt levels and error codes of \<^verbatim>\<open>protocol/constants.py\<close>.
  The Python union types are datatypes: \<open>client_message\<close>, \<open>server_message\<close> and
  \<open>parsed_direct_message\<close>. A string enumeration is a datatype with its value.
\<close>

datatype client_message_type =
    ACCOUNT_REQUEST | QUERY_REQUEST | MESSAGE_PART_REQUEST | DELIVERY_ACKNOWLEDGEMENT
  | READ_REQUEST | RECEIPT_ACKNOWLEDGEMENT | REFRESH_REQUEST

fun client_type_letter :: "client_message_type \<Rightarrow> pystr" where
  "client_type_letter ACCOUNT_REQUEST = str ''A''"
| "client_type_letter QUERY_REQUEST = str ''Q''"
| "client_type_letter MESSAGE_PART_REQUEST = str ''M''"
| "client_type_letter DELIVERY_ACKNOWLEDGEMENT = str ''K''"
| "client_type_letter READ_REQUEST = str ''R''"
| "client_type_letter RECEIPT_ACKNOWLEDGEMENT = str ''C''"
| "client_type_letter REFRESH_REQUEST = str ''F''"

datatype server_message_type =
    ACCOUNT_REPLY | QUERY_REPLY | SEND_STATUS_REPLY | DELIVERY_PART
  | READ_REPLY | RECEIPT_PUSH | REFRESH_REPLY | ERROR_REPLY

fun server_type_letter :: "server_message_type \<Rightarrow> pystr" where
  "server_type_letter ACCOUNT_REPLY = str ''a''"
| "server_type_letter QUERY_REPLY = str ''q''"
| "server_type_letter SEND_STATUS_REPLY = str ''k''"
| "server_type_letter DELIVERY_PART = str ''m''"
| "server_type_letter READ_REPLY = str ''r''"
| "server_type_letter RECEIPT_PUSH = str ''s''"
| "server_type_letter REFRESH_REPLY = str ''f''"
| "server_type_letter ERROR_REPLY = str ''e''"

definition REQUEST_TYPES :: "pystr list" where
  "REQUEST_TYPES = map client_type_letter
     [ACCOUNT_REQUEST, QUERY_REQUEST, MESSAGE_PART_REQUEST, READ_REQUEST, REFRESH_REQUEST]"

definition ACKNOWLEDGEMENT_TYPES :: "pystr list" where
  "ACKNOWLEDGEMENT_TYPES = map client_type_letter [DELIVERY_ACKNOWLEDGEMENT, RECEIPT_ACKNOWLEDGEMENT]"

datatype receipt_level = LEVEL_DELIVERED | LEVEL_READ

fun receipt_level_text :: "receipt_level \<Rightarrow> pystr" where
  "receipt_level_text LEVEL_DELIVERED = str ''D''"
| "receipt_level_text LEVEL_READ = str ''R''"

text \<open>\<^verbatim>\<open>ReceiptLevel(text)\<close> raises for any other text.\<close>

definition receipt_level_of_text :: "pystr \<Rightarrow> receipt_level res" where
  "receipt_level_of_text t =
     (if t = str ''D'' then Inr LEVEL_DELIVERED else if t = str ''R'' then Inr LEVEL_READ else Inl ValueError)"

fun RECEIPT_LEVEL_NUMBERS :: "receipt_level \<Rightarrow> int" where
  "RECEIPT_LEVEL_NUMBERS LEVEL_DELIVERED = 1"
| "RECEIPT_LEVEL_NUMBERS LEVEL_READ = 2"

definition RECEIPT_LEVELS_BY_NUMBER :: "int \<Rightarrow> receipt_level res" where
  "RECEIPT_LEVELS_BY_NUMBER n =
     (if n = 1 then Inr LEVEL_DELIVERED else if n = 2 then Inr LEVEL_READ else Inl KeyError)"

datatype error_code =
    SYNTAX | VERSION | UNSUPPORTED | NOT_SIGNED_IN | PASSWORD_INVALID | WRONG_PASSWORD
  | RATE_LIMITED | NO_SUCH_USER | SELF | ID_CONFLICT | PART_INVALID | NOT_FOUND

fun error_code_text :: "error_code \<Rightarrow> pystr" where
  "error_code_text SYNTAX = str ''SYNTAX''"
| "error_code_text VERSION = str ''VERSION''"
| "error_code_text UNSUPPORTED = str ''UNSUPPORTED''"
| "error_code_text NOT_SIGNED_IN = str ''NOT_SIGNED_IN''"
| "error_code_text PASSWORD_INVALID = str ''PASSWORD_INVALID''"
| "error_code_text WRONG_PASSWORD = str ''WRONG_PASSWORD''"
| "error_code_text RATE_LIMITED = str ''RATE_LIMITED''"
| "error_code_text NO_SUCH_USER = str ''NO_SUCH_USER''"
| "error_code_text SELF = str ''SELF''"
| "error_code_text ID_CONFLICT = str ''ID_CONFLICT''"
| "error_code_text PART_INVALID = str ''PART_INVALID''"
| "error_code_text NOT_FOUND = str ''NOT_FOUND''"

definition all_error_codes :: "error_code list" where
  "all_error_codes =
     [SYNTAX, VERSION, UNSUPPORTED, NOT_SIGNED_IN, PASSWORD_INVALID, WRONG_PASSWORD,
      RATE_LIMITED, NO_SUCH_USER, SELF, ID_CONFLICT, PART_INVALID, NOT_FOUND]"

text \<open>The code of an error reply: one this version knows, or a plain string from a newer server.\<close>

datatype reply_code = KnownCode error_code | OtherCode pystr

fun reply_code_text :: "reply_code \<Rightarrow> pystr" where
  "reply_code_text (KnownCode error_code) = error_code_text error_code"
| "reply_code_text (OtherCode text) = text"

section \<open>Messages\<close>

text \<open>Constructor arguments follow the order of the dataclass fields.\<close>

datatype client_message =
    AccountRequest pystr pystr
  | QueryRequest pystr
  | MessagePartRequest pystr int int int pystr
  | DeliveryAcknowledgement pystr int pystr
  | ReadRequest pystr int
  | ReceiptAcknowledgement pystr int receipt_level
  | RefreshRequest pystr

datatype server_message =
    AccountReply pystr
  | QueryReply pystr bool
  | SendStatusReply pystr int pystr
  | DeliveryPart pystr int int int pystr
  | ReadReply pystr int
  | ReceiptPush pystr int receipt_level
  | RefreshReply pystr int
  | ErrorReply reply_code pystr "pystr option"

datatype parsed_direct_message =
    ClientMessage client_message
  | ServerMessage server_message
  | OtherText pystr
  | UnsupportedVersion pystr pystr
  | UnknownMessageType pystr
  | ProtocolSyntaxError pystr "pystr list"

fun message_type :: "client_message \<Rightarrow> client_message_type" where
  "message_type (AccountRequest username password) = ACCOUNT_REQUEST"
| "message_type (QueryRequest username) = QUERY_REQUEST"
| "message_type (MessagePartRequest recipient_username message_id part_number part_count part_text) =
     MESSAGE_PART_REQUEST"
| "message_type (DeliveryAcknowledgement sender_username message_id received_set) = DELIVERY_ACKNOWLEDGEMENT"
| "message_type (ReadRequest sender_username message_id) = READ_REQUEST"
| "message_type (ReceiptAcknowledgement recipient_username message_id receipt_level) = RECEIPT_ACKNOWLEDGEMENT"
| "message_type (RefreshRequest refresh_target) = REFRESH_REQUEST"

definition is_for_all_peers :: "pystr \<Rightarrow> bool" where
  "is_for_all_peers refresh_target \<longleftrightarrow> refresh_target = REFRESH_ALL_PEERS_TARGET"

text \<open>\<^verbatim>\<open>AnswerableRequest\<close>: the client messages that are answered.\<close>

fun is_answerable_request :: "client_message \<Rightarrow> bool" where
  "is_answerable_request (DeliveryAcknowledgement _ _ _) = False"
| "is_answerable_request (ReceiptAcknowledgement _ _ _) = False"
| "is_answerable_request _ = True"

lemma error_code_text_inject [simp]: "error_code_text a = error_code_text b \<longleftrightarrow> a = b"
  by (cases a; cases b) (simp_all add: str_def)

lemma set_all_error_codes [simp]: "set all_error_codes = UNIV"
proof -
  have "e \<in> set all_error_codes" for e
    by (cases e) (simp_all add: all_error_codes_def)
  then show ?thesis by blast
qed

lemma is_error_code_field_text [simp]: "is_error_code_field (error_code_text e)"
  by (cases e) (simp_all add: is_error_code_field_def str_def ERROR_CODE_MAXIMUM_LENGTH_def char_class_defs)

lemma receipt_level_of_text_text [simp]: "receipt_level_of_text (receipt_level_text l) = Inr l"
  by (cases l) (simp_all add: receipt_level_of_text_def str_def)

lemma is_receipt_level_field_text [simp]: "is_receipt_level_field (receipt_level_text l)"
  by (cases l) (simp_all add: is_receipt_level_field_def)

lemma receipt_level_of_text_Inr: "receipt_level_of_text t = Inr l \<Longrightarrow> receipt_level_text l = t"
  by (auto simp: receipt_level_of_text_def split: if_splits)

end
