(* ===== verification/Parsing.thy ===== *)
theory Parsing
  imports Message_Types
begin

text \<open>
  Parsing a received direct message text (\<^verbatim>\<open>protocol/parsing.py\<close>): the traffic prefix, the type
  letter, and the fields of the letter's layout. \<open>check_header_fields\<close> is the loop over the header
  fields; it returns the correlation fields collected so far and whether every field matched.
  The functions \<^verbatim>\<open>build_\<dots>\<close> unpack the field values, which raises when their number is wrong;
  \<open>parse_total\<close> shows that no text makes the parser raise.
\<close>

record header_field =
  matches_grammar :: "pystr \<Rightarrow> bool"
  is_correlation_field :: bool

definition USERNAME_FIELD :: header_field where
  "USERNAME_FIELD = \<lparr>matches_grammar = is_valid_username, is_correlation_field = True\<rparr>"

definition MESSAGE_ID_FIELD :: header_field where
  "MESSAGE_ID_FIELD = \<lparr>matches_grammar = is_message_id_field, is_correlation_field = True\<rparr>"

definition REFRESH_TARGET_FIELD :: header_field where
  "REFRESH_TARGET_FIELD = \<lparr>matches_grammar = is_refresh_target_field, is_correlation_field = True\<rparr>"

definition PART_FIELD :: header_field where
  "PART_FIELD = \<lparr>matches_grammar = is_part_field, is_correlation_field = False\<rparr>"

definition RECEIVED_SET_FIELD :: header_field where
  "RECEIVED_SET_FIELD = \<lparr>matches_grammar = is_received_set_field, is_correlation_field = False\<rparr>"

definition RECEIPT_LEVEL_FIELD :: header_field where
  "RECEIPT_LEVEL_FIELD = \<lparr>matches_grammar = is_receipt_level_field, is_correlation_field = False\<rparr>"

definition EXISTENCE_FIELD :: header_field where
  "EXISTENCE_FIELD = \<lparr>matches_grammar = is_existence_field, is_correlation_field = False\<rparr>"

definition MESSAGE_COUNT_FIELD :: header_field where
  "MESSAGE_COUNT_FIELD = \<lparr>matches_grammar = is_message_count_field, is_correlation_field = False\<rparr>"

lemmas header_field_defs =
  USERNAME_FIELD_def MESSAGE_ID_FIELD_def REFRESH_TARGET_FIELD_def PART_FIELD_def
  RECEIVED_SET_FIELD_def RECEIPT_LEVEL_FIELD_def EXISTENCE_FIELD_def MESSAGE_COUNT_FIELD_def

record message_layout =
  header_fields :: "header_field list"
  has_tail :: bool
  build_message :: "pystr list \<Rightarrow> parsed_direct_message res"

section \<open>Building a message from field values that matched the grammar\<close>

definition build_account_request :: "pystr list \<Rightarrow> parsed_direct_message res" where
  "build_account_request field_values =
     (case field_values of
        [username, password] \<Rightarrow> Inr (ClientMessage (AccountRequest username password))
      | _ \<Rightarrow> Inl ValueError)"

definition build_query_request :: "pystr list \<Rightarrow> parsed_direct_message res" where
  "build_query_request field_values =
     (case field_values of
        [username] \<Rightarrow> Inr (ClientMessage (QueryRequest username))
      | _ \<Rightarrow> Inl ValueError)"

definition build_message_part_request :: "pystr list \<Rightarrow> parsed_direct_message res" where
  "build_message_part_request field_values =
     (case field_values of
        [recipient_username, message_id, part_field, part_text] \<Rightarrow>
          res_bind (read_part_field part_field) (\<lambda>(part_number, part_count).
            Inr (ClientMessage (MessagePartRequest recipient_username (int_of_digits message_id)
                                  part_number part_count part_text)))
      | _ \<Rightarrow> Inl ValueError)"

definition build_delivery_acknowledgement :: "pystr list \<Rightarrow> parsed_direct_message res" where
  "build_delivery_acknowledgement field_values =
     (case field_values of
        [sender_username, message_id, received_set] \<Rightarrow>
          Inr (ClientMessage (DeliveryAcknowledgement sender_username (int_of_digits message_id) received_set))
      | _ \<Rightarrow> Inl ValueError)"

definition build_read_request :: "pystr list \<Rightarrow> parsed_direct_message res" where
  "build_read_request field_values =
     (case field_values of
        [sender_username, message_id] \<Rightarrow>
          Inr (ClientMessage (ReadRequest sender_username (int_of_digits message_id)))
      | _ \<Rightarrow> Inl ValueError)"

definition build_receipt_acknowledgement :: "pystr list \<Rightarrow> parsed_direct_message res" where
  "build_receipt_acknowledgement field_values =
     (case field_values of
        [recipient_username, message_id, receipt_level] \<Rightarrow>
          res_bind (receipt_level_of_text receipt_level) (\<lambda>level.
            Inr (ClientMessage (ReceiptAcknowledgement recipient_username (int_of_digits message_id) level)))
      | _ \<Rightarrow> Inl ValueError)"

definition build_refresh_request :: "pystr list \<Rightarrow> parsed_direct_message res" where
  "build_refresh_request field_values =
     (case field_values of
        [refresh_target] \<Rightarrow> Inr (ClientMessage (RefreshRequest refresh_target))
      | _ \<Rightarrow> Inl ValueError)"

definition build_account_reply :: "pystr list \<Rightarrow> parsed_direct_message res" where
  "build_account_reply field_values =
     (case field_values of
        [username] \<Rightarrow> Inr (ServerMessage (AccountReply username))
      | _ \<Rightarrow> Inl ValueError)"

definition build_query_reply :: "pystr list \<Rightarrow> parsed_direct_message res" where
  "build_query_reply field_values =
     (case field_values of
        [username, existence] \<Rightarrow> Inr (ServerMessage (QueryReply username (existence = USER_EXISTS)))
      | _ \<Rightarrow> Inl ValueError)"

definition build_send_status_reply :: "pystr list \<Rightarrow> parsed_direct_message res" where
  "build_send_status_reply field_values =
     (case field_values of
        [recipient_username, message_id, received_set] \<Rightarrow>
          Inr (ServerMessage (SendStatusReply recipient_username (int_of_digits message_id) received_set))
      | _ \<Rightarrow> Inl ValueError)"

definition build_delivery_part :: "pystr list \<Rightarrow> parsed_direct_message res" where
  "build_delivery_part field_values =
     (case field_values of
        [sender_username, message_id, part_field, part_text] \<Rightarrow>
          res_bind (read_part_field part_field) (\<lambda>(part_number, part_count).
            Inr (ServerMessage (DeliveryPart sender_username (int_of_digits message_id)
                                  part_number part_count part_text)))
      | _ \<Rightarrow> Inl ValueError)"

definition build_read_reply :: "pystr list \<Rightarrow> parsed_direct_message res" where
  "build_read_reply field_values =
     (case field_values of
        [sender_username, message_id] \<Rightarrow>
          Inr (ServerMessage (ReadReply sender_username (int_of_digits message_id)))
      | _ \<Rightarrow> Inl ValueError)"

definition build_receipt_push :: "pystr list \<Rightarrow> parsed_direct_message res" where
  "build_receipt_push field_values =
     (case field_values of
        [recipient_username, message_id, receipt_level] \<Rightarrow>
          res_bind (receipt_level_of_text receipt_level) (\<lambda>level.
            Inr (ServerMessage (ReceiptPush recipient_username (int_of_digits message_id) level)))
      | _ \<Rightarrow> Inl ValueError)"

definition build_refresh_reply :: "pystr list \<Rightarrow> parsed_direct_message res" where
  "build_refresh_reply field_values =
     (case field_values of
        [refresh_target, message_count] \<Rightarrow>
          Inr (ServerMessage (RefreshReply refresh_target (int_of_digits message_count)))
      | _ \<Rightarrow> Inl ValueError)"

lemmas build_message_defs =
  build_account_request_def build_query_request_def build_message_part_request_def
  build_delivery_acknowledgement_def build_read_request_def build_receipt_acknowledgement_def
  build_refresh_request_def build_account_reply_def build_query_reply_def build_send_status_reply_def
  build_delivery_part_def build_read_reply_def build_receipt_push_def build_refresh_reply_def

definition MESSAGE_LAYOUTS_BY_TYPE_LETTER :: "(pystr \<times> message_layout) list" where
  "MESSAGE_LAYOUTS_BY_TYPE_LETTER =
     [(client_type_letter ACCOUNT_REQUEST,
        \<lparr>header_fields = [USERNAME_FIELD], has_tail = True, build_message = build_account_request\<rparr>),
      (client_type_letter QUERY_REQUEST,
        \<lparr>header_fields = [USERNAME_FIELD], has_tail = False, build_message = build_query_request\<rparr>),
      (client_type_letter MESSAGE_PART_REQUEST,
        \<lparr>header_fields = [USERNAME_FIELD, MESSAGE_ID_FIELD, PART_FIELD], has_tail = True,
         build_message = build_message_part_request\<rparr>),
      (client_type_letter DELIVERY_ACKNOWLEDGEMENT,
        \<lparr>header_fields = [USERNAME_FIELD, MESSAGE_ID_FIELD, RECEIVED_SET_FIELD], has_tail = False,
         build_message = build_delivery_acknowledgement\<rparr>),
      (client_type_letter READ_REQUEST,
        \<lparr>header_fields = [USERNAME_FIELD, MESSAGE_ID_FIELD], has_tail = False,
         build_message = build_read_request\<rparr>),
      (client_type_letter RECEIPT_ACKNOWLEDGEMENT,
        \<lparr>header_fields = [USERNAME_FIELD, MESSAGE_ID_FIELD, RECEIPT_LEVEL_FIELD], has_tail = False,
         build_message = build_receipt_acknowledgement\<rparr>),
      (client_type_letter REFRESH_REQUEST,
        \<lparr>header_fields = [REFRESH_TARGET_FIELD], has_tail = False, build_message = build_refresh_request\<rparr>),
      (server_type_letter ACCOUNT_REPLY,
        \<lparr>header_fields = [USERNAME_FIELD], has_tail = False, build_message = build_account_reply\<rparr>),
      (server_type_letter QUERY_REPLY,
        \<lparr>header_fields = [USERNAME_FIELD, EXISTENCE_FIELD], has_tail = False,
         build_message = build_query_reply\<rparr>),
      (server_type_letter SEND_STATUS_REPLY,
        \<lparr>header_fields = [USERNAME_FIELD, MESSAGE_ID_FIELD, RECEIVED_SET_FIELD], has_tail = False,
         build_message = build_send_status_reply\<rparr>),
      (server_type_letter DELIVERY_PART,
        \<lparr>header_fields = [USERNAME_FIELD, MESSAGE_ID_FIELD, PART_FIELD], has_tail = True,
         build_message = build_delivery_part\<rparr>),
      (server_type_letter READ_REPLY,
        \<lparr>header_fields = [USERNAME_FIELD, MESSAGE_ID_FIELD], has_tail = False,
         build_message = build_read_reply\<rparr>),
      (server_type_letter RECEIPT_PUSH,
        \<lparr>header_fields = [USERNAME_FIELD, MESSAGE_ID_FIELD, RECEIPT_LEVEL_FIELD], has_tail = False,
         build_message = build_receipt_push\<rparr>),
      (server_type_letter REFRESH_REPLY,
        \<lparr>header_fields = [REFRESH_TARGET_FIELD, MESSAGE_COUNT_FIELD], has_tail = False,
         build_message = build_refresh_reply\<rparr>)]"

section \<open>The parser\<close>

text \<open>The match of \<^verbatim>\<open>^HT([0-9]{1,3}) \<close>: the version digits and the text after the space.\<close>

definition match_protocol_traffic :: "pystr \<Rightarrow> (pystr \<times> pystr) option" where
  "match_protocol_traffic text =
     (if prefix PROTOCOL_MAGIC text then
        let after_magic = drop (length PROTOCOL_MAGIC) text;
            version = takeWhile is_digit after_magic
        in if 1 \<le> length version \<and> length version \<le> VERSION_NUMBER_MAXIMUM_DIGITS then
             (case drop (length version) after_magic of
                c # message_body \<Rightarrow> if c = space then Some (version, message_body) else None
              | [] \<Rightarrow> None)
           else None
      else None)"

fun check_header_fields :: "header_field list \<Rightarrow> pystr list \<Rightarrow> pystr list \<Rightarrow> bool \<times> pystr list" where
  "check_header_fields (header # headers) (field_value # field_values) correlation_fields =
     (if \<not> matches_grammar header field_value then (False, correlation_fields)
      else check_header_fields headers field_values
             (if is_correlation_field header then correlation_fields @ [field_value]
              else correlation_fields))"
| "check_header_fields _ _ correlation_fields = (True, correlation_fields)"

definition parse_fields_by_layout :: "pystr \<Rightarrow> pystr \<Rightarrow> message_layout \<Rightarrow> parsed_direct_message res" where
  "parse_fields_by_layout message_type_letter fields_text layout =
     (let header_field_count = length (header_fields layout);
          field_values = (if has_tail layout
                          then split_max FIELD_SEPARATOR header_field_count fields_text
                          else split FIELD_SEPARATOR fields_text);
          expected_field_count = (if has_tail layout then header_field_count + 1 else header_field_count);
          (fields_match, correlation_fields) = check_header_fields (header_fields layout) field_values []
      in if \<not> fields_match then Inr (ProtocolSyntaxError message_type_letter correlation_fields)
         else if length field_values \<noteq> expected_field_count
           then Inr (ProtocolSyntaxError message_type_letter correlation_fields)
         else if has_tail layout \<and> \<not> is_tail_field (last field_values)
           then Inr (ProtocolSyntaxError message_type_letter correlation_fields)
         else build_message layout field_values)"

definition ERROR_REPLY_FIXED_FIELD_COUNT :: nat where
  "ERROR_REPLY_FIXED_FIELD_COUNT = 2"

definition ERROR_REFERENCE_MAXIMUM_FIELD_COUNT :: nat where
  "ERROR_REFERENCE_MAXIMUM_FIELD_COUNT = 2"

definition read_error_code :: "pystr \<Rightarrow> reply_code" where
  "read_error_code error_code =
     (case find (\<lambda>e. error_code_text e = error_code) all_error_codes of
        Some e \<Rightarrow> KnownCode e
      | None \<Rightarrow> OtherCode error_code)"

definition parse_error_reply_fields :: "pystr \<Rightarrow> parsed_direct_message" where
  "parse_error_reply_fields fields_text =
     (let field_values = split FIELD_SEPARATOR fields_text;
          syntax_error = ProtocolSyntaxError (server_type_letter ERROR_REPLY) [];
          maximum_field_count = ERROR_REPLY_FIXED_FIELD_COUNT + ERROR_REFERENCE_MAXIMUM_FIELD_COUNT
      in if \<not> (ERROR_REPLY_FIXED_FIELD_COUNT \<le> length field_values \<and>
               length field_values \<le> maximum_field_count) then syntax_error
         else case field_values of
           error_code # request_type # reference_fields \<Rightarrow>
             (if \<not> is_error_code_field error_code \<or> \<not> is_request_type_field request_type then syntax_error
              else let error_reference = (if reference_fields \<noteq> []
                                          then Some (join FIELD_SEPARATOR reference_fields) else None)
                   in if (case error_reference of None \<Rightarrow> False | Some r \<Rightarrow> \<not> is_error_reference_field r)
                      then syntax_error
                      else ServerMessage (ErrorReply (read_error_code error_code) request_type error_reference))
         | _ \<Rightarrow> syntax_error)"

definition parse_version_one_message_body :: "pystr \<Rightarrow> parsed_direct_message res" where
  "parse_version_one_message_body message_body =
     (let message_type_letter = take 1 message_body
      in if \<not> (case message_type_letter of [c] \<Rightarrow> is_upper c \<or> is_lower c | _ \<Rightarrow> False)
           then Inr (ProtocolSyntaxError UNKNOWN_REQUEST_TYPE [])
         else
           let is_error_reply = (message_type_letter = server_type_letter ERROR_REPLY);
               layout = map_of MESSAGE_LAYOUTS_BY_TYPE_LETTER message_type_letter
           in if \<not> is_error_reply \<and> layout = None then Inr (UnknownMessageType message_type_letter)
              else if take 2 message_body \<noteq> message_type_letter @ [FIELD_SEPARATOR]
                then Inr (ProtocolSyntaxError message_type_letter [])
              else let fields_text = drop 2 message_body
                in if is_error_reply then Inr (parse_error_reply_fields fields_text)
                   else (case layout of
                           None \<Rightarrow> Inl KeyError
                         | Some l \<Rightarrow> parse_fields_by_layout message_type_letter fields_text l))"

definition parse_direct_message_text :: "pystr \<Rightarrow> parsed_direct_message res" where
  "parse_direct_message_text direct_message_text =
     (case match_protocol_traffic direct_message_text of
        None \<Rightarrow> Inr (OtherText direct_message_text)
      | Some (version, message_body) \<Rightarrow>
          if version \<noteq> PROTOCOL_VERSION then Inr (UnsupportedVersion version (take 1 message_body))
          else parse_version_one_message_body message_body)"


section \<open>What the parser accepts\<close>

lemma check_header_fields_matches:
  assumes "check_header_fields hs fs cs = (True, cs')" and "length hs \<le> length fs"
  shows "list_all2 (\<lambda>h f. matches_grammar h f) hs (take (length hs) fs)"
  using assms
  by (induction hs fs cs arbitrary: cs' rule: check_header_fields.induct) (auto split: if_splits)

text \<open>
  The fields of a layout are the whole text after the letter: either the text is a syntax error, or it
  is the join of as many fields as the layout has, each of the shape the layout asks for.
\<close>

lemma parse_fields_by_layout_cases:
  fixes l :: message_layout
  obtains (malformed) cs b where "check_header_fields (header_fields l)
        (if has_tail l then split_max FIELD_SEPARATOR (length (header_fields l)) body
         else split FIELD_SEPARATOR body) [] = (b, cs)"
      and "parse_fields_by_layout letter body l = Inr (ProtocolSyntaxError letter cs)"
  | (built) fs where "parse_fields_by_layout letter body l = build_message l fs"
      and "join FIELD_SEPARATOR fs = body"
      and "list_all2 (\<lambda>h f. matches_grammar h f) (header_fields l) (take (length (header_fields l)) fs)"
      and "length fs = length (header_fields l) + (if has_tail l then 1 else 0)"
      and "has_tail l \<Longrightarrow> is_tail_field (last fs)"
proof -
  let ?fs = "if has_tail l then split_max FIELD_SEPARATOR (length (header_fields l)) body
             else split FIELD_SEPARATOR body"
  obtain b cs where check: "check_header_fields (header_fields l) ?fs [] = (b, cs)"
    by fastforce
  show thesis
  proof (cases "b \<and> length ?fs = length (header_fields l) + (if has_tail l then 1 else 0) \<and>
                (has_tail l \<longrightarrow> is_tail_field (last ?fs))")
    case True
    moreover have "list_all2 (\<lambda>h f. matches_grammar h f) (header_fields l) (take (length (header_fields l)) ?fs)"
      using True check by (intro check_header_fields_matches [where cs = "[]" and cs' = cs]) auto
    moreover have "join FIELD_SEPARATOR ?fs = body" by simp
    ultimately show thesis
      using check by (intro built [of ?fs]) (auto simp: parse_fields_by_layout_def split: if_splits)
  next
    case False
    then show thesis
      using check by (intro malformed [OF check]) (auto simp: parse_fields_by_layout_def Let_def)
  qed
qed

lemma receipt_level_of_field: "is_receipt_level_field f \<Longrightarrow> \<exists>r. receipt_level_of_text f = Inr r"
  by (auto simp: is_receipt_level_field_def receipt_level_of_text_def str_def)

lemma read_part_of_field: "is_part_field f \<Longrightarrow> \<exists>n c. read_part_field f = Inr (n, c)"
  by (auto simp: is_part_field_def read_part_field_def split: option.splits)

lemmas layout_fields =
  header_field_defs build_message_defs length_Suc_conv

lemma layout_builds:
  assumes "map_of MESSAGE_LAYOUTS_BY_TYPE_LETTER letter = Some l"
    and "list_all2 (\<lambda>h f. matches_grammar h f) (header_fields l) (take (length (header_fields l)) fs)"
    and "length fs = length (header_fields l) + (if has_tail l then 1 else 0)"
  shows "\<exists>m. build_message l fs = Inr m"
  using assms
  by (auto simp: MESSAGE_LAYOUTS_BY_TYPE_LETTER_def layout_fields
      dest!: receipt_level_of_field read_part_of_field split: if_splits)

lemma parse_fields_total:
  assumes "map_of MESSAGE_LAYOUTS_BY_TYPE_LETTER letter = Some l"
  shows "\<exists>m. parse_fields_by_layout letter' body l = Inr m"
  by (rule parse_fields_by_layout_cases [where l = l and body = body and letter = letter'])
    (use layout_builds [OF assms] in auto)

lemma parse_total: "\<exists>m. parse_direct_message_text t = Inr m"
  using parse_fields_total
  by (auto simp: parse_direct_message_text_def parse_version_one_message_body_def Let_def
      split: option.splits)

end
