(* ===== verification/Formatting.thy ===== *)
theory Formatting
  imports Parsing
begin

text \<open>
  Building the text of every direct message (\<^verbatim>\<open>protocol/formatting.py\<close>). Every formatter checks its
  fields and the finished text, and raises \<^verbatim>\<open>InvalidDirectMessageTextError\<close> otherwise.
  The lemmas show the two halves of the wire contract: whatever a formatter returns fits the node's
  limits, and the parser reads it back; conversely a text the parser accepts is the one the formatter
  would write. The locale \<open>wire_field\<close> is the interface between a field's converter and the
  parser's view of it, interpreted for every field of the grammar.
\<close>

section \<open>Fields and the finished text\<close>

definition convert_username_to_field :: "pystr \<Rightarrow> pystr res" where
  "convert_username_to_field username =
     (if \<not> is_valid_username username then Inl InvalidDirectMessageTextError else Inr username)"

definition convert_message_id_to_field :: "int \<Rightarrow> pystr res" where
  "convert_message_id_to_field message_id =
     (if \<not> (MESSAGE_ID_MINIMUM \<le> message_id \<and> message_id \<le> MESSAGE_ID_MAXIMUM)
      then Inl InvalidDirectMessageTextError else Inr (str_of_int message_id))"

definition convert_part_numbering_to_field :: "int \<Rightarrow> int \<Rightarrow> pystr res" where
  "convert_part_numbering_to_field part_number part_count =
     (if \<not> is_valid_part_numbering part_number part_count then Inl InvalidDirectMessageTextError
      else Inr (str_of_int part_number @ PART_FIELD_SEPARATOR # str_of_int part_count))"

definition convert_part_text_to_field :: "pystr \<Rightarrow> pystr res" where
  "convert_part_text_to_field part_text =
     res_bind (is_valid_part_text part_text) (\<lambda>valid.
       if \<not> valid then Inl InvalidDirectMessageTextError else Inr part_text)"

definition convert_received_set_to_field :: "pystr \<Rightarrow> pystr res" where
  "convert_received_set_to_field received_set =
     (if \<not> is_received_set_field received_set then Inl InvalidDirectMessageTextError else Inr received_set)"

definition convert_receipt_level_to_field :: "receipt_level \<Rightarrow> pystr res" where
  "convert_receipt_level_to_field receipt_level =
     (let receipt_level_field = receipt_level_text receipt_level
      in if \<not> is_receipt_level_field receipt_level_field then Inl InvalidDirectMessageTextError
         else Inr receipt_level_field)"

definition convert_refresh_target_to_field :: "pystr \<Rightarrow> pystr res" where
  "convert_refresh_target_to_field refresh_target =
     (if \<not> is_refresh_target_field refresh_target then Inl InvalidDirectMessageTextError
      else Inr refresh_target)"

definition ensure_direct_message_text_is_sendable :: "pystr \<Rightarrow> unit res" where
  "ensure_direct_message_text_is_sendable direct_message_text =
     (if \<not> prefix PROTOCOL_PREFIX direct_message_text then Inl InvalidDirectMessageTextError
      else if NUL_CHARACTER \<in> set direct_message_text then Inl InvalidDirectMessageTextError
      else if contains_surrogate direct_message_text then Inl InvalidDirectMessageTextError
      else res_bind (count_utf8_bytes direct_message_text) (\<lambda>direct_message_bytes.
        if direct_message_bytes > DIRECT_MESSAGE_MAXIMUM_BYTES then Inl InvalidDirectMessageTextError
        else Inr ()))"

definition build_direct_message_text :: "pystr \<Rightarrow> pystr list \<Rightarrow> pystr res" where
  "build_direct_message_text message_type_letter wire_fields =
     (let direct_message_text = PROTOCOL_PREFIX @ join FIELD_SEPARATOR (message_type_letter # wire_fields)
      in res_bind (ensure_direct_message_text_is_sendable direct_message_text)
           (\<lambda>_. Inr direct_message_text))"

section \<open>Server to client\<close>

definition format_account_reply :: "pystr \<Rightarrow> pystr res" where
  "format_account_reply username =
     res_bind (convert_username_to_field username) (\<lambda>username_field.
       build_direct_message_text (server_type_letter ACCOUNT_REPLY) [username_field])"

definition format_query_reply :: "pystr \<Rightarrow> bool \<Rightarrow> pystr res" where
  "format_query_reply username user_exists =
     (let existence = (if user_exists then USER_EXISTS else USER_DOES_NOT_EXIST)
      in res_bind (convert_username_to_field username) (\<lambda>username_field.
           build_direct_message_text (server_type_letter QUERY_REPLY) [username_field, existence]))"

definition format_send_status_reply :: "pystr \<Rightarrow> int \<Rightarrow> pystr \<Rightarrow> pystr res" where
  "format_send_status_reply recipient_username message_id received_set =
     res_bind (convert_username_to_field recipient_username) (\<lambda>username_field.
     res_bind (convert_message_id_to_field message_id) (\<lambda>message_id_field.
     res_bind (convert_received_set_to_field received_set) (\<lambda>received_set_field.
       build_direct_message_text (server_type_letter SEND_STATUS_REPLY)
         [username_field, message_id_field, received_set_field])))"

definition format_delivery_part :: "pystr \<Rightarrow> int \<Rightarrow> int \<Rightarrow> int \<Rightarrow> pystr \<Rightarrow> pystr res" where
  "format_delivery_part sender_username message_id part_number part_count part_text =
     res_bind (convert_username_to_field sender_username) (\<lambda>username_field.
     res_bind (convert_message_id_to_field message_id) (\<lambda>message_id_field.
     res_bind (convert_part_numbering_to_field part_number part_count) (\<lambda>part_field.
     res_bind (convert_part_text_to_field part_text) (\<lambda>part_text_field.
       build_direct_message_text (server_type_letter DELIVERY_PART)
         [username_field, message_id_field, part_field, part_text_field]))))"

definition format_read_reply :: "pystr \<Rightarrow> int \<Rightarrow> pystr res" where
  "format_read_reply sender_username message_id =
     res_bind (convert_username_to_field sender_username) (\<lambda>username_field.
     res_bind (convert_message_id_to_field message_id) (\<lambda>message_id_field.
       build_direct_message_text (server_type_letter READ_REPLY) [username_field, message_id_field]))"

definition format_receipt_push :: "pystr \<Rightarrow> int \<Rightarrow> receipt_level \<Rightarrow> pystr res" where
  "format_receipt_push recipient_username message_id receipt_level =
     res_bind (convert_username_to_field recipient_username) (\<lambda>username_field.
     res_bind (convert_message_id_to_field message_id) (\<lambda>message_id_field.
     res_bind (convert_receipt_level_to_field receipt_level) (\<lambda>receipt_level_field.
       build_direct_message_text (server_type_letter RECEIPT_PUSH)
         [username_field, message_id_field, receipt_level_field])))"

definition format_refresh_reply :: "pystr \<Rightarrow> int \<Rightarrow> pystr res" where
  "format_refresh_reply refresh_target message_count =
     (if message_count < 0 then Inl InvalidDirectMessageTextError
      else let shown_message_count = min message_count REFRESH_REPLY_MAXIMUM_MESSAGE_COUNT
        in res_bind (convert_refresh_target_to_field refresh_target) (\<lambda>refresh_target_field.
             build_direct_message_text (server_type_letter REFRESH_REPLY)
               [refresh_target_field, str_of_int shown_message_count]))"

definition format_error_reply :: "reply_code \<Rightarrow> pystr \<Rightarrow> pystr option \<Rightarrow> pystr res" where
  "format_error_reply error_code request_type error_reference =
     (if \<not> is_error_code_field (reply_code_text error_code) then Inl InvalidDirectMessageTextError
      else if \<not> is_request_type_field request_type then Inl InvalidDirectMessageTextError
      else let wire_fields = [reply_code_text error_code, request_type]
        in case error_reference of
             None \<Rightarrow> build_direct_message_text (server_type_letter ERROR_REPLY) wire_fields
           | Some reference \<Rightarrow>
               if \<not> is_error_reference_field reference then Inl InvalidDirectMessageTextError
               else build_direct_message_text (server_type_letter ERROR_REPLY) (wire_fields @ [reference]))"

fun format_server_message :: "server_message \<Rightarrow> pystr res" where
  "format_server_message (AccountReply username) = format_account_reply username"
| "format_server_message (QueryReply username user_exists) = format_query_reply username user_exists"
| "format_server_message (SendStatusReply recipient_username message_id received_set) =
     format_send_status_reply recipient_username message_id received_set"
| "format_server_message (DeliveryPart sender_username message_id part_number part_count part_text) =
     format_delivery_part sender_username message_id part_number part_count part_text"
| "format_server_message (ReadReply sender_username message_id) = format_read_reply sender_username message_id"
| "format_server_message (ReceiptPush recipient_username message_id receipt_level) =
     format_receipt_push recipient_username message_id receipt_level"
| "format_server_message (RefreshReply refresh_target message_count) =
     format_refresh_reply refresh_target message_count"
| "format_server_message (ErrorReply error_code request_type error_reference) =
     format_error_reply error_code request_type error_reference"

section \<open>Client to server\<close>

definition format_account_request :: "(pystr \<Rightarrow> pystr) \<Rightarrow> pystr \<Rightarrow> pystr \<Rightarrow> pystr res" where
  "format_account_request nfc username password =
     res_bind (is_valid_password (normalize_password nfc password)) (\<lambda>valid.
       if \<not> valid then Inl InvalidDirectMessageTextError
       else res_bind (convert_username_to_field username) (\<lambda>username_field.
         build_direct_message_text (client_type_letter ACCOUNT_REQUEST) [username_field, password]))"

definition format_query_request :: "pystr \<Rightarrow> pystr res" where
  "format_query_request username =
     res_bind (convert_username_to_field username) (\<lambda>username_field.
       build_direct_message_text (client_type_letter QUERY_REQUEST) [username_field])"

definition format_message_part_request :: "pystr \<Rightarrow> int \<Rightarrow> int \<Rightarrow> int \<Rightarrow> pystr \<Rightarrow> pystr res" where
  "format_message_part_request recipient_username message_id part_number part_count part_text =
     res_bind (convert_username_to_field recipient_username) (\<lambda>username_field.
     res_bind (convert_message_id_to_field message_id) (\<lambda>message_id_field.
     res_bind (convert_part_numbering_to_field part_number part_count) (\<lambda>part_field.
     res_bind (convert_part_text_to_field part_text) (\<lambda>part_text_field.
       build_direct_message_text (client_type_letter MESSAGE_PART_REQUEST)
         [username_field, message_id_field, part_field, part_text_field]))))"

definition format_delivery_acknowledgement :: "pystr \<Rightarrow> int \<Rightarrow> pystr \<Rightarrow> pystr res" where
  "format_delivery_acknowledgement sender_username message_id received_set =
     res_bind (convert_username_to_field sender_username) (\<lambda>username_field.
     res_bind (convert_message_id_to_field message_id) (\<lambda>message_id_field.
     res_bind (convert_received_set_to_field received_set) (\<lambda>received_set_field.
       build_direct_message_text (client_type_letter DELIVERY_ACKNOWLEDGEMENT)
         [username_field, message_id_field, received_set_field])))"

definition format_read_request :: "pystr \<Rightarrow> int \<Rightarrow> pystr res" where
  "format_read_request sender_username message_id =
     res_bind (convert_username_to_field sender_username) (\<lambda>username_field.
     res_bind (convert_message_id_to_field message_id) (\<lambda>message_id_field.
       build_direct_message_text (client_type_letter READ_REQUEST) [username_field, message_id_field]))"

definition format_receipt_acknowledgement :: "pystr \<Rightarrow> int \<Rightarrow> receipt_level \<Rightarrow> pystr res" where
  "format_receipt_acknowledgement recipient_username message_id receipt_level =
     res_bind (convert_username_to_field recipient_username) (\<lambda>username_field.
     res_bind (convert_message_id_to_field message_id) (\<lambda>message_id_field.
     res_bind (convert_receipt_level_to_field receipt_level) (\<lambda>receipt_level_field.
       build_direct_message_text (client_type_letter RECEIPT_ACKNOWLEDGEMENT)
         [username_field, message_id_field, receipt_level_field])))"

definition format_refresh_request :: "pystr \<Rightarrow> pystr res" where
  "format_refresh_request refresh_target =
     res_bind (convert_refresh_target_to_field refresh_target) (\<lambda>refresh_target_field.
       build_direct_message_text (client_type_letter REFRESH_REQUEST) [refresh_target_field])"

fun format_client_message :: "(pystr \<Rightarrow> pystr) \<Rightarrow> client_message \<Rightarrow> pystr res" where
  "format_client_message nfc (AccountRequest username password) = format_account_request nfc username password"
| "format_client_message nfc (QueryRequest username) = format_query_request username"
| "format_client_message nfc (MessagePartRequest recipient_username message_id part_number part_count part_text) =
     format_message_part_request recipient_username message_id part_number part_count part_text"
| "format_client_message nfc (DeliveryAcknowledgement sender_username message_id received_set) =
     format_delivery_acknowledgement sender_username message_id received_set"
| "format_client_message nfc (ReadRequest sender_username message_id) =
     format_read_request sender_username message_id"
| "format_client_message nfc (ReceiptAcknowledgement recipient_username message_id receipt_level) =
     format_receipt_acknowledgement recipient_username message_id receipt_level"
| "format_client_message nfc (RefreshRequest refresh_target) = format_refresh_request refresh_target"

text \<open>\<^verbatim>\<open>ClientMessage | ServerMessage\<close> is the sum of the two datatypes.\<close>

definition format_protocol_message ::
  "(pystr \<Rightarrow> pystr) \<Rightarrow> client_message + server_message \<Rightarrow> pystr res" where
  "format_protocol_message nfc message =
     (case message of
        Inl client_message \<Rightarrow> format_client_message nfc client_message
      | Inr server_message \<Rightarrow> format_server_message server_message)"

lemmas convert_field_defs =
  convert_username_to_field_def convert_message_id_to_field_def convert_part_numbering_to_field_def
  convert_part_text_to_field_def convert_received_set_to_field_def convert_receipt_level_to_field_def
  convert_refresh_target_to_field_def

lemmas format_message_defs =
  format_account_reply_def format_query_reply_def format_send_status_reply_def format_delivery_part_def
  format_read_reply_def format_receipt_push_def format_refresh_reply_def format_error_reply_def
  format_account_request_def format_query_request_def format_message_part_request_def
  format_delivery_acknowledgement_def format_read_request_def format_receipt_acknowledgement_def
  format_refresh_request_def

section \<open>The interface of a wire field\<close>

text \<open>
  What the parser and a formatter rely on of one field: a converted value matches the shape the
  parser asks for, reading it gives the value back, a field that matches is the converted form of
  what it reads as, and every field that matches is plain text of at most \<open>size\<close> bytes.
\<close>

locale wire_field =
  fixes matches :: "pystr \<Rightarrow> bool"
    and convert :: "'v \<Rightarrow> pystr res"
    and read :: "pystr \<Rightarrow> 'v res"
    and size :: nat
  assumes convert_matches: "convert v = Inr f \<Longrightarrow> matches f"
    and read_convert: "convert v = Inr f \<Longrightarrow> read f = Inr v"
    and convert_read: "matches f \<Longrightarrow> read f = Inr v \<Longrightarrow> convert v = Inr g \<Longrightarrow> g = f"
    and plain: "matches f \<Longrightarrow> plain_field size f"
begin

lemma converted_plain: "convert v = Inr f \<Longrightarrow> plain_field size f"
  using convert_matches plain by blast

lemma converted_no_separator: "convert v = Inr f \<Longrightarrow> FIELD_SEPARATOR \<notin> set f"
  using converted_plain plain_field_no_space by blast

lemma convert_injective: "convert v = Inr f \<Longrightarrow> convert w = Inr f \<Longrightarrow> v = w"
  using read_convert [of v f] read_convert [of w f] by simp

end

lemma is_message_id_convert: "convert_message_id_to_field i = Inr f \<Longrightarrow> is_message_id_field f \<and> int_of_digits f = i"
  by (auto simp: convert_message_id_to_field_def is_message_id_field_def protocol_constants
      intro!: is_number_text_str_of_int split: if_splits)

lemma message_id_convert_read:
  "is_message_id_field f \<Longrightarrow> convert_message_id_to_field (int_of_digits f) = Inr g \<Longrightarrow> g = f"
  by (auto simp: convert_message_id_to_field_def is_message_id_field_def str_of_int_of_digits split: if_splits)

lemma small_number_text: "1 \<le> i \<Longrightarrow> i \<le> 10 \<Longrightarrow> is_number_text 1 (str_of_int i)"
  by (rule is_number_text_str_of_int) auto

lemma number_text_no_slash: "is_number_text n a \<Longrightarrow> PART_FIELD_SEPARATOR \<notin> set a"
  using is_number_text_digits(3) [of n a] by (auto simp: PART_FIELD_SEPARATOR_def char_class_defs)

lemma match_part_field_append:
  "is_number_text 1 a \<Longrightarrow> is_number_text 1 b \<Longrightarrow>
     match_part_field (a @ PART_FIELD_SEPARATOR # b) = Some (a, b)"
  using number_text_no_slash [of 1 a] number_text_no_slash [of 1 b]
  by (simp add: match_part_field_def text_simps)

lemma read_part_numbering:
  assumes "convert_part_numbering_to_field n c = Inr f"
  shows "is_part_field f" "read_part_field f = Inr (n, c)"
proof -
  have nc: "1 \<le> n" "n \<le> 10" "1 \<le> c" "c \<le> 10"
    and f: "f = str_of_int n @ PART_FIELD_SEPARATOR # str_of_int c"
    using assms
    by (auto simp: convert_part_numbering_to_field_def is_valid_part_numbering_def
        FIRST_PART_NUMBER_def MAXIMUM_PART_COUNT_def split: if_splits)
  have "match_part_field f = Some (str_of_int n, str_of_int c)"
    unfolding f using nc by (intro match_part_field_append small_number_text)
  then show "is_part_field f" "read_part_field f = Inr (n, c)"
    using nc by (simp_all add: is_part_field_def read_part_field_def)
qed

interpretation username_field: wire_field is_valid_username convert_username_to_field Inr 16
  by unfold_locales (auto simp: convert_username_to_field_def plain_username split: if_splits)

interpretation message_id_field: wire_field is_message_id_field convert_message_id_to_field
  "\<lambda>f. Inr (int_of_digits f)" 16
  by unfold_locales (auto dest: is_message_id_convert intro: plain_message_id message_id_convert_read)

interpretation part_numbering_field: wire_field is_part_field
  "\<lambda>(n, c). convert_part_numbering_to_field n c" read_part_field 5
proof unfold_locales
  fix f g :: pystr and v :: "int \<times> int"
  assume "is_part_field f" "read_part_field f = Inr v"
    and conv: "(case v of (n, c) \<Rightarrow> convert_part_numbering_to_field n c) = Inr g"
  then obtain a b where ab: "match_part_field f = Some (a, b)" and v: "v = (int_of_digits a, int_of_digits b)"
    by (auto simp: is_part_field_def read_part_field_def)
  from match_part_field_Some [OF ab]
  have f: "f = a @ PART_FIELD_SEPARATOR # b" and num: "is_number_text 1 a" "is_number_text 1 b"
    by auto
  show "g = f"
    using conv v f num [THEN str_of_int_of_digits]
    by (auto simp: convert_part_numbering_to_field_def split: if_splits)
qed (auto intro: read_part_numbering plain_part_field)

interpretation received_set_field: wire_field is_received_set_field convert_received_set_to_field Inr 10
  by unfold_locales (auto simp: convert_received_set_to_field_def plain_received_set split: if_splits)

interpretation receipt_level_field: wire_field is_receipt_level_field convert_receipt_level_to_field
  receipt_level_of_text 1
  by unfold_locales
    (auto simp: convert_receipt_level_to_field_def dest: receipt_level_of_text_Inr plain_receipt_level)

interpretation refresh_target_field: wire_field is_refresh_target_field convert_refresh_target_to_field Inr 16
  by unfold_locales (auto simp: convert_refresh_target_to_field_def plain_refresh_target split: if_splits)

section \<open>Reading back what was written\<close>

lemma check_header_fields_all:
  "list_all2 (\<lambda>h f. matches_grammar h f) hs fs \<Longrightarrow> \<exists>cs'. check_header_fields hs (fs @ rest) cs = (True, cs')"
  by (induction hs fs arbitrary: cs rule: list_all2_induct) (cases rest; auto)+

lemma parse_fields_without_tail:
  assumes "\<not> has_tail l" and "fs \<noteq> []" and "list_all2 (\<lambda>h f. matches_grammar h f) (header_fields l) fs"
    and "\<forall>f \<in> set fs. FIELD_SEPARATOR \<notin> set f"
  shows "parse_fields_by_layout letter (join FIELD_SEPARATOR fs) l = build_message l fs"
proof -
  obtain cs where "check_header_fields (header_fields l) fs [] = (True, cs)"
    using check_header_fields_all [OF assms(3), of "[]" "[]"] by auto
  then show ?thesis
    using assms list_all2_lengthD [OF assms(3)]
    by (simp add: parse_fields_by_layout_def split_join)
qed

lemma parse_fields_with_tail:
  assumes "has_tail l" and "list_all2 (\<lambda>h f. matches_grammar h f) (header_fields l) fs"
    and "\<forall>f \<in> set fs. FIELD_SEPARATOR \<notin> set f" and "is_tail_field tail"
  shows "parse_fields_by_layout letter (join FIELD_SEPARATOR (fs @ [tail])) l = build_message l (fs @ [tail])"
proof -
  obtain cs where "check_header_fields (header_fields l) (fs @ [tail]) [] = (True, cs)"
    using check_header_fields_all [OF assms(2), of "[tail]" "[]"] by auto
  then show ?thesis
    using assms list_all2_lengthD [OF assms(2)] split_max_join [OF assms(3), of tail]
    by (simp add: parse_fields_by_layout_def)
qed

lemma match_protocol_prefix: "match_protocol_traffic (PROTOCOL_PREFIX @ body) = Some (PROTOCOL_VERSION, body)"
  by (simp add: match_protocol_traffic_def protocol_constants char_class_defs space_def)

lemma parse_letter_and_fields:
  assumes "is_upper c \<or> is_lower c" and "[c] \<noteq> server_type_letter ERROR_REPLY"
    and "map_of MESSAGE_LAYOUTS_BY_TYPE_LETTER [c] = Some l" and "fs \<noteq> []"
  shows "parse_direct_message_text (PROTOCOL_PREFIX @ join FIELD_SEPARATOR ([c] # fs)) =
           parse_fields_by_layout [c] (join FIELD_SEPARATOR fs) l"
  using assms
  by (simp add: parse_direct_message_text_def match_protocol_prefix parse_version_one_message_body_def join_Cons)

lemma parse_error_reply_text:
  assumes "fs \<noteq> []"
  shows "parse_direct_message_text (PROTOCOL_PREFIX @ join FIELD_SEPARATOR (server_type_letter ERROR_REPLY # fs)) =
           Inr (parse_error_reply_fields (join FIELD_SEPARATOR fs))"
  using assms
  by (simp add: parse_direct_message_text_def match_protocol_prefix parse_version_one_message_body_def
      join_Cons str_def char_class_defs)

text \<open>What \<open>build_direct_message_text\<close> guarantees of every text it returns.\<close>

definition sendable :: "pystr \<Rightarrow> bool" where
  "sendable t \<longleftrightarrow>
     prefix PROTOCOL_PREFIX t \<and> NUL_CHARACTER \<notin> set t \<and> \<not> contains_surrogate t \<and> utf8_length t \<le> 150"

lemma ensure_sendable_iff: "ensure_direct_message_text_is_sendable t = Inr u \<longleftrightarrow> sendable t"
  by (auto simp: ensure_direct_message_text_is_sendable_def sendable_def count_utf8_bytes_eq
      DIRECT_MESSAGE_MAXIMUM_BYTES_def)

lemma build_direct_message_text_Inr:
  "build_direct_message_text letter fs = Inr t \<longleftrightarrow>
     t = PROTOCOL_PREFIX @ join FIELD_SEPARATOR (letter # fs) \<and> sendable t"
  by (auto simp: build_direct_message_text_def Let_def res_bind_eq_Inr ensure_sendable_iff)

lemma set_join: "set (join sep ws) \<subseteq> insert sep (\<Union> (set ` set ws))"
  by (induction sep ws rule: join.induct) auto

lemma last_subset_join: "set w \<subseteq> set (join sep (ws @ [w]))"
  by (induction ws) (auto simp: join_Cons)

lemma contains_surrogate_mono: "set s \<subseteq> set t \<Longrightarrow> contains_surrogate s \<Longrightarrow> contains_surrogate t"
  by (auto simp: contains_surrogate_def list_ex_iff)

lemma sendable_tail: "sendable (PROTOCOL_PREFIX @ join sep (ws @ [w])) \<Longrightarrow> is_tail_field w"
  using last_subset_join [of w sep ws] contains_surrogate_mono [of w "join sep (ws @ [w])"]
  by (auto simp: sendable_def is_tail_field_def list_ex_iff contains_surrogate_def)

lemma layout_letter:
  "map_of MESSAGE_LAYOUTS_BY_TYPE_LETTER letter = Some l \<Longrightarrow>
     \<exists>c. letter = [c] \<and> (is_upper c \<or> is_lower c) \<and> letter \<noteq> server_type_letter ERROR_REPLY"
  by (auto simp: MESSAGE_LAYOUTS_BY_TYPE_LETTER_def str_def char_class_defs split: if_splits)

lemma parse_built_message:
  assumes "build_direct_message_text letter fs = Inr t"
    and "map_of MESSAGE_LAYOUTS_BY_TYPE_LETTER letter = Some l" and "\<not> has_tail l" and "fs \<noteq> []"
    and "list_all2 (\<lambda>h f. matches_grammar h f) (header_fields l) fs"
    and sep: "\<forall>f \<in> set fs. FIELD_SEPARATOR \<notin> set f"
  shows "parse_direct_message_text t = build_message l fs"
proof -
  have t: "t = PROTOCOL_PREFIX @ join FIELD_SEPARATOR (letter # fs)"
    using assms(1) by (simp add: build_direct_message_text_Inr)
  show ?thesis
    using layout_letter [OF assms(2)] parse_letter_and_fields [OF _ _ _ assms(4)] assms(2)
      parse_fields_without_tail [OF assms(3,4,5) sep]
    unfolding t by auto
qed

lemma parse_built_message_with_tail:
  assumes "build_direct_message_text letter (fs @ [tail]) = Inr t"
    and "map_of MESSAGE_LAYOUTS_BY_TYPE_LETTER letter = Some l" and "has_tail l"
    and "list_all2 (\<lambda>h f. matches_grammar h f) (header_fields l) fs"
    and sep: "\<forall>f \<in> set fs. FIELD_SEPARATOR \<notin> set f"
  shows "parse_direct_message_text t = build_message l (fs @ [tail])"
proof -
  have t: "t = PROTOCOL_PREFIX @ join FIELD_SEPARATOR ((letter # fs) @ [tail])" and "sendable t"
    using assms(1) by (auto simp: build_direct_message_text_Inr)
  then have tail: "is_tail_field tail"
    using sendable_tail [of FIELD_SEPARATOR "letter # fs" tail] by simp
  have "fs @ [tail] \<noteq> []" by simp
  from layout_letter [OF assms(2)] parse_letter_and_fields [OF _ _ _ this] assms(2)
    parse_fields_with_tail [OF assms(3,4) sep tail]
  show ?thesis unfolding t by auto
qed

text \<open>
  What a device receives of a server message: the message count is shown as at most 9999, and an
  error code written as a plain string is read as the code it spells.
\<close>

fun as_received :: "server_message \<Rightarrow> server_message" where
  "as_received (RefreshReply target count) = RefreshReply target (min count 9999)"
| "as_received (ErrorReply code type reference) = ErrorReply (read_error_code (reply_code_text code)) type reference"
| "as_received m = m"

lemma layouts [simp]:
  "map_of MESSAGE_LAYOUTS_BY_TYPE_LETTER (str ''A'') =
     Some \<lparr>header_fields = [USERNAME_FIELD], has_tail = True, build_message = build_account_request\<rparr>"
  "map_of MESSAGE_LAYOUTS_BY_TYPE_LETTER (str ''Q'') =
     Some \<lparr>header_fields = [USERNAME_FIELD], has_tail = False, build_message = build_query_request\<rparr>"
  "map_of MESSAGE_LAYOUTS_BY_TYPE_LETTER (str ''M'') =
     Some \<lparr>header_fields = [USERNAME_FIELD, MESSAGE_ID_FIELD, PART_FIELD], has_tail = True,
       build_message = build_message_part_request\<rparr>"
  "map_of MESSAGE_LAYOUTS_BY_TYPE_LETTER (str ''K'') =
     Some \<lparr>header_fields = [USERNAME_FIELD, MESSAGE_ID_FIELD, RECEIVED_SET_FIELD], has_tail = False,
       build_message = build_delivery_acknowledgement\<rparr>"
  "map_of MESSAGE_LAYOUTS_BY_TYPE_LETTER (str ''R'') =
     Some \<lparr>header_fields = [USERNAME_FIELD, MESSAGE_ID_FIELD], has_tail = False,
       build_message = build_read_request\<rparr>"
  "map_of MESSAGE_LAYOUTS_BY_TYPE_LETTER (str ''C'') =
     Some \<lparr>header_fields = [USERNAME_FIELD, MESSAGE_ID_FIELD, RECEIPT_LEVEL_FIELD], has_tail = False,
       build_message = build_receipt_acknowledgement\<rparr>"
  "map_of MESSAGE_LAYOUTS_BY_TYPE_LETTER (str ''F'') =
     Some \<lparr>header_fields = [REFRESH_TARGET_FIELD], has_tail = False, build_message = build_refresh_request\<rparr>"
  "map_of MESSAGE_LAYOUTS_BY_TYPE_LETTER (str ''a'') =
     Some \<lparr>header_fields = [USERNAME_FIELD], has_tail = False, build_message = build_account_reply\<rparr>"
  "map_of MESSAGE_LAYOUTS_BY_TYPE_LETTER (str ''q'') =
     Some \<lparr>header_fields = [USERNAME_FIELD, EXISTENCE_FIELD], has_tail = False,
       build_message = build_query_reply\<rparr>"
  "map_of MESSAGE_LAYOUTS_BY_TYPE_LETTER (str ''k'') =
     Some \<lparr>header_fields = [USERNAME_FIELD, MESSAGE_ID_FIELD, RECEIVED_SET_FIELD], has_tail = False,
       build_message = build_send_status_reply\<rparr>"
  "map_of MESSAGE_LAYOUTS_BY_TYPE_LETTER (str ''m'') =
     Some \<lparr>header_fields = [USERNAME_FIELD, MESSAGE_ID_FIELD, PART_FIELD], has_tail = True,
       build_message = build_delivery_part\<rparr>"
  "map_of MESSAGE_LAYOUTS_BY_TYPE_LETTER (str ''r'') =
     Some \<lparr>header_fields = [USERNAME_FIELD, MESSAGE_ID_FIELD], has_tail = False,
       build_message = build_read_reply\<rparr>"
  "map_of MESSAGE_LAYOUTS_BY_TYPE_LETTER (str ''s'') =
     Some \<lparr>header_fields = [USERNAME_FIELD, MESSAGE_ID_FIELD, RECEIPT_LEVEL_FIELD], has_tail = False,
       build_message = build_receipt_push\<rparr>"
  "map_of MESSAGE_LAYOUTS_BY_TYPE_LETTER (str ''f'') =
     Some \<lparr>header_fields = [REFRESH_TARGET_FIELD, MESSAGE_COUNT_FIELD], has_tail = False,
       build_message = build_refresh_reply\<rparr>"
  by (simp_all add: MESSAGE_LAYOUTS_BY_TYPE_LETTER_def str_def)

lemma is_message_count_str_of_int: "0 \<le> n \<Longrightarrow> n \<le> 9999 \<Longrightarrow> is_message_count_field (str_of_int n)"
  by (cases "n = 0")
    (auto simp: is_message_count_field_def str_def str_of_int_def [of 0] digits_of_nat.simps [of 0]
      intro!: is_number_text_str_of_int)

lemma is_existence_values [simp]: "is_existence_field USER_EXISTS" "is_existence_field USER_DOES_NOT_EXIST"
  by (simp_all add: is_existence_field_def protocol_constants)

lemma existence_distinct [simp]: "USER_DOES_NOT_EXIST \<noteq> USER_EXISTS"
  by (simp add: protocol_constants)

lemmas no_separator =
  plain_existence [THEN plain_field_no_space] plain_message_count [THEN plain_field_no_space]

lemma converted_fields:
  "convert_username_to_field u = Inr f \<Longrightarrow> is_valid_username f \<and> f = u \<and> FIELD_SEPARATOR \<notin> set f"
  "convert_message_id_to_field i = Inr f \<Longrightarrow>
     is_message_id_field f \<and> int_of_digits f = i \<and> FIELD_SEPARATOR \<notin> set f"
  "convert_part_numbering_to_field k c = Inr f \<Longrightarrow>
     is_part_field f \<and> read_part_field f = Inr (k, c) \<and> FIELD_SEPARATOR \<notin> set f"
  "convert_received_set_to_field s = Inr f \<Longrightarrow> is_received_set_field f \<and> f = s \<and> FIELD_SEPARATOR \<notin> set f"
  "convert_receipt_level_to_field r = Inr f \<Longrightarrow>
     is_receipt_level_field f \<and> receipt_level_of_text f = Inr r \<and> FIELD_SEPARATOR \<notin> set f"
  "convert_refresh_target_to_field t = Inr f \<Longrightarrow> is_refresh_target_field f \<and> f = t \<and> FIELD_SEPARATOR \<notin> set f"
  using username_field.converted_no_separator [of u f] message_id_field.converted_no_separator [of i f]
    part_numbering_field.converted_no_separator [of "(k, c)" f] received_set_field.converted_no_separator [of s f]
    receipt_level_field.converted_no_separator [of r f] refresh_target_field.converted_no_separator [of t f]
    username_field.read_convert [of u f] message_id_field.read_convert [of i f]
    received_set_field.read_convert [of s f] receipt_level_field.read_convert [of r f]
    refresh_target_field.read_convert [of t f] read_part_numbering [of k c f]
  by (auto dest: username_field.convert_matches message_id_field.convert_matches
      received_set_field.convert_matches receipt_level_field.convert_matches
      refresh_target_field.convert_matches)

lemma format_client_message_parses:
  "format_client_message nfc m = Inr t \<Longrightarrow> parse_direct_message_text t = Inr (ClientMessage m)"
proof (cases m)
  case (AccountRequest username password)
  assume "format_client_message nfc m = Inr t"
  then obtain f where "convert_username_to_field username = Inr f"
    and "build_direct_message_text (str ''A'') ([f] @ [password]) = Inr t"
    using AccountRequest by (auto simp: format_account_request_def res_bind_eq_Inr split: if_splits)
  then show ?thesis
    using parse_built_message_with_tail [of "str ''A''" "[f]" password t] AccountRequest
    by (auto simp: header_field_defs build_message_defs dest!: converted_fields)
next
  case (MessagePartRequest username i n c body)
  assume "format_client_message nfc m = Inr t"
  then obtain f g h where "convert_username_to_field username = Inr f"
    and "convert_message_id_to_field i = Inr g" and "convert_part_numbering_to_field n c = Inr h"
    and "build_direct_message_text (str ''M'') ([f, g, h] @ [body]) = Inr t"
    using MessagePartRequest
    by (auto simp: format_message_part_request_def convert_part_text_to_field_def res_bind_eq_Inr
        split: if_splits)
  then show ?thesis
    using parse_built_message_with_tail [of "str ''M''" "[f, g, h]" body t] MessagePartRequest
    by (auto simp: header_field_defs build_message_defs dest!: converted_fields)
next
  case (QueryRequest username)
  assume "format_client_message nfc m = Inr t"
  then obtain f where "convert_username_to_field username = Inr f"
    and "build_direct_message_text (str ''Q'') [f] = Inr t"
    using QueryRequest by (auto simp: format_query_request_def res_bind_eq_Inr)
  then show ?thesis
    using parse_built_message [of "str ''Q''" "[f]" t] QueryRequest
    by (auto simp: header_field_defs build_message_defs dest!: converted_fields)
next
  case (DeliveryAcknowledgement username i s)
  assume "format_client_message nfc m = Inr t"
  then obtain f g h where "convert_username_to_field username = Inr f" and "convert_message_id_to_field i = Inr g" and "convert_received_set_to_field s = Inr h"
    and "build_direct_message_text (str ''K'') [f, g, h] = Inr t"
    using DeliveryAcknowledgement by (auto simp: format_delivery_acknowledgement_def res_bind_eq_Inr)
  then show ?thesis
    using parse_built_message [of "str ''K''" "[f, g, h]" t] DeliveryAcknowledgement
    by (auto simp: header_field_defs build_message_defs dest!: converted_fields)
next
  case (ReadRequest username i)
  assume "format_client_message nfc m = Inr t"
  then obtain f g where "convert_username_to_field username = Inr f" and "convert_message_id_to_field i = Inr g"
    and "build_direct_message_text (str ''R'') [f, g] = Inr t"
    using ReadRequest by (auto simp: format_read_request_def res_bind_eq_Inr)
  then show ?thesis
    using parse_built_message [of "str ''R''" "[f, g]" t] ReadRequest
    by (auto simp: header_field_defs build_message_defs dest!: converted_fields)
next
  case (ReceiptAcknowledgement username i r)
  assume "format_client_message nfc m = Inr t"
  then obtain f g h where "convert_username_to_field username = Inr f" and "convert_message_id_to_field i = Inr g" and "convert_receipt_level_to_field r = Inr h"
    and "build_direct_message_text (str ''C'') [f, g, h] = Inr t"
    using ReceiptAcknowledgement by (auto simp: format_receipt_acknowledgement_def res_bind_eq_Inr)
  then show ?thesis
    using parse_built_message [of "str ''C''" "[f, g, h]" t] ReceiptAcknowledgement
    by (auto simp: header_field_defs build_message_defs dest!: converted_fields)
next
  case (RefreshRequest target)
  assume "format_client_message nfc m = Inr t"
  then obtain f where "convert_refresh_target_to_field target = Inr f"
    and "build_direct_message_text (str ''F'') [f] = Inr t"
    using RefreshRequest by (auto simp: format_refresh_request_def res_bind_eq_Inr)
  then show ?thesis
    using parse_built_message [of "str ''F''" "[f]" t] RefreshRequest
    by (auto simp: header_field_defs build_message_defs dest!: converted_fields)
qed

lemma error_reference_fields:
  assumes "is_error_reference_field r"
  shows "split FIELD_SEPARATOR r \<noteq> []" "length (split FIELD_SEPARATOR r) \<le> 2"
  using assms by (auto simp: is_error_reference_field_def split: list.splits)

lemma split_join_split:
  assumes "\<forall>f \<in> set fs. FIELD_SEPARATOR \<notin> set f"
  shows "split FIELD_SEPARATOR (join FIELD_SEPARATOR (fs @ [r])) = fs @ split FIELD_SEPARATOR r"
  using assms
proof (induction fs)
  case (Cons f fs)
  then show ?case by (simp add: join_Cons text_simps)
qed simp

lemma format_error_reply_parses:
  assumes "format_error_reply code type reference = Inr t"
  shows "parse_direct_message_text t =
           Inr (ServerMessage (ErrorReply (read_error_code (reply_code_text code)) type reference))"
proof -
  let ?fs = "[reply_code_text code, type]"
  have code: "is_error_code_field (reply_code_text code)" and type: "is_request_type_field type"
    using assms by (auto simp: format_error_reply_def split: if_splits)
  then have sep: "\<forall>f \<in> set ?fs. FIELD_SEPARATOR \<notin> set f"
    using plain_error_code plain_request_type plain_field_no_space by auto
  show ?thesis
  proof (cases reference)
    case None
    then have "t = PROTOCOL_PREFIX @ join FIELD_SEPARATOR (server_type_letter ERROR_REPLY # ?fs)"
      using assms code type by (simp add: format_error_reply_def build_direct_message_text_Inr)
    then show ?thesis
      using parse_error_reply_text [of ?fs] split_join [OF _ sep] code type None
      by (simp add: parse_error_reply_fields_def ERROR_REPLY_FIXED_FIELD_COUNT_def)
  next
    case (Some r)
    then have r: "is_error_reference_field r"
      and "t = PROTOCOL_PREFIX @ join FIELD_SEPARATOR (server_type_letter ERROR_REPLY # ?fs @ [r])"
      using assms code type
      by (auto simp: format_error_reply_def build_direct_message_text_Inr split: if_splits)
    then show ?thesis
      using parse_error_reply_text [of "?fs @ [r]"] split_join_split [OF sep, of r] code type Some
        error_reference_fields [OF r]
      by (simp add: parse_error_reply_fields_def ERROR_REPLY_FIXED_FIELD_COUNT_def
          ERROR_REFERENCE_MAXIMUM_FIELD_COUNT_def)
  qed
qed

lemma format_server_message_parses:
  "format_server_message m = Inr t \<Longrightarrow> parse_direct_message_text t = Inr (ServerMessage (as_received m))"
proof (cases m)
  case (DeliveryPart username i n c body)
  assume "format_server_message m = Inr t"
  then obtain f g h where "convert_username_to_field username = Inr f"
    and "convert_message_id_to_field i = Inr g" and "convert_part_numbering_to_field n c = Inr h"
    and "build_direct_message_text (str ''m'') ([f, g, h] @ [body]) = Inr t"
    using DeliveryPart
    by (auto simp: format_delivery_part_def convert_part_text_to_field_def res_bind_eq_Inr
        split: if_splits)
  then show ?thesis
    using parse_built_message_with_tail [of "str ''m''" "[f, g, h]" body t] DeliveryPart
    by (auto simp: header_field_defs build_message_defs dest!: converted_fields)
next
  case (AccountReply username)
  assume "format_server_message m = Inr t"
  then obtain f where "convert_username_to_field username = Inr f"
    and "build_direct_message_text (str ''a'') [f] = Inr t"
    using AccountReply by (auto simp: format_account_reply_def res_bind_eq_Inr Let_def split: if_splits)
  then show ?thesis
    using parse_built_message [of "str ''a''" "[f]" t] AccountReply no_separator
    by (auto simp: header_field_defs build_message_defs dest!: converted_fields)
next
  case (QueryReply username b)
  assume "format_server_message m = Inr t"
  then obtain f where "convert_username_to_field username = Inr f"
    and "build_direct_message_text (str ''q'') [f, if b then USER_EXISTS else USER_DOES_NOT_EXIST] = Inr t"
    using QueryReply by (auto simp: format_query_reply_def res_bind_eq_Inr Let_def split: if_splits)
  then show ?thesis
    using parse_built_message [of "str ''q''" "[f, if b then USER_EXISTS else USER_DOES_NOT_EXIST]" t] QueryReply no_separator
    by (auto simp: header_field_defs build_message_defs dest!: converted_fields)
next
  case (SendStatusReply username i s)
  assume "format_server_message m = Inr t"
  then obtain f g h where "convert_username_to_field username = Inr f" and "convert_message_id_to_field i = Inr g" and "convert_received_set_to_field s = Inr h"
    and "build_direct_message_text (str ''k'') [f, g, h] = Inr t"
    using SendStatusReply by (auto simp: format_send_status_reply_def res_bind_eq_Inr Let_def split: if_splits)
  then show ?thesis
    using parse_built_message [of "str ''k''" "[f, g, h]" t] SendStatusReply no_separator
    by (auto simp: header_field_defs build_message_defs dest!: converted_fields)
next
  case (ReadReply username i)
  assume "format_server_message m = Inr t"
  then obtain f g where "convert_username_to_field username = Inr f" and "convert_message_id_to_field i = Inr g"
    and "build_direct_message_text (str ''r'') [f, g] = Inr t"
    using ReadReply by (auto simp: format_read_reply_def res_bind_eq_Inr Let_def split: if_splits)
  then show ?thesis
    using parse_built_message [of "str ''r''" "[f, g]" t] ReadReply no_separator
    by (auto simp: header_field_defs build_message_defs dest!: converted_fields)
next
  case (ReceiptPush username i r)
  assume "format_server_message m = Inr t"
  then obtain f g h where "convert_username_to_field username = Inr f" and "convert_message_id_to_field i = Inr g" and "convert_receipt_level_to_field r = Inr h"
    and "build_direct_message_text (str ''s'') [f, g, h] = Inr t"
    using ReceiptPush by (auto simp: format_receipt_push_def res_bind_eq_Inr Let_def split: if_splits)
  then show ?thesis
    using parse_built_message [of "str ''s''" "[f, g, h]" t] ReceiptPush no_separator
    by (auto simp: header_field_defs build_message_defs dest!: converted_fields)
next
  case (RefreshReply target n)
  assume "format_server_message m = Inr t"
  then obtain f where n: "0 \<le> n" and f: "convert_refresh_target_to_field target = Inr f"
    and b: "build_direct_message_text (str ''f'') [f, str_of_int (min n 9999)] = Inr t"
    using RefreshReply
    by (auto simp: format_refresh_reply_def res_bind_eq_Inr Let_def protocol_constants split: if_splits)
  have "is_message_count_field (str_of_int (min n 9999))"
    using n by (intro is_message_count_str_of_int) auto
  then show ?thesis
    using parse_built_message [OF b] RefreshReply n f no_separator
    by (auto simp: header_field_defs build_message_defs dest!: converted_fields)
next
  case (ErrorReply code type reference)
  assume "format_server_message m = Inr t"
  then show ?thesis using format_error_reply_parses ErrorReply by simp
qed

section \<open>Every text that is accepted is the one the formatter writes\<close>

lemma match_protocol_traffic_Some:
  "match_protocol_traffic t = Some (v, body) \<Longrightarrow>
     t = PROTOCOL_MAGIC @ v @ space # body \<and> is_version_number_field v"
proof -
  assume m: "match_protocol_traffic t = Some (v, body)"
  let ?rest = "drop (length PROTOCOL_MAGIC) t"
  have "prefix PROTOCOL_MAGIC t" and v: "v = takeWhile is_digit ?rest"
    and len: "1 \<le> length v" "length v \<le> VERSION_NUMBER_MAXIMUM_DIGITS"
    and drop: "drop (length v) ?rest = space # body"
    using m by (auto simp: match_protocol_traffic_def Let_def split: if_splits list.splits)
  moreover have "?rest = v @ space # body"
    using takeWhile_dropWhile_id [of is_digit ?rest] drop v dropWhile_eq_drop [of is_digit ?rest] by simp
  moreover have "list_all is_digit v"
    using v set_takeWhileD by (fastforce simp: list_all_iff)
  ultimately show ?thesis
    by (auto simp: prefix_def is_version_number_field_def)
qed

text \<open>The text a message of a known letter was parsed from.\<close>

lemma parse_direct_message_text_cases:
  assumes "parse_direct_message_text t = Inr m"
  obtains (other) "m = OtherText t"
  | (version) v body where "m = UnsupportedVersion v (take 1 body)" and "is_version_number_field v"
      and "v \<noteq> PROTOCOL_VERSION"
  | (no_letter) "m = ProtocolSyntaxError UNKNOWN_REQUEST_TYPE []"
  | (unknown) c where "m = UnknownMessageType [c]" and "is_upper c \<or> is_lower c"
  | (no_fields) c where "m = ProtocolSyntaxError [c] []" and "is_upper c \<or> is_lower c"
  | (error_reply) body where "t = PROTOCOL_PREFIX @ server_type_letter ERROR_REPLY @ FIELD_SEPARATOR # body"
      and "m = parse_error_reply_fields body"
  | (layout) c l body where "t = PROTOCOL_PREFIX @ [c] @ FIELD_SEPARATOR # body"
      and "map_of MESSAGE_LAYOUTS_BY_TYPE_LETTER [c] = Some l"
      and "parse_fields_by_layout [c] body l = Inr m"
proof (cases "match_protocol_traffic t")
  case None
  then show thesis using assms other by (simp add: parse_direct_message_text_def)
next
  case (Some vb)
  then obtain v body where vb: "match_protocol_traffic t = Some (v, body)" by (cases vb) auto
  note t = match_protocol_traffic_Some [OF vb]
  show thesis
  proof (cases "v = PROTOCOL_VERSION")
    case False
    then have "m = UnsupportedVersion v (take 1 body)"
      using assms vb by (simp add: parse_direct_message_text_def)
    then show thesis
      using version False t by blast
  next
    case True
    then have p: "parse_version_one_message_body body = Inr m"
      using assms vb by (simp add: parse_direct_message_text_def)
    have tp: "t = PROTOCOL_PREFIX @ body"
      using t True by (simp add: protocol_constants space_def)
    show thesis
    proof (cases "\<exists>c. take 1 body = [c] \<and> (is_upper c \<or> is_lower c)")
      case False
      then have "m = ProtocolSyntaxError UNKNOWN_REQUEST_TYPE []"
        using p by (auto simp: parse_version_one_message_body_def Let_def split: list.splits if_splits)
      then show thesis using no_letter by blast
    next
      case True
      then obtain c rest where body: "body = c # rest" and c: "is_upper c \<or> is_lower c"
        by (cases body) auto
      show thesis
      proof (cases "take 2 body = [c, FIELD_SEPARATOR]")
        case False
        then show thesis
          using p body c no_fields [of c] unknown [of c]
          by (auto simp: parse_version_one_message_body_def Let_def split: if_splits)
      next
        case True
        then obtain rest' where "body = [c] @ FIELD_SEPARATOR # rest'"
          using body by (cases rest) auto
        then show thesis
          using p c tp layout [of c rest'] unknown [of c] error_reply [of rest']
          by (auto simp: parse_version_one_message_body_def Let_def split: if_splits option.splits)
      qed
    qed
  qed
qed

lemma is_message_count_value:
  assumes "is_message_count_field f"
  shows "str_of_int (int_of_digits f) = f" "0 \<le> int_of_digits f" "int_of_digits f \<le> 9999"
proof -
  consider "f = str ''0''" | "is_number_text 3 f"
    using assms by (auto simp: is_message_count_field_def)
  then show "str_of_int (int_of_digits f) = f" "0 \<le> int_of_digits f" "int_of_digits f \<le> 9999"
    using str_of_int_of_digits [of 3 f] int_of_digits_bounds [of 3 f]
    by (cases; simp add: int_of_digits_def nat_of_digits_def str_def str_of_int_def digits_of_nat.simps [of 0])+
qed

lemma read_error_code_text [simp]: "reply_code_text (read_error_code t) = t"
  by (auto simp: read_error_code_def find_Some_iff split: option.splits)

lemma is_existence_iff: "is_existence_field f \<longleftrightarrow> f = USER_EXISTS \<or> f = USER_DOES_NOT_EXIST"
  by (auto simp: is_existence_field_def protocol_constants)

lemma convert_read_message_id: "is_message_id_field g \<Longrightarrow> convert_message_id_to_field (int_of_digits g) = Inr g"
  using int_of_digits_bounds [of 15 g] str_of_int_of_digits [of 15 g]
  by (simp add: convert_message_id_to_field_def is_message_id_field_def protocol_constants)

lemma convert_read_part_field:
  "read_part_field g = Inr (n, c) \<Longrightarrow> convert_part_numbering_to_field n c = Inr f \<longleftrightarrow>
     is_valid_part_numbering n c \<and> f = g"
  by (auto simp: convert_part_numbering_to_field_def read_part_field_def str_of_int_of_digits
      dest: match_part_field_Some split: option.splits if_splits)

lemma convert_receipt_level [simp]: "convert_receipt_level_to_field r = Inr (receipt_level_text r)"
  by (simp add: convert_receipt_level_to_field_def)

lemmas converted_back =
  convert_read_message_id convert_read_part_field convert_username_to_field_def
  convert_received_set_to_field_def convert_refresh_target_to_field_def convert_part_text_to_field_def

lemma layout_text_canonical:
  assumes "map_of MESSAGE_LAYOUTS_BY_TYPE_LETTER letter = Some l"
    and "list_all2 (\<lambda>h f. matches_grammar h f) (header_fields l) (take (length (header_fields l)) fs)"
    and "length fs = length (header_fields l) + (if has_tail l then 1 else 0)"
    and "build_message l fs = Inr (case m of Inl c \<Rightarrow> ClientMessage c | Inr s \<Rightarrow> ServerMessage s)"
    and "format_protocol_message nfc m = Inr t'"
  shows "t' = PROTOCOL_PREFIX @ join FIELD_SEPARATOR (letter # fs)"
  using assms
  by (cases m)
    (auto simp: MESSAGE_LAYOUTS_BY_TYPE_LETTER_def layout_fields format_protocol_message_def
      format_message_defs build_direct_message_text_Inr res_bind_eq_Inr Let_def
      is_existence_iff is_message_count_value converted_back min_def
      REFRESH_REPLY_MAXIMUM_MESSAGE_COUNT_def
      dest!: receipt_level_of_text_Inr split: if_splits)

lemma parse_error_reply_fields_cases:
  obtains (malformed) "parse_error_reply_fields body = ProtocolSyntaxError (server_type_letter ERROR_REPLY) []"
  | (reply) code type refs where "split FIELD_SEPARATOR body = code # type # refs"
      and "parse_error_reply_fields body = ServerMessage (ErrorReply (read_error_code code) type
             (if refs = [] then None else Some (join FIELD_SEPARATOR refs)))"
      and "is_error_code_field code" and "is_request_type_field type"
proof -
  consider (short) "length (split FIELD_SEPARATOR body) < 2"
    | (long) code type refs where "split FIELD_SEPARATOR body = code # type # refs"
    by (cases "split FIELD_SEPARATOR body" rule: remdups_adj.cases) auto
  then show thesis
  proof cases
    case short
    then show thesis
      using malformed by (simp add: parse_error_reply_fields_def ERROR_REPLY_FIXED_FIELD_COUNT_def)
  next
    case long
    then have "parse_error_reply_fields body = ProtocolSyntaxError (server_type_letter ERROR_REPLY) [] \<or>
        parse_error_reply_fields body = ServerMessage (ErrorReply (read_error_code code) type
          (if refs = [] then None else Some (join FIELD_SEPARATOR refs))) \<and>
        is_error_code_field code \<and> is_request_type_field type"
      by (simp add: parse_error_reply_fields_def Let_def)
    then show thesis
      using malformed reply [OF long] by blast
  qed
qed

lemma parse_error_reply_canonical:
  assumes "parse_error_reply_fields body = ServerMessage m" and "format_server_message m = Inr t'"
  shows "t' = PROTOCOL_PREFIX @ server_type_letter ERROR_REPLY @ FIELD_SEPARATOR # body"
proof (rule parse_error_reply_fields_cases [of body])
  fix code type refs
  assume s: "split FIELD_SEPARATOR body = code # type # refs"
    and "parse_error_reply_fields body = ServerMessage (ErrorReply (read_error_code code) type
           (if refs = [] then None else Some (join FIELD_SEPARATOR refs)))"
  then have m: "m = ErrorReply (read_error_code code) type
                  (if refs = [] then None else Some (join FIELD_SEPARATOR refs))"
    using assms(1) by simp
  have body: "body = join FIELD_SEPARATOR (code # type # refs)"
    using join_split [of FIELD_SEPARATOR body] s by simp
  show ?thesis
    using assms(2) unfolding m body
    by (auto simp: format_error_reply_def build_direct_message_text_Inr join_Cons split: if_splits)
qed (use assms(1) in simp)

lemma parsed_text_canonical:
  assumes "parse_direct_message_text t = Inr (case m of Inl c \<Rightarrow> ClientMessage c | Inr s \<Rightarrow> ServerMessage s)"
    and "format_protocol_message nfc m = Inr t'"
  shows "t' = t"
  using assms(1)
proof (cases rule: parse_direct_message_text_cases)
  case (error_reply body)
  then have "\<exists>s. m = Inr s"
    by (rule_tac parse_error_reply_fields_cases [of body]; cases m) auto
  then obtain s where "m = Inr s" ..
  then show ?thesis
    using parse_error_reply_canonical [of body s t'] error_reply assms(2)
    by (simp add: format_protocol_message_def)
next
  case (layout c l body)
  show ?thesis
  proof (rule parse_fields_by_layout_cases [where l = l and letter = "[c]" and body = body])
    fix fs
    assume "parse_fields_by_layout [c] body l = build_message l fs" and body: "join FIELD_SEPARATOR fs = body"
      and fs: "list_all2 (\<lambda>h f. matches_grammar h f) (header_fields l) (take (length (header_fields l)) fs)"
        "length fs = length (header_fields l) + (if has_tail l then 1 else 0)"
    then have "build_message l fs = Inr (case m of Inl c \<Rightarrow> ClientMessage c | Inr s \<Rightarrow> ServerMessage s)"
      using layout by simp
    moreover have "fs \<noteq> []"
      using fs(2) layout(2) by (auto simp: MESSAGE_LAYOUTS_BY_TYPE_LETTER_def split: if_splits)
    ultimately show "t' = t"
      using layout_text_canonical [OF layout(2) fs _ assms(2)] layout(1) body by (simp add: join_Cons)
  qed (use layout in \<open>auto split: sum.splits\<close>)
qed (auto split: sum.splits)

section \<open>The byte budget\<close>

lemma utf8_length_join:
  "sep < 128 \<Longrightarrow> utf8_length (join sep ws) = sum_list (map utf8_length ws) + (length ws - 1)"
  by (induction sep ws rule: join.induct) (auto simp: length_utf8_bytes_ascii)

lemma contains_surrogate_join:
  "contains_surrogate (join sep ws) \<longleftrightarrow>
     list_ex contains_surrogate ws \<or> is_surrogate sep \<and> 2 \<le> length ws"
  by (induction sep ws rule: join.induct) auto

lemma NUL_in_join: "NUL_CHARACTER \<in> set (join sep ws) \<Longrightarrow> sep \<noteq> 0 \<Longrightarrow> \<exists>w \<in> set ws. NUL_CHARACTER \<in> set w"
  using set_join [of sep ws] by (auto simp: NUL_CHARACTER_def)

text \<open>
  A message whose fields are clean text is sendable exactly when the fields, the separators and the
  prefix of six bytes fit.
\<close>

lemma build_direct_message_text_clean:
  assumes "\<forall>f \<in> set fs. \<not> contains_surrogate f \<and> NUL_CHARACTER \<notin> set f"
    and "letter = [c]" "33 \<le> c" "c < 128"
    and "5 + sum_list (map utf8_length fs) + length fs \<le> 150"
  shows "build_direct_message_text letter fs =
           Inr (PROTOCOL_PREFIX @ join FIELD_SEPARATOR (letter # fs))"
proof -
  let ?t = "PROTOCOL_PREFIX @ join FIELD_SEPARATOR (letter # fs)"
  have "sendable ?t"
    using assms NUL_in_join [of FIELD_SEPARATOR "letter # fs"]
      contains_surrogate_join [of FIELD_SEPARATOR "letter # fs"]
      utf8_length_join [of FIELD_SEPARATOR "letter # fs"] length_utf8_bytes_ascii [of c]
    by (auto simp: sendable_def list_ex_iff FIELD_SEPARATOR_def space_def is_surrogate_iff
        protocol_constants NUL_CHARACTER_def length_utf8_bytes_ascii)
  then show ?thesis
    by (simp add: build_direct_message_text_Inr)
qed

lemma valid_part_text_clean:
  "valid_part_text t \<Longrightarrow> \<not> contains_surrogate t \<and> NUL_CHARACTER \<notin> set t \<and> utf8_length t \<le> 104"
  using allowed_text_no_surrogate [of t]
  by (auto simp: valid_part_text_def list_all_iff NUL_CHARACTER_def is_allowed_part_text_character_iff)

lemma convert_valid_part_numbering:
  assumes "is_valid_part_numbering n c"
  obtains f where "convert_part_numbering_to_field n c = Inr f" and "plain_field 5 f"
  using assms part_numbering_field.converted_plain [of "(n, c)"]
  by (simp add: convert_part_numbering_to_field_def)

lemma convert_valid_message_id:
  assumes "MESSAGE_ID_MINIMUM \<le> i" "i \<le> MESSAGE_ID_MAXIMUM"
  obtains f where "convert_message_id_to_field i = Inr f" and "plain_field 16 f"
  using assms message_id_field.converted_plain [of i]
  by (simp add: convert_message_id_to_field_def)

text \<open>
  The header of a message part takes at most 46 bytes, so a part text of 104 bytes always fits: the
  server can forward every part it accepted, in either direction.
\<close>

lemma part_message_fits:
  assumes "is_valid_username u" "MESSAGE_ID_MINIMUM \<le> i" "i \<le> MESSAGE_ID_MAXIMUM"
    and "is_valid_part_numbering n c" "valid_part_text body" "letter = [a]" "33 \<le> a" "a < 128"
  shows "\<exists>t. res_bind (convert_username_to_field u) (\<lambda>username_field.
     res_bind (convert_message_id_to_field i) (\<lambda>message_id_field.
     res_bind (convert_part_numbering_to_field n c) (\<lambda>part_field.
     res_bind (convert_part_text_to_field body) (\<lambda>part_text_field.
       build_direct_message_text letter
         [username_field, message_id_field, part_field, part_text_field])))) = Inr t"
proof -
  obtain f where f: "convert_message_id_to_field i = Inr f" "plain_field 16 f"
    using assms by (elim convert_valid_message_id)
  obtain g where g: "convert_part_numbering_to_field n c = Inr g" "plain_field 5 g"
    using assms by (elim convert_valid_part_numbering)
  note plain = plain_field_bytes [OF plain_username [OF assms(1)]] plain_field_bytes [OF f(2)]
    plain_field_bytes [OF g(2)] valid_part_text_clean [OF assms(5)]
  have "build_direct_message_text letter [u, f, g, body] =
          Inr (PROTOCOL_PREFIX @ join FIELD_SEPARATOR (letter # [u, f, g, body]))"
    using assms plain by (intro build_direct_message_text_clean [of _ _ a]) auto
  then show ?thesis
    using assms f g
    by (simp add: convert_username_to_field_def convert_part_text_to_field_def)
qed

end
