(* ===== verification/Error_Replies.thy ===== *)
theory Error_Replies
  imports Formatting
begin

text \<open>
  Which error a text earns by itself, the reference an error repeats
  (\<^verbatim>\<open>protocol/error_replies.py\<close>), and the key that says which request a reply answers
  (\<^verbatim>\<open>messaging/reply_keys.py\<close>). The lemmas show that every error the server builds can be sent,
  that a reply has a key exactly when the text earns an answer, that no text the server itself
  writes earns one, and that two requests share a key only when they are the same request up to the
  letter case of the username.
\<close>

section \<open>The errors of the grammar\<close>

definition CORRELATION_FIELD_COUNTS_BY_REQUEST_TYPE :: "(pystr \<times> nat) list" where
  "CORRELATION_FIELD_COUNTS_BY_REQUEST_TYPE =
     [(client_type_letter ACCOUNT_REQUEST, 1), (client_type_letter QUERY_REQUEST, 1),
      (client_type_letter MESSAGE_PART_REQUEST, 2), (client_type_letter READ_REQUEST, 2),
      (client_type_letter REFRESH_REQUEST, 1)]"

definition is_upper_case_type_letter :: "pystr \<Rightarrow> bool" where
  "is_upper_case_type_letter character \<longleftrightarrow> (case character of [c] \<Rightarrow> is_upper c | _ \<Rightarrow> False)"

definition build_syntax_error_reference :: "pystr \<Rightarrow> pystr list \<Rightarrow> pystr option" where
  "build_syntax_error_reference request_type correlation_fields =
     (case map_of CORRELATION_FIELD_COUNTS_BY_REQUEST_TYPE request_type of
        None \<Rightarrow> None
      | Some required_field_count \<Rightarrow>
          if length correlation_fields < required_field_count then None
          else Some (join FIELD_SEPARATOR (take required_field_count correlation_fields)))"

definition build_syntax_error_reply :: "pystr \<Rightarrow> pystr list \<Rightarrow> server_message option" where
  "build_syntax_error_reply request_type correlation_fields =
     (let is_request = request_type \<in> set REQUEST_TYPES
      in if \<not> is_request \<and> request_type \<noteq> UNKNOWN_REQUEST_TYPE then None
         else Some (ErrorReply (KnownCode SYNTAX) request_type
                      (build_syntax_error_reference request_type correlation_fields)))"

definition build_version_error_reply :: "pystr \<Rightarrow> pystr \<Rightarrow> server_message option" where
  "build_version_error_reply version next_character =
     (if \<not> is_upper_case_type_letter next_character then None
      else Some (ErrorReply (KnownCode VERSION) UNKNOWN_REQUEST_TYPE (Some version)))"

definition build_unsupported_type_error_reply :: "pystr \<Rightarrow> server_message option" where
  "build_unsupported_type_error_reply message_type_letter =
     (if \<not> is_upper_case_type_letter message_type_letter then None
      else Some (ErrorReply (KnownCode UNSUPPORTED) message_type_letter None))"

fun build_grammar_error_reply :: "parsed_direct_message \<Rightarrow> server_message option" where
  "build_grammar_error_reply (ProtocolSyntaxError request_type correlation_fields) =
     build_syntax_error_reply request_type correlation_fields"
| "build_grammar_error_reply (UnsupportedVersion version next_character) =
     build_version_error_reply version next_character"
| "build_grammar_error_reply (UnknownMessageType message_type_letter) =
     build_unsupported_type_error_reply message_type_letter"
| "build_grammar_error_reply _ = None"

text \<open>
  The functions below take an \<^verbatim>\<open>AnswerableRequest\<close>; the two acknowledgements are outside that type,
  and \<^verbatim>\<open>assert_never\<close> raises for them.
\<close>

fun build_request_error_reference :: "client_message \<Rightarrow> pystr res" where
  "build_request_error_reference (AccountRequest username password) = Inr username"
| "build_request_error_reference (QueryRequest username) = Inr username"
| "build_request_error_reference (MessagePartRequest recipient_username message_id part_number part_count part_text) =
     Inr (recipient_username @ FIELD_SEPARATOR # str_of_int message_id)"
| "build_request_error_reference (ReadRequest sender_username message_id) =
     Inr (sender_username @ FIELD_SEPARATOR # str_of_int message_id)"
| "build_request_error_reference (RefreshRequest refresh_target) = Inr refresh_target"
| "build_request_error_reference _ = Inl ValueError"

definition build_request_error_reply :: "error_code \<Rightarrow> client_message \<Rightarrow> server_message res" where
  "build_request_error_reply error_code request =
     res_bind (build_request_error_reference request) (\<lambda>error_reference.
       Inr (ErrorReply (KnownCode error_code) (client_type_letter (message_type request)) (Some error_reference)))"

section \<open>Reply keys\<close>

definition REPLY_KEY_SEPARATOR :: codepoint where
  "REPLY_KEY_SEPARATOR = 58"

fun reply_key_fields :: "client_message \<Rightarrow> pystr list" where
  "reply_key_fields (AccountRequest username password) = [normalize_username_for_lookup username]"
| "reply_key_fields (QueryRequest username) = [normalize_username_for_lookup username]"
| "reply_key_fields (MessagePartRequest recipient_username message_id part_number part_count part_text) =
     [normalize_username_for_lookup recipient_username, str_of_int message_id]"
| "reply_key_fields (ReadRequest sender_username message_id) =
     [normalize_username_for_lookup sender_username, str_of_int message_id]"
| "reply_key_fields (RefreshRequest refresh_target) = [normalize_username_for_lookup refresh_target]"
| "reply_key_fields _ = []"

definition build_request_reply_key :: "client_message \<Rightarrow> pystr" where
  "build_request_reply_key request =
     join REPLY_KEY_SEPARATOR (client_type_letter (message_type request) # reply_key_fields request)"

definition build_unreferenced_reply_key :: "nat \<Rightarrow> pystr" where
  "build_unreferenced_reply_key inbox_row_id =
     UNKNOWN_REQUEST_TYPE @ REPLY_KEY_SEPARATOR # digits_of_nat inbox_row_id"

definition build_syntax_error_reply_key :: "pystr \<Rightarrow> pystr list \<Rightarrow> nat \<Rightarrow> pystr" where
  "build_syntax_error_reply_key request_type correlation_fields inbox_row_id =
     (case map_of CORRELATION_FIELD_COUNTS_BY_REQUEST_TYPE request_type of
        None \<Rightarrow> build_unreferenced_reply_key inbox_row_id
      | Some required_field_count \<Rightarrow>
          if length correlation_fields < required_field_count then build_unreferenced_reply_key inbox_row_id
          else join REPLY_KEY_SEPARATOR (request_type # map lower (take required_field_count correlation_fields)))"

fun build_reply_key_for_direct_message :: "parsed_direct_message \<Rightarrow> nat \<Rightarrow> pystr option" where
  "build_reply_key_for_direct_message (ClientMessage request) inbox_row_id =
     (if is_answerable_request request then Some (build_request_reply_key request) else None)"
| "build_reply_key_for_direct_message (ProtocolSyntaxError request_type correlation_fields) inbox_row_id =
     (if request_type \<in> set REQUEST_TYPES
      then Some (build_syntax_error_reply_key request_type correlation_fields inbox_row_id)
      else if request_type = UNKNOWN_REQUEST_TYPE then Some (build_unreferenced_reply_key inbox_row_id)
      else None)"
| "build_reply_key_for_direct_message (UnsupportedVersion version next_character) inbox_row_id =
     (if is_upper_case_type_letter next_character then Some (build_unreferenced_reply_key inbox_row_id) else None)"
| "build_reply_key_for_direct_message (UnknownMessageType message_type_letter) inbox_row_id =
     (if is_upper_case_type_letter message_type_letter then Some (build_unreferenced_reply_key inbox_row_id)
      else None)"
| "build_reply_key_for_direct_message _ inbox_row_id = None"

section \<open>Every error can be sent\<close>

lemma is_error_reference_plain:
  assumes "is_error_reference_field r"
  shows "utf8_length r \<le> 33" "\<not> contains_surrogate r" "NUL_CHARACTER \<notin> set r"
proof -
  consider u i where "r = u @ FIELD_SEPARATOR # i" "is_valid_username u" "is_message_id_field i"
    | "is_refresh_target_field r" | "is_version_number_field r"
    using assms by (auto simp: is_error_reference_field_def dest!: split_eqD split: list.splits)
  then have "utf8_length r \<le> 33 \<and> \<not> contains_surrogate r \<and> NUL_CHARACTER \<notin> set r"
  proof cases
    case 1
    then show ?thesis
      using plain_field_bytes [OF plain_username [of u]] plain_field_bytes [OF plain_message_id [of i]]
      by (auto simp: FIELD_SEPARATOR_def space_def is_surrogate_iff NUL_CHARACTER_def length_utf8_bytes_ascii)
  next
    case 2
    then show ?thesis using plain_field_bytes [OF plain_refresh_target [of r]] by auto
  next
    case 3
    then show ?thesis using plain_field_bytes [OF plain_version_number [of r]] by auto
  qed
  then show "utf8_length r \<le> 33" "\<not> contains_surrogate r" "NUL_CHARACTER \<notin> set r" by auto
qed

lemma format_error_reply_total:
  assumes "is_error_code_field (reply_code_text code)" "is_request_type_field type"
    and "\<And>r. reference = Some r \<Longrightarrow> is_error_reference_field r"
  shows "\<exists>t. format_error_reply code type reference = Inr t"
proof -
  note plain = plain_field_bytes [OF plain_error_code [OF assms(1)]]
    plain_field_bytes [OF plain_request_type [OF assms(2)]]
  let ?fs = "[reply_code_text code, type] @ (case reference of None \<Rightarrow> [] | Some r \<Rightarrow> [r])"
  have "build_direct_message_text (server_type_letter ERROR_REPLY) ?fs =
          Inr (PROTOCOL_PREFIX @ join FIELD_SEPARATOR (server_type_letter ERROR_REPLY # ?fs))"
    using plain is_error_reference_plain assms(3)
    by (intro build_direct_message_text_clean [of _ _ 101])
      (fastforce simp: str_def split: option.splits)+
  then show ?thesis
    using assms by (auto simp: format_error_reply_def split: option.splits)
qed

lemma format_known_error_total:
  assumes "is_request_type_field type" and "\<And>r. reference = Some r \<Longrightarrow> is_error_reference_field r"
  shows "\<exists>t. format_error_reply (KnownCode e) type reference = Inr t"
  using assms by (intro format_error_reply_total) (simp_all only: reply_code_text.simps is_error_code_field_text)

lemma username_reference: "is_valid_username u \<Longrightarrow> is_error_reference_field u"
  using plain_field_no_space [OF plain_username [of u]]
  by (simp add: is_error_reference_field_def text_simps is_refresh_target_field_def)

lemma refresh_target_reference: "is_refresh_target_field u \<Longrightarrow> is_error_reference_field u"
  using plain_field_no_space [OF plain_refresh_target [of u]]
  by (simp add: is_error_reference_field_def text_simps)

lemma version_reference: "is_version_number_field v \<Longrightarrow> is_error_reference_field v"
  using plain_field_no_space [OF plain_version_number [of v]]
  by (simp add: is_error_reference_field_def text_simps)

lemma peer_and_id_reference:
  "is_valid_username u \<Longrightarrow> is_message_id_field i \<Longrightarrow> is_error_reference_field (u @ FIELD_SEPARATOR # i)"
  using plain_field_no_space [OF plain_username [of u]] plain_field_no_space [OF plain_message_id [of i]]
  by (simp add: is_error_reference_field_def text_simps)

lemmas references = username_reference refresh_target_reference version_reference peer_and_id_reference

lemma upper_case_request_type: "is_upper_case_type_letter l \<Longrightarrow> is_request_type_field l"
  by (auto simp: is_upper_case_type_letter_def is_request_type_field_def split: list.splits)

lemma request_type_letter: "is_request_type_field (client_type_letter (message_type m))"
  by (cases m) (simp_all add: is_request_type_field_def str_def char_class_defs)


lemma request_types_iff:
  "t \<in> set REQUEST_TYPES \<longleftrightarrow> t \<in> {str ''A'', str ''Q'', str ''M'', str ''R'', str ''F''}"
  by (auto simp: REQUEST_TYPES_def)

lemma correlation_counts [simp]:
  "map_of CORRELATION_FIELD_COUNTS_BY_REQUEST_TYPE (str ''A'') = Some 1"
  "map_of CORRELATION_FIELD_COUNTS_BY_REQUEST_TYPE (str ''Q'') = Some 1"
  "map_of CORRELATION_FIELD_COUNTS_BY_REQUEST_TYPE (str ''M'') = Some 2"
  "map_of CORRELATION_FIELD_COUNTS_BY_REQUEST_TYPE (str ''R'') = Some 2"
  "map_of CORRELATION_FIELD_COUNTS_BY_REQUEST_TYPE (str ''F'') = Some 1"
  "map_of CORRELATION_FIELD_COUNTS_BY_REQUEST_TYPE (str ''?'') = None"
  by (simp_all add: CORRELATION_FIELD_COUNTS_BY_REQUEST_TYPE_def str_def)

lemma check_header_fields_correlation:
  assumes "map_of MESSAGE_LAYOUTS_BY_TYPE_LETTER letter = Some l" and "letter \<in> set REQUEST_TYPES"
    and "check_header_fields (header_fields l) fs [] = (b, cs)"
    and "map_of CORRELATION_FIELD_COUNTS_BY_REQUEST_TYPE letter = Some n" and "n \<le> length cs"
  shows "is_error_reference_field (join FIELD_SEPARATOR (take n cs))"
  using assms
  by (cases fs; cases "tl fs"; cases "tl (tl fs)")
    (auto simp: request_types_iff header_field_defs references split: if_splits)

text \<open>An upper-case letter is a client message, a lower-case letter a server message.\<close>

lemma built_message_kind:
  assumes "map_of MESSAGE_LAYOUTS_BY_TYPE_LETTER [c] = Some l" and "build_message l fs = Inr p"
  shows "is_upper c \<and> (\<exists>m. p = ClientMessage m \<and> client_type_letter (message_type m) = [c]) \<or>
         is_lower c \<and> (\<exists>m. p = ServerMessage m)"
  using assms
  by (auto simp: MESSAGE_LAYOUTS_BY_TYPE_LETTER_def build_message_defs res_bind_def str_def char_class_defs
      split: if_splits list.splits sum.splits)

lemma layout_result:
  assumes "map_of MESSAGE_LAYOUTS_BY_TYPE_LETTER [c] = Some l" and "parse_fields_by_layout [c] body l = Inr p"
  shows "(\<exists>cs. p = ProtocolSyntaxError [c] cs) \<or>
         is_upper c \<and> (\<exists>m. p = ClientMessage m \<and> client_type_letter (message_type m) = [c]) \<or>
         is_lower c \<and> (\<exists>m. p = ServerMessage m)"
  by (rule parse_fields_by_layout_cases [where l = l and letter = "[c]" and body = body])
    (use assms built_message_kind [OF assms(1)] in auto)

lemma parsed_syntax_error_reference:
  assumes "parse_direct_message_text t = Inr (ProtocolSyntaxError type cs)" and "type \<in> set REQUEST_TYPES"
    and "build_syntax_error_reference type cs = Some r"
  shows "is_error_reference_field r"
  using assms(1)
proof (cases rule: parse_direct_message_text_cases)
  case (layout c l body)
  show ?thesis
  proof (rule parse_fields_by_layout_cases [where l = l and letter = "[c]" and body = body])
    fix cs' b
    assume "check_header_fields (header_fields l)
        (if has_tail l then split_max FIELD_SEPARATOR (length (header_fields l)) body
         else split FIELD_SEPARATOR body) [] = (b, cs')"
      and "parse_fields_by_layout [c] body l = Inr (ProtocolSyntaxError [c] cs')"
    then show ?thesis
      using layout assms(2,3) check_header_fields_correlation [OF layout(2)]
      by (auto simp: build_syntax_error_reference_def split: option.splits if_splits)
  next
    fix fs
    assume "parse_fields_by_layout [c] body l = build_message l fs"
    then have "build_message l fs = Inr (ProtocolSyntaxError type cs)" using layout by simp
    from built_message_kind [OF layout(2) this] show ?thesis by simp
  qed
next
  case (error_reply body)
  then show ?thesis
    using assms(2)
    by (rule_tac parse_error_reply_fields_cases [of body]) (auto simp: REQUEST_TYPES_def str_def)
qed (use assms(2,3) in \<open>auto simp: build_syntax_error_reference_def request_types_iff UNKNOWN_REQUEST_TYPE_def split: option.splits if_splits\<close>)

lemma grammar_error_reply_formattable:
  assumes "parse_direct_message_text t = Inr p" and "build_grammar_error_reply p = Some m"
  shows "\<exists>t'. format_server_message m = Inr t'"
proof (cases p)
  case (ProtocolSyntaxError type cs)
  then have m: "m = ErrorReply (KnownCode SYNTAX) type (build_syntax_error_reference type cs)"
    and type: "type \<in> set REQUEST_TYPES \<or> type = UNKNOWN_REQUEST_TYPE"
    using assms(2) by (auto simp: build_syntax_error_reply_def split: if_splits)
  have "is_error_reference_field r" if "build_syntax_error_reference type cs = Some r" for r
    using that type parsed_syntax_error_reference [of t type cs r] assms(1) ProtocolSyntaxError
    by (auto simp: build_syntax_error_reference_def UNKNOWN_REQUEST_TYPE_def)
  moreover have "is_request_type_field type"
    using type by (auto simp: request_types_iff UNKNOWN_REQUEST_TYPE_def is_request_type_field_def
        str_def char_class_defs)
  ultimately show ?thesis
    unfolding m by (auto intro!: format_known_error_total)
next
  case (UnsupportedVersion v c)
  have "is_version_number_field v"
    using assms(1)
  proof (cases rule: parse_direct_message_text_cases)
    case (error_reply body)
    then show ?thesis
      using UnsupportedVersion by (cases rule: parse_error_reply_fields_cases [of body]) auto
  qed (use UnsupportedVersion layout_result in auto)
  then show ?thesis
    using UnsupportedVersion assms(2)
    by (auto simp: build_version_error_reply_def UNKNOWN_REQUEST_TYPE_def is_request_type_field_def str_def
        intro!: format_known_error_total version_reference split: if_splits)
next
  case (UnknownMessageType l)
  then show ?thesis
    using assms(2)
    by (auto simp: build_unsupported_type_error_reply_def intro!: format_known_error_total
        dest: upper_case_request_type split: if_splits)
qed (use assms(2) in auto)

text \<open>What the parser guarantees of the fields of a client message.\<close>

definition valid_message_id :: "int \<Rightarrow> bool" where
  "valid_message_id i \<longleftrightarrow> MESSAGE_ID_MINIMUM \<le> i \<and> i \<le> MESSAGE_ID_MAXIMUM"

fun client_fields_valid :: "client_message \<Rightarrow> bool" where
  "client_fields_valid (AccountRequest u p) \<longleftrightarrow> is_valid_username u \<and> is_tail_field p"
| "client_fields_valid (QueryRequest u) \<longleftrightarrow> is_valid_username u"
| "client_fields_valid (MessagePartRequest u i n c p) \<longleftrightarrow>
     is_valid_username u \<and> valid_message_id i \<and> 1 \<le> n \<and> n \<le> 99 \<and> 1 \<le> c \<and> c \<le> 99 \<and> is_tail_field p"
| "client_fields_valid (DeliveryAcknowledgement u i s) \<longleftrightarrow>
     is_valid_username u \<and> valid_message_id i \<and> is_received_set_field s"
| "client_fields_valid (ReadRequest u i) \<longleftrightarrow> is_valid_username u \<and> valid_message_id i"
| "client_fields_valid (ReceiptAcknowledgement u i l) \<longleftrightarrow> is_valid_username u \<and> valid_message_id i"
| "client_fields_valid (RefreshRequest r) \<longleftrightarrow> is_refresh_target_field r"

lemma valid_message_id_field: "is_message_id_field f \<Longrightarrow> valid_message_id (int_of_digits f)"
  using int_of_digits_bounds [of 15 f]
  by (simp add: is_message_id_field_def valid_message_id_def protocol_constants)

lemma read_part_field_bounds:
  assumes "read_part_field f = Inr (n, c)"
  shows "1 \<le> n \<and> n \<le> 99 \<and> 1 \<le> c \<and> c \<le> 99"
proof -
  from assms obtain a b where ab: "match_part_field f = Some (a, b)"
    and "n = int_of_digits a" "c = int_of_digits b"
    by (auto simp: read_part_field_def split: option.splits)
  with match_part_field_Some [OF ab] int_of_digits_bounds [of 1 a] int_of_digits_bounds [of 1 b]
  show ?thesis by simp
qed

lemma built_client_message_valid:
  assumes "map_of MESSAGE_LAYOUTS_BY_TYPE_LETTER letter = Some l"
    and "list_all2 (\<lambda>h f. matches_grammar h f) (header_fields l) (take (length (header_fields l)) fs)"
    and "length fs = length (header_fields l) + (if has_tail l then 1 else 0)"
    and "has_tail l \<Longrightarrow> is_tail_field (last fs)"
    and "build_message l fs = Inr (ClientMessage m)"
  shows "client_fields_valid m"
  using assms
  by (auto simp: MESSAGE_LAYOUTS_BY_TYPE_LETTER_def layout_fields res_bind_eq_Inr valid_message_id_field
      dest!: read_part_field_bounds split: if_splits)

lemma parsed_client_message_valid:
  assumes "parse_direct_message_text t = Inr (ClientMessage m)"
  shows "client_fields_valid m"
  using assms
proof (cases rule: parse_direct_message_text_cases)
  case (layout c l body)
  show ?thesis
    by (rule parse_fields_by_layout_cases [where l = l and letter = "[c]" and body = body])
      (use layout built_client_message_valid [OF layout(2)] in auto)
next
  case (error_reply body)
  then show ?thesis
    by (cases rule: parse_error_reply_fields_cases [of body]) auto
qed auto

lemma message_id_field_of_valid: "valid_message_id i \<Longrightarrow> is_message_id_field (str_of_int i)"
  using message_id_field.convert_matches [of i "str_of_int i"]
  by (simp add: convert_message_id_to_field_def valid_message_id_def)

lemma request_error_reference_valid:
  assumes "client_fields_valid m" and "is_answerable_request m"
  obtains r where "build_request_error_reference m = Inr r" and "is_error_reference_field r"
  using assms
  by (cases m) (auto simp: references message_id_field_of_valid)

lemma request_error_formattable:
  assumes "client_fields_valid m" and "is_answerable_request m"
  obtains reply t where "build_request_error_reply e m = Inr reply" and "format_server_message reply = Inr t"
proof -
  obtain r where r: "build_request_error_reference m = Inr r" "is_error_reference_field r"
    using assms by (elim request_error_reference_valid)
  obtain t where "format_error_reply (KnownCode e) (client_type_letter (message_type m)) (Some r) = Inr t"
    using format_known_error_total [OF request_type_letter, of "Some r" e m] r(2) by auto
  then show thesis
    using r(1) that by (simp add: build_request_error_reply_def)
qed

section \<open>Who is answered\<close>

lemma reply_key_iff_answered:
  "build_reply_key_for_direct_message p inbox_row_id \<noteq> None \<longleftrightarrow>
     build_grammar_error_reply p \<noteq> None \<or> (\<exists>m. p = ClientMessage m \<and> is_answerable_request m)"
  by (cases p)
    (auto simp: build_syntax_error_reply_def build_version_error_reply_def build_unsupported_type_error_reply_def)

lemma reply_key_separator_free:
  assumes "client_fields_valid m" and "f \<in> set (client_type_letter (message_type m) # reply_key_fields m)"
  shows "REPLY_KEY_SEPARATOR \<notin> set f"
proof -
  have u: "58 \<notin> set (lower u)" if "is_valid_username u" for u
    using that
    by (auto simp: is_valid_username_def list_all_iff lower_def lower_char_def is_username_character_def
        char_class_defs split: if_splits)
  have t: "58 \<notin> set (lower r)" if "is_refresh_target_field r" for r
    using that u [of r] by (auto simp: is_refresh_target_field_def protocol_constants lower_def lower_char_def
        char_class_defs)
  have i: "58 \<notin> set (str_of_int i)" if "valid_message_id i" for i
    using plain_message_id [OF message_id_field_of_valid [OF that]]
      is_number_text_digits(3) [of 15 "str_of_int i"] message_id_field_of_valid [OF that]
    by (auto simp: is_message_id_field_def MESSAGE_ID_MAXIMUM_DIGITS_def char_class_defs)
  show ?thesis
    using assms
    by (cases m) (auto simp: u t i REPLY_KEY_SEPARATOR_def normalize_username_for_lookup_def str_def)
qed

lemma client_type_letter_inject [simp]: "client_type_letter a = client_type_letter b \<longleftrightarrow> a = b"
  by (cases a; cases b) (simp_all add: str_def)

lemma split_request_reply_key:
  "client_fields_valid m \<Longrightarrow>
     split REPLY_KEY_SEPARATOR (build_request_reply_key m) =
       client_type_letter (message_type m) # reply_key_fields m"
  unfolding build_request_reply_key_def
  by (rule split_join) (use reply_key_separator_free [of m] in blast)+

lemma request_reply_key_inject:
  assumes "client_fields_valid m" "client_fields_valid m'"
  shows "build_request_reply_key m = build_request_reply_key m' \<longleftrightarrow>
           message_type m = message_type m' \<and> reply_key_fields m = reply_key_fields m'"
proof
  assume "build_request_reply_key m = build_request_reply_key m'"
  then show "message_type m = message_type m' \<and> reply_key_fields m = reply_key_fields m'"
    using split_request_reply_key [OF assms(1)] split_request_reply_key [OF assms(2)] by simp
qed (simp add: build_request_reply_key_def)

text \<open>Nothing the server writes earns an answer from a server.\<close>

lemma server_text_never_answered:
  assumes "format_server_message m = Inr t"
  shows "\<exists>p. parse_direct_message_text t = Inr p \<and> build_grammar_error_reply p = None \<and>
             build_reply_key_for_direct_message p inbox_row_id = None"
  using format_server_message_parses [OF assms] by simp

end
