(* ===== verification/Data_Model.thy ===== *)
theory Data_Model
  imports Complex_Main Tables Error_Replies
begin

text \<open>
  The rows of \<^verbatim>\<open>directory/models.py\<close> and \<^verbatim>\<open>messaging/models.py\<close>: one record per model with its fields, one
  datatype per \<^verbatim>\<open>TextChoices\<close>, a nullable column as an \<open>option\<close>, a foreign key as the key of the row it
  names, and the check constraints of every \<^verbatim>\<open>Meta\<close> class as predicates. A \<^verbatim>\<open>DateTimeField\<close> is a number
  of microseconds since the Unix epoch. The database is the record of the tables.
  Every table is an interpretation of the table contract.
\<close>

type_synonym datetime = int

section \<open>Accounts and contacts\<close>

record user =
  user_id :: nat
  user_username :: pystr
  password_hash :: pystr
  user_created_at :: datetime

text \<open>The generated column: usernames are unique case-insensitively, and every lookup uses it.\<close>

definition username_lookup :: "user \<Rightarrow> pystr" where
  "username_lookup u = lower (user_username u)"

definition user_row_ok :: "user \<Rightarrow> bool" where
  "user_row_ok u \<longleftrightarrow> is_valid_username (user_username u)"

datatype contact_source = SOURCE_CARD | SOURCE_PAIRING

datatype node_sync_state = PENDING_ADD | ON_NODE | ADD_FAILED

record contact =
  contact_id :: nat
  public_key :: pystr
  contact_name :: pystr
  node_type :: int
  advert_timestamp :: int
  latitude_microdegrees :: int
  longitude_microdegrees :: int
  contact_source :: contact_source
  card_uri :: pystr
  added_at :: datetime
  contact_user_id :: "nat option"
  linked_at :: "datetime option"
  failed_sign_in_count :: nat
  failed_sign_in_window_started_at :: "datetime option"
  node_sync_state :: node_sync_state
  node_sync_error :: pystr
  node_synced_at :: "datetime option"
  node_name :: pystr
  node_out_path_length :: "int option"
  last_heard_at :: "datetime option"
  last_path_update_at :: "datetime option"

definition PUBLIC_KEY_PREFIX_LENGTH :: nat where
  "PUBLIC_KEY_PREFIX_LENGTH = 12"

definition public_key_prefix :: "contact \<Rightarrow> pystr" where
  "public_key_prefix c = take PUBLIC_KEY_PREFIX_LENGTH (public_key c)"

definition is_lower_hex :: "codepoint \<Rightarrow> bool" where
  "is_lower_hex c \<longleftrightarrow> is_digit c \<or> in_range 97 102 c"

definition contact_row_ok :: "contact \<Rightarrow> bool" where
  "contact_row_ok c \<longleftrightarrow>
     length (public_key c) = 64 \<and> list_all is_lower_hex (public_key c) \<and> node_type c = 1 \<and>
     (contact_user_id c = None \<longleftrightarrow> linked_at c = None)"

text \<open>\<^verbatim>\<open>str(contact)\<close>\<close>

definition contact_label_of :: "contact \<Rightarrow> pystr" where
  "contact_label_of c =
     (if contact_name c = [] then str ''unnamed'' else contact_name c) @ str '' ('' @ take 12 (public_key c) @ str '')''"

section \<open>Messages\<close>

definition PARTS_MASK_MAXIMUM :: int where
  "PARTS_MASK_MAXIMUM = push_bit (nat MAXIMUM_PART_COUNT) 1 - 1"

record message =
  message_pk :: nat
  sender_id :: nat
  sender_device_id :: "nat option"
  recipient_id :: nat
  client_message_id :: int
  part_count :: int
  part_texts :: "pystr option list"
  message_text :: "pystr option"
  message_created_at :: datetime
  last_part_at :: datetime
  accepted_at :: "datetime option"
  message_delivered_at :: "datetime option"
  message_read_at :: "datetime option"

definition message_row_ok :: "message \<Rightarrow> bool" where
  "message_row_ok m \<longleftrightarrow>
     MESSAGE_ID_MINIMUM \<le> client_message_id m \<and> client_message_id m \<le> MESSAGE_ID_MAXIMUM \<and>
     1 \<le> part_count m \<and> part_count m \<le> MAXIMUM_PART_COUNT \<and>
     part_count m = int (length (part_texts m)) \<and>
     (accepted_at m = None \<longleftrightarrow> message_text m = None) \<and>
     (message_delivered_at m \<noteq> None \<longrightarrow> accepted_at m \<noteq> None) \<and>
     (message_read_at m \<noteq> None \<longrightarrow> message_delivered_at m \<noteq> None)"

section \<open>Refresh sessions and deliveries\<close>

datatype refresh_session_state = SESSION_ACTIVE | SESSION_COMPLETED | SESSION_STOPPED | SESSION_CANCELLED

record refresh_session =
  session_id :: nat
  session_device_id :: nat
  peer_id :: nat
  session_state :: refresh_session_state
  requested_at :: datetime
  finished_at :: "datetime option"
  requested_for_all_peers :: bool
  messages_total :: nat
  requested_by_inbound_id :: "nat option"

datatype delivery_state =
    DELIVERY_PENDING | DELIVERY_QUEUED_FOR_REFRESH | DELIVERY_DELIVERED | DELIVERY_FAILED | DELIVERY_CANCELLED

fun delivery_state_text :: "delivery_state \<Rightarrow> pystr" where
  "delivery_state_text DELIVERY_PENDING = str ''pending''"
| "delivery_state_text DELIVERY_QUEUED_FOR_REFRESH = str ''queued_for_refresh''"
| "delivery_state_text DELIVERY_DELIVERED = str ''delivered''"
| "delivery_state_text DELIVERY_FAILED = str ''failed''"
| "delivery_state_text DELIVERY_CANCELLED = str ''cancelled''"

text \<open>\<^verbatim>\<open>failure_reason\<close> is blank or one of the two choices.\<close>

datatype failure_reason = NO_FAILURE | ATTEMPTS_EXHAUSTED | REFRESH_STOPPED

record delivery =
  delivery_id :: nat
  delivery_message_id :: nat
  delivery_device_id :: nat
  delivery_state :: delivery_state
  refresh_session_id :: "nat option"
  attempt_count :: nat
  maximum_attempts :: nat
  arm_generation :: nat
  next_attempt_at :: "datetime option"
  round_pending_parts_mask :: int
  parts_received_mask :: int
  round_started_at :: "datetime option"
  last_sent_at :: "datetime option"
  last_acknowledgement_received_at :: "datetime option"
  delivered_at :: "datetime option"
  read_at :: "datetime option"
  failed_at :: "datetime option"
  cancelled_at :: "datetime option"
  failure_reason :: failure_reason
  delivery_created_at :: datetime

definition delivery_row_ok :: "delivery \<Rightarrow> bool" where
  "delivery_row_ok d \<longleftrightarrow>
     0 \<le> round_pending_parts_mask d \<and> round_pending_parts_mask d \<le> PARTS_MASK_MAXIMUM \<and>
     0 \<le> parts_received_mask d \<and> parts_received_mask d \<le> PARTS_MASK_MAXIMUM \<and>
     (delivery_state d = DELIVERY_PENDING \<longrightarrow> next_attempt_at d \<noteq> None) \<and>
     (delivery_state d = DELIVERY_DELIVERED \<longrightarrow> delivered_at d \<noteq> None) \<and>
     (delivery_state d = DELIVERY_QUEUED_FOR_REFRESH \<longrightarrow> refresh_session_id d \<noteq> None)"

section \<open>Receipts\<close>

datatype receipt_state = RECEIPT_PENDING | RECEIPT_CONFIRMED | RECEIPT_FAILED | RECEIPT_CANCELLED

fun receipt_state_text :: "receipt_state \<Rightarrow> pystr" where
  "receipt_state_text RECEIPT_PENDING = str ''pending''"
| "receipt_state_text RECEIPT_CONFIRMED = str ''confirmed''"
| "receipt_state_text RECEIPT_FAILED = str ''failed''"
| "receipt_state_text RECEIPT_CANCELLED = str ''cancelled''"

definition DELIVERED_LEVEL :: int where
  "DELIVERED_LEVEL = 1"

definition READ_LEVEL :: int where
  "READ_LEVEL = 2"

record receipt =
  receipt_id :: nat
  receipt_message_id :: nat
  receipt_device_id :: nat
  target_level :: int
  confirmed_level :: int
  receipt_state :: receipt_state
  receipt_attempt_count :: nat
  receipt_maximum_attempts :: nat
  receipt_arm_generation :: nat
  round_pending :: bool
  receipt_next_attempt_at :: "datetime option"
  receipt_round_started_at :: "datetime option"
  receipt_last_sent_at :: "datetime option"
  last_confirmation_received_at :: "datetime option"
  receipt_failed_at :: "datetime option"
  receipt_cancelled_at :: "datetime option"
  receipt_created_at :: datetime
  receipt_updated_at :: datetime

definition receipt_row_ok :: "receipt \<Rightarrow> bool" where
  "receipt_row_ok r \<longleftrightarrow>
     (target_level r = DELIVERED_LEVEL \<or> target_level r = READ_LEVEL) \<and>
     0 \<le> confirmed_level r \<and> confirmed_level r \<le> target_level r \<and>
     (receipt_state r = RECEIPT_CANCELLED \<or>
      (receipt_state r = RECEIPT_CONFIRMED \<longleftrightarrow> confirmed_level r = target_level r)) \<and>
     (receipt_state r = RECEIPT_PENDING \<longrightarrow> receipt_next_attempt_at r \<noteq> None)"

section \<open>The traffic log\<close>

datatype classification =
    UNCLASSIFIED | REQUEST | ACKNOWLEDGEMENT | NOT_PROTOCOL | UNSUPPORTED_VERSION | SYNTAX_ERROR
  | SERVER_TYPE_IGNORED | UNKNOWN_SENDER | UNSUPPORTED_TEXT_TYPE

datatype processing_state = PROCESSING_RECEIVED | PROCESSING_PROCESSED | PROCESSING_FAILED

text \<open>The signal-to-noise ratio is only stored and shown; its float is an exact rational here.\<close>

record inbound =
  inbound_id :: nat
  received_at :: datetime
  sender_public_key_prefix :: pystr
  inbound_contact_id :: "nat option"
  inbound_contact_label :: pystr
  inbound_sender_timestamp :: int
  text_type :: int
  path_length :: int
  signal_to_noise_ratio :: "rat option"
  inbound_text :: pystr
  text_sha256 :: pystr
  duplicate_count :: nat
  last_duplicate_at :: "datetime option"
  inbound_classification :: classification
  inbound_request_type :: pystr
  inbound_processing_state :: processing_state
  processing_error :: pystr
  processed_at :: "datetime option"
  inbound_outcome_summary :: pystr
  inbound_reply_summary :: pystr
  route_reset_performed :: bool

datatype packet_purpose = PURPOSE_REPLY | PURPOSE_DELIVERY | PURPOSE_RECEIPT

datatype packet_state =
    PACKET_PREPARED | PACKET_QUEUED_ON_NODE | PACKET_NODE_ACKNOWLEDGED | PACKET_ACKNOWLEDGEMENT_TIMED_OUT
  | PACKET_REJECTED_BY_NODE | PACKET_OUTCOME_UNKNOWN

text \<open>\<^verbatim>\<open>route\<close> is blank until the node queued the packet.\<close>

datatype packet_route = NO_ROUTE | ROUTE_FLOOD | ROUTE_DIRECT

datatype route_reset_state =
    RESET_NOT_APPLICABLE | RESET_PENDING | RESET_PERFORMED | RESET_SKIPPED_PATH_UPDATE
  | RESET_SKIPPED_APPLICATION_EVIDENCE | RESET_SKIPPED_LATE_ACKNOWLEDGEMENT | RESET_DROPPED_BY_RESTART

record packet =
  packet_id :: nat
  packet_contact_id :: "nat option"
  packet_contact_label :: pystr
  packet_purpose :: packet_purpose
  packet_delivery_id :: "nat option"
  packet_part_number :: "int option"
  packet_receipt_id :: "nat option"
  packet_receipt_level :: "int option"
  packet_arm_generation :: "nat option"
  packet_attempt_number :: "nat option"
  packet_reply_key :: pystr
  packet_text :: pystr
  sender_timestamp :: int
  packet_state :: packet_state
  packet_route :: packet_route
  expected_acknowledgement_code :: pystr
  suggested_timeout_milliseconds :: "int option"
  prepared_at :: "datetime option"
  queued_at :: "datetime option"
  acknowledgement_deadline_at :: "datetime option"
  acknowledged_at :: "datetime option"
  round_trip_milliseconds :: "int option"
  node_error_code :: "int option"
  route_reset_state :: route_reset_state
  route_reset_decided_at :: "datetime option"
  connection_generation :: int

section \<open>The database\<close>

record db =
  users :: "user table"
  contacts :: "contact table"
  messages :: "message table"
  refresh_sessions :: "refresh_session table"
  deliveries :: "delivery table"
  receipts :: "receipt table"
  inbox :: "inbound table"
  packets :: "packet table"

definition empty_db :: db where
  "empty_db = \<lparr>users = empty_table, contacts = empty_table, messages = empty_table,
     refresh_sessions = empty_table, deliveries = empty_table, receipts = empty_table,
     inbox = empty_table, packets = empty_table\<rparr>"

interpretation user_table: keyed_table user_id "\<lambda>u n. u\<lparr>user_id := n\<rparr>"
  by unfold_locales simp

interpretation contact_table: keyed_table contact_id "\<lambda>c n. c\<lparr>contact_id := n\<rparr>"
  by unfold_locales simp

interpretation message_table: keyed_table message_pk "\<lambda>m n. m\<lparr>message_pk := n\<rparr>"
  by unfold_locales simp

interpretation session_table: keyed_table session_id "\<lambda>s n. s\<lparr>session_id := n\<rparr>"
  by unfold_locales simp

interpretation inbox_table: keyed_table inbound_id "\<lambda>i n. i\<lparr>inbound_id := n\<rparr>"
  by unfold_locales simp

interpretation packet_table: keyed_table packet_id "\<lambda>p n. p\<lparr>packet_id := n\<rparr>"
  by unfold_locales simp

definition tables_ok :: "db \<Rightarrow> bool" where
  "tables_ok db \<longleftrightarrow>
     keys_ok user_id (users db) \<and> keys_ok contact_id (contacts db) \<and> keys_ok message_pk (messages db) \<and>
     keys_ok session_id (refresh_sessions db) \<and> keys_ok delivery_id (deliveries db) \<and>
     keys_ok receipt_id (receipts db) \<and> keys_ok inbound_id (inbox db) \<and> keys_ok packet_id (packets db)"

lemma tables_ok_empty [simp]: "tables_ok empty_db"
  by (simp add: tables_ok_def empty_db_def)

text \<open>Lookups the services share.\<close>

definition find_user_by_lookup :: "pystr \<Rightarrow> db \<Rightarrow> user option" where
  "find_user_by_lookup name db =
     first_where (\<lambda>u. username_lookup u = normalize_username_for_lookup name) (users db)"

definition find_user :: "nat \<Rightarrow> db \<Rightarrow> user option" where
  "find_user i db = first_where (\<lambda>u. user_id u = i) (users db)"

definition find_contact :: "nat \<Rightarrow> db \<Rightarrow> contact option" where
  "find_contact i db = first_where (\<lambda>c. contact_id c = i) (contacts db)"

definition find_message :: "nat \<Rightarrow> db \<Rightarrow> message option" where
  "find_message i db = first_where (\<lambda>m. message_pk m = i) (messages db)"

text \<open>\<^verbatim>\<open>Contact.objects.filter(id=\<dots>).values_list("user_id", flat=True).first()\<close>: None for no row and for NULL.\<close>

definition device_user_id :: "nat \<Rightarrow> db \<Rightarrow> nat option" where
  "device_user_id i db = Option.bind (find_contact i db) contact_user_id"

text \<open>\<^verbatim>\<open>Contact.objects.filter(user_id=\<dots>).order_by("id").values_list("id", flat=True)\<close>\<close>

definition device_ids_of_user :: "nat \<Rightarrow> db \<Rightarrow> nat list" where
  "device_ids_of_user u db = map contact_id (select_where (\<lambda>c. contact_user_id c = Some u) (contacts db))"

lemma PARTS_MASK_MAXIMUM_eq: "PARTS_MASK_MAXIMUM = mask 10"
  by (simp add: PARTS_MASK_MAXIMUM_def MAXIMUM_PART_COUNT_def mask_eq_exp_minus_1 push_bit_1_eq)

end
