(* ===== verification/Retry_Schedule.thy ===== *)
theory Retry_Schedule
  imports Data_Model
begin

text \<open>
  The operator's retry strategy and the engine's timing (\<^verbatim>\<open>hoptalk_relay/relay_settings.py\<close>), the times
  they give (\<^verbatim>\<open>messaging/retry_schedule.py\<close>), and the transaction wrapper every service runs in
  (\<^verbatim>\<open>messaging/service_transactions.py\<close>, \<^verbatim>\<open>directory/contacts.py\<close>).
  Python's floats are exact rationals here, so a product of seconds is not rounded before
  \<^verbatim>\<open>timedelta\<close> rounds it to whole microseconds, half to even. \<^verbatim>\<open>get_relay_settings()\<close> is an argument.
\<close>

section \<open>Settings\<close>

record retry_strategy =
  strategy_maximum_attempts :: nat
  initial_pause_seconds :: rat
  backoff_multiplier :: rat
  maximum_pause_seconds :: rat
  delivered_receipt_delay_seconds :: rat

record pacing_settings =
  maximum_packets_awaiting_node_acknowledgement :: nat
  minimum_seconds_between_sends :: rat
  maximum_active_deliveries_per_device :: nat

record engine_timing_settings =
  minimum_acknowledgement_wait_seconds :: rat
  maximum_acknowledgement_wait_seconds :: rat
  unknown_acknowledgement_wait_seconds :: rat
  missing_parts_round_delay_seconds :: rat
  recent_path_update_seconds :: rat
  flood_arrival_reset_maximum_age_seconds :: rat
  reply_resend_maximum_age_seconds :: rat

record relay_settings =
  retry_strategy :: retry_strategy
  pacing :: pacing_settings
  engine_timing :: engine_timing_settings

definition default_engine_timing :: engine_timing_settings where
  "default_engine_timing =
     \<lparr>minimum_acknowledgement_wait_seconds = 3, maximum_acknowledgement_wait_seconds = 60,
      unknown_acknowledgement_wait_seconds = 10, missing_parts_round_delay_seconds = 5,
      recent_path_update_seconds = 30, flood_arrival_reset_maximum_age_seconds = 60,
      reply_resend_maximum_age_seconds = 60\<rparr>"

text \<open>The ranges \<^verbatim>\<open>load_relay_settings\<close> accepts: outside them it records a problem and refuses to start.\<close>

definition retry_strategy_ok :: "retry_strategy \<Rightarrow> bool" where
  "retry_strategy_ok s \<longleftrightarrow>
     1 \<le> strategy_maximum_attempts s \<and> strategy_maximum_attempts s \<le> 20 \<and>
     5 \<le> initial_pause_seconds s \<and> initial_pause_seconds s \<le> 3600 \<and>
     1 \<le> backoff_multiplier s \<and> backoff_multiplier s \<le> 4 \<and>
     5 \<le> maximum_pause_seconds s \<and> maximum_pause_seconds s \<le> 86400 \<and>
     initial_pause_seconds s \<le> maximum_pause_seconds s \<and>
     0 \<le> delivered_receipt_delay_seconds s \<and> delivered_receipt_delay_seconds s \<le> 300"

definition pacing_ok :: "pacing_settings \<Rightarrow> bool" where
  "pacing_ok p \<longleftrightarrow>
     2 \<le> maximum_packets_awaiting_node_acknowledgement p \<and> maximum_packets_awaiting_node_acknowledgement p \<le> 6 \<and>
     1 \<le> minimum_seconds_between_sends p \<and> minimum_seconds_between_sends p \<le> 30 \<and>
     1 \<le> maximum_active_deliveries_per_device p \<and> maximum_active_deliveries_per_device p \<le> 10"

definition default_settings :: relay_settings where
  "default_settings =
     \<lparr>retry_strategy = \<lparr>strategy_maximum_attempts = 6, initial_pause_seconds = 30, backoff_multiplier = 2,
        maximum_pause_seconds = 600, delivered_receipt_delay_seconds = 15\<rparr>,
      pacing = \<lparr>maximum_packets_awaiting_node_acknowledgement = 4, minimum_seconds_between_sends = 2,
        maximum_active_deliveries_per_device = 3\<rparr>,
      engine_timing = default_engine_timing\<rparr>"

section \<open>Times\<close>

text \<open>\<^verbatim>\<open>timedelta(seconds=x)\<close> in microseconds: the nearest integer, a tie to the even one.\<close>

definition round_half_even :: "rat \<Rightarrow> int" where
  "round_half_even x =
     (let n = \<lfloor>x\<rfloor>; d = x - of_int n
      in if d < 1 / 2 then n else if d > 1 / 2 then n + 1 else if even n then n else n + 1)"

definition timedelta_seconds :: "rat \<Rightarrow> int" where
  "timedelta_seconds x = round_half_even (x * 1000000)"

definition timedelta_minutes :: "int \<Rightarrow> int" where
  "timedelta_minutes n = n * 60 * 1000000"

definition timedelta_hours :: "int \<Rightarrow> int" where
  "timedelta_hours n = n * 3600 * 1000000"

definition SUGGESTED_TIMEOUT_SAFETY_FACTOR :: rat where
  "SUGGESTED_TIMEOUT_SAFETY_FACTOR = 12 / 10"

definition calculate_retry_pause :: "nat \<Rightarrow> retry_strategy \<Rightarrow> int" where
  "calculate_retry_pause attempt_number strategy =
     (let exponent = max attempt_number 1 - 1;
          pause_seconds = initial_pause_seconds strategy * backoff_multiplier strategy ^ exponent
      in timedelta_seconds (min pause_seconds (maximum_pause_seconds strategy)))"

definition calculate_acknowledgement_wait :: "relay_settings \<Rightarrow> int option \<Rightarrow> int" where
  "calculate_acknowledgement_wait S suggested_timeout =
     (case suggested_timeout of
        None \<Rightarrow> timedelta_seconds (unknown_acknowledgement_wait_seconds (engine_timing S))
      | Some milliseconds \<Rightarrow>
          let wait_seconds = of_int milliseconds / 1000 * SUGGESTED_TIMEOUT_SAFETY_FACTOR;
              clamped_wait_seconds = min (max wait_seconds (minimum_acknowledgement_wait_seconds (engine_timing S)))
                                         (maximum_acknowledgement_wait_seconds (engine_timing S))
          in timedelta_seconds clamped_wait_seconds)"

definition calculate_round_completion_due_time ::
  "relay_settings \<Rightarrow> nat \<Rightarrow> datetime option \<Rightarrow> datetime option \<Rightarrow> int option \<Rightarrow> datetime \<Rightarrow> datetime" where
  "calculate_round_completion_due_time S attempts round_started last_sent suggested_timeout now =
     (let base_time = (case (last_sent, round_started) of
                         (Some sent, Some started) \<Rightarrow> if sent \<ge> started then sent else now
                       | _ \<Rightarrow> now)
      in base_time + max (calculate_retry_pause attempts (retry_strategy S))
                         (calculate_acknowledgement_wait S suggested_timeout))"

definition calculate_missing_parts_round_time :: "relay_settings \<Rightarrow> datetime \<Rightarrow> datetime" where
  "calculate_missing_parts_round_time S now =
     now + timedelta_seconds (missing_parts_round_delay_seconds (engine_timing S))"

subsection \<open>Rounding\<close>

lemma round_half_even_of_int [simp]: "round_half_even (of_int n) = n"
  by (simp add: round_half_even_def)

lemma round_half_even_mono: "x \<le> y \<Longrightarrow> round_half_even x \<le> round_half_even y"
proof -
  assume "x \<le> y"
  then have fl: "\<lfloor>x\<rfloor> \<le> \<lfloor>y\<rfloor>" by (rule floor_mono)
  show ?thesis
  proof (cases "\<lfloor>x\<rfloor> = \<lfloor>y\<rfloor>")
    case True
    then show ?thesis using \<open>x \<le> y\<close> by (auto simp: round_half_even_def Let_def)
  next
    case False
    with fl show ?thesis by (auto simp: round_half_even_def Let_def)
  qed
qed

lemma timedelta_seconds_mono: "x \<le> y \<Longrightarrow> timedelta_seconds x \<le> timedelta_seconds y"
  unfolding timedelta_seconds_def by (rule round_half_even_mono) simp

lemma timedelta_seconds_of_int [simp]: "timedelta_seconds (of_int n) = n * 1000000"
proof -
  have "timedelta_seconds (of_int n) = round_half_even (of_int (n * 1000000))"
    by (simp add: timedelta_seconds_def)
  then show ?thesis by (simp only: round_half_even_of_int)
qed

lemma timedelta_seconds_numeral [simp]:
  "timedelta_seconds (numeral k) = numeral k * 1000000"
  "timedelta_seconds 0 = 0" "timedelta_seconds 1 = 1000000"
  using timedelta_seconds_of_int [of "numeral k"] timedelta_seconds_of_int [of 0] timedelta_seconds_of_int [of 1]
  by simp_all

lemma timedelta_seconds_bounds:
  "of_int a \<le> x \<Longrightarrow> a * 1000000 \<le> timedelta_seconds x"
  "x \<le> of_int b \<Longrightarrow> timedelta_seconds x \<le> b * 1000000"
  using timedelta_seconds_mono [of "of_int a" x] timedelta_seconds_mono [of x "of_int b"] by simp_all

subsection \<open>The pause grows to its limit\<close>

lemma retry_pause_mono:
  assumes "retry_strategy_ok s" "m \<le> n"
  shows "calculate_retry_pause m s \<le> calculate_retry_pause n s"
proof -
  have "backoff_multiplier s ^ (max m 1 - 1) \<le> backoff_multiplier s ^ (max n 1 - 1)"
    using assms by (intro power_increasing) (auto simp: retry_strategy_ok_def)
  then have "initial_pause_seconds s * backoff_multiplier s ^ (max m 1 - 1) \<le>
             initial_pause_seconds s * backoff_multiplier s ^ (max n 1 - 1)"
    using assms(1) by (intro mult_left_mono) (auto simp: retry_strategy_ok_def)
  then show ?thesis
    unfolding calculate_retry_pause_def Let_def by (intro timedelta_seconds_mono min.mono) auto
qed

lemma retry_pause_bounds:
  assumes "retry_strategy_ok s"
  shows "timedelta_seconds (initial_pause_seconds s) \<le> calculate_retry_pause n s"
    and "calculate_retry_pause n s \<le> timedelta_seconds (maximum_pause_seconds s)"
proof -
  have "1 \<le> backoff_multiplier s ^ (max n 1 - 1)"
    using assms by (intro one_le_power) (auto simp: retry_strategy_ok_def)
  then have "initial_pause_seconds s \<le> initial_pause_seconds s * backoff_multiplier s ^ (max n 1 - 1)"
    using assms mult_left_mono [of 1 "backoff_multiplier s ^ (max n 1 - 1)" "initial_pause_seconds s"]
    by (auto simp: retry_strategy_ok_def)
  then show "timedelta_seconds (initial_pause_seconds s) \<le> calculate_retry_pause n s"
    using assms unfolding calculate_retry_pause_def Let_def
    by (intro timedelta_seconds_mono) (auto simp: retry_strategy_ok_def)
  show "calculate_retry_pause n s \<le> timedelta_seconds (maximum_pause_seconds s)"
    unfolding calculate_retry_pause_def Let_def by (intro timedelta_seconds_mono) simp
qed

lemma acknowledgement_wait_bounds:
  assumes "engine_timing S = default_engine_timing"
  shows "3000000 \<le> calculate_acknowledgement_wait S t" "calculate_acknowledgement_wait S t \<le> 60000000"
proof -
  have "3000000 \<le> calculate_acknowledgement_wait S t \<and> calculate_acknowledgement_wait S t \<le> 60000000"
    using assms timedelta_seconds_bounds(1) [of 3] timedelta_seconds_bounds(2) [of _ 60]
    by (cases t) (auto simp: calculate_acknowledgement_wait_def default_engine_timing_def Let_def)
  then show "3000000 \<le> calculate_acknowledgement_wait S t" "calculate_acknowledgement_wait S t \<le> 60000000"
    by auto
qed

lemma completion_due_after_wait:
  "(case last_sent of Some sent \<Rightarrow> sent \<le> now | None \<Rightarrow> True) \<Longrightarrow>
     (case (last_sent, round_started) of
        (Some sent, Some started) \<Rightarrow> if started \<le> sent then sent else now | _ \<Rightarrow> now) +
       calculate_acknowledgement_wait S t \<le>
     calculate_round_completion_due_time S n round_started last_sent t now"
  by (auto simp: calculate_round_completion_due_time_def Let_def split: option.splits)

section \<open>Service transactions\<close>

text \<open>
  \<open>run\<close> gives the outcome of each attempt: the database may have changed between two attempts, so the
  second one may end differently. A failed attempt leaves nothing behind (it was rolled back).
\<close>

definition MAXIMUM_TRANSACTION_ATTEMPTS :: nat where
  "MAXIMUM_TRANSACTION_ATTEMPTS = 3"

fun is_retryable_error :: "py_error \<Rightarrow> bool" where
  "is_retryable_error LockedRowChangedError = True"
| "is_retryable_error (OperationalError retryable) = retryable"
| "is_retryable_error _ = False"

function retry_from :: "nat \<Rightarrow> (nat \<Rightarrow> 'a res) \<Rightarrow> 'a res" where
  "retry_from attempt_number run =
     (case run attempt_number of
        Inr result \<Rightarrow> Inr result
      | Inl e \<Rightarrow> if attempt_number \<ge> MAXIMUM_TRANSACTION_ATTEMPTS \<or> \<not> is_retryable_error e then Inl e
                 else retry_from (Suc attempt_number) run)"
  by auto
termination
  by (relation "measure (\<lambda>(n, _). MAXIMUM_TRANSACTION_ATTEMPTS - n)") auto

declare retry_from.simps [simp del]

definition run_with_deadlock_retries :: "bool \<Rightarrow> (nat \<Rightarrow> 'a res) \<Rightarrow> 'a res" where
  "run_with_deadlock_retries in_atomic_block run = (if in_atomic_block then run 1 else retry_from 1 run)"

lemma run_with_deadlock_retries_eq:
  "run_with_deadlock_retries False run =
     (case run 1 of Inr x \<Rightarrow> Inr x | Inl e \<Rightarrow> if \<not> is_retryable_error e then Inl e else
     (case run 2 of Inr x \<Rightarrow> Inr x | Inl e' \<Rightarrow> if \<not> is_retryable_error e' then Inl e' else run 3))"
  by (simp add: run_with_deadlock_retries_def retry_from.simps [of "Suc 0"]
      retry_from.simps [of "Suc (Suc 0)"] retry_from.simps [of "Suc (Suc (Suc 0))"] MAXIMUM_TRANSACTION_ATTEMPTS_def numeral_2_eq_2 numeral_3_eq_3
      split: sum.splits)

record locked_device =
  locked_device_id :: nat
  locked_user_id :: "nat option"

definition lock_device_for_key_share :: "nat \<Rightarrow> db \<Rightarrow> locked_device option" where
  "lock_device_for_key_share device db =
     map_option (\<lambda>c. \<lparr>locked_device_id = contact_id c, locked_user_id = contact_user_id c\<rparr>) (find_contact device db)"

end
