(* ===== verification/Deliveries.thy ===== *)
theory Deliveries
  imports Retry_Schedule
begin

text \<open>
  The state machine of one message's delivery to one device (\<^verbatim>\<open>messaging/deliveries.py\<close>). An operation
  takes the instance the caller locked and the database, and returns whether it changed the row, the
  refreshed instance and the database. The changes of an \<^verbatim>\<open>update\<close> are a function of the stored row.
  The step relation \<open>delivery_step\<close> is the abstract machine: the states, their transitions and the arm
  generation. The lemmas show that every operation implements it, that it keeps the row constraints and
  the part masks of the message, and that a stale instance changes nothing.
\<close>

definition NON_TERMINAL_DELIVERY_STATES :: "delivery_state list" where
  "NON_TERMINAL_DELIVERY_STATES = [DELIVERY_PENDING, DELIVERY_QUEUED_FOR_REFRESH, DELIVERY_FAILED]"

definition UNCONFIRMED_DELIVERY_STATES :: "delivery_state list" where
  "UNCONFIRMED_DELIVERY_STATES = [DELIVERY_PENDING, DELIVERY_QUEUED_FOR_REFRESH, DELIVERY_FAILED]"

section \<open>Creating deliveries\<close>

text \<open>A row with the model's default values.\<close>

definition new_delivery :: "relay_settings \<Rightarrow> nat \<Rightarrow> nat \<Rightarrow> datetime \<Rightarrow> delivery" where
  "new_delivery S message device now =
     \<lparr>delivery_id = 0, delivery_message_id = message, delivery_device_id = device,
      delivery_state = DELIVERY_PENDING, refresh_session_id = None, attempt_count = 0,
      maximum_attempts = strategy_maximum_attempts (retry_strategy S), arm_generation = 1,
      next_attempt_at = None, round_pending_parts_mask = 0, parts_received_mask = 0,
      round_started_at = None, last_sent_at = None, last_acknowledgement_received_at = None,
      delivered_at = None, read_at = None, failed_at = None, cancelled_at = None,
      failure_reason = NO_FAILURE, delivery_created_at = now\<rparr>"

definition insert_delivery :: "delivery \<Rightarrow> db \<Rightarrow> db" where
  "insert_delivery d db = db\<lparr>deliveries := insert_row (\<lambda>n. d\<lparr>delivery_id := n\<rparr>) (deliveries db)\<rparr>"

definition create_pending_delivery :: "relay_settings \<Rightarrow> nat \<Rightarrow> nat \<Rightarrow> datetime \<Rightarrow> db \<Rightarrow> db" where
  "create_pending_delivery S message device now =
     insert_delivery ((new_delivery S message device now)\<lparr>next_attempt_at := Some now\<rparr>)"

definition create_refresh_owned_delivery :: "relay_settings \<Rightarrow> nat \<Rightarrow> nat \<Rightarrow> nat \<Rightarrow> datetime \<Rightarrow> db \<Rightarrow> db" where
  "create_refresh_owned_delivery S message device session now =
     insert_delivery ((new_delivery S message device now)
       \<lparr>delivery_state := DELIVERY_QUEUED_FOR_REFRESH, refresh_session_id := Some session\<rparr>)"

section \<open>Changing a locked delivery\<close>

definition cas_delivery ::
  "delivery \<Rightarrow> delivery_state list \<Rightarrow> (delivery \<Rightarrow> delivery) \<Rightarrow> delivery table \<Rightarrow> bool \<times> delivery \<times> delivery table" where
  "cas_delivery = compare_and_set delivery_id delivery_state arm_generation"

definition update_locked_delivery ::
  "delivery \<Rightarrow> delivery_state list \<Rightarrow> (delivery \<Rightarrow> delivery) \<Rightarrow> db \<Rightarrow> bool \<times> delivery \<times> db" where
  "update_locked_delivery d from_states changes db =
     (let (was_updated, d', t) = cas_delivery d from_states changes (deliveries db)
      in (was_updated, d', db\<lparr>deliveries := t\<rparr>))"

definition start_delivery_round :: "delivery \<Rightarrow> int \<Rightarrow> datetime \<Rightarrow> db \<Rightarrow> (bool \<times> delivery \<times> db) res" where
  "start_delivery_round d parts now db =
     res_bind (calculate_all_parts_mask parts) (\<lambda>all_parts_mask.
       let parts_still_missing_mask = all_parts_mask AND NOT (parts_received_mask d)
       in Inr (update_locked_delivery d [DELIVERY_PENDING]
                 (\<lambda>r. r\<lparr>attempt_count := attempt_count r + 1, round_started_at := Some now,
                         round_pending_parts_mask := parts_still_missing_mask\<rparr>) db))"

definition complete_delivery_round ::
  "relay_settings \<Rightarrow> delivery \<Rightarrow> int option \<Rightarrow> datetime \<Rightarrow> db \<Rightarrow> bool \<times> delivery \<times> db" where
  "complete_delivery_round S d suggested_timeout now db =
     (let due_time = calculate_round_completion_due_time S (attempt_count d) (round_started_at d)
                       (last_sent_at d) suggested_timeout now
      in update_locked_delivery d [DELIVERY_PENDING]
           (\<lambda>r. r\<lparr>round_pending_parts_mask := 0, next_attempt_at := Some due_time\<rparr>) db)"

definition record_delivery_part_sent ::
  "relay_settings \<Rightarrow> delivery \<Rightarrow> int \<Rightarrow> int option \<Rightarrow> datetime \<Rightarrow> db \<Rightarrow> bool \<times> delivery \<times> db" where
  "record_delivery_part_sent S d part suggested_timeout now db =
     (let part_bit = push_bit (nat (part - 1)) 1;
          round_had_parts_to_send = round_pending_parts_mask d \<noteq> 0;
          (was_updated, d', db') = update_locked_delivery d [DELIVERY_PENDING]
            (\<lambda>r. r\<lparr>round_pending_parts_mask := round_pending_parts_mask r AND (PARTS_MASK_MAXIMUM XOR part_bit),
                    last_sent_at := Some now\<rparr>) db
      in if was_updated \<and> round_had_parts_to_send \<and> round_pending_parts_mask d' = 0
         then let (_, d'', db'') = complete_delivery_round S d' suggested_timeout now db' in (was_updated, d'', db'')
         else (was_updated, d', db'))"

definition find_last_round_packet_suggested_timeout :: "delivery \<Rightarrow> db \<Rightarrow> int option" where
  "find_last_round_packet_suggested_timeout d db =
     Option.bind
       (find (\<lambda>p. packet_delivery_id p = Some (delivery_id d) \<and> packet_arm_generation p = Some (arm_generation d) \<and>
                  packet_attempt_number p = Some (attempt_count d) \<and> packet_state p \<noteq> PACKET_PREPARED)
          (rev (rows (packets db))))
       suggested_timeout_milliseconds"

definition record_delivery_acknowledgement_time :: "delivery \<Rightarrow> datetime \<Rightarrow> db \<Rightarrow> delivery \<times> db" where
  "record_delivery_acknowledgement_time d now db =
     (d\<lparr>last_acknowledgement_received_at := Some now\<rparr>,
      db\<lparr>deliveries := update_where (\<lambda>r. delivery_id r = delivery_id d)
           (\<lambda>r. r\<lparr>last_acknowledgement_received_at := Some now\<rparr>) (deliveries db)\<rparr>)"

definition bring_next_round_forward :: "relay_settings \<Rightarrow> delivery \<Rightarrow> datetime \<Rightarrow> db \<Rightarrow> delivery \<times> db" where
  "bring_next_round_forward S d now db =
     (let missing_parts_round_time = calculate_missing_parts_round_time S now
      in if (case next_attempt_at d of None \<Rightarrow> True | Some t \<Rightarrow> t > missing_parts_round_time)
         then let (_, d', db') = update_locked_delivery d [DELIVERY_PENDING]
                    (\<lambda>r. r\<lparr>next_attempt_at := Some missing_parts_round_time\<rparr>) db
              in (d', db')
         else (d, db))"

definition record_incomplete_delivery_status ::
  "relay_settings \<Rightarrow> delivery \<Rightarrow> int \<Rightarrow> datetime \<Rightarrow> db \<Rightarrow> bool \<times> delivery \<times> db" where
  "record_incomplete_delivery_status S d received now db =
     (if delivery_state d \<noteq> DELIVERY_PENDING
      then update_locked_delivery d [DELIVERY_QUEUED_FOR_REFRESH, DELIVERY_FAILED]
             (\<lambda>r. r\<lparr>parts_received_mask := received\<rparr>) db
      else
        let round_had_parts_to_send = round_pending_parts_mask d \<noteq> 0;
            (was_updated, d1, db1) = update_locked_delivery d [DELIVERY_PENDING]
              (\<lambda>r. r\<lparr>parts_received_mask := received,
                      round_pending_parts_mask := round_pending_parts_mask r AND (PARTS_MASK_MAXIMUM XOR received)\<rparr>) db
        in if \<not> was_updated then (False, d1, db1)
           else
             let (d2, db2) = (if round_had_parts_to_send \<and> round_pending_parts_mask d1 = 0
                              then snd (complete_delivery_round S d1
                                          (find_last_round_packet_suggested_timeout d1 db1) now db1)
                              else (d1, db1));
                 (d3, db3) = (if round_pending_parts_mask d2 = 0 \<and> attempt_count d2 < maximum_attempts d2
                              then bring_next_round_forward S d2 now db2 else (d2, db2))
             in (True, d3, db3))"

definition mark_delivery_delivered ::
  "delivery \<Rightarrow> datetime \<Rightarrow> int option \<Rightarrow> bool \<Rightarrow> db \<Rightarrow> bool \<times> delivery \<times> db" where
  "mark_delivery_delivered d now received is_read db =
     update_locked_delivery d UNCONFIRMED_DELIVERY_STATES
       (\<lambda>r. let r1 = r\<lparr>delivery_state := DELIVERY_DELIVERED, delivered_at := Some now\<rparr>;
                r2 = (case received of None \<Rightarrow> r1 | Some m \<Rightarrow> r1\<lparr>parts_received_mask := m\<rparr>)
            in if is_read then r2\<lparr>read_at := Some now\<rparr> else r2) db"

definition record_delivery_read :: "delivery \<Rightarrow> datetime \<Rightarrow> db \<Rightarrow> bool \<times> delivery \<times> db" where
  "record_delivery_read d now db =
     (if read_at d \<noteq> None then (False, d, db)
      else update_locked_delivery d [DELIVERY_DELIVERED] (\<lambda>r. r\<lparr>read_at := Some now\<rparr>) db)"

definition fail_delivery_after_exhausted_attempts :: "delivery \<Rightarrow> datetime \<Rightarrow> db \<Rightarrow> bool \<times> delivery \<times> db" where
  "fail_delivery_after_exhausted_attempts d now db =
     update_locked_delivery d [DELIVERY_PENDING]
       (\<lambda>r. r\<lparr>delivery_state := DELIVERY_FAILED, failed_at := Some now, failure_reason := ATTEMPTS_EXHAUSTED\<rparr>) db"

definition take_delivery_into_refresh_session :: "delivery \<Rightarrow> nat \<Rightarrow> datetime \<Rightarrow> db \<Rightarrow> bool \<times> delivery \<times> db" where
  "take_delivery_into_refresh_session d session now db =
     (if delivery_state d = DELIVERY_PENDING \<and> refresh_session_id d \<noteq> None then (False, d, db)
      else update_locked_delivery d [DELIVERY_PENDING, DELIVERY_FAILED, DELIVERY_CANCELLED]
        (\<lambda>r. let r1 = r\<lparr>delivery_state := DELIVERY_QUEUED_FOR_REFRESH, refresh_session_id := Some session,
                         attempt_count := 0, arm_generation := arm_generation r + 1,
                         round_pending_parts_mask := 0, round_started_at := None, next_attempt_at := None\<rparr>;
                 r2 = (if delivery_state d = DELIVERY_FAILED
                       then r1\<lparr>failed_at := None, failure_reason := NO_FAILURE\<rparr> else r1)
             in if delivery_state d = DELIVERY_CANCELLED
                then r2\<lparr>cancelled_at := None, parts_received_mask := 0\<rparr> else r2) db)"

definition arm_refresh_session_head :: "relay_settings \<Rightarrow> delivery \<Rightarrow> datetime \<Rightarrow> db \<Rightarrow> bool \<times> delivery \<times> db" where
  "arm_refresh_session_head S d now db =
     update_locked_delivery d [DELIVERY_QUEUED_FOR_REFRESH]
       (\<lambda>r. r\<lparr>delivery_state := DELIVERY_PENDING, attempt_count := 0, arm_generation := arm_generation r + 1,
               round_pending_parts_mask := 0, maximum_attempts := strategy_maximum_attempts (retry_strategy S),
               next_attempt_at := Some now\<rparr>) db"

definition restart_refresh_session_head :: "relay_settings \<Rightarrow> delivery \<Rightarrow> datetime \<Rightarrow> db \<Rightarrow> bool \<times> delivery \<times> db" where
  "restart_refresh_session_head S d now db =
     (if refresh_session_id d = None then (False, d, db)
      else if attempt_count d = 0 then
        if (case next_attempt_at d of None \<Rightarrow> False | Some t \<Rightarrow> t \<le> now) then (False, d, db)
        else update_locked_delivery d [DELIVERY_PENDING] (\<lambda>r. r\<lparr>next_attempt_at := Some now\<rparr>) db
      else update_locked_delivery d [DELIVERY_PENDING]
        (\<lambda>r. r\<lparr>attempt_count := 0, arm_generation := arm_generation r + 1, round_pending_parts_mask := 0,
                maximum_attempts := strategy_maximum_attempts (retry_strategy S),
                next_attempt_at := Some now\<rparr>) db)"

definition fail_delivery_of_stopped_refresh :: "delivery \<Rightarrow> datetime \<Rightarrow> db \<Rightarrow> bool \<times> delivery \<times> db" where
  "fail_delivery_of_stopped_refresh d now db =
     update_locked_delivery d [DELIVERY_QUEUED_FOR_REFRESH]
       (\<lambda>r. r\<lparr>delivery_state := DELIVERY_FAILED, failed_at := Some now, failure_reason := REFRESH_STOPPED\<rparr>) db"

definition cancel_device_deliveries_for_relink :: "nat \<Rightarrow> datetime \<Rightarrow> db \<Rightarrow> nat \<times> db" where
  "cancel_device_deliveries_for_relink device now db =
     (let to_cancel = (\<lambda>d. delivery_device_id d = device \<and> delivery_state d \<in> set NON_TERMINAL_DELIVERY_STATES)
      in (count_where to_cancel (deliveries db),
          db\<lparr>deliveries := update_where to_cancel
               (\<lambda>r. r\<lparr>delivery_state := DELIVERY_CANCELLED, cancelled_at := Some now\<rparr>) (deliveries db)\<rparr>))"

section \<open>The abstract machine\<close>

inductive delivery_step :: "delivery_state \<times> nat \<Rightarrow> delivery_state \<times> nat \<Rightarrow> bool" where
  deliver: "s \<in> set UNCONFIRMED_DELIVERY_STATES \<Longrightarrow> delivery_step (s, g) (DELIVERY_DELIVERED, g)"
| exhaust: "delivery_step (DELIVERY_PENDING, g) (DELIVERY_FAILED, g)"
| stop: "delivery_step (DELIVERY_QUEUED_FOR_REFRESH, g) (DELIVERY_FAILED, g)"
| take_over: "s \<in> {DELIVERY_PENDING, DELIVERY_FAILED, DELIVERY_CANCELLED} \<Longrightarrow>
    delivery_step (s, g) (DELIVERY_QUEUED_FOR_REFRESH, g + 1)"
| arm: "delivery_step (DELIVERY_QUEUED_FOR_REFRESH, g) (DELIVERY_PENDING, g + 1)"
| restart: "delivery_step (DELIVERY_PENDING, g) (DELIVERY_PENDING, g + 1)"
| cancel: "s \<in> set NON_TERMINAL_DELIVERY_STATES \<Longrightarrow> delivery_step (s, g) (DELIVERY_CANCELLED, g)"

lemmas delivery_states_defs = UNCONFIRMED_DELIVERY_STATES_def NON_TERMINAL_DELIVERY_STATES_def

inductive_cases delivery_stepE: "delivery_step x y"
inductive_simps delivery_step_delivered: "delivery_step (DELIVERY_DELIVERED, g) y"
inductive_simps delivery_step_cancelled: "delivery_step (DELIVERY_CANCELLED, g) y"

lemma delivery_steps_generation: "delivery_step\<^sup>*\<^sup>* x y \<Longrightarrow> snd x \<le> snd y"
  by (induction rule: rtranclp_induct) (auto elim!: delivery_stepE)

text \<open>Delivered is terminal: a delivery that reached it stays there, in the same arm.\<close>

lemma delivered_terminal: "delivery_step\<^sup>*\<^sup>* (DELIVERY_DELIVERED, g) y \<Longrightarrow> y = (DELIVERY_DELIVERED, g)"
  by (induction rule: rtranclp_induct) (auto simp: delivery_step_delivered delivery_states_defs)

text \<open>
  Within one arm nothing leads back to pending, so a row that is pending in the arm a packet was prepared
  in has been pending in that arm ever since.
\<close>

lemma delivery_step_same_generation: "delivery_step (s, g) (t, g) \<Longrightarrow> t \<noteq> DELIVERY_PENDING \<and> t \<noteq> DELIVERY_QUEUED_FOR_REFRESH"
  by (auto elim!: delivery_stepE)

lemma pending_in_arm:
  assumes "delivery_step\<^sup>*\<^sup>* x y" "y = (DELIVERY_PENDING, snd x)"
  shows "x = y"
  using assms
proof (induction rule: rtranclp_induct)
  case (step y z)
  then have "snd y = snd z"
    using delivery_steps_generation [of x y] by (auto elim!: delivery_stepE)
  then show ?case
    using step delivery_step_same_generation [of "fst y" "snd y" "fst z"] by (cases y; cases z) auto
qed simp

definition delivery_evolves :: "delivery \<Rightarrow> delivery \<Rightarrow> bool" where
  "delivery_evolves d d' \<longleftrightarrow>
     delivery_id d' = delivery_id d \<and> delivery_message_id d' = delivery_message_id d \<and>
     delivery_device_id d' = delivery_device_id d \<and> delivery_created_at d' = delivery_created_at d \<and>
     delivery_step\<^sup>*\<^sup>* (delivery_state d, arm_generation d) (delivery_state d', arm_generation d')"

lemma delivery_evolves_refl [simp]: "delivery_evolves d d"
  by (simp add: delivery_evolves_def)

lemma delivery_evolves_trans: "delivery_evolves a b \<Longrightarrow> delivery_evolves b c \<Longrightarrow> delivery_evolves a c"
  unfolding delivery_evolves_def by (metis (no_types, lifting) rtranclp_trans)

lemma deliveries_evolve_refl: "table_evolves delivery_evolves t t"
  by (simp add: table_evolves_refl)

lemma deliveries_evolve_trans:
  "table_evolves delivery_evolves t u \<Longrightarrow> table_evolves delivery_evolves u v \<Longrightarrow> table_evolves delivery_evolves t v"
  using table_evolves_trans [of delivery_evolves t u v] delivery_evolves_trans by blast

interpretation delivery_table: locked_row_table delivery_id "\<lambda>d n. d\<lparr>delivery_id := n\<rparr>" delivery_state
  arm_generation cas_delivery
  by unfold_locales (simp_all add: cas_delivery_def)

section \<open>What a delivery row keeps\<close>

text \<open>
  Besides the check constraints: the masks only have bits of the message's \<open>n\<close> parts, a complete set means
  delivered, and no more rounds were started than allowed.
\<close>

definition delivery_fits :: "int \<Rightarrow> delivery \<Rightarrow> bool" where
  "delivery_fits n d \<longleftrightarrow>
     delivery_row_ok d \<and>
     round_pending_parts_mask d \<le> mask (nat n) \<and> parts_received_mask d \<le> mask (nat n) \<and>
     (delivery_state d \<noteq> DELIVERY_DELIVERED \<longrightarrow> parts_received_mask d \<noteq> mask (nat n)) \<and>
     attempt_count d \<le> maximum_attempts d"

lemma mask_le_parts_mask_maximum: "n \<le> 10 \<Longrightarrow> (mask n :: int) \<le> PARTS_MASK_MAXIMUM"
  using power_increasing [of n 10 "2 :: int"] by (simp add: PARTS_MASK_MAXIMUM_eq mask_eq_exp_minus_1)

lemma parts_mask_nonzero: "1 \<le> n \<Longrightarrow> (mask (nat n) :: int) \<noteq> 0"
  by simp

lemma and_mask_bounds: "0 \<le> a \<Longrightarrow> a \<le> (m :: int) \<Longrightarrow> 0 \<le> a AND b \<and> a AND b \<le> m"
  using AND_upper1 [of a b] by auto

lemma mask_and_not_bounds: "0 \<le> (mask n :: int) AND b \<and> (mask n :: int) AND b \<le> mask n"
  by (rule and_mask_bounds) simp_all

lemma new_delivery_fits:
  assumes "1 \<le> n" "n \<le> 10"
  shows "delivery_fits n ((new_delivery S message device now)\<lparr>next_attempt_at := Some t, delivery_id := i\<rparr>)"
    and "delivery_fits n ((new_delivery S message device now)
           \<lparr>delivery_state := DELIVERY_QUEUED_FOR_REFRESH, refresh_session_id := Some s, delivery_id := i\<rparr>)"
  using assms
  by (simp_all add: delivery_fits_def delivery_row_ok_def new_delivery_def PARTS_MASK_MAXIMUM_eq)

section \<open>Every operation implements the machine\<close>

text \<open>
  \<open>deliveries_move db db'\<close>: only the deliveries table changed, its rows moved along the machine, and its keys
  stay in order.
\<close>

definition deliveries_move :: "db \<Rightarrow> db \<Rightarrow> bool" where
  "deliveries_move db db' \<longleftrightarrow>
     (\<exists>t. db' = db\<lparr>deliveries := t\<rparr> \<and> table_evolves delivery_evolves (deliveries db) t \<and>
          (keys_ok delivery_id (deliveries db) \<longrightarrow> keys_ok delivery_id t))"

lemma deliveries_moveI:
  "db' = db\<lparr>deliveries := t\<rparr> \<Longrightarrow> table_evolves delivery_evolves (deliveries db) t \<Longrightarrow>
     (keys_ok delivery_id (deliveries db) \<Longrightarrow> keys_ok delivery_id t) \<Longrightarrow> deliveries_move db db'"
  by (auto simp: deliveries_move_def)

lemma deliveries_move_refl [simp]: "deliveries_move db db"
  by (rule deliveries_moveI [where t = "deliveries db"]) (simp_all add: deliveries_evolve_refl)

lemma deliveries_move_trans [trans]: "deliveries_move a b \<Longrightarrow> deliveries_move b c \<Longrightarrow> deliveries_move a c"
  using deliveries_evolve_trans [of "deliveries a" "deliveries b" "deliveries c"]
  by (auto simp: deliveries_move_def intro!: exI [of _ "deliveries c"])

lemma deliveries_move_insert: "deliveries_move db (insert_delivery d db)"
  unfolding insert_delivery_def
  by (rule deliveries_moveI [OF refl]) (simp_all add: table_evolves_insert delivery_table.keys_insert)

lemma deliveries_move_tables:
  assumes "deliveries_move db db'"
  shows "users db' = users db" "contacts db' = contacts db" "messages db' = messages db"
    "refresh_sessions db' = refresh_sessions db" "receipts db' = receipts db" "inbox db' = inbox db"
    "packets db' = packets db"
    "table_evolves delivery_evolves (deliveries db) (deliveries db')"
    "keys_ok delivery_id (deliveries db) \<Longrightarrow> keys_ok delivery_id (deliveries db')"
  using assms by (auto simp: deliveries_move_def)

lemma update_locked_delivery_moves:
  assumes "update_locked_delivery d from_states f db = (b, d', db')"
    and "\<And>r. delivery_id (f r) = delivery_id r"
    and "\<And>r. delivery_state r \<in> set from_states \<Longrightarrow> delivery_evolves r (f r)"
  shows "deliveries_move db db'"
proof -
  obtain t where cas: "cas_delivery d from_states f (deliveries db) = (b, d', t)" and db': "db' = db\<lparr>deliveries := t\<rparr>"
    using assms(1) by (auto simp: update_locked_delivery_def split: prod.splits)
  have "table_evolves delivery_evolves (deliveries db) t"
    by (rule delivery_table.cas_evolves [OF _ _ cas]) (auto intro: assms(3))
  then show ?thesis
    using delivery_table.cas_keys [OF _ assms(2) cas] by (intro deliveries_moveI [OF db'])
qed

text \<open>
  The rows of the table fit their messages, whose part counts are \<open>pc\<close>.
\<close>

definition deliveries_fit :: "(nat \<Rightarrow> int) \<Rightarrow> db \<Rightarrow> bool" where
  "deliveries_fit pc db \<longleftrightarrow> all_rows (\<lambda>d. delivery_fits (pc (delivery_message_id d)) d) (deliveries db)"

lemma update_locked_delivery_fits:
  assumes "update_locked_delivery d from_states f db = (b, d', db')" and "deliveries_fit pc db"
    and "\<And>r. delivery_message_id (f r) = delivery_message_id r"
    and "\<And>r. r \<in> set (rows (deliveries db)) \<Longrightarrow> delivery_fits (pc (delivery_message_id r)) r \<Longrightarrow>
      delivery_id r = delivery_id d \<Longrightarrow> delivery_state r = delivery_state d \<Longrightarrow>
      delivery_state d \<in> set from_states \<Longrightarrow> delivery_fits (pc (delivery_message_id r)) (f r)"
  shows "deliveries_fit pc db'"
proof -
  obtain t where cas: "cas_delivery d from_states f (deliveries db) = (b, d', t)" and db': "db' = db\<lparr>deliveries := t\<rparr>"
    using assms(1) by (auto simp: update_locked_delivery_def split: prod.splits)
  have "all_rows (\<lambda>d. delivery_fits (pc (delivery_message_id d)) d) t"
    by (rule delivery_table.cas_all_rows [OF _ _ cas]) (use assms in \<open>auto simp: deliveries_fit_def\<close>)
  then show ?thesis using db' by (simp add: deliveries_fit_def)
qed

lemma update_locked_delivery_row:
  assumes "keys_ok delivery_id (deliveries db)" "d \<in> set (rows (deliveries db))" "delivery_state d \<in> set from_states"
  shows "update_locked_delivery d from_states f db =
    (True, f d, db\<lparr>deliveries := update_where (\<lambda>r. delivery_id r = delivery_id d) f (deliveries db)\<rparr>)"
  using delivery_table.cas_locked [OF assms] by (simp add: update_locked_delivery_def)

lemma update_locked_delivery_stale:
  "(\<And>r. r \<in> set (rows (deliveries db)) \<Longrightarrow> delivery_id r = delivery_id d \<Longrightarrow> arm_generation r \<noteq> arm_generation d) \<Longrightarrow>
     update_locked_delivery d from_states f db = (False, d, db)"
  using delivery_table.cas_stale [of "deliveries db" d from_states f] by (simp add: update_locked_delivery_def)

lemma update_locked_delivery_wrong_state:
  "delivery_state d \<notin> set from_states \<Longrightarrow> update_locked_delivery d from_states f db = (False, d, db)"
  by (simp add: update_locked_delivery_def delivery_table.cas_wrong_state)

named_theorems delivery_moves
named_theorems delivery_fit_rules

lemma delivery_steps [simp]:
  "delivery_step\<^sup>*\<^sup>* (DELIVERY_PENDING, g) (DELIVERY_QUEUED_FOR_REFRESH, Suc g)"
  "delivery_step\<^sup>*\<^sup>* (DELIVERY_FAILED, g) (DELIVERY_QUEUED_FOR_REFRESH, Suc g)"
  "delivery_step\<^sup>*\<^sup>* (DELIVERY_CANCELLED, g) (DELIVERY_QUEUED_FOR_REFRESH, Suc g)"
  "delivery_step\<^sup>*\<^sup>* (DELIVERY_QUEUED_FOR_REFRESH, g) (DELIVERY_PENDING, Suc g)"
  "delivery_step\<^sup>*\<^sup>* (DELIVERY_PENDING, g) (DELIVERY_PENDING, Suc g)"
  "delivery_step\<^sup>*\<^sup>* (DELIVERY_PENDING, g) (DELIVERY_FAILED, g)"
  "delivery_step\<^sup>*\<^sup>* (DELIVERY_QUEUED_FOR_REFRESH, g) (DELIVERY_FAILED, g)"
  "s \<in> set UNCONFIRMED_DELIVERY_STATES \<Longrightarrow> delivery_step\<^sup>*\<^sup>* (s, g) (DELIVERY_DELIVERED, g)"
  "s \<in> set NON_TERMINAL_DELIVERY_STATES \<Longrightarrow> delivery_step\<^sup>*\<^sup>* (s, g) (DELIVERY_CANCELLED, g)"
  using delivery_step.intros by (force intro!: r_into_rtranclp)+

lemmas delivery_op_defs =
  complete_delivery_round_def mark_delivery_delivered_def record_delivery_read_def
  fail_delivery_after_exhausted_attempts_def take_delivery_into_refresh_session_def
  arm_refresh_session_head_def restart_refresh_session_head_def fail_delivery_of_stopped_refresh_def

lemma start_delivery_round_moves [delivery_moves]:
  "start_delivery_round d parts now db = Inr (b, d', db') \<Longrightarrow> deliveries_move db db'"
  by (auto simp: start_delivery_round_def res_bind_eq_Inr delivery_evolves_def
      elim!: update_locked_delivery_moves)

lemma complete_delivery_round_moves [delivery_moves]:
  "complete_delivery_round S d t now db = (b, d', db') \<Longrightarrow> deliveries_move db db'"
  by (auto simp: complete_delivery_round_def Let_def delivery_evolves_def elim!: update_locked_delivery_moves)

lemma mark_delivery_delivered_moves [delivery_moves]:
  "mark_delivery_delivered d now received is_read db = (b, d', db') \<Longrightarrow> deliveries_move db db'"
  by (auto simp: mark_delivery_delivered_def Let_def delivery_evolves_def
      split: option.splits elim!: update_locked_delivery_moves)

lemma record_delivery_read_moves [delivery_moves]:
  "record_delivery_read d now db = (b, d', db') \<Longrightarrow> deliveries_move db db'"
  by (auto simp: record_delivery_read_def delivery_evolves_def split: if_splits elim!: update_locked_delivery_moves)

lemma fail_exhausted_moves [delivery_moves]:
  "fail_delivery_after_exhausted_attempts d now db = (b, d', db') \<Longrightarrow> deliveries_move db db'"
  by (auto simp: fail_delivery_after_exhausted_attempts_def delivery_evolves_def
      elim!: update_locked_delivery_moves)

lemma take_delivery_moves [delivery_moves]:
  "take_delivery_into_refresh_session d session now db = (b, d', db') \<Longrightarrow> deliveries_move db db'"
  by (auto simp: take_delivery_into_refresh_session_def Let_def delivery_evolves_def
      split: if_splits elim!: update_locked_delivery_moves)

lemma arm_head_moves [delivery_moves]:
  "arm_refresh_session_head S d now db = (b, d', db') \<Longrightarrow> deliveries_move db db'"
  by (auto simp: arm_refresh_session_head_def delivery_evolves_def
      elim!: update_locked_delivery_moves)

lemma restart_head_moves [delivery_moves]:
  "restart_refresh_session_head S d now db = (b, d', db') \<Longrightarrow> deliveries_move db db'"
  by (auto simp: restart_refresh_session_head_def delivery_evolves_def
      split: if_splits elim!: update_locked_delivery_moves)

lemma fail_stopped_moves [delivery_moves]:
  "fail_delivery_of_stopped_refresh d now db = (b, d', db') \<Longrightarrow> deliveries_move db db'"
  by (auto simp: fail_delivery_of_stopped_refresh_def delivery_evolves_def
      elim!: update_locked_delivery_moves)

lemma bring_next_round_forward_moves [delivery_moves]:
  "bring_next_round_forward S d now db = (d', db') \<Longrightarrow> deliveries_move db db'"
  by (auto simp: bring_next_round_forward_def Let_def delivery_evolves_def
      split: if_splits prod.splits elim!: update_locked_delivery_moves)

lemma acknowledgement_time_moves [delivery_moves]:
  "record_delivery_acknowledgement_time d now db = (d', db') \<Longrightarrow> deliveries_move db db'"
  by (auto simp: record_delivery_acknowledgement_time_def delivery_evolves_def
      intro!: deliveries_moveI [OF refl] table_evolves_update delivery_table.keys_update)

lemma cancel_deliveries_moves [delivery_moves]:
  "cancel_device_deliveries_for_relink device now db = (n, db') \<Longrightarrow> deliveries_move db db'"
  by (auto simp: cancel_device_deliveries_for_relink_def Let_def delivery_evolves_def
      intro!: deliveries_moveI [OF refl] table_evolves_update delivery_table.keys_update)

lemma part_sent_update_moves:
  "update_locked_delivery d [DELIVERY_PENDING]
     (\<lambda>r. r\<lparr>round_pending_parts_mask := g r, last_sent_at := Some now\<rparr>) db = (b, d', db') \<Longrightarrow> deliveries_move db db'"
  by (auto simp: delivery_evolves_def elim!: update_locked_delivery_moves)

lemma record_delivery_part_sent_moves [delivery_moves]:
  "record_delivery_part_sent S d part timeout now db = (b, d', db') \<Longrightarrow> deliveries_move db db'"
  by (auto simp: record_delivery_part_sent_def Let_def split: prod.splits if_splits
      intro: deliveries_move_trans part_sent_update_moves complete_delivery_round_moves)

lemma incomplete_status_update_moves:
  "update_locked_delivery d from_states
     (\<lambda>r. r\<lparr>parts_received_mask := m, round_pending_parts_mask := g r\<rparr>) db = (b, d', db') \<Longrightarrow> deliveries_move db db'"
  "update_locked_delivery d from_states (\<lambda>r. r\<lparr>parts_received_mask := m\<rparr>) db = (b, d', db') \<Longrightarrow> deliveries_move db db'"
  by (auto simp: delivery_evolves_def elim!: update_locked_delivery_moves)

lemma record_incomplete_status_moves [delivery_moves]:
  assumes "record_incomplete_delivery_status S d received now db = (b, d', db')"
  shows "deliveries_move db db'"
proof (cases "delivery_state d = DELIVERY_PENDING")
  case False
  then show ?thesis
    using assms by (auto simp: record_incomplete_delivery_status_def elim!: incomplete_status_update_moves)
next
  case True
  obtain w d1 db1 where u: "update_locked_delivery d [DELIVERY_PENDING]
      (\<lambda>r. r\<lparr>parts_received_mask := received,
              round_pending_parts_mask := round_pending_parts_mask r AND (PARTS_MASK_MAXIMUM XOR received)\<rparr>) db =
      (w, d1, db1)"
    by (metis prod.exhaust)
  then have m1: "deliveries_move db db1" by (rule incomplete_status_update_moves)
  define step2 where "step2 = (if round_pending_parts_mask d \<noteq> 0 \<and> round_pending_parts_mask d1 = 0
      then snd (complete_delivery_round S d1 (find_last_round_packet_suggested_timeout d1 db1) now db1)
      else (d1, db1))"
  obtain d2 db2 where s2: "step2 = (d2, db2)" by fastforce
  have m2: "deliveries_move db1 db2"
    using s2 complete_delivery_round_moves [of S d1 _ now db1 _ d2 db2]
    by (auto simp: step2_def split: if_splits) (metis prod.collapse)
  have "deliveries_move db db2" using m1 m2 by (rule deliveries_move_trans)
  then show ?thesis
    using assms True u m1 s2 bring_next_round_forward_moves [of S d2 now db2] deliveries_move_trans
    by (auto simp: record_incomplete_delivery_status_def step2_def [symmetric] split: if_splits prod.splits)
qed

section \<open>Every operation keeps the rows fit\<close>

lemmas fits_defs = delivery_fits_def delivery_row_ok_def

lemma start_delivery_round_fits [delivery_fit_rules]:
  assumes "start_delivery_round d parts now db = Inr (b, d', db')" and "deliveries_fit pc db"
    and "d \<in> set (rows (deliveries db))" "keys_ok delivery_id (deliveries db)"
    and "parts = pc (delivery_message_id d)" "attempt_count d < maximum_attempts d"
  shows "deliveries_fit pc db'"
proof -
  from assms(1) have mask: "1 \<le> parts" "parts \<le> 10"
    and up: "update_locked_delivery d [DELIVERY_PENDING]
      (\<lambda>r. r\<lparr>attempt_count := attempt_count r + 1, round_started_at := Some now,
              round_pending_parts_mask := mask (nat parts) AND NOT (parts_received_mask d)\<rparr>) db = (b, d', db')"
    by (auto simp: start_delivery_round_def res_bind_eq_Inr calculate_all_parts_mask_eq split: if_splits)
  have "(mask (nat parts) :: int) \<le> PARTS_MASK_MAXIMUM"
    using mask by (intro mask_le_parts_mask_maximum) simp
  then have row: "delivery_fits parts d \<Longrightarrow> delivery_fits parts
      (d\<lparr>attempt_count := attempt_count d + 1, round_started_at := Some now,
          round_pending_parts_mask := mask (nat parts) AND NOT (parts_received_mask d)\<rparr>)"
    using mask_and_not_bounds [of "nat parts" "NOT (parts_received_mask d)"] assms(6)
    by (auto simp: fits_defs)
  show ?thesis
  proof (rule update_locked_delivery_fits [OF up assms(2)])
    fix r
    assume "r \<in> set (rows (deliveries db))" "delivery_id r = delivery_id d"
      and fits: "delivery_fits (pc (delivery_message_id r)) r"
    then have "r = d" using delivery_table.key_unique [OF assms(4) _ assms(3)] by blast
    with fits row assms(5) show "delivery_fits (pc (delivery_message_id r))
        (r\<lparr>attempt_count := attempt_count r + 1, round_started_at := Some now,
            round_pending_parts_mask := mask (nat parts) AND NOT (parts_received_mask d)\<rparr>)"
      by simp
  qed simp
qed

lemma complete_delivery_round_fits [delivery_fit_rules]:
  "complete_delivery_round S d t now db = (b, d', db') \<Longrightarrow> deliveries_fit pc db \<Longrightarrow> deliveries_fit pc db'"
  by (auto simp: complete_delivery_round_def Let_def fits_defs PARTS_MASK_MAXIMUM_eq
      elim!: update_locked_delivery_fits)

lemma part_sent_update_fits:
  "update_locked_delivery d [DELIVERY_PENDING]
     (\<lambda>r. r\<lparr>round_pending_parts_mask := round_pending_parts_mask r AND k, last_sent_at := Some now\<rparr>) db = (b, d', db') \<Longrightarrow>
   deliveries_fit pc db \<Longrightarrow> deliveries_fit pc db'"
  by (auto simp: fits_defs elim!: update_locked_delivery_fits intro: order.trans [OF AND_upper1])

lemma record_delivery_part_sent_fits [delivery_fit_rules]:
  "record_delivery_part_sent S d part timeout now db = (b, d', db') \<Longrightarrow> deliveries_fit pc db \<Longrightarrow> deliveries_fit pc db'"
  by (auto simp: record_delivery_part_sent_def Let_def split: prod.splits if_splits
      dest: part_sent_update_fits complete_delivery_round_fits)

lemma acknowledgement_time_fits [delivery_fit_rules]:
  "record_delivery_acknowledgement_time d now db = (d', db') \<Longrightarrow> deliveries_fit pc db \<Longrightarrow> deliveries_fit pc db'"
  by (auto simp: record_delivery_acknowledgement_time_def deliveries_fit_def fits_defs all_rows_def)

lemma bring_next_round_forward_fits [delivery_fit_rules]:
  "bring_next_round_forward S d now db = (d', db') \<Longrightarrow> deliveries_fit pc db \<Longrightarrow> deliveries_fit pc db'"
  by (auto simp: bring_next_round_forward_def Let_def fits_defs split: if_splits prod.splits
      elim!: update_locked_delivery_fits)

lemma incomplete_status_update_fits:
  assumes "deliveries_fit pc db" "0 \<le> m"
    and "\<And>r. r \<in> set (rows (deliveries db)) \<Longrightarrow> delivery_id r = delivery_id d \<Longrightarrow>
      m \<le> mask (nat (pc (delivery_message_id r))) \<and> m \<noteq> mask (nat (pc (delivery_message_id r))) \<and>
      pc (delivery_message_id r) \<le> 10"
  shows "update_locked_delivery d from_states
     (\<lambda>r. r\<lparr>parts_received_mask := m, round_pending_parts_mask := round_pending_parts_mask r AND k\<rparr>) db = (b, d', db') \<Longrightarrow>
     deliveries_fit pc db'"
    and "update_locked_delivery d from_states (\<lambda>r. r\<lparr>parts_received_mask := m\<rparr>) db = (b, d', db') \<Longrightarrow>
     deliveries_fit pc db'"
proof -
  have "m \<le> PARTS_MASK_MAXIMUM" if "r \<in> set (rows (deliveries db))" "delivery_id r = delivery_id d" for r
    using assms(3) [OF that] by (auto intro: order.trans [OF _ mask_le_parts_mask_maximum])
  note bounds = this assms(3)
  show "update_locked_delivery d from_states
     (\<lambda>r. r\<lparr>parts_received_mask := m, round_pending_parts_mask := round_pending_parts_mask r AND k\<rparr>) db = (b, d', db') \<Longrightarrow>
     deliveries_fit pc db'"
    by (erule update_locked_delivery_fits [OF _ assms(1)])
      (use bounds assms(2) in \<open>auto simp: fits_defs intro: order.trans [OF AND_upper1]\<close>)
  show "update_locked_delivery d from_states (\<lambda>r. r\<lparr>parts_received_mask := m\<rparr>) db = (b, d', db') \<Longrightarrow>
     deliveries_fit pc db'"
    by (erule update_locked_delivery_fits [OF _ assms(1)]) (use bounds assms(2) in \<open>auto simp: fits_defs\<close>)
qed

lemma record_incomplete_status_fits [delivery_fit_rules]:
  assumes "record_incomplete_delivery_status S d received now db = (b, d', db')" and "deliveries_fit pc db"
    and "0 \<le> received"
    and "\<And>r. r \<in> set (rows (deliveries db)) \<Longrightarrow> delivery_id r = delivery_id d \<Longrightarrow>
      received \<le> mask (nat (pc (delivery_message_id r))) \<and> received \<noteq> mask (nat (pc (delivery_message_id r))) \<and>
      pc (delivery_message_id r) \<le> 10"
  shows "deliveries_fit pc db'"
proof (cases "delivery_state d = DELIVERY_PENDING")
  case False
  then show ?thesis
    using assms(1) incomplete_status_update_fits(2) [OF assms(2,3,4)]
    by (auto simp: record_incomplete_delivery_status_def)
next
  case True
  obtain w d1 db1 where u: "update_locked_delivery d [DELIVERY_PENDING]
      (\<lambda>r. r\<lparr>parts_received_mask := received,
              round_pending_parts_mask := round_pending_parts_mask r AND (PARTS_MASK_MAXIMUM XOR received)\<rparr>) db =
      (w, d1, db1)"
    by (metis prod.exhaust)
  then have m1: "deliveries_fit pc db1" using incomplete_status_update_fits(1) [OF assms(2,3,4)] by blast
  define step2 where "step2 = (if round_pending_parts_mask d \<noteq> 0 \<and> round_pending_parts_mask d1 = 0
      then snd (complete_delivery_round S d1 (find_last_round_packet_suggested_timeout d1 db1) now db1)
      else (d1, db1))"
  obtain d2 db2 where s2: "step2 = (d2, db2)" by fastforce
  have "deliveries_fit pc db2"
    using s2 m1 complete_delivery_round_fits [of S d1 _ now db1 _ d2 db2 pc]
    by (auto simp: step2_def split: if_splits) (metis prod.collapse)
  then show ?thesis
    using assms(1) True u m1 s2 bring_next_round_forward_fits [of S d2 now db2]
    by (auto simp: record_incomplete_delivery_status_def step2_def [symmetric] split: if_splits prod.splits)
qed

lemma mark_delivery_delivered_fits [delivery_fit_rules]:
  assumes "mark_delivery_delivered d now received is_read db = (b, d', db')" and "deliveries_fit pc db"
    and "\<And>r m. received = Some m \<Longrightarrow> r \<in> set (rows (deliveries db)) \<Longrightarrow> delivery_id r = delivery_id d \<Longrightarrow>
      0 \<le> m \<and> m \<le> mask (nat (pc (delivery_message_id r))) \<and> pc (delivery_message_id r) \<le> 10"
  shows "deliveries_fit pc db'"
proof -
  have "m \<le> PARTS_MASK_MAXIMUM"
    if "received = Some m" "r \<in> set (rows (deliveries db))" "delivery_id r = delivery_id d" for r m
    using assms(3) [OF that] by (auto intro: order.trans [OF _ mask_le_parts_mask_maximum])
  with assms show ?thesis
    by (auto simp: mark_delivery_delivered_def Let_def fits_defs split: option.splits
        elim!: update_locked_delivery_fits)
qed

lemma simple_changes_fit [delivery_fit_rules]:
  "record_delivery_read d now db = (b, d', db') \<Longrightarrow> deliveries_fit pc db \<Longrightarrow> deliveries_fit pc db'"
  "fail_delivery_after_exhausted_attempts d now db = (b, d', db') \<Longrightarrow> deliveries_fit pc db \<Longrightarrow> deliveries_fit pc db'"
  "arm_refresh_session_head S d now db = (b, d', db') \<Longrightarrow> deliveries_fit pc db \<Longrightarrow> deliveries_fit pc db'"
  "restart_refresh_session_head S d now db = (b, d', db') \<Longrightarrow> deliveries_fit pc db \<Longrightarrow> deliveries_fit pc db'"
  "fail_delivery_of_stopped_refresh d now db = (b, d', db') \<Longrightarrow> deliveries_fit pc db \<Longrightarrow> deliveries_fit pc db'"
  by (auto simp: record_delivery_read_def fail_delivery_after_exhausted_attempts_def arm_refresh_session_head_def
      restart_refresh_session_head_def fail_delivery_of_stopped_refresh_def fits_defs PARTS_MASK_MAXIMUM_eq
      split: if_splits elim!: update_locked_delivery_fits)

lemma take_delivery_fits [delivery_fit_rules]:
  assumes "take_delivery_into_refresh_session d session now db = (b, d', db')" and "deliveries_fit pc db"
    and "\<And>i. 1 \<le> pc i"
  shows "deliveries_fit pc db'"
  using assms parts_mask_nonzero [OF assms(3)]
  by (auto simp: take_delivery_into_refresh_session_def Let_def fits_defs PARTS_MASK_MAXIMUM_eq
      split: if_splits elim!: update_locked_delivery_fits)

lemma cancel_deliveries_fits [delivery_fit_rules]:
  "cancel_device_deliveries_for_relink device now db = (n, db') \<Longrightarrow> deliveries_fit pc db \<Longrightarrow> deliveries_fit pc db'"
  by (auto simp: cancel_device_deliveries_for_relink_def Let_def deliveries_fit_def fits_defs all_rows_def
      delivery_states_defs)

end
