(* ===== verification/Receipts.thy ===== *)
theory Receipts
  imports Deliveries
begin

text \<open>
  The state machine of one message's delivered and read receipts to one device of its sender
  (\<^verbatim>\<open>messaging/receipts.py\<close>), in the shape of the deliveries: an operation takes the locked instance and
  the database. The relation \<open>receipt_evolves\<close> is the abstract contract: the levels only grow, the arm
  generation only grows, and a receipt confirmed at read never changes. The lemmas show that every
  operation keeps the row constraints and the contract.
\<close>

definition RECEIPT_STATES_A_REFRESH_REARMS :: "receipt_state list" where
  "RECEIPT_STATES_A_REFRESH_REARMS = [RECEIPT_PENDING, RECEIPT_FAILED, RECEIPT_CANCELLED]"

definition read_message_level :: "message \<Rightarrow> int" where
  "read_message_level m =
     (if message_read_at m \<noteq> None then READ_LEVEL
      else if message_delivered_at m \<noteq> None then DELIVERED_LEVEL else 0)"

definition cas_receipt ::
  "receipt \<Rightarrow> receipt_state list \<Rightarrow> (receipt \<Rightarrow> receipt) \<Rightarrow> receipt table \<Rightarrow> bool \<times> receipt \<times> receipt table" where
  "cas_receipt = compare_and_set receipt_id receipt_state receipt_arm_generation"

definition update_locked_receipt ::
  "receipt \<Rightarrow> receipt_state list \<Rightarrow> datetime \<Rightarrow> (receipt \<Rightarrow> receipt) \<Rightarrow> db \<Rightarrow> bool \<times> receipt \<times> db" where
  "update_locked_receipt r from_states now changes db =
     (let (was_updated, r', t) = cas_receipt r from_states (\<lambda>x. (changes x)\<lparr>receipt_updated_at := now\<rparr>) (receipts db)
      in (was_updated, r', db\<lparr>receipts := t\<rparr>))"

definition build_fresh_attempt_changes :: "relay_settings \<Rightarrow> datetime \<Rightarrow> receipt \<Rightarrow> receipt" where
  "build_fresh_attempt_changes S now r =
     r\<lparr>receipt_state := RECEIPT_PENDING, receipt_attempt_count := 0,
       receipt_arm_generation := receipt_arm_generation r + 1, round_pending := False,
       receipt_maximum_attempts := strategy_maximum_attempts (retry_strategy S),
       receipt_next_attempt_at := Some now\<rparr>"

definition create_receipt :: "relay_settings \<Rightarrow> nat \<Rightarrow> nat \<Rightarrow> int \<Rightarrow> datetime \<Rightarrow> db \<Rightarrow> db" where
  "create_receipt S message device level now db =
     (let next_attempt = (if level = DELIVERED_LEVEL
                          then now + timedelta_seconds (delivered_receipt_delay_seconds (retry_strategy S)) else now)
      in db\<lparr>receipts := insert_row (\<lambda>n.
           \<lparr>receipt_id = n, receipt_message_id = message, receipt_device_id = device, target_level = level,
            confirmed_level = 0, receipt_state = RECEIPT_PENDING, receipt_attempt_count = 0,
            receipt_maximum_attempts = strategy_maximum_attempts (retry_strategy S),
            receipt_arm_generation = 1, round_pending = False, receipt_next_attempt_at = Some next_attempt,
            receipt_round_started_at = None, receipt_last_sent_at = None, last_confirmation_received_at = None,
            receipt_failed_at = None, receipt_cancelled_at = None, receipt_created_at = now,
            receipt_updated_at = now\<rparr>) (receipts db)\<rparr>)"

definition raise_receipt_to_read :: "relay_settings \<Rightarrow> receipt \<Rightarrow> datetime \<Rightarrow> db \<Rightarrow> bool \<times> receipt \<times> db" where
  "raise_receipt_to_read S r now db =
     (if confirmed_level r = READ_LEVEL then (False, r, db)
      else update_locked_receipt r [RECEIPT_PENDING, RECEIPT_CONFIRMED, RECEIPT_FAILED, RECEIPT_CANCELLED] now
        (\<lambda>x. build_fresh_attempt_changes S now (x\<lparr>target_level := READ_LEVEL, receipt_cancelled_at := None\<rparr>)) db)"

text \<open>
  The receipts are locked once, before the loop; the loop visits the sender's devices in ascending id. The
  dictionary by device id keeps the last receipt of a device; the unique constraint allows only one.
\<close>

fun raise_receipts_loop ::
  "relay_settings \<Rightarrow> nat \<Rightarrow> int \<Rightarrow> (nat \<Rightarrow> receipt option) \<Rightarrow> datetime \<Rightarrow> nat list \<Rightarrow> db \<Rightarrow> db" where
  "raise_receipts_loop S message level existing now [] db = db"
| "raise_receipts_loop S message level existing now (device # devices) db =
     raise_receipts_loop S message level existing now devices
       (case existing device of
          None \<Rightarrow> create_receipt S message device level now db
        | Some r \<Rightarrow> if level = READ_LEVEL then snd (snd (raise_receipt_to_read S r now db)) else db)"

definition raise_receipts_for_message :: "relay_settings \<Rightarrow> message \<Rightarrow> datetime \<Rightarrow> db \<Rightarrow> db" where
  "raise_receipts_for_message S m now db =
     (let message_level = read_message_level m;
          sender_device_ids = device_ids_of_user (sender_id m) db;
          existing_receipts = select_where (\<lambda>r. receipt_message_id r = message_pk m \<and>
                                              receipt_device_id r \<in> set sender_device_ids) (receipts db);
          existing = map_of (rev (map (\<lambda>r. (receipt_device_id r, r)) existing_receipts))
      in raise_receipts_loop S (message_pk m) message_level existing now sender_device_ids db)"

definition start_receipt_attempt :: "receipt \<Rightarrow> datetime \<Rightarrow> db \<Rightarrow> bool \<times> receipt \<times> db" where
  "start_receipt_attempt r now db =
     update_locked_receipt r [RECEIPT_PENDING] now
       (\<lambda>x. x\<lparr>receipt_attempt_count := receipt_attempt_count x + 1, round_pending := True,
               receipt_round_started_at := Some now\<rparr>) db"

definition record_receipt_packet_sent ::
  "relay_settings \<Rightarrow> receipt \<Rightarrow> int option \<Rightarrow> datetime \<Rightarrow> db \<Rightarrow> bool \<times> receipt \<times> db" where
  "record_receipt_packet_sent S r suggested_timeout now db =
     (let next_attempt = calculate_round_completion_due_time S (receipt_attempt_count r) (receipt_round_started_at r)
                           (Some now) suggested_timeout now
      in update_locked_receipt r [RECEIPT_PENDING] now
           (\<lambda>x. x\<lparr>receipt_last_sent_at := Some now, round_pending := False,
                   receipt_next_attempt_at := Some next_attempt\<rparr>) db)"

definition record_receipt_confirmation :: "receipt \<Rightarrow> int \<Rightarrow> datetime \<Rightarrow> db \<Rightarrow> bool \<times> receipt \<times> db" where
  "record_receipt_confirmation r level now db =
     (let db1 = db\<lparr>receipts := update_where (\<lambda>x. receipt_id x = receipt_id r)
                    (\<lambda>x. x\<lparr>last_confirmation_received_at := Some now\<rparr>) (receipts db)\<rparr>;
          r1 = r\<lparr>last_confirmation_received_at := Some now\<rparr>;
          new_confirmed_level = max (confirmed_level r1) (min level (target_level r1))
      in if new_confirmed_level = confirmed_level r1 then (False, r1, db1)
         else update_locked_receipt r1 [RECEIPT_PENDING, RECEIPT_FAILED] now
           (\<lambda>x. let x1 = x\<lparr>confirmed_level := max (confirmed_level x) new_confirmed_level\<rparr>
                in if new_confirmed_level = target_level r1 then x1\<lparr>receipt_state := RECEIPT_CONFIRMED\<rparr> else x1) db1)"

definition fail_receipt_after_exhausted_attempts :: "receipt \<Rightarrow> datetime \<Rightarrow> db \<Rightarrow> bool \<times> receipt \<times> db" where
  "fail_receipt_after_exhausted_attempts r now db =
     update_locked_receipt r [RECEIPT_PENDING] now
       (\<lambda>x. x\<lparr>receipt_state := RECEIPT_FAILED, receipt_failed_at := Some now\<rparr>) db"

definition revive_cancelled_receipt ::
  "relay_settings \<Rightarrow> receipt \<Rightarrow> message \<Rightarrow> datetime \<Rightarrow> db \<Rightarrow> bool \<times> receipt \<times> db" where
  "revive_cancelled_receipt S r m now db =
     (let level = max (target_level r) (read_message_level m)
      in if confirmed_level r = level
         then update_locked_receipt r [RECEIPT_CANCELLED] now
                (\<lambda>x. x\<lparr>receipt_state := RECEIPT_CONFIRMED, target_level := level, receipt_cancelled_at := None\<rparr>) db
         else update_locked_receipt r [RECEIPT_CANCELLED] now
                (\<lambda>x. build_fresh_attempt_changes S now (x\<lparr>target_level := level, receipt_cancelled_at := None\<rparr>)) db)"

text \<open>The receipts a refresh re-arms, with their messages (\<^verbatim>\<open>select_related\<close>), in ascending id.\<close>

definition select_receipts_a_refresh_rearms :: "nat \<Rightarrow> nat \<Rightarrow> nat \<Rightarrow> db \<Rightarrow> (receipt \<times> message) list" where
  "select_receipts_a_refresh_rearms device sender recipient db =
     List.map_filter (\<lambda>r.
       case find_message (receipt_message_id r) db of
         None \<Rightarrow> None
       | Some m \<Rightarrow> if receipt_device_id r = device \<and> receipt_state r \<in> set RECEIPT_STATES_A_REFRESH_REARMS \<and>
                      sender_id m = sender \<and> recipient_id m = recipient \<and> sender_device_id m = Some device
                   then Some (r, m) else None)
       (rows (receipts db))"

fun rearm_receipts_loop :: "relay_settings \<Rightarrow> datetime \<Rightarrow> (receipt \<times> message) list \<Rightarrow> nat \<Rightarrow> db \<Rightarrow> nat \<times> db" where
  "rearm_receipts_loop S now [] count db = (count, db)"
| "rearm_receipts_loop S now ((r, m) # receipts_left) count db =
     (let (was_changed, _, db') =
            (if receipt_state r = RECEIPT_CANCELLED then revive_cancelled_receipt S r m now db
             else update_locked_receipt r [RECEIPT_PENDING, RECEIPT_FAILED] now (build_fresh_attempt_changes S now) db)
      in rearm_receipts_loop S now receipts_left (count + (if was_changed then 1 else 0)) db')"

definition rearm_receipts_for_refresh :: "relay_settings \<Rightarrow> nat \<Rightarrow> nat \<Rightarrow> nat \<Rightarrow> datetime \<Rightarrow> db \<Rightarrow> nat \<times> db" where
  "rearm_receipts_for_refresh S device sender recipient now db =
     rearm_receipts_loop S now (select_receipts_a_refresh_rearms device sender recipient db) 0 db"

definition cancel_device_receipts_for_relink :: "nat \<Rightarrow> datetime \<Rightarrow> db \<Rightarrow> nat \<times> db" where
  "cancel_device_receipts_for_relink device now db =
     (let to_cancel = (\<lambda>r. receipt_device_id r = device \<and> receipt_state r \<noteq> RECEIPT_CANCELLED \<and>
                           \<not> (receipt_state r = RECEIPT_CONFIRMED \<and> confirmed_level r = READ_LEVEL))
      in (count_where to_cancel (receipts db),
          db\<lparr>receipts := update_where to_cancel
               (\<lambda>r. r\<lparr>receipt_state := RECEIPT_CANCELLED, receipt_cancelled_at := Some now,
                       receipt_updated_at := now\<rparr>) (receipts db)\<rparr>))"

section \<open>The contract of a receipt\<close>

interpretation receipt_table: locked_row_table receipt_id "\<lambda>r n. r\<lparr>receipt_id := n\<rparr>" receipt_state
  receipt_arm_generation cas_receipt
  by unfold_locales (simp_all add: cas_receipt_def)

definition receipt_evolves :: "receipt \<Rightarrow> receipt \<Rightarrow> bool" where
  "receipt_evolves r r' \<longleftrightarrow>
     receipt_id r' = receipt_id r \<and> receipt_message_id r' = receipt_message_id r \<and>
     receipt_device_id r' = receipt_device_id r \<and>
     receipt_arm_generation r \<le> receipt_arm_generation r' \<and>
     (receipt_row_ok r \<longrightarrow>
        receipt_row_ok r' \<and> target_level r \<le> target_level r' \<and> confirmed_level r \<le> confirmed_level r' \<and>
        (receipt_state r = RECEIPT_CONFIRMED \<and> confirmed_level r = READ_LEVEL \<longrightarrow>
           receipt_state r' = RECEIPT_CONFIRMED \<and> confirmed_level r' = READ_LEVEL))"

lemma receipt_evolves_refl [simp]: "receipt_evolves r r"
  by (simp add: receipt_evolves_def)

lemma receipt_levels: "receipt_row_ok r \<Longrightarrow> confirmed_level r = READ_LEVEL \<Longrightarrow> target_level r = READ_LEVEL"
  by (auto simp: receipt_row_ok_def READ_LEVEL_def DELIVERED_LEVEL_def)

lemma receipt_evolves_trans: "receipt_evolves a b \<Longrightarrow> receipt_evolves b c \<Longrightarrow> receipt_evolves a c"
  unfolding receipt_evolves_def by (elim conjE, intro conjI) auto

lemma receipts_evolve_refl: "table_evolves receipt_evolves t t"
  by (simp add: table_evolves_refl)

lemma receipts_evolve_trans:
  "table_evolves receipt_evolves t u \<Longrightarrow> table_evolves receipt_evolves u v \<Longrightarrow> table_evolves receipt_evolves t v"
  using table_evolves_trans [of receipt_evolves t u v] receipt_evolves_trans by blast

definition receipts_move :: "db \<Rightarrow> db \<Rightarrow> bool" where
  "receipts_move db db' \<longleftrightarrow>
     (\<exists>t. db' = db\<lparr>receipts := t\<rparr> \<and> table_evolves receipt_evolves (receipts db) t \<and>
          (keys_ok receipt_id (receipts db) \<longrightarrow> keys_ok receipt_id t))"

lemma receipts_moveI:
  "db' = db\<lparr>receipts := t\<rparr> \<Longrightarrow> table_evolves receipt_evolves (receipts db) t \<Longrightarrow>
     (keys_ok receipt_id (receipts db) \<Longrightarrow> keys_ok receipt_id t) \<Longrightarrow> receipts_move db db'"
  by (auto simp: receipts_move_def)

lemma receipts_move_refl [simp]: "receipts_move db db"
  by (rule receipts_moveI [where t = "receipts db"]) (simp_all add: receipts_evolve_refl)

lemma receipts_move_trans [trans]: "receipts_move a b \<Longrightarrow> receipts_move b c \<Longrightarrow> receipts_move a c"
  using receipts_evolve_trans [of "receipts a" "receipts b" "receipts c"]
  by (auto simp: receipts_move_def intro!: exI [of _ "receipts c"])

lemma receipts_move_tables:
  assumes "receipts_move db db'"
  shows "users db' = users db" "contacts db' = contacts db" "messages db' = messages db"
    "refresh_sessions db' = refresh_sessions db" "deliveries db' = deliveries db" "inbox db' = inbox db"
    "packets db' = packets db"
    "table_evolves receipt_evolves (receipts db) (receipts db')"
    "keys_ok receipt_id (receipts db) \<Longrightarrow> keys_ok receipt_id (receipts db')"
  using assms by (auto simp: receipts_move_def)

lemma update_locked_receipt_moves:
  assumes "update_locked_receipt r from_states now f db = (b, r', db')"
    and "\<And>x. receipt_id (f x) = receipt_id x"
    and "\<And>x. x \<in> set (rows (receipts db)) \<Longrightarrow> receipt_id x = receipt_id r \<Longrightarrow> receipt_state x = receipt_state r \<Longrightarrow>
      receipt_state r \<in> set from_states \<Longrightarrow> receipt_evolves x ((f x)\<lparr>receipt_updated_at := now\<rparr>)"
  shows "receipts_move db db'"
proof -
  obtain t where cas: "cas_receipt r from_states (\<lambda>x. (f x)\<lparr>receipt_updated_at := now\<rparr>) (receipts db) = (b, r', t)"
    and db': "db' = db\<lparr>receipts := t\<rparr>"
    using assms(1) by (auto simp: update_locked_receipt_def split: prod.splits)
  have "table_evolves receipt_evolves (receipts db) t"
    by (rule receipt_table.cas_evolves [OF _ _ cas]) (auto intro: assms(3))
  then show ?thesis
    using receipt_table.cas_keys [OF _ _ cas] assms(2) by (intro receipts_moveI [OF db']) simp_all
qed

section \<open>Every operation keeps the contract\<close>

lemma update_locked_receipt_row:
  assumes "keys_ok receipt_id (receipts db)" "r \<in> set (rows (receipts db))" "receipt_state r \<in> set from_states"
  shows "update_locked_receipt r from_states now f db =
    (True, (f r)\<lparr>receipt_updated_at := now\<rparr>,
     db\<lparr>receipts := update_where (\<lambda>x. receipt_id x = receipt_id r)
          (\<lambda>x. (f x)\<lparr>receipt_updated_at := now\<rparr>) (receipts db)\<rparr>)"
  using receipt_table.cas_locked [OF assms] by (simp add: update_locked_receipt_def)

text \<open>An instance that was read from its row is the only row with its key.\<close>

lemma receipt_instance:
  "keys_ok receipt_id (receipts db) \<Longrightarrow> r \<in> set (rows (receipts db)) \<Longrightarrow> x \<in> set (rows (receipts db)) \<Longrightarrow>
     receipt_id x = receipt_id r \<Longrightarrow> x = r"
  by (rule receipt_table.key_unique)

lemma other_receipts_stay:
  assumes "update_locked_receipt r from_states now f db = (b, r', db')"
    and "x \<in> set (rows (receipts db))" "receipt_id x \<noteq> receipt_id r"
  shows "x \<in> set (rows (receipts db'))"
  using assms
  by (force simp: update_locked_receipt_def cas_receipt_def compare_and_set_def Let_def
      split: if_splits option.splits)

lemma update_locked_receipt_instance_moves:
  assumes "update_locked_receipt r from_states now f db = (b, r', db')"
    and "keys_ok receipt_id (receipts db)" "r \<in> set (rows (receipts db))"
    and "\<And>x. receipt_id (f x) = receipt_id x"
    and "receipt_state r \<in> set from_states \<Longrightarrow> receipt_evolves r ((f r)\<lparr>receipt_updated_at := now\<rparr>)"
  shows "receipts_move db db'"
  by (rule update_locked_receipt_moves [OF assms(1,4)])
    (use assms(5) receipt_instance [OF assms(2,3)] in blast)

lemmas receipt_contract = receipt_evolves_def receipt_row_ok_def READ_LEVEL_def DELIVERED_LEVEL_def

lemma start_receipt_attempt_moves:
  "start_receipt_attempt r now db = (b, r', db') \<Longrightarrow> receipts_move db db'"
  unfolding start_receipt_attempt_def
  by (erule update_locked_receipt_moves) (auto simp: receipt_contract)

lemma record_receipt_packet_sent_moves:
  "record_receipt_packet_sent S r t now db = (b, r', db') \<Longrightarrow> receipts_move db db'"
  unfolding record_receipt_packet_sent_def Let_def
  by (erule update_locked_receipt_moves) (auto simp: receipt_contract)

lemma fail_receipt_moves:
  "fail_receipt_after_exhausted_attempts r now db = (b, r', db') \<Longrightarrow> receipts_move db db'"
  unfolding fail_receipt_after_exhausted_attempts_def
  by (erule update_locked_receipt_moves) (auto simp: receipt_contract)

lemma fresh_attempt_moves:
  "update_locked_receipt r [RECEIPT_PENDING, RECEIPT_FAILED] now (build_fresh_attempt_changes S now) db = (b, r', db') \<Longrightarrow>
     receipts_move db db'"
  by (erule update_locked_receipt_moves) (auto simp: receipt_contract build_fresh_attempt_changes_def)

lemma raise_receipt_to_read_moves:
  assumes "raise_receipt_to_read S r now db = (b, r', db')"
    and "keys_ok receipt_id (receipts db)" "r \<in> set (rows (receipts db))"
  shows "receipts_move db db'"
proof (cases "confirmed_level r = READ_LEVEL")
  case False
  then have up: "update_locked_receipt r [RECEIPT_PENDING, RECEIPT_CONFIRMED, RECEIPT_FAILED, RECEIPT_CANCELLED] now
      (\<lambda>x. build_fresh_attempt_changes S now (x\<lparr>target_level := READ_LEVEL, receipt_cancelled_at := None\<rparr>)) db =
      (b, r', db')"
    using assms(1) by (simp add: raise_receipt_to_read_def)
  show ?thesis
    by (rule update_locked_receipt_instance_moves [OF up assms(2,3)])
      (use False in \<open>auto simp: receipt_contract build_fresh_attempt_changes_def\<close>)
qed (use assms(1) in \<open>simp add: raise_receipt_to_read_def\<close>)

lemma revive_cancelled_receipt_moves:
  assumes "revive_cancelled_receipt S r m now db = (b, r', db')"
    and "keys_ok receipt_id (receipts db)" "r \<in> set (rows (receipts db))"
  shows "receipts_move db db'"
proof -
  let ?level = "max (target_level r) (read_message_level m)"
  have level: "receipt_row_ok r \<Longrightarrow> ?level = 1 \<or> ?level = 2" "target_level r \<le> ?level"
    by (auto simp: read_message_level_def receipt_row_ok_def READ_LEVEL_def DELIVERED_LEVEL_def)
  show ?thesis
  proof (cases "confirmed_level r = ?level")
    case True
    then have up: "update_locked_receipt r [RECEIPT_CANCELLED] now
        (\<lambda>x. x\<lparr>receipt_state := RECEIPT_CONFIRMED, target_level := ?level, receipt_cancelled_at := None\<rparr>) db =
        (b, r', db')"
      using assms(1) by (simp add: revive_cancelled_receipt_def)
    show ?thesis
      by (rule update_locked_receipt_instance_moves [OF up assms(2,3)])
        (use True level in \<open>auto simp: receipt_contract\<close>)
  next
    case False
    then have up: "update_locked_receipt r [RECEIPT_CANCELLED] now
        (\<lambda>x. build_fresh_attempt_changes S now (x\<lparr>target_level := ?level, receipt_cancelled_at := None\<rparr>)) db =
        (b, r', db')"
      using assms(1) by (simp add: revive_cancelled_receipt_def Let_def)
    show ?thesis
      by (rule update_locked_receipt_instance_moves [OF up assms(2,3)])
        (use False level in \<open>auto simp: receipt_contract build_fresh_attempt_changes_def\<close>)
  qed
qed

lemma create_receipt_moves:
  "level = DELIVERED_LEVEL \<or> level = READ_LEVEL \<Longrightarrow> receipts_move db (create_receipt S message device level now db)"
  unfolding create_receipt_def Let_def
  by (rule receipts_moveI [OF refl])
    (auto simp: table_evolves_insert keys_ok_def sorted_wrt_append less_Suc_eq)

lemma cancel_receipts_moves:
  "cancel_device_receipts_for_relink device now db = (n, db') \<Longrightarrow> receipts_move db db'"
  by (auto simp: cancel_device_receipts_for_relink_def Let_def receipt_contract
      intro!: receipts_moveI [OF refl] table_evolves_update receipt_table.keys_update)

lemma confirmation_time_moves:
  "receipts_move db (db\<lparr>receipts := update_where (\<lambda>x. receipt_id x = receipt_id r)
     (\<lambda>x. x\<lparr>last_confirmation_received_at := Some now\<rparr>) (receipts db)\<rparr>)"
  by (auto simp: receipt_contract intro!: receipts_moveI [OF refl] table_evolves_update receipt_table.keys_update)

lemma record_receipt_confirmation_moves:
  assumes "record_receipt_confirmation r level now db = (b, r', db')"
    and "keys_ok receipt_id (receipts db)" "r \<in> set (rows (receipts db))"
  shows "receipts_move db db'"
proof -
  let ?db1 = "db\<lparr>receipts := update_where (\<lambda>x. receipt_id x = receipt_id r)
     (\<lambda>x. x\<lparr>last_confirmation_received_at := Some now\<rparr>) (receipts db)\<rparr>"
  let ?r1 = "r\<lparr>last_confirmation_received_at := Some now\<rparr>"
  let ?n = "max (confirmed_level r) (min level (target_level r))"
  have m1: "receipts_move db ?db1" by (rule confirmation_time_moves)
  have k1: "keys_ok receipt_id (receipts ?db1)" using m1 assms(2) by (rule receipts_move_tables)
  have r1: "?r1 \<in> set (rows (receipts ?db1))" using assms(3) by force
  show ?thesis
  proof (cases "?n = confirmed_level r")
    case True
    then show ?thesis using assms(1) m1 by (simp add: record_receipt_confirmation_def Let_def)
  next
    case False
    then have up: "update_locked_receipt ?r1 [RECEIPT_PENDING, RECEIPT_FAILED] now
        (\<lambda>x. let x1 = x\<lparr>confirmed_level := max (confirmed_level x) ?n\<rparr>
             in if ?n = target_level r then x1\<lparr>receipt_state := RECEIPT_CONFIRMED\<rparr> else x1) ?db1 = (b, r', db')"
      using assms(1) by (simp add: record_receipt_confirmation_def Let_def)
    have "receipts_move ?db1 db'"
      by (rule update_locked_receipt_instance_moves [OF up k1 r1])
        (use False in \<open>auto simp: receipt_contract Let_def\<close>)
    with m1 show ?thesis by (rule receipts_move_trans)
  qed
qed

subsection \<open>The two loops over receipts\<close>

lemma raise_receipt_to_read_others:
  "raise_receipt_to_read S r now db = (b, r', db') \<Longrightarrow> x \<in> set (rows (receipts db)) \<Longrightarrow> receipt_id x \<noteq> receipt_id r \<Longrightarrow>
     x \<in> set (rows (receipts db'))"
  by (auto simp: raise_receipt_to_read_def split: if_splits dest: other_receipts_stay)

lemma create_receipt_others:
  "x \<in> set (rows (receipts db)) \<Longrightarrow> x \<in> set (rows (receipts (create_receipt S message device level now db)))"
  by (simp add: create_receipt_def Let_def)

text \<open>
  An instance read before the loop is still its row when its device's turn comes: each turn changes the
  receipt of one device only.
\<close>

lemma raise_receipts_loop_moves:
  assumes "keys_ok receipt_id (receipts db)" "distinct devices" "level = DELIVERED_LEVEL \<or> level = READ_LEVEL"
    and "\<And>d r. d \<in> set devices \<Longrightarrow> existing d = Some r \<Longrightarrow> r \<in> set (rows (receipts db)) \<and> receipt_device_id r = d"
  shows "receipts_move db (raise_receipts_loop S message level existing now devices db)"
  using assms
proof (induction devices arbitrary: db)
  case (Cons d devices)
  define db1 where "db1 = (case existing d of
      None \<Rightarrow> create_receipt S message d level now db
    | Some r \<Rightarrow> if level = READ_LEVEL then snd (snd (raise_receipt_to_read S r now db)) else db)"
  have move: "receipts_move db db1"
  proof (cases "existing d")
    case None
    then show ?thesis using Cons.prems(3) create_receipt_moves by (simp add: db1_def)
  next
    case (Some r)
    then show ?thesis
      using Cons.prems(1) Cons.prems(4) [of d r] raise_receipt_to_read_moves [of S r now db]
      by (cases "raise_receipt_to_read S r now db") (auto simp: db1_def)
  qed
  have "r \<in> set (rows (receipts db1)) \<and> receipt_device_id r = e"
    if e: "e \<in> set devices" "existing e = Some r" for e r
  proof -
    have r: "r \<in> set (rows (receipts db))" "receipt_device_id r = e" using Cons.prems(4) e by auto
    have "e \<noteq> d" using Cons.prems(2) e(1) by auto
    then have "receipt_id r \<noteq> receipt_id q" if "existing d = Some q" for q
      using receipt_instance [OF Cons.prems(1) _ r(1)] Cons.prems(4) [of d q] that r(2) by auto
    then show ?thesis
      using r create_receipt_others [OF r(1)] raise_receipt_to_read_others [OF _ r(1)]
      by (auto simp: db1_def split: option.splits) (metis prod.collapse)
  qed
  then have "receipts_move db1 (raise_receipts_loop S message level existing now devices db1)"
    using Cons.prems receipts_move_tables(9) [OF move Cons.prems(1)] by (intro Cons.IH) auto
  then show ?case
    using receipts_move_trans [OF move] by (simp add: db1_def)
qed simp

lemma map_of_rev_receipts:
  "map_of (rev (map (\<lambda>r. (receipt_device_id r, r)) rs)) d = Some r \<Longrightarrow> r \<in> set rs \<and> receipt_device_id r = d"
  by (drule map_of_SomeD) auto

lemma distinct_device_ids:
  assumes "keys_ok contact_id (contacts db)"
  shows "distinct (device_ids_of_user u db)"
proof -
  have "sorted_wrt (<) (map contact_id (select_where (\<lambda>c. contact_user_id c = Some u) (contacts db)))"
    using assms unfolding keys_ok_def select_where_def sorted_wrt_map by (intro sorted_wrt_filter) auto
  then show ?thesis
    by (simp add: device_ids_of_user_def strict_sorted_iff)
qed

lemma raise_receipts_for_message_moves:
  assumes "keys_ok receipt_id (receipts db)" "keys_ok contact_id (contacts db)" "message_delivered_at m \<noteq> None"
  shows "receipts_move db (raise_receipts_for_message S m now db)"
  unfolding raise_receipts_for_message_def Let_def
  by (rule raise_receipts_loop_moves [OF assms(1) distinct_device_ids [OF assms(2)]])
    (use assms(3) in \<open>auto simp: read_message_level_def dest: map_of_rev_receipts\<close>)

lemma rearm_receipts_loop_moves:
  assumes "keys_ok receipt_id (receipts db)" "distinct (map receipt_id (map fst rms))"
    and "\<forall>(r, m) \<in> set rms. r \<in> set (rows (receipts db))"
  shows "receipts_move db (snd (rearm_receipts_loop S now rms count db))"
  using assms
proof (induction rms arbitrary: count db)
  case (Cons rm rms)
  obtain r m where rm: "rm = (r, m)" by (cases rm)
  define step where "step = (if receipt_state r = RECEIPT_CANCELLED then revive_cancelled_receipt S r m now db
     else update_locked_receipt r [RECEIPT_PENDING, RECEIPT_FAILED] now (build_fresh_attempt_changes S now) db)"
  obtain b r' db' where s: "step = (b, r', db')" by (metis prod.exhaust)
  have r: "r \<in> set (rows (receipts db))" using Cons.prems(3) rm by simp
  have move: "receipts_move db db'"
    using s revive_cancelled_receipt_moves [OF _ Cons.prems(1) r] fresh_attempt_moves
    by (auto simp: step_def split: if_splits)
  have "x \<in> set (rows (receipts db'))" if "(x, n) \<in> set rms" for x n
  proof -
    have "x \<in> set (rows (receipts db))" "receipt_id x \<noteq> receipt_id r"
      using Cons.prems(2,3) that rm by force+
    then show ?thesis
      using s by (auto simp: step_def revive_cancelled_receipt_def Let_def split: if_splits
          dest: other_receipts_stay)
  qed
  then have "receipts_move db' (snd (rearm_receipts_loop S now rms (count + (if b then 1 else 0)) db'))"
    using Cons.prems receipts_move_tables(9) [OF move Cons.prems(1)] by (intro Cons.IH) auto
  then show ?case
    using receipts_move_trans [OF move] s by (simp add: rm step_def [symmetric])
qed simp

lemma select_receipts_rows:
  "(r, m) \<in> set (select_receipts_a_refresh_rearms device sender recipient db) \<Longrightarrow>
     r \<in> set (rows (receipts db)) \<and> receipt_device_id r = device \<and> m \<in> set (rows (messages db)) \<and>
     message_pk m = receipt_message_id r \<and> sender_id m = sender \<and> recipient_id m = recipient \<and>
     sender_device_id m = Some device"
  by (auto simp: select_receipts_a_refresh_rearms_def in_map_filter find_message_def
      split: option.splits if_splits dest: first_where_SomeD)

lemma rearm_receipts_for_refresh_moves:
  assumes "keys_ok receipt_id (receipts db)"
  shows "receipts_move db (snd (rearm_receipts_for_refresh S device sender recipient now db))"
  unfolding rearm_receipts_for_refresh_def
proof (rule rearm_receipts_loop_moves [OF assms])
  have "distinct (map receipt_id (rows (receipts db)))"
    using assms by (simp add: keys_ok_def strict_sorted_iff)
  then show "distinct (map receipt_id (map fst (select_receipts_a_refresh_rearms device sender recipient db)))"
    unfolding select_receipts_a_refresh_rearms_def
    by (rule distinct_map_filter_fst) (auto split: option.splits if_splits)
qed (auto dest: select_receipts_rows)

end
