(* ===== verification/Database_Moves.thy ===== *)
theory Database_Moves
  imports Receipts
begin

text \<open>
  How the rows of every table may change: the abstract machines of users, contacts, messages, refresh
  sessions, inbox rows and packets, beside those of deliveries and receipts, and the relation \<open>db_moves\<close>
  between two databases that says every table moved along its machine. Each service of the relay is shown
  to be a \<open>db_moves\<close> step in the theory that models it; the services behind a request are \<open>service_moves\<close>
  steps, which also leave the traffic log alone.
\<close>

section \<open>The machines\<close>

definition contact_evolves :: "contact \<Rightarrow> contact \<Rightarrow> bool" where
  "contact_evolves c c' \<longleftrightarrow>
     contact_id c' = contact_id c \<and> public_key c' = public_key c \<and> added_at c' = added_at c \<and>
     (contact_user_id c \<noteq> None \<longrightarrow> contact_user_id c' \<noteq> None) \<and> (contact_row_ok c \<longrightarrow> contact_row_ok c')"

text \<open>A held part keeps its text, an accepted message keeps its text, and the first times stay.\<close>

definition keeps :: "'a option \<Rightarrow> 'a option \<Rightarrow> bool" where
  "keeps a b \<longleftrightarrow> a = None \<or> b = a"

lemma keeps_simps [simp]: "keeps a a" "keeps None b" "keeps (Some x) b \<longleftrightarrow> b = Some x"
  by (auto simp: keeps_def)

lemma keeps_trans: "keeps a b \<Longrightarrow> keeps b c \<Longrightarrow> keeps a c"
  by (auto simp: keeps_def)

definition message_evolves :: "message \<Rightarrow> message \<Rightarrow> bool" where
  "message_evolves m m' \<longleftrightarrow>
     message_pk m' = message_pk m \<and> sender_id m' = sender_id m \<and> recipient_id m' = recipient_id m \<and>
     sender_device_id m' = sender_device_id m \<and> client_message_id m' = client_message_id m \<and>
     part_count m' = part_count m \<and> list_all2 keeps (part_texts m) (part_texts m') \<and>
     keeps (message_text m) (message_text m') \<and> keeps (accepted_at m) (accepted_at m') \<and>
     keeps (message_delivered_at m) (message_delivered_at m') \<and> keeps (message_read_at m) (message_read_at m')"

definition session_evolves :: "refresh_session \<Rightarrow> refresh_session \<Rightarrow> bool" where
  "session_evolves s s' \<longleftrightarrow>
     session_id s' = session_id s \<and> session_device_id s' = session_device_id s \<and> peer_id s' = peer_id s \<and>
     requested_at s' = requested_at s \<and> messages_total s \<le> messages_total s' \<and>
     (session_state s \<noteq> SESSION_ACTIVE \<longrightarrow> s' = s)"

text \<open>An inbox row keeps what was received, and leaves \<^verbatim>\<open>received\<close> once.\<close>

definition inbound_evolves :: "inbound \<Rightarrow> inbound \<Rightarrow> bool" where
  "inbound_evolves i i' \<longleftrightarrow>
     inbound_id i' = inbound_id i \<and> received_at i' = received_at i \<and> inbound_contact_id i' = inbound_contact_id i \<and>
     inbound_text i' = inbound_text i \<and> text_sha256 i' = text_sha256 i \<and>
     inbound_sender_timestamp i' = inbound_sender_timestamp i \<and> duplicate_count i \<le> duplicate_count i' \<and>
     (inbound_processing_state i \<noteq> PROCESSING_RECEIVED \<longrightarrow>
        inbound_processing_state i' = inbound_processing_state i \<and> processed_at i' = processed_at i \<and>
        inbound_classification i' = inbound_classification i \<and> inbound_outcome_summary i' = inbound_outcome_summary i \<and>
        inbound_reply_summary i' = inbound_reply_summary i)"

inductive packet_step :: "packet_state \<Rightarrow> packet_state \<Rightarrow> bool" where
  queued: "packet_step PACKET_PREPARED PACKET_QUEUED_ON_NODE"
| rejected: "packet_step PACKET_PREPARED PACKET_REJECTED_BY_NODE"
| unknown: "packet_step PACKET_PREPARED PACKET_OUTCOME_UNKNOWN"
| acknowledged: "packet_step PACKET_QUEUED_ON_NODE PACKET_NODE_ACKNOWLEDGED"
| timed_out: "packet_step PACKET_QUEUED_ON_NODE PACKET_ACKNOWLEDGEMENT_TIMED_OUT"
| late: "packet_step PACKET_ACKNOWLEDGEMENT_TIMED_OUT PACKET_NODE_ACKNOWLEDGED"

inductive_cases packet_stepE: "packet_step s t"
inductive_simps packet_step_rejected: "packet_step PACKET_REJECTED_BY_NODE t"
inductive_simps packet_step_unknown: "packet_step PACKET_OUTCOME_UNKNOWN t"
inductive_simps packet_step_acknowledged: "packet_step PACKET_NODE_ACKNOWLEDGED t"

lemma packet_steps [simp]:
  "packet_step\<^sup>*\<^sup>* PACKET_PREPARED PACKET_QUEUED_ON_NODE"
  "packet_step\<^sup>*\<^sup>* PACKET_PREPARED PACKET_REJECTED_BY_NODE"
  "packet_step\<^sup>*\<^sup>* PACKET_PREPARED PACKET_OUTCOME_UNKNOWN"
  "packet_step\<^sup>*\<^sup>* PACKET_QUEUED_ON_NODE PACKET_NODE_ACKNOWLEDGED"
  "packet_step\<^sup>*\<^sup>* PACKET_QUEUED_ON_NODE PACKET_ACKNOWLEDGEMENT_TIMED_OUT"
  "packet_step\<^sup>*\<^sup>* PACKET_ACKNOWLEDGEMENT_TIMED_OUT PACKET_NODE_ACKNOWLEDGED"
  by (auto intro: packet_step.intros)

lemma packet_final:
  assumes "packet_step\<^sup>*\<^sup>* s t" "s \<in> {PACKET_REJECTED_BY_NODE, PACKET_OUTCOME_UNKNOWN, PACKET_NODE_ACKNOWLEDGED}"
  shows "t = s"
  using assms
  by (induction rule: rtranclp_induct)
    (auto simp: packet_step_rejected packet_step_unknown packet_step_acknowledged)

definition packet_evolves :: "packet \<Rightarrow> packet \<Rightarrow> bool" where
  "packet_evolves p p' \<longleftrightarrow>
     packet_id p' = packet_id p \<and> packet_text p' = packet_text p \<and> sender_timestamp p' = sender_timestamp p \<and>
     packet_purpose p' = packet_purpose p \<and> packet_arm_generation p' = packet_arm_generation p \<and>
     packet_attempt_number p' = packet_attempt_number p \<and> packet_part_number p' = packet_part_number p \<and>
     packet_delivery_id p' = packet_delivery_id p \<and> packet_receipt_id p' = packet_receipt_id p \<and>
     prepared_at p' = prepared_at p \<and> packet_step\<^sup>*\<^sup>* (packet_state p) (packet_state p')"

lemmas evolves_defs = contact_evolves_def message_evolves_def session_evolves_def inbound_evolves_def packet_evolves_def

lemma evolves_refl [simp]:
  "contact_evolves c c" "message_evolves m m" "session_evolves s s" "inbound_evolves i i" "packet_evolves p p"
  by (simp_all add: evolves_defs list_all2_refl)

lemma contact_evolves_trans: "contact_evolves a b \<Longrightarrow> contact_evolves b c \<Longrightarrow> contact_evolves a c"
  by (auto simp: contact_evolves_def)

lemma message_evolves_trans: "message_evolves a b \<Longrightarrow> message_evolves b c \<Longrightarrow> message_evolves a c"
  unfolding message_evolves_def
  by (elim conjE, intro conjI) (auto intro: keeps_trans list_all2_trans [OF keeps_trans])

lemma session_evolves_trans: "session_evolves a b \<Longrightarrow> session_evolves b c \<Longrightarrow> session_evolves a c"
  by (auto simp: session_evolves_def)

lemma inbound_evolves_trans: "inbound_evolves a b \<Longrightarrow> inbound_evolves b c \<Longrightarrow> inbound_evolves a c"
  unfolding inbound_evolves_def by (elim conjE, intro conjI) auto

lemma packet_evolves_trans: "packet_evolves a b \<Longrightarrow> packet_evolves b c \<Longrightarrow> packet_evolves a c"
  unfolding packet_evolves_def by (elim conjE, intro conjI) (auto intro: rtranclp_trans)

lemma tables_evolve_refl [simp]:
  "table_evolves (=) tu tu" "table_evolves contact_evolves tc tc" "table_evolves message_evolves tm tm"
  "table_evolves session_evolves ts ts" "table_evolves delivery_evolves td td" "table_evolves receipt_evolves tr tr"
  "table_evolves inbound_evolves ti ti" "table_evolves packet_evolves tp tp"
  by (simp_all add: table_evolves_refl)

lemmas tables_evolve_trans =
  table_evolves_trans [of "(=)", OF trans]
  table_evolves_trans [of contact_evolves, OF contact_evolves_trans]
  table_evolves_trans [of message_evolves, OF message_evolves_trans]
  table_evolves_trans [of session_evolves, OF session_evolves_trans]
  table_evolves_trans [of delivery_evolves, OF delivery_evolves_trans]
  table_evolves_trans [of receipt_evolves, OF receipt_evolves_trans]
  table_evolves_trans [of inbound_evolves, OF inbound_evolves_trans]
  table_evolves_trans [of packet_evolves, OF packet_evolves_trans]

section \<open>The database\<close>

definition db_moves :: "db \<Rightarrow> db \<Rightarrow> bool" where
  "db_moves db db' \<longleftrightarrow>
     table_evolves (=) (users db) (users db') \<and> table_evolves contact_evolves (contacts db) (contacts db') \<and>
     table_evolves message_evolves (messages db) (messages db') \<and>
     table_evolves session_evolves (refresh_sessions db) (refresh_sessions db') \<and>
     table_evolves delivery_evolves (deliveries db) (deliveries db') \<and>
     table_evolves receipt_evolves (receipts db) (receipts db') \<and>
     table_evolves inbound_evolves (inbox db) (inbox db') \<and> table_evolves packet_evolves (packets db) (packets db') \<and>
     (tables_ok db \<longrightarrow> tables_ok db')"

lemma db_moves_refl [simp]: "db_moves db db"
  by (simp add: db_moves_def)

lemma db_moves_trans [trans]:
  assumes ab: "db_moves a b" and bc: "db_moves b c"
  shows "db_moves a c"
  unfolding db_moves_def
proof (intro conjI)
  show "table_evolves (=) (users a) (users c)"
    by (rule tables_evolve_trans(1) [where u = "users b"]) (use ab bc in \<open>simp_all add: db_moves_def\<close>)
  show "table_evolves contact_evolves (contacts a) (contacts c)"
    by (rule tables_evolve_trans(2) [where u = "contacts b"]) (use ab bc in \<open>simp_all add: db_moves_def\<close>)
  show "table_evolves message_evolves (messages a) (messages c)"
    by (rule tables_evolve_trans(3) [where u = "messages b"]) (use ab bc in \<open>simp_all add: db_moves_def\<close>)
  show "table_evolves session_evolves (refresh_sessions a) (refresh_sessions c)"
    by (rule tables_evolve_trans(4) [where u = "refresh_sessions b"]) (use ab bc in \<open>simp_all add: db_moves_def\<close>)
  show "table_evolves delivery_evolves (deliveries a) (deliveries c)"
    by (rule tables_evolve_trans(5) [where u = "deliveries b"]) (use ab bc in \<open>simp_all add: db_moves_def\<close>)
  show "table_evolves receipt_evolves (receipts a) (receipts c)"
    by (rule tables_evolve_trans(6) [where u = "receipts b"]) (use ab bc in \<open>simp_all add: db_moves_def\<close>)
  show "table_evolves inbound_evolves (inbox a) (inbox c)"
    by (rule tables_evolve_trans(7) [where u = "inbox b"]) (use ab bc in \<open>simp_all add: db_moves_def\<close>)
  show "table_evolves packet_evolves (packets a) (packets c)"
    by (rule tables_evolve_trans(8) [where u = "packets b"]) (use ab bc in \<open>simp_all add: db_moves_def\<close>)
qed (use ab bc in \<open>simp add: db_moves_def\<close>)

lemma db_moves_ok: "db_moves db db' \<Longrightarrow> tables_ok db \<Longrightarrow> tables_ok db'"
  by (simp add: db_moves_def)

lemma deliveries_move_db: "deliveries_move db db' \<Longrightarrow> db_moves db db'"
  by (auto simp: deliveries_move_def db_moves_def tables_ok_def)

lemma receipts_move_db: "receipts_move db db' \<Longrightarrow> db_moves db db'"
  by (auto simp: receipts_move_def db_moves_def tables_ok_def)

text \<open>One table is updated or gets a row.\<close>

lemma users_insert_moves: "db_moves db (db\<lparr>users := insert_row (\<lambda>n. u\<lparr>user_id := n\<rparr>) (users db)\<rparr>)"
  by (auto simp: db_moves_def tables_ok_def intro: table_evolves_insert user_table.keys_insert)

lemma messages_insert_moves: "db_moves db (db\<lparr>messages := insert_row (\<lambda>n. m\<lparr>message_pk := n\<rparr>) (messages db)\<rparr>)"
  by (auto simp: db_moves_def tables_ok_def intro: table_evolves_insert message_table.keys_insert)

lemma sessions_insert_moves:
  "db_moves db (db\<lparr>refresh_sessions := insert_row (\<lambda>n. s\<lparr>session_id := n\<rparr>) (refresh_sessions db)\<rparr>)"
  by (auto simp: db_moves_def tables_ok_def intro: table_evolves_insert session_table.keys_insert)

lemma inbox_insert_moves: "db_moves db (db\<lparr>inbox := insert_row (\<lambda>n. i\<lparr>inbound_id := n\<rparr>) (inbox db)\<rparr>)"
  by (auto simp: db_moves_def tables_ok_def intro: table_evolves_insert inbox_table.keys_insert)

lemma packets_insert_moves: "db_moves db (db\<lparr>packets := insert_row (\<lambda>n. p\<lparr>packet_id := n\<rparr>) (packets db)\<rparr>)"
  by (auto simp: db_moves_def tables_ok_def intro: table_evolves_insert packet_table.keys_insert)

lemma contacts_update_moves:
  assumes "\<And>c. c \<in> set (rows (contacts db)) \<Longrightarrow> P c \<Longrightarrow> contact_evolves c (f c)" "\<And>c. contact_id (f c) = contact_id c"
  shows "db_moves db (db\<lparr>contacts := update_where P f (contacts db)\<rparr>)"
  using assms
  by (auto simp: db_moves_def tables_ok_def intro!: table_evolves_update contact_table.keys_update)

lemma messages_update_moves:
  assumes "\<And>m. m \<in> set (rows (messages db)) \<Longrightarrow> P m \<Longrightarrow> message_evolves m (f m)"
    and "tables_ok db \<Longrightarrow> keys_ok message_pk (update_where P f (messages db))"
  shows "db_moves db (db\<lparr>messages := update_where P f (messages db)\<rparr>)"
  using assms by (auto simp: db_moves_def tables_ok_def intro!: table_evolves_update)

lemma sessions_update_moves:
  assumes "\<And>s. s \<in> set (rows (refresh_sessions db)) \<Longrightarrow> P s \<Longrightarrow> session_evolves s (f s)" "\<And>s. session_id (f s) = session_id s"
  shows "db_moves db (db\<lparr>refresh_sessions := update_where P f (refresh_sessions db)\<rparr>)"
  using assms
  by (auto simp: db_moves_def tables_ok_def intro!: table_evolves_update session_table.keys_update)

lemma inbox_update_moves:
  assumes "\<And>i. i \<in> set (rows (inbox db)) \<Longrightarrow> P i \<Longrightarrow> inbound_evolves i (f i)" "\<And>i. inbound_id (f i) = inbound_id i"
  shows "db_moves db (db\<lparr>inbox := update_where P f (inbox db)\<rparr>)"
  using assms
  by (auto simp: db_moves_def tables_ok_def intro!: table_evolves_update inbox_table.keys_update)

lemma packets_update_moves:
  assumes "\<And>p. p \<in> set (rows (packets db)) \<Longrightarrow> P p \<Longrightarrow> packet_evolves p (f p)" "\<And>p. packet_id (f p) = packet_id p"
  shows "db_moves db (db\<lparr>packets := update_where P f (packets db)\<rparr>)"
  using assms
  by (auto simp: db_moves_def tables_ok_def intro!: table_evolves_update packet_table.keys_update)

text \<open>A row that was in a table when it moved is still there, changed along its machine.\<close>

lemma db_moves_delivery:
  "db_moves db db' \<Longrightarrow> d \<in> set (rows (deliveries db)) \<Longrightarrow> (\<And>d'. d' \<in> set (rows (deliveries db')) \<Longrightarrow> delivery_evolves d d' \<Longrightarrow> thesis) \<Longrightarrow> thesis"
  unfolding db_moves_def by (blast elim: table_evolvesD)

lemma db_moves_message:
  "db_moves db db' \<Longrightarrow> m \<in> set (rows (messages db)) \<Longrightarrow> (\<And>m'. m' \<in> set (rows (messages db')) \<Longrightarrow> message_evolves m m' \<Longrightarrow> thesis) \<Longrightarrow> thesis"
  unfolding db_moves_def by (blast elim: table_evolvesD)

lemma db_moves_packet:
  "db_moves db db' \<Longrightarrow> p \<in> set (rows (packets db)) \<Longrightarrow> (\<And>p'. p' \<in> set (rows (packets db')) \<Longrightarrow> packet_evolves p p' \<Longrightarrow> thesis) \<Longrightarrow> thesis"
  unfolding db_moves_def by (blast elim: table_evolvesD)

lemma db_moves_inbound:
  "db_moves db db' \<Longrightarrow> i \<in> set (rows (inbox db)) \<Longrightarrow> (\<And>i'. i' \<in> set (rows (inbox db')) \<Longrightarrow> inbound_evolves i i' \<Longrightarrow> thesis) \<Longrightarrow> thesis"
  unfolding db_moves_def by (blast elim: table_evolvesD)

section \<open>The services\<close>

text \<open>
  A service that runs for a request moves the database and touches neither the inbox nor the packets.
\<close>

definition service_moves :: "db \<Rightarrow> db \<Rightarrow> bool" where
  "service_moves db db' \<longleftrightarrow> db_moves db db' \<and> inbox db' = inbox db \<and> packets db' = packets db"

lemma service_moves_db: "service_moves db db' \<Longrightarrow> db_moves db db'"
  by (simp add: service_moves_def)

lemma service_moves_refl [simp]: "service_moves db db"
  by (simp add: service_moves_def)

lemma service_moves_trans [trans]: "service_moves a b \<Longrightarrow> service_moves b c \<Longrightarrow> service_moves a c"
  by (auto simp: service_moves_def intro: db_moves_trans)

lemma service_moves_ok: "service_moves db db' \<Longrightarrow> tables_ok db \<Longrightarrow> tables_ok db'"
  by (auto simp: service_moves_def intro: db_moves_ok)

lemma deliveries_move_service: "deliveries_move db db' \<Longrightarrow> service_moves db db'"
  by (simp add: service_moves_def deliveries_move_db deliveries_move_tables)

lemma receipts_move_service: "receipts_move db db' \<Longrightarrow> service_moves db db'"
  by (simp add: service_moves_def receipts_move_db receipts_move_tables)

lemma users_insert_service: "service_moves db (db\<lparr>users := insert_row (\<lambda>n. u\<lparr>user_id := n\<rparr>) (users db)\<rparr>)"
  by (simp add: service_moves_def users_insert_moves)

lemma messages_insert_service: "service_moves db (db\<lparr>messages := insert_row (\<lambda>n. m\<lparr>message_pk := n\<rparr>) (messages db)\<rparr>)"
  by (simp add: service_moves_def messages_insert_moves)

lemma sessions_insert_service:
  "service_moves db (db\<lparr>refresh_sessions := insert_row (\<lambda>n. s\<lparr>session_id := n\<rparr>) (refresh_sessions db)\<rparr>)"
  by (simp add: service_moves_def sessions_insert_moves)

lemma contacts_update_service:
  assumes "\<And>c. c \<in> set (rows (contacts db)) \<Longrightarrow> P c \<Longrightarrow> contact_evolves c (f c)" "\<And>c. contact_id (f c) = contact_id c"
  shows "service_moves db (db\<lparr>contacts := update_where P f (contacts db)\<rparr>)"
  using contacts_update_moves [OF assms] by (simp add: service_moves_def)

lemma messages_update_service:
  assumes "\<And>m. m \<in> set (rows (messages db)) \<Longrightarrow> P m \<Longrightarrow> message_evolves m (f m)"
    and "tables_ok db \<Longrightarrow> keys_ok message_pk (update_where P f (messages db))"
  shows "service_moves db (db\<lparr>messages := update_where P f (messages db)\<rparr>)"
  using messages_update_moves [OF assms] by (simp add: service_moves_def)

lemma sessions_update_service:
  assumes "\<And>s. s \<in> set (rows (refresh_sessions db)) \<Longrightarrow> P s \<Longrightarrow> session_evolves s (f s)" "\<And>s. session_id (f s) = session_id s"
  shows "service_moves db (db\<lparr>refresh_sessions := update_where P f (refresh_sessions db)\<rparr>)"
  using sessions_update_moves [OF assms] by (simp add: service_moves_def)

end
