(* ===== verification/Refresh_Sessions.thy ===== *)
theory Refresh_Sessions
  imports Database_Moves "HOL-Library.Product_Lexorder"
begin

text \<open>
  Refresh sessions (\<^verbatim>\<open>messaging/refresh_sessions.py\<close>): re-delivering a peer's missed messages to one
  device, oldest first, one message at a time.
  The transaction reads a few rows before it locks any: \<open>seen\<close> is the database those unlocked reads saw
  and \<open>db\<close> the one the locks hold; the two differ when another transaction committed in between, and
  \<^verbatim>\<open>LockedRowChangedError\<close> is the branch that notices. Everything after the locks works on \<open>db\<close>.
  The lemmas show that the next head is the owned queued delivery that comes first in acceptance order,
  that a stopped session leaves nothing queued, and that a started session owns its whole scope with
  exactly one head.
\<close>

definition OUTSTANDING_DELIVERY_STATES :: "delivery_state list" where
  "OUTSTANDING_DELIVERY_STATES = [DELIVERY_PENDING, DELIVERY_QUEUED_FOR_REFRESH]"

record refresh_request_outcome =
  refresh_reply :: server_message
  refresh_outcome_summary :: pystr

record peer_refresh =
  message_count :: nat
  started_new_session :: bool

section \<open>Sessions\<close>

definition session_is_active :: "refresh_session \<Rightarrow> bool" where
  "session_is_active s \<longleftrightarrow> session_state s = SESSION_ACTIVE"

definition find_active_refresh_session_id :: "delivery \<Rightarrow> db \<Rightarrow> nat option" where
  "find_active_refresh_session_id d db =
     (case refresh_session_id d of
        None \<Rightarrow> None
      | Some session \<Rightarrow>
          if exists_where (\<lambda>s. session_id s = session \<and> session_state s = SESSION_ACTIVE) (refresh_sessions db)
          then Some session else None)"

text \<open>\<^verbatim>\<open>order_by("message__accepted_at", "message_id")\<close>; a NULL sorts last.\<close>

definition acceptance_order :: "db \<Rightarrow> delivery \<Rightarrow> nat \<times> int \<times> nat" where
  "acceptance_order db d =
     (case Option.bind (find_message (delivery_message_id d) db) accepted_at of
        None \<Rightarrow> (1, 0, delivery_message_id d)
      | Some t \<Rightarrow> (0, t, delivery_message_id d))"

definition queued_deliveries_of :: "nat \<Rightarrow> db \<Rightarrow> delivery list" where
  "queued_deliveries_of session db =
     select_where (\<lambda>d. refresh_session_id d = Some session \<and> delivery_state d = DELIVERY_QUEUED_FOR_REFRESH)
       (deliveries db)"

definition find_next_refresh_session_head :: "nat \<Rightarrow> db \<Rightarrow> delivery option" where
  "find_next_refresh_session_head session db =
     (case queued_deliveries_of session db of
        [] \<Rightarrow> None
      | d # ds \<Rightarrow> Some (arg_min_list (acceptance_order db) (d # ds)))"

definition arm_next_refresh_session_head :: "relay_settings \<Rightarrow> nat \<Rightarrow> datetime \<Rightarrow> db \<Rightarrow> delivery option \<times> db" where
  "arm_next_refresh_session_head S session now db =
     (case find_next_refresh_session_head session db of
        None \<Rightarrow> (None, db)
      | Some next_head \<Rightarrow>
          let (_, next_head', db') = arm_refresh_session_head S next_head now db in (Some next_head', db'))"

definition finish_refresh_session :: "refresh_session_state \<Rightarrow> nat \<Rightarrow> datetime \<Rightarrow> db \<Rightarrow> bool \<times> db" where
  "finish_refresh_session new_state session now db =
     (let active = (\<lambda>s. session_id s = session \<and> session_state s = SESSION_ACTIVE)
      in (count_where active (refresh_sessions db) = 1,
          db\<lparr>refresh_sessions := update_where active
               (\<lambda>s. s\<lparr>session_state := new_state, finished_at := Some now\<rparr>) (refresh_sessions db)\<rparr>))"

definition complete_refresh_session :: "nat \<Rightarrow> datetime \<Rightarrow> db \<Rightarrow> bool \<times> db" where
  "complete_refresh_session = finish_refresh_session SESSION_COMPLETED"

fun fail_queued_loop :: "delivery list \<Rightarrow> datetime \<Rightarrow> db \<Rightarrow> db" where
  "fail_queued_loop [] now db = db"
| "fail_queued_loop (d # ds) now db =
     fail_queued_loop ds now (snd (snd (fail_delivery_of_stopped_refresh d now db)))"

definition stop_refresh_session :: "nat \<Rightarrow> datetime \<Rightarrow> db \<Rightarrow> db" where
  "stop_refresh_session session now db =
     snd (finish_refresh_session SESSION_STOPPED session now
       (fail_queued_loop (queued_deliveries_of session db) now db))"

definition cancel_device_refresh_sessions_for_relink :: "nat \<Rightarrow> datetime \<Rightarrow> db \<Rightarrow> nat \<times> db" where
  "cancel_device_refresh_sessions_for_relink device now db =
     (let active = (\<lambda>s. session_device_id s = device \<and> session_state s = SESSION_ACTIVE)
      in (count_where active (refresh_sessions db),
          db\<lparr>refresh_sessions := update_where active
               (\<lambda>s. s\<lparr>session_state := SESSION_CANCELLED, finished_at := Some now\<rparr>) (refresh_sessions db)\<rparr>))"

section \<open>The scope of a refresh\<close>

definition refresh_takes_over :: "nat \<Rightarrow> nat \<Rightarrow> db \<Rightarrow> delivery \<Rightarrow> bool" where
  "refresh_takes_over device user db d \<longleftrightarrow>
     (delivery_state d = DELIVERY_FAILED \<or> delivery_state d = DELIVERY_CANCELLED \<or>
      delivery_state d = DELIVERY_PENDING \<and> refresh_session_id d = None) \<and>
     delivery_device_id d = device \<and>
     (case find_message (delivery_message_id d) db of
        None \<Rightarrow> False
      | Some m \<Rightarrow> recipient_id m = user \<and> accepted_at m \<noteq> None)"

definition select_deliveries_a_refresh_takes_over :: "nat \<Rightarrow> nat \<Rightarrow> db \<Rightarrow> delivery list" where
  "select_deliveries_a_refresh_takes_over device user db =
     select_where (refresh_takes_over device user db) (deliveries db)"

definition select_messages_no_device_received :: "nat \<Rightarrow> nat \<Rightarrow> db \<Rightarrow> message list" where
  "select_messages_no_device_received device user db =
     select_where (\<lambda>m. recipient_id m = user \<and> accepted_at m \<noteq> None \<and> message_delivered_at m = None \<and>
         \<not> exists_where (\<lambda>d. delivery_message_id d = message_pk m \<and> delivery_device_id d = device) (deliveries db))
       (messages db)"

definition delivery_sender :: "db \<Rightarrow> delivery \<Rightarrow> nat option" where
  "delivery_sender db d = map_option sender_id (find_message (delivery_message_id d) db)"

definition find_peer_ids_with_missed_messages :: "nat \<Rightarrow> nat \<Rightarrow> db \<Rightarrow> nat list" where
  "find_peer_ids_with_missed_messages device user db =
     sorted_list_of_set
       ((set (List.map_filter (delivery_sender db) (select_deliveries_a_refresh_takes_over device user db)) \<union>
         set (map sender_id (select_messages_no_device_received device user db)) \<union>
         set (map peer_id (select_where (\<lambda>s. session_device_id s = device \<and> session_state s = SESSION_ACTIVE)
                             (refresh_sessions db)))) - {user})"

section \<open>One peer\<close>

definition count_outstanding_deliveries :: "nat \<Rightarrow> db \<Rightarrow> nat" where
  "count_outstanding_deliveries session db =
     count_where (\<lambda>d. refresh_session_id d = Some session \<and> delivery_state d \<in> set OUTSTANDING_DELIVERY_STATES)
       (deliveries db)"

definition restart_active_session_head :: "relay_settings \<Rightarrow> nat \<Rightarrow> datetime \<Rightarrow> db \<Rightarrow> db" where
  "restart_active_session_head S session now db =
     (case first_where (\<lambda>d. refresh_session_id d = Some session \<and> delivery_state d = DELIVERY_PENDING) (deliveries db) of
        None \<Rightarrow> db
      | Some head \<Rightarrow> snd (snd (restart_refresh_session_head S head now db)))"

fun take_over_loop :: "delivery list \<Rightarrow> nat \<Rightarrow> datetime \<Rightarrow> db \<Rightarrow> db" where
  "take_over_loop [] session now db = db"
| "take_over_loop (d # ds) session now db =
     take_over_loop ds session now (snd (snd (take_delivery_into_refresh_session d session now db)))"

fun create_owned_loop :: "relay_settings \<Rightarrow> nat list \<Rightarrow> nat \<Rightarrow> nat \<Rightarrow> datetime \<Rightarrow> db \<Rightarrow> db" where
  "create_owned_loop S [] device session now db = db"
| "create_owned_loop S (m # ms) device session now db =
     create_owned_loop S ms device session now (create_refresh_owned_delivery S m device session now db)"

definition new_refresh_session :: "nat \<Rightarrow> nat \<Rightarrow> bool \<Rightarrow> nat \<Rightarrow> nat option \<Rightarrow> datetime \<Rightarrow> refresh_session" where
  "new_refresh_session device peer for_all total_count inbound now =
     \<lparr>session_id = 0, session_device_id = device, peer_id = peer, session_state = SESSION_ACTIVE,
      requested_at = now, finished_at = None, requested_for_all_peers = for_all, messages_total = total_count,
      requested_by_inbound_id = inbound\<rparr>"

definition refresh_peer ::
  "relay_settings \<Rightarrow> nat \<Rightarrow> nat \<Rightarrow> nat \<Rightarrow> bool \<Rightarrow> nat option \<Rightarrow> datetime \<Rightarrow> db \<Rightarrow> peer_refresh \<times> db" where
  "refresh_peer S device user peer for_all inbound now db =
     (case first_where (\<lambda>s. session_device_id s = device \<and> peer_id s = peer \<and> session_state s = SESSION_ACTIVE)
             (refresh_sessions db) of
        Some active_session \<Rightarrow>
          let db1 = restart_active_session_head S (session_id active_session) now db
          in (\<lparr>message_count = count_outstanding_deliveries (session_id active_session) db1,
               started_new_session = False\<rparr>, db1)
      | None \<Rightarrow>
          let taken_over = filter (\<lambda>d. delivery_sender db d = Some peer)
                             (select_deliveries_a_refresh_takes_over device user db);
              missed = map message_pk (filter (\<lambda>m. sender_id m = peer)
                         (select_messages_no_device_received device user db));
              scope_size = length taken_over + length missed
          in if scope_size = 0 then (\<lparr>message_count = 0, started_new_session = False\<rparr>, db)
             else
               let session = next_id (refresh_sessions db);
                   db1 = db\<lparr>refresh_sessions := insert_row
                           (\<lambda>n. (new_refresh_session device peer for_all scope_size inbound now)\<lparr>session_id := n\<rparr>)
                           (refresh_sessions db)\<rparr>;
                   db2 = take_over_loop taken_over session now db1;
                   db3 = create_owned_loop S missed device session now db2;
                   (_, db4) = arm_next_refresh_session_head S session now db3
               in (\<lparr>message_count = scope_size, started_new_session = True\<rparr>, db4))"

fun refresh_peers_loop ::
  "relay_settings \<Rightarrow> nat \<Rightarrow> nat \<Rightarrow> nat list \<Rightarrow> bool \<Rightarrow> nat option \<Rightarrow> datetime \<Rightarrow> db \<Rightarrow> peer_refresh list \<times> db" where
  "refresh_peers_loop S device user [] for_all inbound now db = ([], db)"
| "refresh_peers_loop S device user (peer # peers) for_all inbound now db =
     (let (r, db1) = refresh_peer S device user peer for_all inbound now db;
          (rs, db2) = refresh_peers_loop S device user peers for_all inbound now db1
      in (r # rs, db2))"

section \<open>The request\<close>

definition build_refresh_error_outcome :: "error_code \<Rightarrow> pystr \<Rightarrow> pystr \<Rightarrow> refresh_request_outcome res" where
  "build_refresh_error_outcome code target reason =
     res_bind (build_request_error_reply code (RefreshRequest target)) (\<lambda>reply.
       Inr \<lparr>refresh_reply = reply, refresh_outcome_summary = reason\<rparr>)"

text \<open>The users that could be locked, in ascending id; the error when the device is no longer the user's.\<close>

definition lock_users_then_device :: "nat \<Rightarrow> nat list \<Rightarrow> nat \<Rightarrow> db \<Rightarrow> user list res" where
  "lock_users_then_device user peers device db =
     (let locked_users = select_where (\<lambda>u. user_id u \<in> set (user # peers)) (users db)
      in if user \<notin> set (map user_id locked_users) \<or> device_user_id device db \<noteq> Some user
         then Inl LockedRowChangedError else Inr locked_users)"

definition describe_refresh :: "nat \<Rightarrow> nat \<Rightarrow> nat \<Rightarrow> pystr" where
  "describe_refresh total_count started peers =
     digits_of_nat total_count @ str '' message(s) to re-deliver, '' @ digits_of_nat started @
     str '' new refresh session(s) of '' @ digits_of_nat peers @ str '' peer(s)''"

definition start_refresh_in_transaction ::
  "relay_settings \<Rightarrow> db \<Rightarrow> nat \<Rightarrow> pystr \<Rightarrow> datetime \<Rightarrow> nat option \<Rightarrow> db \<Rightarrow> (refresh_request_outcome \<times> db) res" where
  "start_refresh_in_transaction S seen device target now inbound db =
     (let error = (\<lambda>code reason. res_bind (build_refresh_error_outcome code target reason) (\<lambda>out. Inr (out, db)))
      in case device_user_id device seen of
           None \<Rightarrow> error NOT_SIGNED_IN (str ''the device is not signed in'')
         | Some user \<Rightarrow>
             let for_all = is_for_all_peers target;
                 peer_ids = (if for_all then Some (find_peer_ids_with_missed_messages device user seen)
                             else map_option (\<lambda>u. [user_id u]) (find_user_by_lookup target seen))
             in case peer_ids of
                  None \<Rightarrow> error NO_SUCH_USER (str ''no such user'')
                | Some peers \<Rightarrow>
                    if \<not> for_all \<and> peers = [user] then error SELF (str ''the peer is the user itself'')
                    else
                      res_bind (lock_users_then_device user peers device db) (\<lambda>locked_users.
                      let locked_peers = filter (\<lambda>u. user_id u \<in> set peers) locked_users
                      in case (for_all, locked_peers) of
                           (False, []) \<Rightarrow> error NO_SUCH_USER (str ''no such user'')
                         | _ \<Rightarrow>
                             let db1 = (case (for_all, locked_peers) of
                                          (False, peer # _) \<Rightarrow>
                                            snd (rearm_receipts_for_refresh S device user (user_id peer) now db)
                                        | _ \<Rightarrow> db);
                                 (peer_refreshes, db2) =
                                   refresh_peers_loop S device user (map user_id locked_peers) for_all inbound now db1;
                                 total_count = sum_list (map message_count peer_refreshes);
                                 started = length (filter started_new_session peer_refreshes);
                                 reply_target = (case (for_all, locked_peers) of
                                                   (False, peer # _) \<Rightarrow> user_username peer | _ \<Rightarrow> target)
                             in Inr (\<lparr>refresh_reply = RefreshReply reply_target (int total_count),
                                      refresh_outcome_summary =
                                        describe_refresh total_count started (length peer_refreshes)\<rparr>, db2)))"

section \<open>The next head\<close>

lemma next_head_None: "find_next_refresh_session_head session db = None \<longleftrightarrow> queued_deliveries_of session db = []"
  by (auto simp: find_next_refresh_session_head_def split: list.splits)

lemma next_head_Some:
  assumes "find_next_refresh_session_head session db = Some d"
  shows "d \<in> set (queued_deliveries_of session db)"
    and "\<And>e. e \<in> set (queued_deliveries_of session db) \<Longrightarrow> acceptance_order db d \<le> acceptance_order db e"
proof -
  let ?q = "queued_deliveries_of session db"
  from assms have q: "?q \<noteq> []" and d: "d = arg_min_list (acceptance_order db) ?q"
    by (auto simp: find_next_refresh_session_head_def split: list.splits)
  then show "d \<in> set ?q" by (simp add: arg_min_list_in)
  fix e assume "e \<in> set ?q"
  then show "acceptance_order db d \<le> acceptance_order db e"
    using q by (simp add: d f_arg_min_list_f)
qed

lemma in_queued_deliveries:
  "d \<in> set (queued_deliveries_of session db) \<longleftrightarrow>
     d \<in> set (rows (deliveries db)) \<and> refresh_session_id d = Some session \<and>
     delivery_state d = DELIVERY_QUEUED_FOR_REFRESH"
  by (auto simp: queued_deliveries_of_def)

lemma acceptance_order_messages: "messages db' = messages db \<Longrightarrow> acceptance_order db' d = acceptance_order db d"
  by (simp add: acceptance_order_def find_message_def)

section \<open>Every service moves the database along the machines\<close>

lemma arm_next_head_deliveries: "arm_next_refresh_session_head S session now db = (r, db') \<Longrightarrow> deliveries_move db db'"
  by (auto simp: arm_next_refresh_session_head_def split: option.splits prod.splits dest: arm_head_moves)

lemma finish_session_moves: "service_moves db (snd (finish_refresh_session new_state session now db))"
  by (auto simp: finish_refresh_session_def Let_def session_evolves_def intro!: sessions_update_service)

lemma fail_queued_loop_deliveries: "deliveries_move db (fail_queued_loop ds now db)"
proof (induction ds arbitrary: db)
  case (Cons d ds)
  obtain b d' db' where op: "fail_delivery_of_stopped_refresh d now db = (b, d', db')" by (metis prod.exhaust)
  from deliveries_move_trans [OF fail_stopped_moves [OF op] Cons.IH] op show ?case by simp
qed simp

lemma stop_session_moves: "service_moves db (stop_refresh_session session now db)"
  unfolding stop_refresh_session_def
  using deliveries_move_service [OF fail_queued_loop_deliveries] finish_session_moves by (rule service_moves_trans)

lemma cancel_sessions_moves: "cancel_device_refresh_sessions_for_relink device now db = (n, db') \<Longrightarrow> service_moves db db'"
  by (auto simp: cancel_device_refresh_sessions_for_relink_def Let_def session_evolves_def
      intro!: sessions_update_service)

lemma restart_active_head_deliveries: "deliveries_move db (restart_active_session_head S session now db)"
proof (cases "first_where (\<lambda>d. refresh_session_id d = Some session \<and> delivery_state d = DELIVERY_PENDING) (deliveries db)")
  case (Some d)
  obtain b d' db' where op: "restart_refresh_session_head S d now db = (b, d', db')" by (metis prod.exhaust)
  with Some restart_head_moves [OF op] show ?thesis by (simp add: restart_active_session_head_def)
qed (simp add: restart_active_session_head_def)

lemma take_over_loop_deliveries: "deliveries_move db (take_over_loop ds session now db)"
proof (induction ds arbitrary: db)
  case (Cons d ds)
  obtain b d' db' where op: "take_delivery_into_refresh_session d session now db = (b, d', db')" by (metis prod.exhaust)
  from deliveries_move_trans [OF take_delivery_moves [OF op] Cons.IH] op show ?case by simp
qed simp

lemma create_owned_deliveries: "deliveries_move db (create_refresh_owned_delivery S m device session now db)"
  by (simp add: create_refresh_owned_delivery_def deliveries_move_insert)

lemma create_pending_deliveries: "deliveries_move db (create_pending_delivery S m device now db)"
  by (simp add: create_pending_delivery_def deliveries_move_insert)

lemma create_owned_loop_deliveries: "deliveries_move db (create_owned_loop S ms device session now db)"
  by (induction ms arbitrary: db) (auto intro: deliveries_move_trans [OF create_owned_deliveries])

lemma new_session_deliveries:
  "arm_next_refresh_session_head S session now
     (create_owned_loop S ms device session now (take_over_loop ds session now db)) = (r, db') \<Longrightarrow> deliveries_move db db'"
  by (blast intro: deliveries_move_trans take_over_loop_deliveries create_owned_loop_deliveries arm_next_head_deliveries)

lemma refresh_peer_moves: "refresh_peer S device user peer for_all inbound now db = (r, db') \<Longrightarrow> service_moves db db'"
  unfolding refresh_peer_def Let_def
  by (auto split: option.splits if_splits prod.splits
      intro: deliveries_move_service [OF restart_active_head_deliveries]
        service_moves_trans [OF sessions_insert_service deliveries_move_service [OF new_session_deliveries]])

lemma refresh_peers_loop_moves: "service_moves db (snd (refresh_peers_loop S device user peers for_all inbound now db))"
proof (induction peers arbitrary: db)
  case (Cons peer peers)
  obtain r db1 where op: "refresh_peer S device user peer for_all inbound now db = (r, db1)" by fastforce
  from service_moves_trans [OF refresh_peer_moves [OF op] Cons.IH] op show ?case by (simp add: case_prod_beta)
qed simp

lemma start_refresh_moves:
  assumes "start_refresh_in_transaction S seen device target now inbound db = Inr (out, db')" "tables_ok db"
  shows "service_moves db db'"
proof -
  have rearm: "service_moves db (snd (rearm_receipts_for_refresh S device user peer now db))" for user peer
    using assms(2) by (intro receipts_move_service rearm_receipts_for_refresh_moves) (simp add: tables_ok_def)
  from assms(1) show ?thesis
    unfolding start_refresh_in_transaction_def
    by (auto simp: Let_def res_bind_eq_Inr case_prod_beta simp del: refresh_peers_loop.simps
        split: option.splits if_splits bool.splits list.splits
        intro: refresh_peers_loop_moves service_moves_trans [OF rearm refresh_peers_loop_moves])
qed

section \<open>Changing a list of locked deliveries\<close>

text \<open>
  A loop that changes each delivery of a list it locked: the instances were read before the loop, so a
  step on one of them must not disturb the others. The contract is one step on an instance that is still
  its row; the lemma is what the whole loop does.
\<close>

locale delivery_loop =
  fixes step :: "delivery \<Rightarrow> db \<Rightarrow> db" and loop :: "delivery list \<Rightarrow> db \<Rightarrow> db"
    and change :: "delivery \<Rightarrow> delivery" and ready :: "delivery \<Rightarrow> bool"
  assumes loop_Nil: "loop [] db = db"
    and loop_Cons: "loop (d # ds) db = loop ds (step d db)"
    and step_row: "keys_ok delivery_id (deliveries db) \<Longrightarrow> d \<in> set (rows (deliveries db)) \<Longrightarrow> ready d \<Longrightarrow>
      step d db = db\<lparr>deliveries := update_where (\<lambda>r. delivery_id r = delivery_id d) change (deliveries db)\<rparr>"
    and change_id: "delivery_id (change r) = delivery_id r"
begin

lemma loop_updates:
  assumes "keys_ok delivery_id (deliveries db)" "distinct (map delivery_id ds)"
    and "\<And>d. d \<in> set ds \<Longrightarrow> d \<in> set (rows (deliveries db)) \<and> ready d"
  shows "loop ds db =
    db\<lparr>deliveries := update_where (\<lambda>r. delivery_id r \<in> delivery_id ` set ds) change (deliveries db)\<rparr>"
  using assms
proof (induction ds arbitrary: db)
  case Nil
  then show ?case by (simp add: loop_Nil)
next
  case (Cons d ds)
  let ?t = "update_where (\<lambda>r. delivery_id r = delivery_id d) change (deliveries db)"
  let ?db = "db\<lparr>deliveries := ?t\<rparr>"
  have step: "step d db = ?db" using Cons.prems by (intro step_row) auto
  have rest: "e \<in> set (rows (deliveries ?db)) \<and> ready e" if "e \<in> set ds" for e
  proof -
    have "e \<in> set (rows (deliveries db))" "ready e" using Cons.prems that by auto
    moreover have "delivery_id d \<notin> delivery_id ` set ds" using Cons.prems(2) by simp
    then have "delivery_id e \<noteq> delivery_id d" using that by (metis image_eqI)
    ultimately show ?thesis by (auto intro: image_eqI [where x = e])
  qed
  have "loop ds ?db = ?db\<lparr>deliveries := update_where (\<lambda>r. delivery_id r \<in> delivery_id ` set ds) change (deliveries ?db)\<rparr>"
  proof (rule Cons.IH)
    show "keys_ok delivery_id (deliveries ?db)"
      using Cons.prems(1) delivery_table.keys_update [of "deliveries db" change] change_id by simp
  qed (use Cons.prems(2) rest in auto)
  also have "\<dots> = db\<lparr>deliveries :=
      update_where (\<lambda>r. delivery_id r \<in> delivery_id ` set (d # ds)) change (deliveries db)\<rparr>"
    using Cons.prems(2) by (auto simp: update_where_def change_id)
  finally show ?case by (simp only: loop_Cons step)
qed

end

definition fail_stopped_change :: "datetime \<Rightarrow> delivery \<Rightarrow> delivery" where
  "fail_stopped_change now r =
     r\<lparr>delivery_state := DELIVERY_FAILED, failed_at := Some now, failure_reason := REFRESH_STOPPED\<rparr>"

interpretation fail_queued: delivery_loop "\<lambda>d db. snd (snd (fail_delivery_of_stopped_refresh d now db))"
  "\<lambda>ds db. fail_queued_loop ds now db" "fail_stopped_change now" "\<lambda>d. delivery_state d = DELIVERY_QUEUED_FOR_REFRESH"
  for now
  by unfold_locales
    (simp_all add: fail_delivery_of_stopped_refresh_def update_locked_delivery_row fail_stopped_change_def)

definition take_over_change :: "nat \<Rightarrow> delivery \<Rightarrow> delivery" where
  "take_over_change session r =
     (let r1 = r\<lparr>delivery_state := DELIVERY_QUEUED_FOR_REFRESH, refresh_session_id := Some session,
                 attempt_count := 0, arm_generation := arm_generation r + 1,
                 round_pending_parts_mask := 0, round_started_at := None, next_attempt_at := None\<rparr>;
          r2 = (if delivery_state r = DELIVERY_FAILED then r1\<lparr>failed_at := None, failure_reason := NO_FAILURE\<rparr> else r1)
      in if delivery_state r = DELIVERY_CANCELLED then r2\<lparr>cancelled_at := None, parts_received_mask := 0\<rparr> else r2)"

text \<open>What a refresh may take over: not the head or the queue of another session.\<close>

definition can_be_taken_over :: "delivery \<Rightarrow> bool" where
  "can_be_taken_over d \<longleftrightarrow>
     delivery_state d = DELIVERY_FAILED \<or> delivery_state d = DELIVERY_CANCELLED \<or>
     delivery_state d = DELIVERY_PENDING \<and> refresh_session_id d = None"

lemma take_delivery_row:
  assumes "keys_ok delivery_id (deliveries db)" "d \<in> set (rows (deliveries db))" "can_be_taken_over d"
  shows "take_delivery_into_refresh_session d session now db =
    (True, take_over_change session d,
     db\<lparr>deliveries := update_where (\<lambda>r. delivery_id r = delivery_id d) (take_over_change session) (deliveries db)\<rparr>)"
proof -
  have "update_where (\<lambda>r. delivery_id r = delivery_id d)
      (\<lambda>r. let r1 = r\<lparr>delivery_state := DELIVERY_QUEUED_FOR_REFRESH, refresh_session_id := Some session,
                       attempt_count := 0, arm_generation := arm_generation r + 1,
                       round_pending_parts_mask := 0, round_started_at := None, next_attempt_at := None\<rparr>;
               r2 = (if delivery_state d = DELIVERY_FAILED
                     then r1\<lparr>failed_at := None, failure_reason := NO_FAILURE\<rparr> else r1)
           in if delivery_state d = DELIVERY_CANCELLED
              then r2\<lparr>cancelled_at := None, parts_received_mask := 0\<rparr> else r2) (deliveries db) =
    update_where (\<lambda>r. delivery_id r = delivery_id d) (take_over_change session) (deliveries db)"
  proof (rule update_where_cong)
    fix r assume "r \<in> set (rows (deliveries db))" "delivery_id r = delivery_id d"
    then have "r = d" by (rule delivery_table.key_unique [OF assms(1) _ assms(2)])
    then show "(let r1 = r\<lparr>delivery_state := DELIVERY_QUEUED_FOR_REFRESH, refresh_session_id := Some session,
                       attempt_count := 0, arm_generation := arm_generation r + 1,
                       round_pending_parts_mask := 0, round_started_at := None, next_attempt_at := None\<rparr>;
               r2 = (if delivery_state d = DELIVERY_FAILED
                     then r1\<lparr>failed_at := None, failure_reason := NO_FAILURE\<rparr> else r1)
           in if delivery_state d = DELIVERY_CANCELLED
              then r2\<lparr>cancelled_at := None, parts_received_mask := 0\<rparr> else r2) = take_over_change session r"
      by (simp only: take_over_change_def)
  qed simp
  then show ?thesis
    using assms
    by (auto simp: take_delivery_into_refresh_session_def can_be_taken_over_def update_locked_delivery_row
        take_over_change_def)
qed

interpretation take_over: delivery_loop "\<lambda>d db. snd (snd (take_delivery_into_refresh_session d session now db))"
  "\<lambda>ds db. take_over_loop ds session now db" "take_over_change session" can_be_taken_over
  for session now
  by unfold_locales (simp_all add: take_delivery_row take_over_change_def Let_def)

lemma distinct_delivery_ids: "keys_ok delivery_id (deliveries db) \<Longrightarrow> distinct (map delivery_id (select_where P (deliveries db)))"
  by (auto simp: keys_ok_def select_where_def strict_sorted_iff intro: distinct_map_filter)

section \<open>Stopping a session\<close>

lemma stop_session_deliveries:
  assumes "keys_ok delivery_id (deliveries db)"
  shows "deliveries (stop_refresh_session session now db) =
    update_where (\<lambda>r. refresh_session_id r = Some session \<and> delivery_state r = DELIVERY_QUEUED_FOR_REFRESH)
      (fail_stopped_change now) (deliveries db)"
proof -
  let ?q = "queued_deliveries_of session db"
  have "fail_queued_loop ?q now db =
      db\<lparr>deliveries := update_where (\<lambda>r. delivery_id r \<in> delivery_id ` set ?q) (fail_stopped_change now) (deliveries db)\<rparr>"
    by (rule fail_queued.loop_updates [OF assms])
      (use distinct_delivery_ids [OF assms] in \<open>auto simp: queued_deliveries_of_def\<close>)
  moreover have "delivery_id r \<in> delivery_id ` set ?q \<longleftrightarrow>
      refresh_session_id r = Some session \<and> delivery_state r = DELIVERY_QUEUED_FOR_REFRESH"
    if "r \<in> set (rows (deliveries db))" for r
  proof
    assume "delivery_id r \<in> delivery_id ` set ?q"
    then obtain d where "d \<in> set ?q" "delivery_id r = delivery_id d" by blast
    with delivery_table.key_unique [OF assms that] show
      "refresh_session_id r = Some session \<and> delivery_state r = DELIVERY_QUEUED_FOR_REFRESH"
      by (auto simp: in_queued_deliveries)
  qed (use that in \<open>simp add: in_queued_deliveries\<close>)
  then have "update_where (\<lambda>r. delivery_id r \<in> delivery_id ` set ?q) (fail_stopped_change now) (deliveries db) =
      update_where (\<lambda>r. refresh_session_id r = Some session \<and> delivery_state r = DELIVERY_QUEUED_FOR_REFRESH)
        (fail_stopped_change now) (deliveries db)"
    by (intro update_where_cong) simp_all
  ultimately show ?thesis
    by (simp add: stop_refresh_session_def finish_refresh_session_def Let_def)
qed

lemma stop_session_sessions:
  "refresh_sessions (stop_refresh_session session now db) =
     update_where (\<lambda>s. session_id s = session \<and> session_state s = SESSION_ACTIVE)
       (\<lambda>s. s\<lparr>session_state := SESSION_STOPPED, finished_at := Some now\<rparr>) (refresh_sessions db)"
  using deliveries_move_tables(4) [OF fail_queued_loop_deliveries, of _ now db]
  by (simp add: stop_refresh_session_def finish_refresh_session_def Let_def)

section \<open>Starting a session\<close>

lemma create_owned_loop_rows:
  obtains added where
    "rows (deliveries (create_owned_loop S ms device session now db)) = rows (deliveries db) @ added"
    "map delivery_message_id added = ms"
    "\<forall>d \<in> set added. refresh_session_id d = Some session \<and> delivery_state d = DELIVERY_QUEUED_FOR_REFRESH \<and>
       delivery_device_id d = device"
proof (induction ms arbitrary: db thesis)
  case (Cons m ms)
  let ?d = "(new_delivery S m device now)
    \<lparr>delivery_state := DELIVERY_QUEUED_FOR_REFRESH, refresh_session_id := Some session,
     delivery_id := next_id (deliveries db)\<rparr>"
  obtain added where "rows (deliveries (create_owned_loop S ms device session now
      (create_refresh_owned_delivery S m device session now db))) =
      rows (deliveries (create_refresh_owned_delivery S m device session now db)) @ added"
    "map delivery_message_id added = ms"
    "\<forall>d \<in> set added. refresh_session_id d = Some session \<and> delivery_state d = DELIVERY_QUEUED_FOR_REFRESH \<and>
       delivery_device_id d = device"
    by (rule Cons.IH)
  then show ?case
    by (intro Cons.prems [of "?d # added"])
      (simp_all add: create_refresh_owned_delivery_def insert_delivery_def new_delivery_def)
qed simp

definition arm_head_change :: "relay_settings \<Rightarrow> datetime \<Rightarrow> delivery \<Rightarrow> delivery" where
  "arm_head_change S now r =
     r\<lparr>delivery_state := DELIVERY_PENDING, attempt_count := 0, arm_generation := arm_generation r + 1,
       round_pending_parts_mask := 0, maximum_attempts := strategy_maximum_attempts (retry_strategy S),
       next_attempt_at := Some now\<rparr>"

lemma arm_next_head_row:
  assumes "keys_ok delivery_id (deliveries db)" "find_next_refresh_session_head session db = Some d"
  shows "arm_next_refresh_session_head S session now db =
    (Some (arm_head_change S now d),
     db\<lparr>deliveries := update_where (\<lambda>r. delivery_id r = delivery_id d) (arm_head_change S now) (deliveries db)\<rparr>)"
  using assms next_head_Some(1) [OF assms(2)]
  by (simp add: arm_next_refresh_session_head_def arm_refresh_session_head_def in_queued_deliveries
      update_locked_delivery_row arm_head_change_def)

lemma count_owned_after_take_over:
  assumes "\<And>r. r \<in> set rs \<Longrightarrow> refresh_session_id r \<noteq> Some session"
  shows "length (filter (\<lambda>d. refresh_session_id d = Some session) (map (\<lambda>r. if P r then take_over_change session r else r) rs)) =
    length (filter P rs)"
  using assms by (induction rs) (auto simp: take_over_change_def Let_def)

text \<open>
  The armed head: every delivery the session owns is queued but the head, which is pending and due now, and
  none of them comes before it.
\<close>

definition session_has_head :: "db \<Rightarrow> nat \<Rightarrow> delivery \<Rightarrow> bool" where
  "session_has_head db session head \<longleftrightarrow>
     head \<in> set (rows (deliveries db)) \<and> refresh_session_id head = Some session \<and> delivery_state head = DELIVERY_PENDING \<and>
     (\<forall>d \<in> set (rows (deliveries db)). refresh_session_id d = Some session \<longrightarrow>
        d = head \<or> delivery_state d = DELIVERY_QUEUED_FOR_REFRESH \<and> acceptance_order db head \<le> acceptance_order db d)"

lemma arm_next_head_single:
  assumes "keys_ok delivery_id (deliveries db)" "queued_deliveries_of session db \<noteq> []"
    and "\<And>d. d \<in> set (rows (deliveries db)) \<Longrightarrow> refresh_session_id d = Some session \<Longrightarrow>
      delivery_state d = DELIVERY_QUEUED_FOR_REFRESH"
  obtains head db' where "arm_next_refresh_session_head S session now db = (Some head, db')"
    "session_has_head db' session head" "next_attempt_at head = Some now"
    "count_where (\<lambda>d. refresh_session_id d = Some session) (deliveries db') =
     count_where (\<lambda>d. refresh_session_id d = Some session) (deliveries db)"
proof -
  obtain d where d: "find_next_refresh_session_head session db = Some d"
    using assms(2) next_head_None by (cases "find_next_refresh_session_head session db") auto
  let ?t = "update_where (\<lambda>r. delivery_id r = delivery_id d) (arm_head_change S now) (deliveries db)"
  let ?db = "db\<lparr>deliveries := ?t\<rparr>"
  have dq: "d \<in> set (rows (deliveries db))" "refresh_session_id d = Some session"
    using next_head_Some(1) [OF d] by (simp_all add: in_queued_deliveries)
  have order: "acceptance_order ?db x = acceptance_order db x" for x by (rule acceptance_order_messages) simp
  have armed: "acceptance_order db (arm_head_change S now x) = acceptance_order db x" for x
    by (simp add: acceptance_order_def arm_head_change_def split: option.split)
  have "session_has_head ?db session (arm_head_change S now d)"
    unfolding session_has_head_def order armed
  proof (intro conjI ballI impI)
    fix e assume e: "e \<in> set (rows (deliveries ?db))" "refresh_session_id e = Some session"
    then obtain r where r: "r \<in> set (rows (deliveries db))"
      "e = (if delivery_id r = delivery_id d then arm_head_change S now r else r)" by auto
    show "e = arm_head_change S now d \<or> delivery_state e = DELIVERY_QUEUED_FOR_REFRESH \<and>
        acceptance_order db d \<le> acceptance_order db e"
    proof (cases "delivery_id r = delivery_id d")
      case True
      then have "r = d" by (rule delivery_table.key_unique [OF assms(1) r(1) dq(1)])
      with r(2) show ?thesis by simp
    next
      case False
      with r e have "r \<in> set (queued_deliveries_of session db)" "e = r"
        using assms(3) [OF r(1)] by (simp_all add: in_queued_deliveries)
      then show ?thesis using next_head_Some(2) [OF d] by (simp add: in_queued_deliveries)
    qed
  qed (use dq in \<open>auto simp: arm_head_change_def intro!: image_eqI [where x = d]\<close>)
  moreover have "count_where (\<lambda>d. refresh_session_id d = Some session) ?t =
      count_where (\<lambda>d. refresh_session_id d = Some session) (deliveries db)"
    by (simp add: count_where_def filter_map comp_def if_distrib [of refresh_session_id] arm_head_change_def cong: if_cong)
  ultimately show thesis
    using arm_next_head_row [OF assms(1) d, of S now] by (intro that [of "arm_head_change S now d" ?db]) (simp_all add: arm_head_change_def)
qed

lemma refresh_peer_starts:
  assumes peer: "refresh_peer S device user peer for_all inbound now db = (r, db')" and new: "started_new_session r"
    and ok: "tables_ok db"
    and fresh: "\<And>d. d \<in> set (rows (deliveries db)) \<Longrightarrow> refresh_session_id d \<noteq> Some (next_id (refresh_sessions db))"
  obtains head where "session_has_head db' (next_id (refresh_sessions db)) head" "next_attempt_at head = Some now"
    "count_where (\<lambda>d. refresh_session_id d = Some (next_id (refresh_sessions db))) (deliveries db') = message_count r"
proof -
  let ?s = "next_id (refresh_sessions db)"
  let ?P = "\<lambda>d. refresh_takes_over device user db d \<and> delivery_sender db d = Some peer"
  define taken where "taken = filter (\<lambda>d. delivery_sender db d = Some peer)
    (select_deliveries_a_refresh_takes_over device user db)"
  define missed where "missed = map message_pk (filter (\<lambda>m. sender_id m = peer)
    (select_messages_no_device_received device user db))"
  define db1 where "db1 = db\<lparr>refresh_sessions := insert_row
    (\<lambda>n. (new_refresh_session device peer for_all (length taken + length missed) inbound now)\<lparr>session_id := n\<rparr>)
    (refresh_sessions db)\<rparr>"
  define db3 where "db3 = create_owned_loop S missed device ?s now (take_over_loop taken ?s now db1)"
  from peer new have r: "message_count r = length taken + length missed" "length taken + length missed \<noteq> 0"
    and arm: "snd (arm_next_refresh_session_head S ?s now db3) = db'"
    by (auto simp: refresh_peer_def Let_def taken_def missed_def db1_def db3_def split: option.splits if_splits prod.splits)
  have keys: "keys_ok delivery_id (deliveries db)" using ok by (simp add: tables_ok_def)
  have t: "taken = filter ?P (rows (deliveries db))"
    by (auto simp: taken_def select_deliveries_a_refresh_takes_over_def select_where_def)
  have ids: "delivery_id x \<in> delivery_id ` set taken \<longleftrightarrow> ?P x" if "x \<in> set (rows (deliveries db))" for x
    using delivery_table.key_unique [OF keys that] that by (auto simp: t image_iff) 
  have "take_over_loop taken ?s now db1 =
      db1\<lparr>deliveries := update_where (\<lambda>x. delivery_id x \<in> delivery_id ` set taken) (take_over_change ?s) (deliveries db1)\<rparr>"
  proof (rule take_over.loop_updates)
    show "distinct (map delivery_id taken)"
      using distinct_delivery_ids [OF keys, of ?P] by (simp add: t select_where_def)
  qed (use keys in \<open>auto simp: db1_def t refresh_takes_over_def can_be_taken_over_def\<close>)
  also have "\<dots> = db1\<lparr>deliveries := update_where ?P (take_over_change ?s) (deliveries db)\<rparr>"
    using update_where_cong [of "deliveries db", OF ids refl] by (simp add: db1_def)
  finally have two: "take_over_loop taken ?s now db1 = db1\<lparr>deliveries := update_where ?P (take_over_change ?s) (deliveries db)\<rparr>" .
  obtain added where added: "rows (deliveries db3) =
      map (\<lambda>x. if ?P x then take_over_change ?s x else x) (rows (deliveries db)) @ added"
    "map delivery_message_id added = missed"
    "\<forall>d \<in> set added. refresh_session_id d = Some ?s \<and> delivery_state d = DELIVERY_QUEUED_FOR_REFRESH \<and> delivery_device_id d = device"
    using create_owned_loop_rows [of S missed device ?s now "take_over_loop taken ?s now db1"] by (auto simp: two db3_def)
  have owned: "delivery_state d = DELIVERY_QUEUED_FOR_REFRESH"
    if "d \<in> set (rows (deliveries db3))" "refresh_session_id d = Some ?s" for d
    using that fresh added(3) by (auto simp: added(1) take_over_change_def Let_def split: if_splits)
  have count: "count_where (\<lambda>d. refresh_session_id d = Some ?s) (deliveries db3) = message_count r"
    using count_owned_after_take_over [of "rows (deliveries db)" ?s ?P] fresh added(2,3)
    by (auto simp: count_where_def added(1) r t filter_id_conv simp flip: length_map [of delivery_message_id added])
  have "queued_deliveries_of ?s db3 \<noteq> []"
  proof
    assume "queued_deliveries_of ?s db3 = []"
    then have "filter (\<lambda>d. refresh_session_id d = Some ?s) (rows (deliveries db3)) = []"
      using owned by (auto simp: queued_deliveries_of_def select_where_def filter_empty_conv)
    with count r show False by (simp add: count_where_def)
  qed
  moreover have "keys_ok delivery_id (deliveries db3)"
    using deliveries_move_tables(9) [OF deliveries_move_trans [OF take_over_loop_deliveries create_owned_loop_deliveries]] keys
    by (simp add: db3_def db1_def)
  ultimately show thesis
    using arm_next_head_single [of db3 ?s S now] owned arm count that by (metis snd_conv)
qed

end
