(* ===== verification/Accounts.thy ===== *)
theory Accounts
  imports Refresh_Sessions
begin

text \<open>
  Sign-in, user lookup and relinking (\<^verbatim>\<open>directory/accounts.py\<close>): the services behind A and Q.
  Unicode normalisation and Django's password hashers are parameters, collected in \<open>password_services\<close>.
  \<open>seen\<close> is the database of the reads before the locks. An operation on a device takes the locked
  instance and returns it with the changes the code makes to it.
  The lemmas show the throttle (a rate-limited device learns nothing and changes nothing, failures are
  counted in a window the first one starts), that a relink cancels everything of the device that was
  still live, and that an account is created at most once per name.
\<close>

record password_services =
  nfc :: "pystr \<Rightarrow> pystr"
  make_password :: "pystr \<Rightarrow> pystr"
  check_password :: "pystr \<Rightarrow> pystr \<Rightarrow> bool"

definition SIGN_IN_FAILURES_BEFORE_RATE_LIMIT :: nat where
  "SIGN_IN_FAILURES_BEFORE_RATE_LIMIT = 5"

definition SIGN_IN_FAILURE_WINDOW_MINUTES :: int where
  "SIGN_IN_FAILURE_WINDOW_MINUTES = 15"

definition SIGN_IN_FAILURE_WINDOW :: int where
  "SIGN_IN_FAILURE_WINDOW = timedelta_minutes SIGN_IN_FAILURE_WINDOW_MINUTES"

record account_request_outcome =
  account_reply :: server_message
  account_outcome_summary :: pystr

record query_request_outcome =
  query_reply :: server_message
  query_outcome_summary :: pystr

section \<open>The device's failure window\<close>

definition update_device :: "nat \<Rightarrow> (contact \<Rightarrow> contact) \<Rightarrow> db \<Rightarrow> db" where
  "update_device device f db = db\<lparr>contacts := update_where (\<lambda>c. contact_id c = device) f (contacts db)\<rparr>"

definition clear_failed_sign_ins :: "contact \<Rightarrow> db \<Rightarrow> contact \<times> db" where
  "clear_failed_sign_ins device db =
     (if failed_sign_in_count device = 0 \<and> failed_sign_in_window_started_at device = None then (device, db)
      else let clear = (\<lambda>c. c\<lparr>failed_sign_in_count := 0, failed_sign_in_window_started_at := None\<rparr>)
           in (clear device, update_device (contact_id device) clear db))"

definition restart_expired_failure_window :: "contact \<Rightarrow> datetime \<Rightarrow> db \<Rightarrow> contact \<times> db" where
  "restart_expired_failure_window device now db =
     (case failed_sign_in_window_started_at device of
        None \<Rightarrow> (device, db)
      | Some window_started_at \<Rightarrow>
          if window_started_at + SIGN_IN_FAILURE_WINDOW \<le> now then clear_failed_sign_ins device db else (device, db))"

text \<open>The two fields are refreshed from the stored row.\<close>

definition record_failed_sign_in :: "contact \<Rightarrow> datetime \<Rightarrow> db \<Rightarrow> contact \<times> db" where
  "record_failed_sign_in device now db =
     (let db1 = update_device (contact_id device)
            (\<lambda>c. c\<lparr>failed_sign_in_count := failed_sign_in_count c + 1,
                    failed_sign_in_window_started_at :=
                      (case failed_sign_in_window_started_at c of None \<Rightarrow> Some now | Some t \<Rightarrow> Some t)\<rparr>) db
      in (case find_contact (contact_id device) db1 of
            None \<Rightarrow> device
          | Some stored \<Rightarrow> device\<lparr>failed_sign_in_count := failed_sign_in_count stored,
                failed_sign_in_window_started_at := failed_sign_in_window_started_at stored\<rparr>,
          db1))"

section \<open>Linking\<close>

definition relink_device :: "contact \<Rightarrow> user \<Rightarrow> datetime \<Rightarrow> db \<Rightarrow> contact \<times> db" where
  "relink_device device new_user now db =
     (let (_, db1) = cancel_device_deliveries_for_relink (contact_id device) now db;
          (_, db2) = cancel_device_receipts_for_relink (contact_id device) now db1;
          (_, db3) = cancel_device_refresh_sessions_for_relink (contact_id device) now db2;
          link = (\<lambda>c. c\<lparr>contact_user_id := Some (user_id new_user), linked_at := Some now\<rparr>)
      in (link device, update_device (contact_id device) link db3))"

definition link_device :: "contact \<Rightarrow> user \<Rightarrow> datetime \<Rightarrow> db \<Rightarrow> (pystr \<times> contact \<times> db) res" where
  "link_device device u now db =
     (case contact_user_id device of
        None \<Rightarrow>
          let link = (\<lambda>c. c\<lparr>contact_user_id := Some (user_id u), linked_at := Some now\<rparr>)
          in Inr (str ''device linked'', link device, update_device (contact_id device) link db)
      | Some previous_user_id \<Rightarrow>
          if previous_user_id = user_id u then Inr (str ''the device was already linked'', device, db)
          else case find_user previous_user_id db of
                 None \<Rightarrow> Inl DoesNotExist
               | Some previous \<Rightarrow>
                   let (device', db') = relink_device device u now db
                   in Inr (str ''device relinked from '' @ user_username previous, device', db'))"

section \<open>Signing in\<close>

definition build_account_error_outcome :: "error_code \<Rightarrow> client_message \<Rightarrow> pystr \<Rightarrow> account_request_outcome res" where
  "build_account_error_outcome code request reason =
     res_bind (build_request_error_reply code request) (\<lambda>reply.
       Inr \<lparr>account_reply = reply, account_outcome_summary = reason\<rparr>)"

definition sign_in ::
  "password_services \<Rightarrow> contact \<Rightarrow> user \<Rightarrow> client_message \<Rightarrow> pystr \<Rightarrow> datetime \<Rightarrow> db \<Rightarrow> (account_request_outcome \<times> db) res" where
  "sign_in PW device u request normalized_password now db =
     (let (device1, db1) = restart_expired_failure_window device now db
      in if failed_sign_in_count device1 \<ge> SIGN_IN_FAILURES_BEFORE_RATE_LIMIT
         then res_bind (build_account_error_outcome RATE_LIMITED request
                (str ''rate limited: too many wrong passwords from this device'')) (\<lambda>out. Inr (out, db1))
         else if \<not> check_password PW normalized_password (password_hash u)
         then let (device2, db2) = record_failed_sign_in device1 now db1
              in res_bind (build_account_error_outcome WRONG_PASSWORD request
                   (str ''wrong password ('' @ digits_of_nat (failed_sign_in_count device2) @
                    str '' in the current window)'')) (\<lambda>out. Inr (out, db2))
         else let (device2, db2) = clear_failed_sign_ins device1 db1
              in res_bind (link_device device2 u now db2) (\<lambda>(link_summary, _, db3).
                   Inr (\<lparr>account_reply = AccountReply (user_username u),
                         account_outcome_summary = str ''signed in; '' @ link_summary\<rparr>, db3)))"

text \<open>
  \<^verbatim>\<open>User.objects.create\<close> breaks a constraint when a user has the name already, in whatever case, or when
  the name breaks the username rules.
\<close>

definition create_user :: "pystr \<Rightarrow> pystr \<Rightarrow> datetime \<Rightarrow> db \<Rightarrow> (user \<times> db) res" where
  "create_user name hash now db =
     (let u = \<lparr>user_id = next_id (users db), user_username = name, password_hash = hash, user_created_at = now\<rparr>
      in if find_user_by_lookup name db \<noteq> None \<or> \<not> user_row_ok u then Inl IntegrityError
         else Inr (u, db\<lparr>users := insert_row (\<lambda>n. u\<lparr>user_id := n\<rparr>) (users db)\<rparr>))"

definition create_account ::
  "password_services \<Rightarrow> contact \<Rightarrow> pystr \<Rightarrow> pystr \<Rightarrow> datetime \<Rightarrow> db \<Rightarrow> (account_request_outcome \<times> db) res" where
  "create_account PW device name normalized_password now db =
     (case create_user name (make_password PW normalized_password) now db of
        Inl IntegrityError \<Rightarrow> Inl LockedRowChangedError
      | Inl e \<Rightarrow> Inl e
      | Inr (u, db1) \<Rightarrow>
          res_bind (link_device device u now db1) (\<lambda>(link_summary, _, db2).
            Inr (\<lparr>account_reply = AccountReply (user_username u),
                  account_outcome_summary = str ''account created; '' @ link_summary\<rparr>, db2)))"

definition lock_users :: "nat option list \<Rightarrow> db \<Rightarrow> user list" where
  "lock_users user_ids db = select_where (\<lambda>u. Some (user_id u) \<in> set user_ids) (users db)"

definition register_or_sign_in_in_transaction ::
  "password_services \<Rightarrow> db \<Rightarrow> nat \<Rightarrow> pystr \<Rightarrow> client_message \<Rightarrow> pystr \<Rightarrow> datetime \<Rightarrow> db \<Rightarrow> (account_request_outcome \<times> db) res" where
  "register_or_sign_in_in_transaction PW seen device_id username request normalized_password now db =
     (let existing_user_id = map_option user_id (find_user_by_lookup username seen)
      in case find_contact device_id seen of
           None \<Rightarrow> Inl LockedRowChangedError
         | Some device_values \<Rightarrow>
             let device_user_id = contact_user_id device_values;
                 locked_users = lock_users [existing_user_id, device_user_id] db
             in case find_contact device_id db of
                  None \<Rightarrow> Inl LockedRowChangedError
                | Some device \<Rightarrow>
                    if contact_user_id device \<noteq> device_user_id then Inl LockedRowChangedError
                    else case existing_user_id of
                      None \<Rightarrow> create_account PW device username normalized_password now db
                    | Some i \<Rightarrow>
                        (case find (\<lambda>u. user_id u = i) locked_users of
                           None \<Rightarrow> Inl LockedRowChangedError
                         | Some existing_user \<Rightarrow> sign_in PW device existing_user request normalized_password now db))"

definition register_or_sign_in ::
  "password_services \<Rightarrow> db \<Rightarrow> nat \<Rightarrow> pystr \<Rightarrow> pystr \<Rightarrow> datetime \<Rightarrow> db \<Rightarrow> (account_request_outcome \<times> db) res" where
  "register_or_sign_in PW seen device_id username password now db =
     (let request = AccountRequest username password;
          normalized_password = normalize_password (nfc PW) password
      in res_bind (is_valid_password normalized_password) (\<lambda>valid.
           if \<not> valid
           then res_bind (build_account_error_outcome PASSWORD_INVALID request
                  (str ''the password breaks the password rules'')) (\<lambda>out. Inr (out, db))
           else register_or_sign_in_in_transaction PW seen device_id username request normalized_password now db))"

section \<open>Looking up a user\<close>

definition user_exists :: "db \<Rightarrow> nat \<Rightarrow> pystr \<Rightarrow> query_request_outcome res" where
  "user_exists seen device_id username =
     (case device_user_id device_id seen of
        None \<Rightarrow>
          res_bind (build_request_error_reply NOT_SIGNED_IN (QueryRequest username)) (\<lambda>reply.
            Inr \<lparr>query_reply = reply, query_outcome_summary = str ''the device is not signed in''\<rparr>)
      | Some _ \<Rightarrow>
          (case find_user_by_lookup username seen of
             None \<Rightarrow> Inr \<lparr>query_reply = QueryReply username False, query_outcome_summary = str ''no such user''\<rparr>
           | Some u \<Rightarrow> Inr \<lparr>query_reply = QueryReply (user_username u) True,
                            query_outcome_summary = str ''user exists''\<rparr>))"

section \<open>The services move the database along the machines\<close>

lemma update_device_moves:
  "(\<And>c. contact_evolves c (f c)) \<Longrightarrow> service_moves db (update_device device f db)"
  unfolding update_device_def by (rule contacts_update_service) (auto simp: contact_evolves_def)

lemma device_changes_evolve:
  "contact_evolves c (c\<lparr>failed_sign_in_count := n, failed_sign_in_window_started_at := t\<rparr>)"
  "contact_evolves c (c\<lparr>contact_user_id := Some u, linked_at := Some now\<rparr>)"
  by (auto simp: contact_evolves_def contact_row_ok_def)

lemma clear_failed_sign_ins_moves: "service_moves db (snd (clear_failed_sign_ins device db))"
  by (simp add: clear_failed_sign_ins_def Let_def update_device_moves device_changes_evolve)

lemma restart_window_moves: "service_moves db (snd (restart_expired_failure_window device now db))"
  by (simp add: restart_expired_failure_window_def clear_failed_sign_ins_moves split: option.split)

lemma record_failed_sign_in_moves: "service_moves db (snd (record_failed_sign_in device now db))"
  by (simp add: record_failed_sign_in_def Let_def update_device_moves device_changes_evolve)

lemma relink_cancels:
  "\<exists>db3. relink_device device u now db = (device\<lparr>contact_user_id := Some (user_id u), linked_at := Some now\<rparr>,
     update_device (contact_id device) (\<lambda>c. c\<lparr>contact_user_id := Some (user_id u), linked_at := Some now\<rparr>) db3) \<and> service_moves db db3"
proof -
  obtain n1 db1 n2 db2 n3 db3 where c: "cancel_device_deliveries_for_relink (contact_id device) now db = (n1, db1)"
    "cancel_device_receipts_for_relink (contact_id device) now db1 = (n2, db2)"
    "cancel_device_refresh_sessions_for_relink (contact_id device) now db2 = (n3, db3)"
    by (metis prod.exhaust)
  note m = service_moves_trans [OF service_moves_trans [OF deliveries_move_service [OF cancel_deliveries_moves [OF c(1)]]
    receipts_move_service [OF cancel_receipts_moves [OF c(2)]]] cancel_sessions_moves [OF c(3)]]
  then show ?thesis by (auto simp: relink_device_def c)
qed

lemma relink_device_moves: "service_moves db (snd (relink_device device u now db))"
  using relink_cancels [of device u now db] update_device_moves [OF device_changes_evolve(2)] service_moves_trans by fastforce

lemma link_device_moves: "link_device device u now db = Inr (summary, device', db') \<Longrightarrow> service_moves db db'"
  using relink_device_moves [of db device u now]
  by (auto simp: link_device_def Let_def update_device_moves device_changes_evolve split: option.splits if_splits prod.splits)

lemma create_user_moves: "create_user name hash now db = Inr (u, db') \<Longrightarrow> service_moves db db'"
  using users_insert_service [of db "\<lparr>user_id = 0, user_username = name, password_hash = hash, user_created_at = now\<rparr>"]
  by (auto simp: create_user_def Let_def split: if_splits)

lemma sign_in_moves:
  assumes "sign_in PW device u request password now db = Inr (out, db')"
  shows "service_moves db db'"
proof -
  obtain device1 db1 where r: "restart_expired_failure_window device now db = (device1, db1)" by (metis prod.exhaust)
  obtain d2 db2 where f: "record_failed_sign_in device1 now db1 = (d2, db2)" by (metis prod.exhaust)
  obtain d3 db3 where c: "clear_failed_sign_ins device1 db1 = (d3, db3)" by (metis prod.exhaust)
  have m: "service_moves db db1" "service_moves db1 db2" "service_moves db1 db3"
    using restart_window_moves [of db device now] record_failed_sign_in_moves [of db1 device1 now] clear_failed_sign_ins_moves [of db1 device1]
    by (simp_all add: r f c)
  note m12 = service_moves_trans [OF m(1,2)] and m13 = service_moves_trans [OF m(1,3)]
  show ?thesis
    using assms m(1) m12 service_moves_trans [OF m13 link_device_moves]
    by (auto simp: sign_in_def r f c res_bind_eq_Inr split: if_splits)
qed

lemma create_account_moves:
  assumes "create_account PW device name password now db = Inr (out, db')"
  shows "service_moves db db'"
proof -
  obtain u db1 where u: "create_user name (make_password PW password) now db = Inr (u, db1)"
    using assms by (auto simp: create_account_def split: sum.splits py_error.splits)
  then show ?thesis
    using assms service_moves_trans [OF create_user_moves [OF u] link_device_moves]
    by (auto simp: create_account_def u res_bind_eq_Inr)
qed

lemma register_or_sign_in_moves:
  "register_or_sign_in PW seen device name password now db = Inr (out, db') \<Longrightarrow> service_moves db db'"
  by (auto simp: register_or_sign_in_def register_or_sign_in_in_transaction_def Let_def res_bind_eq_Inr
      split: if_splits option.splits dest: sign_in_moves create_account_moves)

section \<open>The throttle\<close>

text \<open>The failure window of the device is full and has not run out.\<close>

definition is_rate_limited :: "contact \<Rightarrow> datetime \<Rightarrow> bool" where
  "is_rate_limited device now \<longleftrightarrow>
     SIGN_IN_FAILURES_BEFORE_RATE_LIMIT \<le> failed_sign_in_count device \<and>
     (\<forall>started. failed_sign_in_window_started_at device = Some started \<longrightarrow> now < started + SIGN_IN_FAILURE_WINDOW)"

lemma rate_limited_sign_in:
  assumes "is_rate_limited device now"
  shows "sign_in PW device u request password now db =
    res_bind (build_account_error_outcome RATE_LIMITED request (str ''rate limited: too many wrong passwords from this device''))
      (\<lambda>out. Inr (out, db))"
proof -
  have "restart_expired_failure_window device now db = (device, db)"
    using assms by (auto simp: is_rate_limited_def restart_expired_failure_window_def split: option.split)
  then show ?thesis using assms by (simp add: sign_in_def is_rate_limited_def)
qed

text \<open>A wrong password below the limit counts one failure in the window, which the first failure starts.\<close>

definition window_is_live :: "contact \<Rightarrow> datetime \<Rightarrow> bool" where
  "window_is_live device now \<longleftrightarrow>
     (case failed_sign_in_window_started_at device of
        None \<Rightarrow> failed_sign_in_count device = 0
      | Some started \<Rightarrow> now < started + SIGN_IN_FAILURE_WINDOW)"

lemma wrong_password_counts:
  assumes "window_is_live device now" "failed_sign_in_count device < SIGN_IN_FAILURES_BEFORE_RATE_LIMIT"
    "\<not> check_password PW password (password_hash u)" "find_contact (contact_id device) db = Some device" "tables_ok db"
    "sign_in PW device u request password now db = Inr (out, db')"
  shows "find_contact (contact_id device) db' = Some (device\<lparr>failed_sign_in_count := Suc (failed_sign_in_count device),
    failed_sign_in_window_started_at := Some (case failed_sign_in_window_started_at device of None \<Rightarrow> now | Some t \<Rightarrow> t)\<rparr>)"
proof -
  let ?f = "\<lambda>c. c\<lparr>failed_sign_in_count := failed_sign_in_count c + 1,
                    failed_sign_in_window_started_at :=
                      (case failed_sign_in_window_started_at c of None \<Rightarrow> Some now | Some t \<Rightarrow> Some t)\<rparr>"
  have w: "restart_expired_failure_window device now db = (device, db)"
    using assms(1) by (auto simp: window_is_live_def restart_expired_failure_window_def split: option.splits)
  have db': "db' = update_device (contact_id device) ?f db"
    using assms(2,3,6) by (auto simp: sign_in_def w record_failed_sign_in_def Let_def res_bind_eq_Inr)
  have keys: "keys_ok contact_id (contacts db)" using assms(5) by (simp add: tables_ok_def)
  have d: "device \<in> set (rows (contacts db))"
    using assms(4) unfolding find_contact_def by (auto dest!: first_where_SomeD)
  have "update_where (\<lambda>c. contact_id c = contact_id device) ?f (contacts db) =
      update_where (\<lambda>c. contact_id c = contact_id device) (\<lambda>_. ?f device) (contacts db)"
  proof (rule update_where_cong)
    show "?f r = ?f device" if "r \<in> set (rows (contacts db))" "contact_id r = contact_id device" for r
      using contact_table.key_unique [OF keys that(1) d that(2)] by simp
  qed simp
  then have "find_contact (contact_id device) db' = Some (?f device)"
    using contact_table.first_where_written [OF keys, of "\<lambda>c. contact_id c = contact_id device" device "?f device"] assms(4)
    by (simp add: db' update_device_def find_contact_def)
  then show ?thesis by (simp split: option.split)
qed

section \<open>Relinking\<close>

definition delivery_is_live :: "nat \<Rightarrow> delivery \<Rightarrow> bool" where
  "delivery_is_live device d \<longleftrightarrow> delivery_device_id d = device \<and> delivery_state d \<in> set NON_TERMINAL_DELIVERY_STATES"

definition receipt_is_live :: "nat \<Rightarrow> receipt \<Rightarrow> bool" where
  "receipt_is_live device r \<longleftrightarrow> receipt_device_id r = device \<and> receipt_state r \<in> {RECEIPT_PENDING, RECEIPT_FAILED}"

definition session_is_live :: "nat \<Rightarrow> refresh_session \<Rightarrow> bool" where
  "session_is_live device s \<longleftrightarrow> session_device_id s = device \<and> session_state s = SESSION_ACTIVE"

lemma relink_leaves_nothing_live:
  assumes "relink_device device u now db = (device', db')"
  shows "\<not> exists_where (delivery_is_live (contact_id device)) (deliveries db')"
    and "\<not> exists_where (receipt_is_live (contact_id device)) (receipts db')"
    and "\<not> exists_where (session_is_live (contact_id device)) (refresh_sessions db')"
  using assms
  by (auto simp: relink_device_def update_device_def cancel_device_deliveries_for_relink_def cancel_device_receipts_for_relink_def
      cancel_device_refresh_sessions_for_relink_def Let_def exists_where_def list_ex_iff delivery_is_live_def receipt_is_live_def
      session_is_live_def NON_TERMINAL_DELIVERY_STATES_def)

lemma relink_keeps_other_devices:
  assumes "relink_device device u now db = (device', db')"
  shows "d \<in> set (rows (deliveries db)) \<Longrightarrow> delivery_device_id d \<noteq> contact_id device \<Longrightarrow> d \<in> set (rows (deliveries db'))"
    and "r \<in> set (rows (receipts db)) \<Longrightarrow> receipt_device_id r \<noteq> contact_id device \<Longrightarrow> r \<in> set (rows (receipts db'))"
    and "s \<in> set (rows (refresh_sessions db)) \<Longrightarrow> session_device_id s \<noteq> contact_id device \<Longrightarrow> s \<in> set (rows (refresh_sessions db'))"
  using assms
  by (force simp: relink_device_def update_device_def cancel_device_deliveries_for_relink_def cancel_device_receipts_for_relink_def
      cancel_device_refresh_sessions_for_relink_def Let_def)+

section \<open>An account can be signed in to\<close>

text \<open>What a password hasher documents: a password checks against the hash that was made from it.\<close>

definition hasher_ok :: "password_services \<Rightarrow> bool" where
  "hasher_ok PW \<longleftrightarrow> (\<forall>password. check_password PW password (make_password PW password))"

lemma create_accountE:
  assumes "create_account PW device name password now db = Inr (out, db')"
  obtains u db1 summary device' where "find_user_by_lookup name db = None" "user_row_ok u" "user_username u = name"
    "password_hash u = make_password PW password" "user_id u = next_id (users db)"
    "db1 = db\<lparr>users := insert_row (\<lambda>n. u\<lparr>user_id := n\<rparr>) (users db)\<rparr>"
    "link_device device u now db1 = Inr (summary, device', db')" "account_reply out = AccountReply name"
  using assms
  by (auto simp: create_account_def create_user_def Let_def res_bind_eq_Inr split: sum.splits py_error.splits if_splits)

lemma link_device_users: "link_device device u now db = Inr (summary, device', db') \<Longrightarrow> users db' = users db"
  by (auto simp: link_device_def relink_device_def update_device_def cancel_device_deliveries_for_relink_def
      cancel_device_receipts_for_relink_def cancel_device_refresh_sessions_for_relink_def Let_def split: option.splits if_splits)

lemma created_user_found:
  assumes "create_account PW device name password now db = Inr (out, db')" "tables_ok db"
    "normalize_username_for_lookup name' = normalize_username_for_lookup name"
  obtains u where "find_user_by_lookup name' db' = Some u" "user_username u = name" "password_hash u = make_password PW password"
    "find_user (user_id u) db' = Some u"
proof -
  from assms(1) obtain u db1 summary device' where u: "find_user_by_lookup name db = None" "user_username u = name"
    "password_hash u = make_password PW password" "user_id u = next_id (users db)"
    "db1 = db\<lparr>users := insert_row (\<lambda>n. u\<lparr>user_id := n\<rparr>) (users db)\<rparr>" "link_device device u now db1 = Inr (summary, device', db')"
    by (rule create_accountE) metis
  have users: "users db' = insert_row (\<lambda>n. u\<lparr>user_id := n\<rparr>) (users db)" using link_device_users [OF u(6)] u(5) by simp
  have self: "u\<lparr>user_id := next_id (users db)\<rparr> = u" using u(4) by (cases u) simp
  have "find_user_by_lookup name' db' = Some u"
    using user_table.first_where_created [of "\<lambda>x. username_lookup x = normalize_username_for_lookup name" "users db" u] u(1,2) self assms(3)
    by (simp add: find_user_by_lookup_def users username_lookup_def normalize_username_for_lookup_def)
  moreover have "first_where (\<lambda>x. user_id x = user_id u) (users db) = None"
    using assms(2) u(4) by (auto simp: tables_ok_def keys_ok_def first_where_def find_None_iff)
  then have "find_user (user_id u) db' = Some u"
    using user_table.first_where_created [of "\<lambda>x. user_id x = user_id u" "users db" u] self by (simp add: find_user_def users)
  ultimately show thesis using that u(2,3) by blast
qed

lemma find_updated_device:
  "find_contact i db = Some c \<Longrightarrow> (\<And>x. contact_id (f x) = contact_id x) \<Longrightarrow> find_contact i (update_device i f db) = Some (f c)"
proof -
  have "find (\<lambda>x. contact_id x = i) xs = Some c \<Longrightarrow> (\<And>x. contact_id (f x) = contact_id x) \<Longrightarrow>
      find (\<lambda>x. contact_id x = i) (map (\<lambda>x. if contact_id x = i then f x else x) xs) = Some (f c)" for xs
    by (induction xs) (auto split: if_splits)
  then show "find_contact i db = Some c \<Longrightarrow> (\<And>x. contact_id (f x) = contact_id x) \<Longrightarrow> find_contact i (update_device i f db) = Some (f c)"
    by (simp add: find_contact_def update_device_def first_where_def)
qed

text \<open>What clearing the window leaves of the locked device.\<close>

definition device_cleared :: "contact \<Rightarrow> db \<Rightarrow> contact \<times> db \<Rightarrow> bool" where
  "device_cleared c db r \<longleftrightarrow>
     (case r of (c', db') \<Rightarrow> find_contact (contact_id c) db' = Some c' \<and> contact_id c' = contact_id c \<and>
        contact_user_id c' = contact_user_id c \<and> users db' = users db)"

lemma clear_failed_sign_ins_device:
  "find_contact (contact_id c) db = Some c \<Longrightarrow>
     device_cleared c db (clear_failed_sign_ins c db) \<and> failed_sign_in_count (fst (clear_failed_sign_ins c db)) = 0"
  by (auto simp: clear_failed_sign_ins_def device_cleared_def Let_def find_updated_device)
    (simp_all add: update_device_def)

lemma restart_window_device:
  "find_contact (contact_id c) db = Some c \<Longrightarrow> \<not> is_rate_limited c now \<Longrightarrow>
     device_cleared c db (restart_expired_failure_window c now db) \<and>
     failed_sign_in_count (fst (restart_expired_failure_window c now db)) < SIGN_IN_FAILURES_BEFORE_RATE_LIMIT"
  using clear_failed_sign_ins_device [of c db]
  by (auto simp: restart_expired_failure_window_def is_rate_limited_def device_cleared_def SIGN_IN_FAILURES_BEFORE_RATE_LIMIT_def
      split: option.splits)

lemma right_password_signs_in:
  assumes c: "find_contact (contact_id c) db = Some c" "contact_user_id c = None" "\<not> is_rate_limited c now"
    and "check_password PW password (password_hash u)"
  shows "\<exists>summary db2 c'. sign_in PW c u request password now db =
      Inr (\<lparr>account_reply = AccountReply (user_username u), account_outcome_summary = summary\<rparr>, db2) \<and>
    find_contact (contact_id c) db2 = Some c' \<and> contact_user_id c' = Some (user_id u) \<and> users db2 = users db"
proof -
  obtain c1 db1 where r: "restart_expired_failure_window c now db = (c1, db1)" by (metis prod.exhaust)
  with restart_window_device [OF c(1,3)] have 1: "find_contact (contact_id c1) db1 = Some c1" "contact_id c1 = contact_id c"
    "contact_user_id c1 = None" "users db1 = users db" "failed_sign_in_count c1 < SIGN_IN_FAILURES_BEFORE_RATE_LIMIT"
    using c(2) by (auto simp: device_cleared_def)
  obtain c2 db2 where l: "clear_failed_sign_ins c1 db1 = (c2, db2)" by (metis prod.exhaust)
  with clear_failed_sign_ins_device [OF 1(1)] 1 have 2: "find_contact (contact_id c2) db2 = Some c2" "contact_id c2 = contact_id c"
    "contact_user_id c2 = None" "users db2 = users db"
    by (auto simp: device_cleared_def)
  let ?link = "\<lambda>x. x\<lparr>contact_user_id := Some (user_id u), linked_at := Some now\<rparr>"
  have "find_contact (contact_id c) (update_device (contact_id c) ?link db2) = Some (?link c2)"
    using find_updated_device [of "contact_id c" db2 c2 ?link] 2(1,2) by simp
  moreover have "users (update_device (contact_id c) ?link db2) = users db" using 2(4) by (simp add: update_device_def)
  ultimately show ?thesis
    using 1(5) 2(2,3) assms(4) by (auto simp: sign_in_def r l link_device_def Let_def)
qed

lemma find_filter_weaker: "(\<And>x. P x \<Longrightarrow> Q x) \<Longrightarrow> find P (filter Q xs) = find P xs"
  by (induction xs) auto

lemma sign_in_after_registration:
  assumes reg: "register_or_sign_in PW db device name password now db = Inr (out, db1)" "find_user_by_lookup name db = None"
      "is_valid_password (normalize_password (nfc PW) password) = Inr True" "tables_ok db"
    and other: "find_contact other db1 = Some c" "contact_user_id c = None" "\<not> is_rate_limited c later"
    and name: "normalize_username_for_lookup name' = normalize_username_for_lookup name"
    and PW: "hasher_ok PW"
  shows "\<exists>summary db2 c' u. register_or_sign_in PW db1 other name' password later db1 =
      Inr (\<lparr>account_reply = AccountReply name, account_outcome_summary = summary\<rparr>, db2) \<and>
    find_contact other db2 = Some c' \<and> find_user_by_lookup name db2 = Some u \<and> contact_user_id c' = Some (user_id u)"
proof -
  let ?pw = "normalize_password (nfc PW) password"
  obtain d where d: "create_account PW d name ?pw now db = Inr (out, db1)"
    using reg(1-3) by (auto simp: register_or_sign_in_def register_or_sign_in_in_transaction_def Let_def split: option.splits if_splits)
  from d reg(4) name obtain u where u: "find_user_by_lookup name' db1 = Some u" "user_username u = name" "password_hash u = make_password PW ?pw"
    "find_user (user_id u) db1 = Some u" by (rule created_user_found)
  have locked: "find (\<lambda>x. user_id x = user_id u) (lock_users [Some (user_id u), None] db1) = Some u"
    using u(4) by (simp add: find_user_def first_where_def lock_users_def select_where_def find_filter_weaker)
  have i: "contact_id c = other" using other(1) unfolding find_contact_def by (auto dest!: first_where_SomeD)
  obtain summary db2 c' where s: "sign_in PW c u (AccountRequest name' password) ?pw later db1 =
      Inr (\<lparr>account_reply = AccountReply (user_username u), account_outcome_summary = summary\<rparr>, db2)"
    "find_contact (contact_id c) db2 = Some c'" "contact_user_id c' = Some (user_id u)" "users db2 = users db1"
    using right_password_signs_in [of c db1 later PW ?pw u "AccountRequest name' password"] other i u(3) PW
    by (auto simp: hasher_ok_def)
  have "register_or_sign_in PW db1 other name' password later db1 = sign_in PW c u (AccountRequest name' password) ?pw later db1"
    using reg(3) other u(1) locked
    by (simp add: register_or_sign_in_def register_or_sign_in_in_transaction_def Let_def)
  moreover have "find_user_by_lookup name db2 = Some u"
    using u(1) s(4) name by (simp add: find_user_by_lookup_def)
  ultimately show ?thesis using s i u(2) by auto
qed

end
