(* ===== verification/Inbound_Log.thy ===== *)
theory Inbound_Log
  imports Database_Moves
begin

text \<open>
  The inbox (\<^verbatim>\<open>messaging/inbound_log.py\<close>): every received direct message is recorded before it has any
  effect, with a sign-in request's password redacted, and a firmware-level repeat is only counted. SHA-256
  is a parameter: \<open>sha256\<close> gives the hexadecimal digest of a sequence of bytes. The redaction of the log
  (\<^verbatim>\<open>hoptalk_relay/logging_configuration.py\<close>) is here too, since a failed row keeps a redacted error.
  The lemmas show that redaction hides the password and nothing else, that recording is a step of the
  database, and that a frame received again within a day is counted on its first row.
\<close>

definition REDACTED_PASSWORD :: pystr where
  "REDACTED_PASSWORD = str ''********''"

definition DIRECT_ARRIVAL_PATH_LENGTH :: int where
  "DIRECT_ARRIVAL_PATH_LENGTH = 255"

definition FIRMWARE_REPEAT_WINDOW_HOURS :: int where
  "FIRMWARE_REPEAT_WINDOW_HOURS = 24"

record received_frame =
  frame_sender_public_key_prefix :: pystr
  frame_sender_timestamp :: int
  frame_text :: pystr
  frame_text_type :: int
  frame_path_length :: int
  frame_signal_to_noise_ratio :: "rat option"
  frame_received_at :: datetime

record recorded_inbound_frame =
  inbox_row_id :: nat
  recorded_contact_id :: "nat option"
  is_firmware_repeat :: bool
  recorded_arrived_by_flood :: bool

section \<open>Redaction\<close>

text \<open>
  \<^verbatim>\<open>HT[0-9]{1,3} A \<close>, where both redactions start: what the pattern matched and the rest of the text.
  The digits are followed by a space, so the repetition matches all of them or fails.
\<close>

definition match_account_request_start :: "pystr \<Rightarrow> (pystr \<times> pystr) option" where
  "match_account_request_start text =
     (let version = takeWhile is_digit (drop 2 text); rest = dropWhile is_digit (drop 2 text)
      in if prefix (str ''HT'') text \<and> 1 \<le> length version \<and> length version \<le> 3 \<and> prefix (str '' A '') rest
         then Some (str ''HT'' @ version @ str '' A '', drop 3 rest) else None)"

text \<open>\<^verbatim>\<open>ACCOUNT_REQUEST_WITH_PASSWORD_PATTERN\<close> at the start of the text: its group 1.\<close>

definition match_account_request_with_password :: "pystr \<Rightarrow> pystr option" where
  "match_account_request_with_password text =
     (case match_account_request_start text of
        None \<Rightarrow> None
      | Some (start, rest) \<Rightarrow>
          if space \<in> set rest then Some (start @ takeWhile (\<lambda>c. c \<noteq> space) rest) else None)"

definition redact_stored_text :: "pystr \<Rightarrow> pystr" where
  "redact_stored_text text =
     (case match_account_request_with_password text of
        None \<Rightarrow> text
      | Some group1 \<Rightarrow> group1 @ str '' '' @ REDACTED_PASSWORD)"

definition carries_account_request_password :: "pystr \<Rightarrow> bool" where
  "carries_account_request_password text \<longleftrightarrow> match_account_request_with_password text \<noteq> None"

text \<open>
  The log's pattern \<^verbatim>\<open>(HT[0-9]{1,3} A [^ \n]*)[^\n]*\<close>, replaced everywhere: a match runs to the end of
  its line, and the scan goes on there.
\<close>

definition NEWLINE :: codepoint where
  "NEWLINE = 10"

function redact_account_request_passwords :: "pystr \<Rightarrow> pystr" where
  "redact_account_request_passwords [] = []"
| "redact_account_request_passwords (c # cs) =
     (case match_account_request_start (c # cs) of
        None \<Rightarrow> c # redact_account_request_passwords cs
      | Some (start, rest) \<Rightarrow>
          start @ takeWhile (\<lambda>x. x \<noteq> space \<and> x \<noteq> NEWLINE) rest @ str '' '' @ REDACTED_PASSWORD @
          redact_account_request_passwords (dropWhile (\<lambda>x. x \<noteq> NEWLINE) rest))"
  by pat_completeness auto

lemma match_account_request_start_shorter:
  "match_account_request_start text = Some (start, rest) \<Longrightarrow> length rest < length text"
proof -
  assume "match_account_request_start text = Some (start, rest)"
  then have "prefix (str ''HT'') text" "rest = drop 3 (dropWhile is_digit (drop 2 text))"
    by (auto simp: match_account_request_start_def Let_def split: if_splits)
  moreover have "length (dropWhile is_digit (drop 2 text)) \<le> length text - 2"
    by (metis length_drop length_dropWhile_le)
  moreover have "2 \<le> length text" using \<open>prefix (str ''HT'') text\<close> by (auto simp: str_def dest!: prefix_length_le)
  ultimately show ?thesis by simp
qed

termination redact_account_request_passwords
proof (relation "measure length", goal_cases)
  case (3 c cs pr start rest)
  have "length (dropWhile (\<lambda>x. x \<noteq> NEWLINE) rest) \<le> length rest" by (rule length_dropWhile_le)
  with 3 show ?case by (auto dest: match_account_request_start_shorter)
qed simp_all

section \<open>Recording\<close>

definition calculate_text_sha256 :: "(nat list \<Rightarrow> pystr) \<Rightarrow> pystr \<Rightarrow> pystr res" where
  "calculate_text_sha256 sha256 stored_text =
     res_bind (encode_utf8 stored_text) (\<lambda>bytes. Inr (sha256 bytes))"

definition find_sender_and_record_it_was_heard :: "pystr \<Rightarrow> datetime \<Rightarrow> db \<Rightarrow> contact option \<times> db" where
  "find_sender_and_record_it_was_heard key_prefix heard_at db =
     (let db1 = db\<lparr>contacts := update_where (\<lambda>c. public_key_prefix c = key_prefix)
                     (\<lambda>c. c\<lparr>last_heard_at := Some heard_at\<rparr>) (contacts db)\<rparr>
      in if count_where (\<lambda>c. public_key_prefix c = key_prefix) (contacts db) = 0 then (None, db1)
         else (first_where (\<lambda>c. public_key_prefix c = key_prefix) (contacts db1), db1))"

definition count_firmware_repeat :: "nat \<Rightarrow> received_frame \<Rightarrow> pystr \<Rightarrow> datetime \<Rightarrow> db \<Rightarrow> nat option \<times> db" where
  "count_firmware_repeat contact_key frame digest now db =
     (case first_where (\<lambda>i. inbound_contact_id i = Some contact_key \<and>
                            inbound_sender_timestamp i = frame_sender_timestamp frame \<and> text_sha256 i = digest \<and>
                            received_at i \<ge> now - timedelta_hours FIRMWARE_REPEAT_WINDOW_HOURS) (inbox db) of
        None \<Rightarrow> (None, db)
      | Some original \<Rightarrow>
          (Some (inbound_id original),
           db\<lparr>inbox := update_where (\<lambda>i. inbound_id i = inbound_id original)
                (\<lambda>i. i\<lparr>duplicate_count := duplicate_count i + 1, last_duplicate_at := Some (frame_received_at frame)\<rparr>)
                (inbox db)\<rparr>))"

definition new_inbox_row :: "received_frame \<Rightarrow> contact option \<Rightarrow> pystr \<Rightarrow> pystr \<Rightarrow> inbound" where
  "new_inbox_row frame contact_found stored_text digest =
     \<lparr>inbound_id = 0, received_at = frame_received_at frame,
      sender_public_key_prefix = frame_sender_public_key_prefix frame,
      inbound_contact_id = map_option contact_id contact_found,
      inbound_contact_label = (case contact_found of None \<Rightarrow> [] | Some c \<Rightarrow> contact_label_of c),
      inbound_sender_timestamp = frame_sender_timestamp frame, text_type = frame_text_type frame,
      path_length = frame_path_length frame, signal_to_noise_ratio = frame_signal_to_noise_ratio frame,
      inbound_text = stored_text, text_sha256 = digest, duplicate_count = 0, last_duplicate_at = None,
      inbound_classification = UNCLASSIFIED, inbound_request_type = [],
      inbound_processing_state = PROCESSING_RECEIVED, processing_error = [], processed_at = None,
      inbound_outcome_summary = [], inbound_reply_summary = [], route_reset_performed = False\<rparr>"

definition record_inbound_frame_in_transaction ::
  "(nat list \<Rightarrow> pystr) \<Rightarrow> received_frame \<Rightarrow> datetime \<Rightarrow> db \<Rightarrow> (recorded_inbound_frame \<times> db) res" where
  "record_inbound_frame_in_transaction sha256 frame now db =
     (let (contact_found, db1) =
            find_sender_and_record_it_was_heard (frame_sender_public_key_prefix frame) (frame_received_at frame) db;
          stored_text = redact_stored_text (frame_text frame);
          arrived_by_flood = frame_path_length frame \<noteq> DIRECT_ARRIVAL_PATH_LENGTH
      in res_bind (calculate_text_sha256 sha256 stored_text) (\<lambda>digest.
           let (original_row_id, db2) = (case contact_found of
                   None \<Rightarrow> (None, db1)
                 | Some c \<Rightarrow> count_firmware_repeat (contact_id c) frame digest now db1)
           in case original_row_id of
                Some original \<Rightarrow>
                  Inr (\<lparr>inbox_row_id = original, recorded_contact_id = map_option contact_id contact_found,
                        is_firmware_repeat = True, recorded_arrived_by_flood = arrived_by_flood\<rparr>, db2)
              | None \<Rightarrow>
                  Inr (\<lparr>inbox_row_id = next_id (inbox db2), recorded_contact_id = map_option contact_id contact_found,
                        is_firmware_repeat = False, recorded_arrived_by_flood = arrived_by_flood\<rparr>,
                       db2\<lparr>inbox := insert_row (\<lambda>n. (new_inbox_row frame contact_found stored_text digest)\<lparr>inbound_id := n\<rparr>)
                             (inbox db2)\<rparr>)))"

definition find_unprocessed_inbox_row_ids :: "nat \<Rightarrow> db \<Rightarrow> nat list" where
  "find_unprocessed_inbox_row_ids limit db =
     take limit (map inbound_id (select_where (\<lambda>i. inbound_processing_state i = PROCESSING_RECEIVED) (inbox db)))"

definition record_flood_arrival_route_reset :: "nat \<Rightarrow> db \<Rightarrow> db" where
  "record_flood_arrival_route_reset row db =
     db\<lparr>inbox := update_where (\<lambda>i. inbound_id i = row) (\<lambda>i. i\<lparr>route_reset_performed := True\<rparr>) (inbox db)\<rparr>"


section \<open>Redaction\<close>

text \<open>The start of a sign-in request, and what its password is replaced with.\<close>

lemma match_start_Some:
  "match_account_request_start t = Some (start, rest) \<longleftrightarrow>
     (\<exists>version. start = str ''HT'' @ version @ str '' A '' \<and> t = start @ rest \<and> list_all is_digit version \<and>
        1 \<le> length version \<and> length version \<le> 3)"
proof
  assume m: "match_account_request_start t = Some (start, rest)"
  let ?version = "takeWhile is_digit (drop 2 t)" and ?rest = "dropWhile is_digit (drop 2 t)"
  have p: "prefix (str ''HT'') t" "1 \<le> length ?version" "length ?version \<le> 3" "prefix (str '' A '') ?rest"
    and s: "start = str ''HT'' @ ?version @ str '' A ''" "rest = drop 3 ?rest"
    using m by (auto simp: match_account_request_start_def Let_def split: if_splits)
  have "?rest = str '' A '' @ rest" using p(4) s(2) by (auto simp: prefix_def str_def)
  then have "drop 2 t = ?version @ str '' A '' @ rest" by (metis takeWhile_dropWhile_id)
  moreover have "t = str ''HT'' @ drop 2 t" using p(1) by (auto simp: prefix_def str_def)
  ultimately have "t = start @ rest" using s(1) by simp
  moreover have "list_all is_digit ?version" by (auto simp: list_all_iff dest: set_takeWhileD)
  ultimately show "\<exists>version. start = str ''HT'' @ version @ str '' A '' \<and> t = start @ rest \<and> list_all is_digit version \<and>
        1 \<le> length version \<and> length version \<le> 3"
    using p(2,3) s(1) by blast
next
  assume "\<exists>version. start = str ''HT'' @ version @ str '' A '' \<and> t = start @ rest \<and> list_all is_digit version \<and>
        1 \<le> length version \<and> length version \<le> 3"
  then obtain version where v: "start = str ''HT'' @ version @ str '' A ''" "t = start @ rest" "list_all is_digit version"
    "1 \<le> length version" "length version \<le> 3" by blast
  have d: "drop 2 t = version @ str '' A '' @ rest" using v by (simp add: str_def)
  have "takeWhile is_digit (drop 2 t) = version" "dropWhile is_digit (drop 2 t) = str '' A '' @ rest"
    using v(3) unfolding d by (auto simp: list_all_iff takeWhile_append str_def char_class_defs)
  with v show "match_account_request_start t = Some (start, rest)"
    by (simp add: match_account_request_start_def Let_def str_def)
qed

lemma match_with_password_Some:
  "match_account_request_with_password t = Some head \<longleftrightarrow>
     (\<exists>version name password. list_all is_digit version \<and> 1 \<le> length version \<and> length version \<le> 3 \<and> space \<notin> set name \<and>
        head = str ''HT'' @ version @ str '' A '' @ name \<and> t = head @ space # password)"
  (is "?m \<longleftrightarrow> ?e")
proof
  assume ?m
  then obtain start rest where m: "match_account_request_start t = Some (start, rest)" "space \<in> set rest"
    "head = start @ takeWhile (\<lambda>c. c \<noteq> space) rest"
    by (auto simp: match_account_request_with_password_def split: option.splits if_splits)
  obtain pw where "dropWhile (\<lambda>c. c \<noteq> space) rest = space # pw"
    using m(2) by (metis (mono_tags, lifting) dropWhile_eq_Nil_conv hd_dropWhile list.collapse)
  then have rest: "rest = takeWhile (\<lambda>c. c \<noteq> space) rest @ space # pw" by (metis takeWhile_dropWhile_id)
  from m(1) obtain version where v: "start = str ''HT'' @ version @ str '' A ''" "t = start @ rest" "list_all is_digit version"
    "1 \<le> length version" "length version \<le> 3" unfolding match_start_Some by blast
  show ?e
  proof (intro exI conjI)
    show "space \<notin> set (takeWhile (\<lambda>c. c \<noteq> space) rest)" by (auto dest: set_takeWhileD)
    show "head = str ''HT'' @ version @ str '' A '' @ takeWhile (\<lambda>c. c \<noteq> space) rest" using m(3) v(1) by simp
    show "t = head @ space # pw" using rest v(2) m(3) by simp
  qed (fact v)+
next
  assume ?e
  then obtain version name password where e: "list_all is_digit version" "1 \<le> length version" "length version \<le> 3" "space \<notin> set name"
    "head = str ''HT'' @ version @ str '' A '' @ name" "t = head @ space # password" by blast
  then have "match_account_request_start t = Some (str ''HT'' @ version @ str '' A '', name @ space # password)"
    unfolding match_start_Some by auto
  with e(4,5) show ?m by (simp add: match_account_request_with_password_def takeWhile_sep)
qed

lemma redact_matched: "match_account_request_with_password t = Some head \<Longrightarrow> redact_stored_text t = head @ space # REDACTED_PASSWORD"
  by (simp add: redact_stored_text_def str_def space_def)

lemma redact_stored_text_cases:
  obtains (kept) "match_account_request_with_password t = None" "redact_stored_text t = t"
  | (redacted) version name password where "list_all is_digit version" "1 \<le> length version" "length version \<le> 3" "space \<notin> set name"
      "t = str ''HT'' @ version @ str '' A '' @ name @ space # password"
      "redact_stored_text t = str ''HT'' @ version @ str '' A '' @ name @ space # REDACTED_PASSWORD"
proof (cases "match_account_request_with_password t")
  case None
  with kept show thesis by (simp add: redact_stored_text_def)
next
  case (Some head)
  from Some redact_matched [OF Some] redacted show thesis unfolding match_with_password_Some by auto
qed

lemma redact_stored_text_idem: "redact_stored_text (redact_stored_text t) = redact_stored_text t"
proof (cases t rule: redact_stored_text_cases)
  case (redacted version name password)
  then have "match_account_request_with_password (redact_stored_text t) = Some (str ''HT'' @ version @ str '' A '' @ name)"
    unfolding match_with_password_Some by auto
  from redact_matched [OF this] redacted(6) show ?thesis by simp
qed simp

lemma redact_hides_password:
  assumes "list_all is_digit version" "1 \<le> length version" "length version \<le> 3" "space \<notin> set name"
  shows "redact_stored_text (str ''HT'' @ version @ str '' A '' @ name @ space # password) =
    str ''HT'' @ version @ str '' A '' @ name @ space # REDACTED_PASSWORD"
proof -
  have "match_account_request_with_password (str ''HT'' @ version @ str '' A '' @ name @ space # password) =
      Some (str ''HT'' @ version @ str '' A '' @ name)"
    using assms unfolding match_with_password_Some by auto
  from redact_matched [OF this] show ?thesis by simp
qed


section \<open>Recording a frame\<close>

lemma heard_moves: "db_moves db (snd (find_sender_and_record_it_was_heard key_prefix heard_at db))"
  by (auto simp: find_sender_and_record_it_was_heard_def Let_def contact_evolves_def contact_row_ok_def intro!: contacts_update_moves)

lemma count_repeat_moves: "db_moves db (snd (count_firmware_repeat contact_key frame digest now db))"
  by (auto simp: count_firmware_repeat_def inbound_evolves_def split: option.split intro!: inbox_update_moves)

lemma flood_arrival_reset_moves: "db_moves db (record_flood_arrival_route_reset row db)"
  by (auto simp: record_flood_arrival_route_reset_def inbound_evolves_def intro!: inbox_update_moves)

text \<open>The inbox after a frame: a repeat is counted on the row it repeats, everything else is a new row.\<close>

lemma record_inbound_frameE:
  assumes "record_inbound_frame_in_transaction sha256 frame now db = Inr (r, db')"
  obtains contact_found db1 digest where
    "find_sender_and_record_it_was_heard (frame_sender_public_key_prefix frame) (frame_received_at frame) db = (contact_found, db1)"
    "calculate_text_sha256 sha256 (redact_stored_text (frame_text frame)) = Inr digest"
    "recorded_contact_id r = map_option contact_id contact_found"
    "is_firmware_repeat r \<longrightarrow> (\<exists>c. contact_found = Some c \<and>
       count_firmware_repeat (contact_id c) frame digest now db1 = (Some (inbox_row_id r), db'))"
    "\<not> is_firmware_repeat r \<longrightarrow> inbox_row_id r = next_id (inbox db1) \<and>
       (\<forall>c. contact_found = Some c \<longrightarrow> fst (count_firmware_repeat (contact_id c) frame digest now db1) = None) \<and>
       db' = db1\<lparr>inbox := insert_row (\<lambda>n. (new_inbox_row frame contact_found (redact_stored_text (frame_text frame)) digest)
         \<lparr>inbound_id := n\<rparr>) (inbox db1)\<rparr>"
proof -
  obtain contact_found db1 where c: "find_sender_and_record_it_was_heard (frame_sender_public_key_prefix frame) (frame_received_at frame) db =
      (contact_found, db1)" by (metis prod.exhaust)
  have keep: "db2 = db1" if "count_firmware_repeat i frame digest now db1 = (None, db2)" for i digest db2
    using that by (auto simp: count_firmware_repeat_def split: option.splits)
  from assms obtain digest where digest: "calculate_text_sha256 sha256 (redact_stored_text (frame_text frame)) = Inr digest"
    by (auto simp: record_inbound_frame_in_transaction_def c Let_def res_bind_eq_Inr)
  show thesis
    by (rule that [OF c digest])
      (use assms in \<open>auto simp: record_inbound_frame_in_transaction_def c digest Let_def split: option.splits prod.splits dest!: keep\<close>)
qed

lemma record_inbound_frame_moves:
  assumes "record_inbound_frame_in_transaction sha256 frame now db = Inr (r, db')"
  shows "db_moves db db'"
proof -
  from assms obtain contact_found db1 digest where
    c: "find_sender_and_record_it_was_heard (frame_sender_public_key_prefix frame) (frame_received_at frame) db = (contact_found, db1)"
    and repeat: "is_firmware_repeat r \<longrightarrow> (\<exists>c. contact_found = Some c \<and>
       count_firmware_repeat (contact_id c) frame digest now db1 = (Some (inbox_row_id r), db'))"
    and new: "\<not> is_firmware_repeat r \<longrightarrow> inbox_row_id r = next_id (inbox db1) \<and>
       (\<forall>c. contact_found = Some c \<longrightarrow> fst (count_firmware_repeat (contact_id c) frame digest now db1) = None) \<and>
       db' = db1\<lparr>inbox := insert_row (\<lambda>n. (new_inbox_row frame contact_found (redact_stored_text (frame_text frame)) digest)
         \<lparr>inbound_id := n\<rparr>) (inbox db1)\<rparr>"
    by (rule record_inbound_frameE)
  have "db_moves db db1" using heard_moves [of db] c by (metis snd_conv)
  moreover have "db_moves db1 db'"
    using repeat new count_repeat_moves [of db1 _ frame digest now] inbox_insert_moves
    by (cases "is_firmware_repeat r") (metis snd_conv, metis)
  ultimately show ?thesis by (rule db_moves_trans)
qed


text \<open>The window in which a repeat is recognised.\<close>

definition repeats_row :: "nat \<Rightarrow> received_frame \<Rightarrow> pystr \<Rightarrow> datetime \<Rightarrow> inbound \<Rightarrow> bool" where
  "repeats_row contact_key frame digest now i \<longleftrightarrow>
     inbound_contact_id i = Some contact_key \<and> inbound_sender_timestamp i = frame_sender_timestamp frame \<and> text_sha256 i = digest \<and>
     received_at i \<ge> now - timedelta_hours FIRMWARE_REPEAT_WINDOW_HOURS"

lemma count_firmware_repeat_eq:
  "count_firmware_repeat contact_key frame digest now db =
     (case first_where (repeats_row contact_key frame digest now) (inbox db) of
        None \<Rightarrow> (None, db)
      | Some original \<Rightarrow>
          (Some (inbound_id original),
           db\<lparr>inbox := update_where (\<lambda>i. inbound_id i = inbound_id original)
                (\<lambda>i. i\<lparr>duplicate_count := duplicate_count i + 1, last_duplicate_at := Some (frame_received_at frame)\<rparr>)
                (inbox db)\<rparr>))"
  by (simp add: count_firmware_repeat_def repeats_row_def [abs_def])

lemma heard_again:
  assumes "find_sender_and_record_it_was_heard key t db = (Some c, db1)"
  shows "\<exists>c'. find_sender_and_record_it_was_heard key t (db1\<lparr>inbox := x\<rparr>) = (Some c', db1\<lparr>inbox := x\<rparr>) \<and> contact_id c' = contact_id c"
proof -
  let ?P = "\<lambda>c. public_key_prefix c = key" and ?f = "\<lambda>c. c\<lparr>last_heard_at := Some t\<rparr>"
  have db1: "db1 = db\<lparr>contacts := update_where ?P ?f (contacts db)\<rparr>"
    and c: "first_where ?P (contacts db1) = Some c"
    using assms by (auto simp: find_sender_and_record_it_was_heard_def Let_def split: if_splits)
  have "update_where ?P ?f (contacts db1) = contacts db1"
    unfolding db1 by (simp add: update_where_def public_key_prefix_def)
  moreover have "count_where ?P (contacts db1) \<noteq> 0"
    using first_where_SomeD [OF c] by (auto simp: count_where_def filter_empty_conv)
  ultimately show ?thesis using c by (simp add: find_sender_and_record_it_was_heard_def Let_def)
qed

lemma repeated_frame_is_counted:
  assumes first: "record_inbound_frame_in_transaction sha256 frame now db = Inr (r, db1)" "recorded_contact_id r \<noteq> None"
      "\<not> is_firmware_repeat r"
    and again: "now \<le> later" "later \<le> frame_received_at frame + timedelta_hours FIRMWARE_REPEAT_WINDOW_HOURS"
    and keys: "tables_ok db"
  shows "\<exists>r' db2. record_inbound_frame_in_transaction sha256 frame later db1 = Inr (r', db2) \<and> is_firmware_repeat r' \<and>
    inbox_row_id r' = inbox_row_id r \<and> length (rows (inbox db2)) = length (rows (inbox db1))"
proof -
  from first(1) obtain found db0 digest where
    c: "find_sender_and_record_it_was_heard (frame_sender_public_key_prefix frame) (frame_received_at frame) db = (found, db0)"
    and digest: "calculate_text_sha256 sha256 (redact_stored_text (frame_text frame)) = Inr digest"
    and found: "recorded_contact_id r = map_option contact_id found"
    and new: "\<not> is_firmware_repeat r \<longrightarrow> inbox_row_id r = next_id (inbox db0) \<and>
       (\<forall>c. found = Some c \<longrightarrow> fst (count_firmware_repeat (contact_id c) frame digest now db0) = None) \<and>
       db1 = db0\<lparr>inbox := insert_row (\<lambda>n. (new_inbox_row frame found (redact_stored_text (frame_text frame)) digest)
         \<lparr>inbound_id := n\<rparr>) (inbox db0)\<rparr>"
    by (rule record_inbound_frameE)
  obtain c' where c': "found = Some c'" using first(2) found by auto
  let ?row = "(new_inbox_row frame found (redact_stored_text (frame_text frame)) digest)\<lparr>inbound_id := next_id (inbox db0)\<rparr>"
  have "first_where (repeats_row (contact_id c') frame digest now) (inbox db0) = None"
    using new first(3) c' by (auto simp: count_firmware_repeat_eq split: option.splits)
  from first_where_NoneD [OF this] have old: "\<not> repeats_row (contact_id c') frame digest later i" if "i \<in> set (rows (inbox db0))" for i
    using that again(1) unfolding repeats_row_def by (metis diff_right_mono order_trans)
  have row: "repeats_row (contact_id c') frame digest later ?row"
    using again(2) by (simp add: repeats_row_def new_inbox_row_def c')
  have inbox1: "inbox db1 = insert_row (\<lambda>n. (new_inbox_row frame found (redact_stored_text (frame_text frame)) digest)
         \<lparr>inbound_id := n\<rparr>) (inbox db0)"
    using new first(3) by simp
  have "first_where (repeats_row (contact_id c') frame digest later) (inbox db0) = None"
    using old by (simp add: first_where_def find_None_iff)
  then have "first_where (repeats_row (contact_id c') frame digest later) (inbox db1) = Some ?row"
    unfolding inbox1 by (rule inbox_table.first_where_created) (rule row)
  moreover obtain c2 where "find_sender_and_record_it_was_heard (frame_sender_public_key_prefix frame) (frame_received_at frame) db1 = (Some c2, db1)"
    "contact_id c2 = contact_id c'"
    using heard_again [OF c [unfolded c']] new first(3) by metis
  ultimately show ?thesis
    using new first(3) by (simp add: record_inbound_frame_in_transaction_def digest count_firmware_repeat_eq Let_def)
qed

end
