(* ===== verification/Incoming_Messages.thy ===== *)
theory Incoming_Messages
  imports Refresh_Sessions
begin

text \<open>
  Receiving a message part by part (\<^verbatim>\<open>messaging/incoming_messages.py\<close>) and the fan-out of an accepted
  message to the recipient's devices (\<^verbatim>\<open>messaging/fan_out.py\<close>). As in the refresh, \<open>seen\<close> is the database
  of the reads before the locks. \<^verbatim>\<open>message.save(update_fields=\<dots>)\<close> writes the row with the message's key.
  The lemmas show which parts are accepted, that the text of an accepted message is its parts in order,
  that accepting creates exactly one delivery per device of the recipient, and that a repeated part
  changes nothing.
\<close>

definition INCOMPLETE_MESSAGE_RETENTION_HOURS :: int where
  "INCOMPLETE_MESSAGE_RETENTION_HOURS = 24"

section \<open>Fan-out\<close>

fun create_deliveries_loop :: "relay_settings \<Rightarrow> nat \<Rightarrow> (nat \<Rightarrow> nat option) \<Rightarrow> datetime \<Rightarrow> nat list \<Rightarrow> db \<Rightarrow> db" where
  "create_deliveries_loop S message active now [] db = db"
| "create_deliveries_loop S message active now (device # devices) db =
     create_deliveries_loop S message active now devices
       (case active device of
          None \<Rightarrow> create_pending_delivery S message device now db
        | Some session \<Rightarrow> create_refresh_owned_delivery S message device session now db)"

definition active_sessions_by_device :: "nat list \<Rightarrow> nat \<Rightarrow> db \<Rightarrow> (nat \<times> nat) list" where
  "active_sessions_by_device devices sender db =
     map (\<lambda>s. (session_device_id s, session_id s))
       (select_where (\<lambda>s. session_device_id s \<in> set devices \<and> peer_id s = sender \<and> session_state s = SESSION_ACTIVE)
         (refresh_sessions db))"

text \<open>
  A dictionary built from the pairs keeps the last session of a device; the unique constraint allows only
  one active session per device and peer. The loop over the dictionary's values adds one to each.
\<close>

definition create_deliveries_for_accepted_message :: "relay_settings \<Rightarrow> message \<Rightarrow> datetime \<Rightarrow> db \<Rightarrow> nat \<times> db" where
  "create_deliveries_for_accepted_message S m now db =
     (let recipient_device_ids = device_ids_of_user (recipient_id m) db;
          pairs = active_sessions_by_device recipient_device_ids (sender_id m) db;
          active = map_of (rev pairs);
          db1 = create_deliveries_loop S (message_pk m) active now recipient_device_ids db;
          db2 = db1\<lparr>refresh_sessions := update_where (\<lambda>s. \<exists>device \<in> set (map fst pairs). active device = Some (session_id s))
                      (\<lambda>s. s\<lparr>messages_total := messages_total s + 1\<rparr>) (refresh_sessions db1)\<rparr>
      in (length recipient_device_ids, db2))"

section \<open>Storing a part\<close>

record message_part_outcome =
  part_reply :: server_message
  part_outcome_summary :: pystr
  is_incomplete_status :: bool

record message_part =
  part_recipient_username :: pystr
  part_message_id :: int
  part_number :: int
  part_part_count :: int
  part_text :: pystr

definition part_request :: "message_part \<Rightarrow> client_message" where
  "part_request p = MessagePartRequest (part_recipient_username p) (part_message_id p) (part_number p)
                      (part_part_count p) (part_text p)"

definition build_part_error_outcome :: "error_code \<Rightarrow> message_part \<Rightarrow> pystr \<Rightarrow> message_part_outcome res" where
  "build_part_error_outcome code p reason =
     res_bind (build_request_error_reply code (part_request p)) (\<lambda>reply.
       Inr \<lparr>part_reply = reply, part_outcome_summary = reason, is_incomplete_status = False\<rparr>)"

definition lock_sender_recipient_and_device :: "nat \<Rightarrow> nat \<Rightarrow> nat \<Rightarrow> db \<Rightarrow> unit res" where
  "lock_sender_recipient_and_device sender recipient device db =
     (let locked_user_ids = map user_id (select_where (\<lambda>u. user_id u \<in> {sender, recipient}) (users db))
      in require (length locked_user_ids = 2 \<and> device_user_id device db = Some sender) LockedRowChangedError)"

definition new_message :: "nat \<Rightarrow> nat \<Rightarrow> nat \<Rightarrow> message_part \<Rightarrow> datetime \<Rightarrow> message" where
  "new_message sender recipient device p now =
     \<lparr>message_pk = 0, sender_id = sender, sender_device_id = Some device, recipient_id = recipient,
      client_message_id = part_message_id p, part_count = part_part_count p,
      part_texts = replicate (nat (part_part_count p)) None, message_text = None, message_created_at = now,
      last_part_at = now, accepted_at = None, message_delivered_at = None, message_read_at = None\<rparr>"

text \<open>
  In one transaction nothing can insert the message between the lookup and the insert, so the branch
  that catches \<^verbatim>\<open>IntegrityError\<close> and reads the message another device created is the first branch of a
  later run.
\<close>

definition lock_or_create_message :: "nat \<Rightarrow> nat \<Rightarrow> nat \<Rightarrow> message_part \<Rightarrow> datetime \<Rightarrow> db \<Rightarrow> message \<times> db" where
  "lock_or_create_message sender recipient device p now db =
     (case first_where (\<lambda>m. sender_id m = sender \<and> client_message_id m = part_message_id p) (messages db) of
        Some m \<Rightarrow> (m, db)
      | None \<Rightarrow>
          let m = new_message sender recipient device p now
          in (m\<lparr>message_pk := next_id (messages db)\<rparr>,
              db\<lparr>messages := insert_row (\<lambda>n. m\<lparr>message_pk := n\<rparr>) (messages db)\<rparr>))"

text \<open>None when the part can belong to the message; \<^verbatim>\<open>part_texts[part_number - 1]\<close> raises out of range.\<close>

definition find_part_conflict :: "message \<Rightarrow> nat \<Rightarrow> nat \<Rightarrow> message_part \<Rightarrow> pystr option" where
  "find_part_conflict m recipient device p =
     (if recipient_id m \<noteq> recipient then Some (str ''the id is used by a message to another recipient'')
      else if part_count m \<noteq> part_part_count p then Some (str ''the id is used by a message with another part count'')
      else
        let held_part_text = part_texts m ! nat (part_number p - 1)
        in if held_part_text \<noteq> None \<and> held_part_text \<noteq> Some (part_text p)
           then Some (str ''part '' @ str_of_int (part_number p) @ str '' is held with another text'')
           else if accepted_at m = None \<and> held_part_text = None \<and> sender_device_id m \<noteq> Some device
           then Some (str ''only the device that sent the first part may add parts to an incomplete message'')
           else None)"

definition save_message :: "message \<Rightarrow> db \<Rightarrow> db" where
  "save_message m db = db\<lparr>messages := update_where (\<lambda>r. message_pk r = message_pk m) (\<lambda>_. m) (messages db)\<rparr>"

definition store_part :: "message \<Rightarrow> message_part \<Rightarrow> datetime \<Rightarrow> db \<Rightarrow> bool \<times> message \<times> db" where
  "store_part m p now db =
     (let part_index = nat (part_number p - 1);
          part_was_new = part_texts m ! part_index = None;
          m1 = (if part_was_new then m\<lparr>part_texts := (part_texts m)[part_index := Some (part_text p)]\<rparr> else m);
          m2 = (if accepted_at m1 = None then m1\<lparr>last_part_at := now\<rparr> else m1)
      in (part_was_new, m2, save_message m2 db))"

definition accept_message :: "relay_settings \<Rightarrow> message \<Rightarrow> datetime \<Rightarrow> db \<Rightarrow> nat \<times> message \<times> db" where
  "accept_message S m now db =
     (let m1 = m\<lparr>message_text := Some (concat (List.map_filter id (part_texts m))), accepted_at := Some now\<rparr>;
          (delivery_count, db2) = create_deliveries_for_accepted_message S m1 now (save_message m1 db)
      in (delivery_count, m1, db2))"

fun or_held_parts :: "nat \<Rightarrow> pystr option list \<Rightarrow> int \<Rightarrow> int" where
  "or_held_parts part_index [] held_parts_mask = held_parts_mask"
| "or_held_parts part_index (t # ts) held_parts_mask =
     or_held_parts (Suc part_index) ts
       (if t \<noteq> None then held_parts_mask OR push_bit part_index 1 else held_parts_mask)"

definition build_received_set :: "message \<Rightarrow> pystr res" where
  "build_received_set m = convert_parts_mask_to_received_set (or_held_parts 0 (part_texts m) 0) (part_count m)"

definition accept_message_part_in_transaction ::
  "relay_settings \<Rightarrow> db \<Rightarrow> nat \<Rightarrow> message_part \<Rightarrow> datetime \<Rightarrow> db \<Rightarrow> (message_part_outcome \<times> db) res" where
  "accept_message_part_in_transaction S seen device p now db =
     (let error = (\<lambda>code reason db'. res_bind (build_part_error_outcome code p reason) (\<lambda>out. Inr (out, db')))
      in case device_user_id device seen of
           None \<Rightarrow> error NOT_SIGNED_IN (str ''the device is not signed in'') db
         | Some sender \<Rightarrow>
         case find_user_by_lookup (part_recipient_username p) seen of
           None \<Rightarrow> error NO_SUCH_USER (str ''no such recipient'') db
         | Some recipient \<Rightarrow>
             if user_id recipient = sender then error SELF (str ''the recipient is the sender'') db
             else
               res_bind (lock_sender_recipient_and_device sender (user_id recipient) device db) (\<lambda>_.
               res_bind (is_valid_part_text (part_text p)) (\<lambda>text_is_valid.
                 if \<not> is_valid_part_numbering (part_number p) (part_part_count p) \<or> \<not> text_is_valid
                 then error PART_INVALID (str ''invalid part number, count or text'') db
                 else
                   let (m, db1) = lock_or_create_message sender (user_id recipient) device p now db
                   in case find_part_conflict m (user_id recipient) device p of
                        Some conflict_reason \<Rightarrow> error ID_CONFLICT conflict_reason db1
                      | None \<Rightarrow>
                          let (part_was_new, m1, db2) = store_part m p now db1;
                              part_summary = str ''part '' @ str_of_int (part_number p) @ str ''/'' @
                                str_of_int (part_part_count p) @
                                (if part_was_new then str '' stored'' else str '' already held'');
                              (summary, m2, db3) =
                                (if accepted_at m1 = None \<and> list_all (\<lambda>t. t \<noteq> None) (part_texts m1)
                                 then let (delivery_count, m', db') = accept_message S m1 now db2
                                      in (part_summary @ str ''; message accepted with '' @
                                            digits_of_nat delivery_count @ str '' deliveries'', m', db')
                                 else (part_summary, m1, db2))
                          in res_bind (build_received_set m2) (\<lambda>received_set.
                               Inr (\<lparr>part_reply = SendStatusReply (user_username recipient) (part_message_id p) received_set,
                                     part_outcome_summary = summary,
                                     is_incomplete_status = (accepted_at m2 = None)\<rparr>, db3)))))"

text \<open>Deleting a message deletes its deliveries and receipts, and clears what points to those.\<close>

definition delete_expired_incomplete_messages :: "datetime \<Rightarrow> db \<Rightarrow> nat \<times> db" where
  "delete_expired_incomplete_messages now db =
     (let expiry_time = now - timedelta_hours INCOMPLETE_MESSAGE_RETENTION_HOURS;
          expired = (\<lambda>m. accepted_at m = None \<and> last_part_at m \<le> expiry_time);
          gone = (\<lambda>pk. exists_where (\<lambda>m. message_pk m = pk \<and> expired m) (messages db));
          delivery_gone = (\<lambda>i. exists_where (\<lambda>d. delivery_id d = i \<and> gone (delivery_message_id d)) (deliveries db));
          receipt_gone = (\<lambda>i. exists_where (\<lambda>r. receipt_id r = i \<and> gone (receipt_message_id r)) (receipts db));
          clear = (\<lambda>p. p\<lparr>packet_delivery_id := (case packet_delivery_id p of
                              Some i \<Rightarrow> if delivery_gone i then None else Some i | None \<Rightarrow> None),
                         packet_receipt_id := (case packet_receipt_id p of
                              Some i \<Rightarrow> if receipt_gone i then None else Some i | None \<Rightarrow> None)\<rparr>)
      in (count_where expired (messages db),
          db\<lparr>messages := delete_where expired (messages db),
             deliveries := delete_where (\<lambda>d. gone (delivery_message_id d)) (deliveries db),
             receipts := delete_where (\<lambda>r. gone (receipt_message_id r)) (receipts db),
             packets := update_where (\<lambda>_. True) clear (packets db)\<rparr>))"

section \<open>The received-set of a message\<close>

definition held_set :: "message \<Rightarrow> pystr" where
  "held_set m = map (\<lambda>t. if t = None then RECEIVED_SET_MISSING else RECEIVED_SET_RECEIVED) (part_texts m)"

lemma or_held_parts_eq:
  "or_held_parts k ts held =
     or_received_parts k (map (\<lambda>t. if t = None then RECEIVED_SET_MISSING else RECEIVED_SET_RECEIVED) ts) held"
  by (induction k ts held rule: or_held_parts.induct)
    (simp_all add: RECEIVED_SET_MISSING_def RECEIVED_SET_RECEIVED_def)

lemma build_received_set_eq:
  assumes "message_row_ok m"
  shows "build_received_set m = Inr (held_set m)"
proof -
  have "is_received_set_field (held_set m)" "part_count m = int (length (held_set m))"
    using assms
    by (auto simp: message_row_ok_def is_received_set_field_def held_set_def MAXIMUM_PART_COUNT_def
        RECEIVED_SET_MISSING_def RECEIVED_SET_RECEIVED_def list_all_iff)
  then show ?thesis
    using received_set_of_mask_of_received_set [of "held_set m"]
    by (simp add: build_received_set_def or_held_parts_eq held_set_def)
qed

lemma held_set_complete: "list_all (\<lambda>c. c = RECEIVED_SET_RECEIVED) (held_set m) \<longleftrightarrow> None \<notin> set (part_texts m)"
  by (auto simp: held_set_def list_all_iff RECEIVED_SET_MISSING_def RECEIVED_SET_RECEIVED_def)

section \<open>Fan-out: one delivery per device\<close>

lemma create_deliveries_loop_moves: "deliveries_move db (create_deliveries_loop S message active now devices db)"
  by (induction S message active now devices db rule: create_deliveries_loop.induct)
    (auto split: option.splits
      intro: deliveries_move_trans [OF create_pending_deliveries] deliveries_move_trans [OF create_owned_deliveries])

definition delivery_created_for :: "nat \<Rightarrow> (nat \<Rightarrow> nat option) \<Rightarrow> datetime \<Rightarrow> delivery \<Rightarrow> bool" where
  "delivery_created_for message active now d \<longleftrightarrow>
     delivery_message_id d = message \<and> attempt_count d = 0 \<and> refresh_session_id d = active (delivery_device_id d) \<and>
     (case active (delivery_device_id d) of
        None \<Rightarrow> delivery_state d = DELIVERY_PENDING \<and> next_attempt_at d = Some now
      | Some session \<Rightarrow> delivery_state d = DELIVERY_QUEUED_FOR_REFRESH)"

lemma create_deliveries_loop_rows:
  obtains added where
    "rows (deliveries (create_deliveries_loop S message active now devices db)) = rows (deliveries db) @ added"
    "map delivery_device_id added = devices" "list_all (delivery_created_for message active now) added"
proof (induction devices arbitrary: db thesis)
  case (Cons device devices)
  let ?db = "case active device of None \<Rightarrow> create_pending_delivery S message device now db
    | Some session \<Rightarrow> create_refresh_owned_delivery S message device session now db"
  obtain d where d: "rows (deliveries ?db) = rows (deliveries db) @ [d]" "delivery_device_id d = device"
    "delivery_created_for message active now d"
    by (cases "active device")
      (auto simp: create_pending_delivery_def create_refresh_owned_delivery_def insert_delivery_def new_delivery_def
        delivery_created_for_def)
  obtain added where "rows (deliveries (create_deliveries_loop S message active now devices ?db)) =
      rows (deliveries ?db) @ added" "map delivery_device_id added = devices"
    "list_all (delivery_created_for message active now) added"
    by (rule Cons.IH)
  with d show ?case by (intro Cons.prems [of "d # added"]) simp_all
qed simp

lemma fan_out_moves:
  assumes "create_deliveries_for_accepted_message S m now db = (n, db')" "tables_ok db"
  shows "service_moves db db'"
proof -
  define pairs where "pairs = active_sessions_by_device (device_ids_of_user (recipient_id m) db) (sender_id m) db"
  define db1 where "db1 = create_deliveries_loop S (message_pk m) (map_of (rev pairs)) now
    (device_ids_of_user (recipient_id m) db) db"
  have move: "deliveries_move db db1" unfolding db1_def by (rule create_deliveries_loop_moves)
  have active: "session_state s = SESSION_ACTIVE"
    if "map_of (rev pairs) device = Some (session_id s)" "s \<in> set (rows (refresh_sessions db))" for device s
  proof -
    from map_of_SomeD [OF that(1)] obtain s' where "s' \<in> set (rows (refresh_sessions db))"
      "session_id s' = session_id s" "session_state s' = SESSION_ACTIVE"
      by (auto simp: pairs_def active_sessions_by_device_def)
    moreover have "keys_ok session_id (refresh_sessions db)" using assms(2) by (simp add: tables_ok_def)
    ultimately show ?thesis using session_table.key_unique [of "refresh_sessions db" s' s] that(2) by auto
  qed
  have "service_moves db1 (db1\<lparr>refresh_sessions :=
      update_where (\<lambda>s. \<exists>device \<in> set (map fst pairs). map_of (rev pairs) device = Some (session_id s))
        (\<lambda>s. s\<lparr>messages_total := messages_total s + 1\<rparr>) (refresh_sessions db1)\<rparr>)"
    by (rule sessions_update_service)
      (use active deliveries_move_tables(4) [OF move] in \<open>auto simp: session_evolves_def\<close>)
  then show ?thesis
    using service_moves_trans [OF deliveries_move_service [OF move]] assms(1)
    by (auto simp: create_deliveries_for_accepted_message_def Let_def db1_def pairs_def)
qed

lemma fan_out_rows:
  assumes "create_deliveries_for_accepted_message S m now db = (n, db')"
  obtains added active where "rows (deliveries db') = rows (deliveries db) @ added"
    "map delivery_device_id added = device_ids_of_user (recipient_id m) db"
    "list_all (delivery_created_for (message_pk m) active now) added"
    "n = length (device_ids_of_user (recipient_id m) db)" "messages db' = messages db" "users db' = users db"
    "contacts db' = contacts db"
proof -
  define active where "active = map_of (rev (active_sessions_by_device (device_ids_of_user (recipient_id m) db) (sender_id m) db))"
  define db1 where "db1 = create_deliveries_loop S (message_pk m) active now (device_ids_of_user (recipient_id m) db) db"
  have move: "deliveries_move db db1" unfolding db1_def by (rule create_deliveries_loop_moves)
  obtain added where "rows (deliveries db1) = rows (deliveries db) @ added"
    "map delivery_device_id added = device_ids_of_user (recipient_id m) db"
    "list_all (delivery_created_for (message_pk m) active now) added"
    unfolding db1_def by (rule create_deliveries_loop_rows)
  then show thesis
    using assms deliveries_move_tables [OF move]
    by (intro that [of added active])
      (auto simp: create_deliveries_for_accepted_message_def Let_def db1_def active_def)
qed

section \<open>One part\<close>

text \<open>What the checks before the message row establish.\<close>

definition may_upload :: "db \<Rightarrow> nat \<Rightarrow> message_part \<Rightarrow> db \<Rightarrow> nat \<Rightarrow> user \<Rightarrow> bool" where
  "may_upload seen device p db sender recipient \<longleftrightarrow>
     device_user_id device seen = Some sender \<and> find_user_by_lookup (part_recipient_username p) seen = Some recipient \<and>
     user_id recipient \<noteq> sender \<and> lock_sender_recipient_and_device sender (user_id recipient) device db = Inr () \<and>
     is_valid_part_numbering (part_number p) (part_part_count p) \<and> valid_part_text (part_text p)"

text \<open>The message with the part stored, and accepted when that was the last one missing.\<close>

definition with_part :: "message \<Rightarrow> message_part \<Rightarrow> datetime \<Rightarrow> message" where
  "with_part m p now =
     (let m1 = (if part_texts m ! nat (part_number p - 1) = None
                then m\<lparr>part_texts := (part_texts m)[nat (part_number p - 1) := Some (part_text p)]\<rparr> else m)
      in if accepted_at m1 = None then m1\<lparr>last_part_at := now\<rparr> else m1)"

definition is_complete :: "message \<Rightarrow> bool" where
  "is_complete m \<longleftrightarrow> accepted_at m = None \<and> None \<notin> set (part_texts m)"

definition accepted :: "message \<Rightarrow> datetime \<Rightarrow> message" where
  "accepted m now = m\<lparr>message_text := Some (concat (List.map_filter id (part_texts m))), accepted_at := Some now\<rparr>"

lemma store_part_eq:
  "store_part m p now db = (part_texts m ! nat (part_number p - 1) = None, with_part m p now, save_message (with_part m p now) db)"
  by (simp add: store_part_def with_part_def Let_def)

definition after_part :: "message \<Rightarrow> message_part \<Rightarrow> datetime \<Rightarrow> message" where
  "after_part m p now =
     (if is_complete (with_part m p now) then accepted (with_part m p now) now else with_part m p now)"

lemma after_part_keeps_key [simp]:
  "message_pk (with_part m p now) = message_pk m" "message_pk (after_part m p now) = message_pk m"
  "recipient_id (with_part m p now) = recipient_id m" "recipient_id (after_part m p now) = recipient_id m"
  "part_count (after_part m p now) = part_count m" "sender_id (after_part m p now) = sender_id m"
  by (simp_all add: with_part_def after_part_def accepted_def Let_def)

lemma with_part_texts:
  assumes "find_part_conflict m recipient device p = None"
  shows "part_texts (with_part m p now) = (part_texts m)[nat (part_number p - 1) := Some (part_text p)]"
proof -
  have "part_texts m ! nat (part_number p - 1) \<in> {None, Some (part_text p)}"
    using assms(1) by (auto simp: find_part_conflict_def Let_def split: if_splits)
  then consider "part_texts m ! nat (part_number p - 1) = None"
    | "part_texts m ! nat (part_number p - 1) = Some (part_text p)" by auto
  then show ?thesis
  proof cases
    case 2
    then have "(part_texts m)[nat (part_number p - 1) := Some (part_text p)] = part_texts m"
      by (metis list_update_id)
    with 2 show ?thesis by (simp add: with_part_def)
  qed (simp add: with_part_def Let_def)
qed

lemma after_part_row_ok: "message_row_ok m \<Longrightarrow> message_row_ok (after_part m p now)"
  by (auto simp: message_row_ok_def after_part_def with_part_def accepted_def is_complete_def Let_def)

lemma valid_part_texts_list: "list_all (\<lambda>t. \<exists>y. t = Some y) ts \<longleftrightarrow> None \<notin> set ts"
  by (induction ts) (auto, metis option.exhaust)

text \<open>
  The whole service on its main path: the reply carries the parts held now, and the database is the one with
  the part stored and, when it completed the message, the deliveries created.
\<close>

lemma accept_part_main:
  assumes "may_upload seen device p db sender recipient"
    and "lock_or_create_message sender (user_id recipient) device p now db = (m, db1)"
    and "find_part_conflict m (user_id recipient) device p = None" and "message_row_ok m"
  obtains summary n db3 where
    "accept_message_part_in_transaction S seen device p now db =
       Inr (\<lparr>part_reply = SendStatusReply (user_username recipient) (part_message_id p) (held_set (after_part m p now)),
             part_outcome_summary = summary, is_incomplete_status = (accepted_at (after_part m p now) = None)\<rparr>, db3)"
    "if is_complete (with_part m p now)
     then create_deliveries_for_accepted_message S (after_part m p now) now
            (save_message (after_part m p now) (save_message (with_part m p now) db1)) = (n, db3)
     else db3 = save_message (with_part m p now) db1"
proof -
  have ok: "build_received_set (after_part m p now) = Inr (held_set (after_part m p now))"
    by (rule build_received_set_eq [OF after_part_row_ok [OF assms(4)]])
  let ?answer = "\<lambda>summary db3. Inr (\<lparr>part_reply = SendStatusReply (user_username recipient) (part_message_id p)
        (held_set (after_part m p now)), part_outcome_summary = summary,
      is_incomplete_status = (accepted_at (after_part m p now) = None)\<rparr>, db3)"
  show thesis
  proof (cases "is_complete (with_part m p now)")
    case True
    obtain n db3 where fan: "create_deliveries_for_accepted_message S (after_part m p now) now
        (save_message (after_part m p now) (save_message (with_part m p now) db1)) = (n, db3)" by fastforce
    have acc: "accept_message S (with_part m p now) now (save_message (with_part m p now) db1) =
        (n, after_part m p now, db3)"
      using True fan by (simp add: accept_message_def after_part_def accepted_def)
    have "\<exists>summary. accept_message_part_in_transaction S seen device p now db = ?answer summary db3"
      using assms True ok acc
      by (simp add: Let_def accept_message_part_in_transaction_def may_upload_def store_part_eq
          valid_part_texts_list is_complete_def)
    with fan True show thesis by (auto intro: that)
  next
    case False
    then have same: "after_part m p now = with_part m p now" by (simp add: after_part_def)
    from False have "accepted_at (with_part m p now) \<noteq> None \<or> None \<in> set (part_texts (with_part m p now))"
      by (auto simp: is_complete_def)
    then have "\<exists>summary. accept_message_part_in_transaction S seen device p now db =
        ?answer summary (save_message (with_part m p now) db1)"
      using assms ok unfolding same
      by (elim disjE) (auto simp: Let_def accept_message_part_in_transaction_def may_upload_def store_part_eq
          valid_part_texts_list)
    with False show thesis by (auto intro: that)
  qed
qed

section \<open>The service moves the database along the machines\<close>

definition messages_ok :: "db \<Rightarrow> bool" where
  "messages_ok db \<longleftrightarrow> all_rows message_row_ok (messages db)"

lemma accept_part_refused:
  assumes "accept_message_part_in_transaction S seen device p now db = Inr (out, db')"
    and "\<nexists>sender recipient. may_upload seen device p db sender recipient"
  shows "db' = db"
proof (rule ccontr)
  assume "db' \<noteq> db"
  then have "\<exists>sender recipient. may_upload seen device p db sender recipient"
    using assms(1)
    by (auto simp: accept_message_part_in_transaction_def may_upload_def res_bind_eq_Inr Let_def
        split: option.splits if_splits)
  with assms(2) show False by blast
qed

lemma list_all2_keeps_update: "ts ! k = None \<Longrightarrow> list_all2 keeps ts (ts[k := v])"
  by (cases "k < length ts") (auto simp: list_all2_conv_all_nth nth_list_update list_update_beyond)

lemma with_part_evolves: "message_evolves m (with_part m p now)"
  by (auto simp: with_part_def Let_def message_evolves_def list_all2_keeps_update list_all2_refl)

lemma after_part_evolves: "message_row_ok m \<Longrightarrow> message_evolves m (after_part m p now)"
  unfolding after_part_def
  by (auto simp: with_part_evolves)
    (auto simp: accepted_def is_complete_def with_part_def Let_def message_evolves_def list_all2_keeps_update
      list_all2_refl message_row_ok_def)

lemma save_message_rows:
  "rows (messages (save_message m db)) = map (\<lambda>r. if message_pk r = message_pk m then m else r) (rows (messages db))"
  by (simp add: save_message_def)

lemma save_message_moves:
  assumes "tables_ok db" "m0 \<in> set (rows (messages db))" "message_evolves m0 m"
  shows "service_moves db (save_message m db)"
  unfolding save_message_def
proof (rule messages_update_service)
  have keys: "keys_ok message_pk (messages db)" using assms(1) by (simp add: tables_ok_def)
  have pk: "message_pk m = message_pk m0" using assms(3) by (simp add: message_evolves_def)
  fix r assume "r \<in> set (rows (messages db))" "message_pk r = message_pk m"
  then have "r = m0" using message_table.key_unique [OF keys _ assms(2)] pk by simp
  with assms(3) show "message_evolves r m" by simp
next
  assume "tables_ok db"
  then show "keys_ok message_pk (update_where (\<lambda>r. message_pk r = message_pk m) (\<lambda>_. m) (messages db))"
    by (auto simp: tables_ok_def keys_ok_def comp_def if_distrib [of message_pk] cong: if_cong)
qed

lemma save_message_twice:
  "message_pk m = message_pk m' \<Longrightarrow> save_message m (save_message m' db) = save_message m db"
  by (simp add: save_message_def update_where_def)

lemma saved_message_found:
  assumes "keys_ok message_pk (messages db)" "m0 \<in> set (rows (messages db))" "message_pk m = message_pk m0"
  shows "find_message (message_pk m) (save_message m db) = Some m"
proof -
  have "keys_ok message_pk (messages (save_message m db))"
    using assms(1) by (auto simp: save_message_def keys_ok_def comp_def if_distrib [of message_pk] cong: if_cong)
  moreover have "m \<in> set (rows (messages (save_message m db)))"
    using assms(2,3) by (auto simp: save_message_rows intro!: image_eqI [where x = m0])
  ultimately show ?thesis unfolding find_message_def by (rule message_table.first_by_key)
qed

text \<open>The message a part belongs to is in the table once it was looked up or created.\<close>

lemma lock_or_create_in_table:
  assumes "lock_or_create_message sender recipient device p now db = (m, db1)"
  shows "m \<in> set (rows (messages db1))" "service_moves db db1" "sender_id m = sender"
    "client_message_id m = part_message_id p" "deliveries db1 = deliveries db" "users db1 = users db"
    "contacts db1 = contacts db"
  using assms messages_insert_service [of db "new_message sender recipient device p now"]
  by (auto simp: lock_or_create_message_def Let_def new_message_def split: option.splits dest: first_where_SomeD)

lemma lock_or_create_row_ok:
  assumes "lock_or_create_message sender recipient device p now db = (m, db1)" "messages_ok db"
    and "is_valid_part_numbering (part_number p) (part_part_count p)" "valid_message_id (part_message_id p)"
  shows "message_row_ok m" "messages_ok db1"
  using assms
  by (auto simp: lock_or_create_message_def messages_ok_def Let_def new_message_def message_row_ok_def
      is_valid_part_numbering_def valid_message_id_def FIRST_PART_NUMBER_def all_rows_def
      split: option.splits dest: first_where_SomeD)

lemma save_message_ok: "messages_ok db \<Longrightarrow> message_row_ok m \<Longrightarrow> messages_ok (save_message m db)"
  by (auto simp: messages_ok_def all_rows_def save_message_rows)

lemma accept_part_moves:
  assumes acc: "accept_message_part_in_transaction S seen device p now db = Inr (out, db')"
    and ok: "tables_ok db" "messages_ok db" "valid_message_id (part_message_id p)"
  shows "service_moves db db' \<and> messages_ok db'"
proof (cases "\<exists>sender recipient. may_upload seen device p db sender recipient")
  case False
  with accept_part_refused [OF acc] ok show ?thesis by simp
next
  case True
  then obtain sender recipient where up: "may_upload seen device p db sender recipient" by blast
  obtain m db1 where lock: "lock_or_create_message sender (user_id recipient) device p now db = (m, db1)" by fastforce
  note m = lock_or_create_in_table [OF lock]
  have numbering: "is_valid_part_numbering (part_number p) (part_part_count p)" using up by (simp add: may_upload_def)
  note row = lock_or_create_row_ok [OF lock ok(2) numbering ok(3)]
  have ok1: "tables_ok db1" using m(2) ok(1) by (rule service_moves_ok)
  show ?thesis
  proof (cases "find_part_conflict m (user_id recipient) device p")
    case (Some reason)
    then have "db' = db1"
      using acc up lock
      by (auto simp: accept_message_part_in_transaction_def may_upload_def Let_def res_bind_eq_Inr)
    with m(2) row show ?thesis by simp
  next
    case None
    from accept_part_main [OF up lock None row(1), of S] obtain summary n db3 where
      res: "accept_message_part_in_transaction S seen device p now db = Inr (\<lparr>part_reply = SendStatusReply (user_username recipient)
          (part_message_id p) (held_set (after_part m p now)), part_outcome_summary = summary,
          is_incomplete_status = (accepted_at (after_part m p now) = None)\<rparr>, db3)"
      and db3: "if is_complete (with_part m p now)
        then create_deliveries_for_accepted_message S (after_part m p now) now
               (save_message (after_part m p now) (save_message (with_part m p now) db1)) = (n, db3)
        else db3 = save_message (with_part m p now) db1" .
    have eq: "db' = db3" using acc res by simp
    let ?saved = "save_message (after_part m p now) db1"
    have saved: "service_moves db1 ?saved" "messages_ok ?saved"
      using save_message_moves [OF ok1 m(1) after_part_evolves [OF row(1)]]
        save_message_ok [OF row(2) after_part_row_ok [OF row(1)]] by auto
    have ok2: "tables_ok ?saved" using saved(1) ok1 by (rule service_moves_ok)
    show ?thesis
    proof (cases "is_complete (with_part m p now)")
      case True
      then have fan: "create_deliveries_for_accepted_message S (after_part m p now) now ?saved = (n, db3)"
        using db3 by (simp add: save_message_twice)
      obtain added active where "messages db3 = messages ?saved" using fan_out_rows [OF fan] by metis
      with fan_out_moves [OF fan ok2] saved m(2) show ?thesis
        by (auto simp: eq messages_ok_def intro: service_moves_trans)
    next
      case False
      then have "db3 = ?saved" using db3 by (simp add: after_part_def)
      with saved m(2) show ?thesis by (auto simp: eq intro: service_moves_trans)
    qed
  qed
qed

end
