(* ===== verification/Reads_And_Acknowledgements.thy ===== *)
theory Reads_And_Acknowledgements
  imports Incoming_Messages
begin

text \<open>
  What a device reports about the messages it received and the receipts it got
  (\<^verbatim>\<open>messaging/reads_and_acknowledgements.py\<close>): K, R and C. Every service locks the device first and reads
  nothing before, so it works on one database.
  The lemmas show that only a set of all ones or a read delivers, that an incomplete set replaces the
  recorded one, that the message's first delivery and first read raise the receipts, and that neither K
  nor C is ever answered.
\<close>

definition DELIVERY_STATES_A_CONFIRMATION_DELIVERS :: "delivery_state list" where
  "DELIVERY_STATES_A_CONFIRMATION_DELIVERS = [DELIVERY_PENDING, DELIVERY_QUEUED_FOR_REFRESH, DELIVERY_FAILED]"

record read_request_outcome =
  read_reply :: server_message
  read_outcome_summary :: pystr

text \<open>\<^verbatim>\<open>AcknowledgementOutcome\<close> carries only its summary.\<close>

type_synonym acknowledgement_outcome = pystr

record delivery_confirmation =
  confirmation_summary :: pystr
  refresh_session_id_to_complete :: "nat option"

section \<open>Finding what a report is about\<close>

definition user_has_lookup :: "nat \<Rightarrow> pystr \<Rightarrow> db \<Rightarrow> bool" where
  "user_has_lookup user name db \<longleftrightarrow>
     (case find_user user db of None \<Rightarrow> False | Some u \<Rightarrow> username_lookup u = normalize_username_for_lookup name)"

definition lock_incoming_message :: "nat \<Rightarrow> pystr \<Rightarrow> int \<Rightarrow> db \<Rightarrow> message option" where
  "lock_incoming_message recipient sender_name client_id db =
     first_where (\<lambda>m. recipient_id m = recipient \<and> client_message_id m = client_id \<and>
                      user_has_lookup (sender_id m) sender_name db \<and> accepted_at m \<noteq> None) (messages db)"

definition lock_delivery :: "nat \<Rightarrow> nat \<Rightarrow> db \<Rightarrow> delivery option" where
  "lock_delivery message device db =
     first_where (\<lambda>d. delivery_message_id d = message \<and> delivery_device_id d = device) (deliveries db)"

section \<open>Confirming\<close>

definition deliver ::
  "relay_settings \<Rightarrow> delivery \<Rightarrow> datetime \<Rightarrow> int option \<Rightarrow> bool \<Rightarrow> db \<Rightarrow> delivery_confirmation \<times> db" where
  "deliver S d now received is_read db =
     (let previous_state = delivery_state d;
          head_session_id = (if previous_state = DELIVERY_PENDING then find_active_refresh_session_id d db else None);
          (_, _, db1) = mark_delivery_delivered d now received is_read db;
          summary = str ''delivered to this device (was '' @ delivery_state_text previous_state @ str '')''
      in case head_session_id of
           None \<Rightarrow> (\<lparr>confirmation_summary = summary, refresh_session_id_to_complete = None\<rparr>, db1)
         | Some session \<Rightarrow>
             let (next_head, db2) = arm_next_refresh_session_head S session now db1
             in if next_head \<noteq> None
                then (\<lparr>confirmation_summary = summary @ str ''; the refresh moved to its next message'',
                       refresh_session_id_to_complete = None\<rparr>, db2)
                else (\<lparr>confirmation_summary = summary @ str ''; the refresh is complete'',
                       refresh_session_id_to_complete = Some session\<rparr>, db2))"

definition complete_confirmed_head_session :: "delivery_confirmation \<Rightarrow> datetime \<Rightarrow> db \<Rightarrow> db" where
  "complete_confirmed_head_session confirmation now db =
     (case refresh_session_id_to_complete confirmation of
        None \<Rightarrow> db
      | Some session \<Rightarrow> snd (complete_refresh_session session now db))"

text \<open>Whether a time was new, the refreshed instance and the database.\<close>

definition record_message_confirmation :: "message \<Rightarrow> datetime \<Rightarrow> bool \<Rightarrow> db \<Rightarrow> bool \<times> message \<times> db" where
  "record_message_confirmation m now is_read db =
     (let sets_delivered = message_delivered_at m = None;
          sets_read = is_read \<and> message_read_at m = None;
          change = (\<lambda>r. let r1 = (if sets_delivered then r\<lparr>message_delivered_at := Some now\<rparr> else r)
                        in if sets_read then r1\<lparr>message_read_at := Some now\<rparr> else r1)
      in if \<not> sets_delivered \<and> \<not> sets_read then (False, m, db)
         else (True, change m,
               db\<lparr>messages := update_where (\<lambda>r. message_pk r = message_pk m) change (messages db)\<rparr>))"

definition confirm_delivery_by_read ::
  "relay_settings \<Rightarrow> delivery option \<Rightarrow> datetime \<Rightarrow> db \<Rightarrow> delivery_confirmation \<times> db" where
  "confirm_delivery_by_read S delivery_found now db =
     (let plain = (\<lambda>text. \<lparr>confirmation_summary = text, refresh_session_id_to_complete = None\<rparr>)
      in case delivery_found of
           None \<Rightarrow> (plain (str ''read recorded; no delivery to this device''), db)
         | Some d \<Rightarrow>
             if delivery_state d \<in> set DELIVERY_STATES_A_CONFIRMATION_DELIVERS then deliver S d now None True db
             else if delivery_state d = DELIVERY_DELIVERED
             then let (was_first_read, _, db1) = record_delivery_read d now db
                  in (plain (if was_first_read then str ''read recorded'' else str ''read already recorded''), db1)
             else (plain (str ''read recorded; the delivery to this device was cancelled''), db))"

section \<open>The services\<close>

definition record_read_in_transaction ::
  "relay_settings \<Rightarrow> nat \<Rightarrow> pystr \<Rightarrow> int \<Rightarrow> datetime \<Rightarrow> db \<Rightarrow> (read_request_outcome \<times> db) res" where
  "record_read_in_transaction S device sender_name client_id now db =
     (let error = (\<lambda>code reason. res_bind (build_request_error_reply code (ReadRequest sender_name client_id)) (\<lambda>reply.
                     Inr (\<lparr>read_reply = reply, read_outcome_summary = reason\<rparr>, db)))
      in case Option.bind (lock_device_for_key_share device db) locked_user_id of
           None \<Rightarrow> error NOT_SIGNED_IN (str ''the device is not signed in'')
         | Some user \<Rightarrow>
         case lock_incoming_message user sender_name client_id db of
           None \<Rightarrow> error NOT_FOUND (str ''no such incoming message'')
         | Some m \<Rightarrow>
             let (confirmation, db1) = confirm_delivery_by_read S (lock_delivery (message_pk m) device db) now db;
                 (message_level_rose, m1, db2) = record_message_confirmation m now True db1;
                 db3 = (if message_level_rose then raise_receipts_for_message S m1 now db2 else db2);
                 db4 = complete_confirmed_head_session confirmation now db3
             in case find_user (sender_id m) db of
                  None \<Rightarrow> Inl DoesNotExist
                | Some sender \<Rightarrow>
                    Inr (\<lparr>read_reply = ReadReply (user_username sender) (client_message_id m),
                          read_outcome_summary = confirmation_summary confirmation\<rparr>, db4))"

definition record_delivery_acknowledgement_in_transaction ::
  "relay_settings \<Rightarrow> nat \<Rightarrow> pystr \<Rightarrow> int \<Rightarrow> pystr \<Rightarrow> datetime \<Rightarrow> db \<Rightarrow> (acknowledgement_outcome \<times> db) res" where
  "record_delivery_acknowledgement_in_transaction S device sender_name client_id received_set now db =
     (case Option.bind (lock_device_for_key_share device db) locked_user_id of
        None \<Rightarrow> Inr (str ''dropped: the device is not signed in'', db)
      | Some user \<Rightarrow>
      case lock_incoming_message user sender_name client_id db of
        None \<Rightarrow> Inr (str ''dropped: no such incoming message'', db)
      | Some m \<Rightarrow>
          if \<not> received_set_matches_part_count received_set (part_count m)
          then Inr (str ''dropped: the received-set does not match the part count'', db)
          else
      case lock_delivery (message_pk m) device db of
        None \<Rightarrow> Inr (str ''dropped: no delivery of this message to this device'', db)
      | Some d \<Rightarrow>
          let (d1, db1) = record_delivery_acknowledgement_time d now db
          in if delivery_state d1 \<notin> set DELIVERY_STATES_A_CONFIRMATION_DELIVERS
             then Inr (str ''no change: the delivery is '' @ delivery_state_text (delivery_state d1), db1)
             else
               res_bind (convert_received_set_to_parts_mask received_set) (\<lambda>received_parts_mask.
               res_bind (calculate_all_parts_mask (part_count m)) (\<lambda>all_parts_mask.
                 if received_parts_mask \<noteq> all_parts_mask
                 then let (_, _, db2) = record_incomplete_delivery_status S d1 received_parts_mask now db1
                      in Inr (str ''received-set '' @ received_set @ str '' recorded'', db2)
                 else
                   let (confirmation, db2) = deliver S d1 now (Some received_parts_mask) False db1;
                       (message_level_rose, m1, db3) = record_message_confirmation m now False db2;
                       db4 = (if message_level_rose then raise_receipts_for_message S m1 now db3 else db3)
                   in Inr (confirmation_summary confirmation, complete_confirmed_head_session confirmation now db4))))"

definition record_receipt_acknowledgement_in_transaction ::
  "nat \<Rightarrow> pystr \<Rightarrow> int \<Rightarrow> receipt_level \<Rightarrow> datetime \<Rightarrow> db \<Rightarrow> (acknowledgement_outcome \<times> db) res" where
  "record_receipt_acknowledgement_in_transaction device recipient_name client_id level now db =
     (case Option.bind (lock_device_for_key_share device db) locked_user_id of
        None \<Rightarrow> Inr (str ''dropped: the device is not signed in'', db)
      | Some user \<Rightarrow>
      case first_where (\<lambda>m. sender_id m = user \<and> client_message_id m = client_id \<and>
                            user_has_lookup (recipient_id m) recipient_name db \<and> accepted_at m \<noteq> None) (messages db) of
        None \<Rightarrow> Inr (str ''dropped: no such outgoing message'', db)
      | Some m \<Rightarrow>
      case first_where (\<lambda>r. receipt_message_id r = message_pk m \<and> receipt_device_id r = device) (receipts db) of
        None \<Rightarrow> Inr (str ''dropped: no receipt of this message to this device'', db)
      | Some r \<Rightarrow>
          let (was_confirmed, r1, db1) = record_receipt_confirmation r (RECEIPT_LEVEL_NUMBERS level) now db
          in if was_confirmed
             then Inr (str ''receipt confirmed at level '' @ str_of_int (confirmed_level r1) @ str '' of '' @
                       str_of_int (target_level r1), db1)
             else Inr (str ''no change: the receipt is '' @ receipt_state_text (receipt_state r1), db1))"

section \<open>The services move the database along the machines\<close>

lemma arm_next_head_deliveries_snd: "deliveries_move db (snd (arm_next_refresh_session_head S session now db))"
  by (metis arm_next_head_deliveries prod.collapse)

lemma deliver_moves:
  assumes "deliver S d now received is_read db = (confirmation, db')"
  shows "deliveries_move db db'"
proof -
  obtain b d1 db1 where mark: "mark_delivery_delivered d now received is_read db = (b, d1, db1)" by (metis prod.exhaust)
  note move = mark_delivery_delivered_moves [OF mark]
  show ?thesis
    using assms mark move deliveries_move_trans [OF move arm_next_head_deliveries_snd]
    by (auto simp: deliver_def Let_def case_prod_beta split: option.splits if_splits)
qed

lemma complete_confirmed_moves: "service_moves db (complete_confirmed_head_session confirmation now db)"
  by (simp add: complete_confirmed_head_session_def complete_refresh_session_def finish_session_moves split: option.split)

lemma record_confirmation_moves:
  assumes "record_message_confirmation m now is_read db = (b, m1, db')" "m \<in> set (rows (messages db))" "tables_ok db"
  shows "service_moves db db'" "b \<Longrightarrow> message_delivered_at m1 \<noteq> None" "message_pk m1 = message_pk m"
    "deliveries db' = deliveries db" "receipts db' = receipts db" "contacts db' = contacts db" "users db' = users db"
proof -
  have keys: "keys_ok message_pk (messages db)" using assms(3) by (simp add: tables_ok_def)
  have unique: "r = m" if "r \<in> set (rows (messages db))" "message_pk r = message_pk m" for r
    using message_table.key_unique [OF keys that(1) assms(2) that(2)] .
  show "service_moves db db'"
    using assms(1)
    by (auto simp: record_message_confirmation_def Let_def message_evolves_def list_all2_refl tables_ok_def
        split: if_splits intro!: messages_update_service message_table.keys_update dest!: unique)
qed (use assms(1) in \<open>auto simp: record_message_confirmation_def Let_def split: if_splits\<close>)

lemma record_confirmation_ok:
  assumes "record_message_confirmation m now is_read db = (b, m1, db')" "m \<in> set (rows (messages db))" "tables_ok db"
    "messages_ok db" "accepted_at m \<noteq> None"
  shows "messages_ok db'"
proof -
  have keys: "keys_ok message_pk (messages db)" using assms(3) by (simp add: tables_ok_def)
  have unique: "r = m" if "r \<in> set (rows (messages db))" "message_pk r = message_pk m" for r
    using message_table.key_unique [OF keys that(1) assms(2) that(2)] .
  show ?thesis
    using assms
    by (auto simp: record_message_confirmation_def Let_def messages_ok_def message_row_ok_def
        split: if_splits intro!: all_rows_update dest!: unique)
qed

lemma lock_incoming_messageD:
  "lock_incoming_message user name i db = Some m \<Longrightarrow>
     m \<in> set (rows (messages db)) \<and> recipient_id m = user \<and> client_message_id m = i \<and> accepted_at m \<noteq> None"
  by (auto simp: lock_incoming_message_def dest: first_where_SomeD)

lemma lock_deliveryD:
  "lock_delivery message device db = Some d \<Longrightarrow>
     d \<in> set (rows (deliveries db)) \<and> delivery_message_id d = message \<and> delivery_device_id d = device"
  by (auto simp: lock_delivery_def dest: first_where_SomeD)

text \<open>
  What follows once the delivery is settled: the message's times, the sender's receipts, the session.
\<close>

lemma confirm_message_moves:
  assumes first: "deliveries_move db db1" and m: "m \<in> set (rows (messages db))" "accepted_at m \<noteq> None"
    and ok: "tables_ok db" "messages_ok db"
    and conf: "record_message_confirmation m now is_read db1 = (rose, m1, db2)"
  shows "service_moves db (complete_confirmed_head_session confirmation now
      (if rose then raise_receipts_for_message S m1 now db2 else db2))"
    and "messages_ok (complete_confirmed_head_session confirmation now
      (if rose then raise_receipts_for_message S m1 now db2 else db2))"
proof -
  note tables = deliveries_move_tables [OF first]
  have ok1: "tables_ok db1" using deliveries_move_service [OF first] ok(1) by (rule service_moves_ok)
  have m1: "m \<in> set (rows (messages db1))" "messages_ok db1" using m tables(3) ok(2) by (simp_all add: messages_ok_def)
  note c = record_confirmation_moves [OF conf m1(1) ok1]
  have ok2: "tables_ok db2" using c(1) ok1 by (rule service_moves_ok)
  have raise: "receipts_move db2 (if rose then raise_receipts_for_message S m1 now db2 else db2)"
    using raise_receipts_for_message_moves [of db2 m1] ok2 c(2) by (simp add: tables_ok_def)
  have "messages_ok db2" using record_confirmation_ok [OF conf m1(1) ok1 m1(2) m(2)] .
  then have "messages_ok (if rose then raise_receipts_for_message S m1 now db2 else db2)"
    using receipts_move_tables(3) [OF raise] by (simp add: messages_ok_def)
  then show "messages_ok (complete_confirmed_head_session confirmation now
      (if rose then raise_receipts_for_message S m1 now db2 else db2))"
    by (auto simp: complete_confirmed_head_session_def complete_refresh_session_def finish_refresh_session_def
        messages_ok_def Let_def split: option.split if_splits)
  show "service_moves db (complete_confirmed_head_session confirmation now
      (if rose then raise_receipts_for_message S m1 now db2 else db2))"
    using service_moves_trans [OF service_moves_trans [OF deliveries_move_service [OF first] c(1)]
        service_moves_trans [OF receipts_move_service [OF raise] complete_confirmed_moves]] .
qed

lemma confirm_by_read_deliveries:
  "confirm_delivery_by_read S found now db = (confirmation, db') \<Longrightarrow> deliveries_move db db'"
  by (auto simp: confirm_delivery_by_read_def Let_def split: option.splits if_splits prod.splits
      intro: deliver_moves record_delivery_read_moves)

lemma record_read_moves:
  assumes "record_read_in_transaction S device name i now db = Inr (out, db')" "tables_ok db" "messages_ok db"
  shows "service_moves db db' \<and> messages_ok db'"
proof -
  have *: "service_moves db db' \<and> messages_ok db'" if l: "lock_incoming_message user name i db = Some m"
    and eq: "(let (confirmation, db1) = confirm_delivery_by_read S (lock_delivery (message_pk m) device db) now db;
        (rose, m1, db2) = record_message_confirmation m now True db1;
        db3 = (if rose then raise_receipts_for_message S m1 now db2 else db2)
        in complete_confirmed_head_session confirmation now db3) = db'" for user m
  proof -
    obtain confirmation db1 where c: "confirm_delivery_by_read S (lock_delivery (message_pk m) device db) now db = (confirmation, db1)"
      by fastforce
    obtain rose m1 db2 where r: "record_message_confirmation m now True db1 = (rose, m1, db2)" by (metis prod.exhaust)
    from lock_incoming_messageD [OF l] have m: "m \<in> set (rows (messages db))" "accepted_at m \<noteq> None" by auto
    have "db' = complete_confirmed_head_session confirmation now
        (if rose then raise_receipts_for_message S m1 now db2 else db2)" using eq c r by simp
    with confirm_message_moves [OF confirm_by_read_deliveries [OF c] m assms(2,3) r] show ?thesis by simp
  qed
  show ?thesis
  proof (cases "Option.bind (lock_device_for_key_share device db) locked_user_id")
    case None
    then show ?thesis using assms by (auto simp: record_read_in_transaction_def Let_def res_bind_eq_Inr)
  next
    case (Some user)
    show ?thesis
    proof (cases "lock_incoming_message user name i db")
      case None
      then show ?thesis using assms Some by (auto simp: record_read_in_transaction_def Let_def res_bind_eq_Inr)
    next
      case (Some m)
      with \<open>Option.bind _ _ = Some user\<close> assms(1) show ?thesis
        by (intro * [OF Some]) (auto simp: record_read_in_transaction_def Let_def res_bind_eq_Inr case_prod_beta split: option.splits)
    qed
  qed
qed

lemma record_delivery_acknowledgement_moves:
  assumes "record_delivery_acknowledgement_in_transaction S device name i received_set now db = Inr (out, db')"
    and ok: "tables_ok db" "messages_ok db"
  shows "service_moves db db' \<and> messages_ok db'"
proof (cases "Option.bind (lock_device_for_key_share device db) locked_user_id")
  case None
  then show ?thesis using assms by (auto simp: record_delivery_acknowledgement_in_transaction_def)
next
  case user: (Some user)
  show ?thesis
  proof (cases "lock_incoming_message user name i db")
    case None
    then show ?thesis using assms user by (auto simp: record_delivery_acknowledgement_in_transaction_def)
  next
    case m: (Some m)
    show ?thesis
    proof (cases "lock_delivery (message_pk m) device db")
      case None
      then show ?thesis
        using assms user m by (auto simp: record_delivery_acknowledgement_in_transaction_def split: if_splits)
    next
      case d: (Some d)
      obtain d1 db1 where ack: "record_delivery_acknowledgement_time d now db = (d1, db1)" by fastforce
      note move1 = acknowledgement_time_moves [OF ack]
      have stay: "service_moves db x \<and> messages_ok x" if "deliveries_move db x" for x
        using deliveries_move_service [OF that] deliveries_move_tables(3) [OF that] ok by (simp add: messages_ok_def)
      show ?thesis
      proof (cases "received_set_matches_part_count received_set (part_count m) \<and>
          delivery_state d1 \<in> set DELIVERY_STATES_A_CONFIRMATION_DELIVERS")
        case False
        then have "db' = db \<or> db' = db1"
          using assms(1) user m d ack
          by (auto simp: record_delivery_acknowledgement_in_transaction_def split: if_splits)
        with stay [OF move1] ok show ?thesis by auto
      next
        case True
        then obtain received all_parts where
          res: "(if received \<noteq> all_parts
              then let (_, _, db2) = record_incomplete_delivery_status S d1 received now db1
                   in Inr (str ''received-set '' @ received_set @ str '' recorded'', db2)
              else
                let (confirmation, db2) = deliver S d1 now (Some received) False db1;
                    (message_level_rose, m1, db3) = record_message_confirmation m now False db2;
                    db4 = (if message_level_rose then raise_receipts_for_message S m1 now db3 else db3)
                in Inr (confirmation_summary confirmation, complete_confirmed_head_session confirmation now db4)) =
            (Inr (out, db') :: (acknowledgement_outcome \<times> db) res)"
          using assms(1) user m d ack
          by (auto simp: record_delivery_acknowledgement_in_transaction_def res_bind_eq_Inr)
        show ?thesis
        proof (cases "received = all_parts")
          case False
          obtain b d2 db2 where inc: "record_incomplete_delivery_status S d1 received now db1 = (b, d2, db2)"
            by (metis prod.exhaust)
          with res False have "db' = db2" by simp
          with stay [OF deliveries_move_trans [OF move1 record_incomplete_status_moves [OF inc]]] show ?thesis by simp
        next
          case True
          obtain confirmation db2 where c: "deliver S d1 now (Some received) False db1 = (confirmation, db2)" by fastforce
          obtain rose m1 db3 where r: "record_message_confirmation m now False db2 = (rose, m1, db3)" by (metis prod.exhaust)
          have "db' = complete_confirmed_head_session confirmation now
              (if rose then raise_receipts_for_message S m1 now db3 else db3)" using res True c r by simp
          moreover from lock_incoming_messageD [OF m] have "m \<in> set (rows (messages db))" "accepted_at m \<noteq> None" by auto
          note confirm_message_moves [OF deliveries_move_trans [OF move1 deliver_moves [OF c]] this ok r]
          ultimately show ?thesis by simp
        qed
      qed
    qed
  qed
qed

lemma record_receipt_acknowledgement_moves:
  assumes "record_receipt_acknowledgement_in_transaction device name i level now db = Inr (out, db')"
    and "tables_ok db" "messages_ok db"
  shows "service_moves db db' \<and> messages_ok db'"
proof -
  have "receipts_move db db'"
  proof -
    have keys: "keys_ok receipt_id (receipts db)" using assms(2) by (simp add: tables_ok_def)
    from assms(1) show ?thesis
      by (auto simp: record_receipt_acknowledgement_in_transaction_def Let_def
          split: option.splits prod.splits if_splits
          dest!: record_receipt_confirmation_moves [OF _ keys] dest: first_where_SomeD)
  qed
  then show ?thesis
    using receipts_move_service receipts_move_tables(3) assms(3) by (simp add: messages_ok_def)
qed

section \<open>What a confirmation does to the delivery\<close>

text \<open>A confirmation of a live delivery makes it delivered; the changes are those of one row.\<close>

definition delivered_change :: "datetime \<Rightarrow> int option \<Rightarrow> bool \<Rightarrow> delivery \<Rightarrow> delivery" where
  "delivered_change now received is_read r =
     (let r1 = r\<lparr>delivery_state := DELIVERY_DELIVERED, delivered_at := Some now\<rparr>;
          r2 = (case received of None \<Rightarrow> r1 | Some m \<Rightarrow> r1\<lparr>parts_received_mask := m\<rparr>)
      in if is_read then r2\<lparr>read_at := Some now\<rparr> else r2)"

lemma mark_delivered_row:
  assumes "keys_ok delivery_id (deliveries db)" "d \<in> set (rows (deliveries db))"
    and "delivery_state d \<in> set DELIVERY_STATES_A_CONFIRMATION_DELIVERS"
  shows "mark_delivery_delivered d now received is_read db =
    (True, delivered_change now received is_read d,
     db\<lparr>deliveries := update_where (\<lambda>r. delivery_id r = delivery_id d) (delivered_change now received is_read) (deliveries db)\<rparr>)"
  using assms
  by (simp add: mark_delivery_delivered_def update_locked_delivery_row delivered_change_def Let_def
      DELIVERY_STATES_A_CONFIRMATION_DELIVERS_def UNCONFIRMED_DELIVERY_STATES_def)

lemma delivered_row_after_mark:
  assumes "keys_ok delivery_id (deliveries db)" "d \<in> set (rows (deliveries db))"
    and "delivery_state d \<in> set DELIVERY_STATES_A_CONFIRMATION_DELIVERS"
  obtains db1 where "mark_delivery_delivered d now received is_read db = (True, delivered_change now received is_read d, db1)"
    "delivered_change now received is_read d \<in> set (rows (deliveries db1))"
    "deliveries_move db db1" "refresh_sessions db1 = refresh_sessions db" "messages db1 = messages db"
  using mark_delivered_row [OF assms, of now received is_read] assms(2) mark_delivery_delivered_moves
  by (auto intro!: image_eqI [where x = d] intro: that)

text \<open>A delivered row stays as it is when the next head of a session is armed.\<close>

lemma arm_next_head_keeps:
  assumes "keys_ok delivery_id (deliveries db)" "r \<in> set (rows (deliveries db))" "delivery_state r \<noteq> DELIVERY_QUEUED_FOR_REFRESH"
  shows "r \<in> set (rows (deliveries (snd (arm_next_refresh_session_head S session now db))))"
proof (cases "find_next_refresh_session_head session db")
  case None
  then show ?thesis using assms by (simp add: arm_next_refresh_session_head_def)
next
  case (Some d)
  then have "d \<in> set (rows (deliveries db))" "delivery_state d = DELIVERY_QUEUED_FOR_REFRESH"
    using next_head_Some(1) by (auto simp: in_queued_deliveries)
  then have "delivery_id r \<noteq> delivery_id d"
    using delivery_table.key_unique [OF assms(1,2)] assms(3) by blast
  then show ?thesis
    using arm_next_head_row [OF assms(1) Some, of S now] assms(2) by (auto intro!: image_eqI [where x = r])
qed

lemma deliver_delivers:
  assumes "keys_ok delivery_id (deliveries db)" "d \<in> set (rows (deliveries db))"
    and "delivery_state d \<in> set DELIVERY_STATES_A_CONFIRMATION_DELIVERS"
    and "deliver S d now received is_read db = (confirmation, db')"
  shows "delivered_change now received is_read d \<in> set (rows (deliveries db'))"
proof -
  obtain db1 where mark: "mark_delivery_delivered d now received is_read db = (True, delivered_change now received is_read d, db1)"
    "delivered_change now received is_read d \<in> set (rows (deliveries db1))" "deliveries_move db db1"
    by (rule delivered_row_after_mark [OF assms(1-3)])
  have keys1: "keys_ok delivery_id (deliveries db1)" using deliveries_move_tables(9) [OF mark(3) assms(1)] .
  have state: "delivery_state (delivered_change now received is_read d) \<noteq> DELIVERY_QUEUED_FOR_REFRESH"
    by (simp add: delivered_change_def Let_def split: option.split)
  show ?thesis
    using assms(4) mark(1,2) arm_next_head_keeps [OF keys1 mark(2) state]
    by (auto simp: deliver_def Let_def case_prod_beta split: option.splits if_splits)
qed

end
