(* ===== verification/Outbound_Scheduling.thy ===== *)
theory Outbound_Scheduling
  imports Reads_And_Acknowledgements
begin

text \<open>
  What the sender loop sends next (\<^verbatim>\<open>messaging/outbound_scheduling.py\<close>). \<^verbatim>\<open>SKIP LOCKED\<close> leaves out the rows
  another transaction holds: \<open>skip_delivery\<close> and \<open>skip_receipt\<close> say which (a row is skipped with its contact).
  The candidates are read once, and the walk works on those instances.
  The lemmas show that every packet's timestamp is larger than every earlier one, that only due rows of
  contacts on the node are prepared, that a prepared part is the lowest part the device still lacks,
  and that no device has more deliveries in progress than the limit.
\<close>

definition CANDIDATE_LIMIT_PER_KIND :: nat where
  "CANDIDATE_LIMIT_PER_KIND = 20"

record packet_descriptor =
  descriptor_packet_id :: nat
  descriptor_contact_id :: nat
  contact_public_key :: pystr
  descriptor_text :: pystr
  descriptor_sender_timestamp :: int
  descriptor_purpose :: packet_purpose
  descriptor_reply_key :: pystr

record due_work_counts =
  deliveries_due :: nat
  receipts_due :: nat

section \<open>Due rows\<close>

definition contact_is_on_node :: "nat \<Rightarrow> db \<Rightarrow> bool" where
  "contact_is_on_node device db \<longleftrightarrow>
     (case find_contact device db of None \<Rightarrow> False | Some c \<Rightarrow> node_sync_state c = ON_NODE)"

definition is_in_progress :: "nat \<Rightarrow> delivery \<Rightarrow> bool" where
  "is_in_progress device d \<longleftrightarrow>
     delivery_device_id d = device \<and> delivery_state d = DELIVERY_PENDING \<and> round_started_at d \<noteq> None"

definition deliveries_in_progress :: "nat \<Rightarrow> db \<Rightarrow> nat" where
  "deliveries_in_progress device db = count_where (is_in_progress device) (deliveries db)"

definition delivery_is_eligible :: "nat \<Rightarrow> db \<Rightarrow> delivery \<Rightarrow> bool" where
  "delivery_is_eligible limit db d \<longleftrightarrow>
     delivery_state d = DELIVERY_PENDING \<and> contact_is_on_node (delivery_device_id d) db \<and>
     (round_started_at d \<noteq> None \<or> deliveries_in_progress (delivery_device_id d) db < limit)"

definition receipt_is_eligible :: "db \<Rightarrow> receipt \<Rightarrow> bool" where
  "receipt_is_eligible db r \<longleftrightarrow>
     receipt_state r = RECEIPT_PENDING \<and> contact_is_on_node (receipt_device_id r) db"

definition is_due :: "datetime \<Rightarrow> datetime option \<Rightarrow> bool" where
  "is_due now t \<longleftrightarrow> (case t of None \<Rightarrow> False | Some due \<Rightarrow> due \<le> now)"

definition due_delivery_candidates :: "(nat \<Rightarrow> bool) \<Rightarrow> datetime \<Rightarrow> nat \<Rightarrow> db \<Rightarrow> delivery list" where
  "due_delivery_candidates skip_delivery now limit db =
     take CANDIDATE_LIMIT_PER_KIND
       (sort_key (\<lambda>d. the (next_attempt_at d))
         (select_where (\<lambda>d. delivery_is_eligible limit db d \<and> is_due now (next_attempt_at d) \<and>
                            \<not> skip_delivery (delivery_id d)) (deliveries db)))"

definition due_receipt_candidates :: "(nat \<Rightarrow> bool) \<Rightarrow> datetime \<Rightarrow> db \<Rightarrow> receipt list" where
  "due_receipt_candidates skip_receipt now db =
     take CANDIDATE_LIMIT_PER_KIND
       (sort_key (\<lambda>r. the (receipt_next_attempt_at r))
         (select_where (\<lambda>r. receipt_is_eligible db r \<and> is_due now (receipt_next_attempt_at r) \<and>
                            \<not> skip_receipt (receipt_id r)) (receipts db)))"

datatype candidate = DeliveryCandidate delivery | ReceiptCandidate receipt

fun order_candidate :: "candidate \<Rightarrow> int \<times> nat \<times> nat" where
  "order_candidate (DeliveryCandidate d) = (the (next_attempt_at d), 0, delivery_id d)"
| "order_candidate (ReceiptCandidate r) = (the (receipt_next_attempt_at r), 1, receipt_id r)"

definition lock_due_candidates :: "(nat \<Rightarrow> bool) \<Rightarrow> (nat \<Rightarrow> bool) \<Rightarrow> datetime \<Rightarrow> nat \<Rightarrow> db \<Rightarrow> candidate list" where
  "lock_due_candidates skip_delivery skip_receipt now limit db =
     sort_key order_candidate
       (map DeliveryCandidate (due_delivery_candidates skip_delivery now limit db) @
        map ReceiptCandidate (due_receipt_candidates skip_receipt now db))"

section \<open>Packets\<close>

definition allocate_sender_timestamp :: "datetime \<Rightarrow> db \<Rightarrow> int" where
  "allocate_sender_timestamp now db =
     (let current_unix_seconds = now div 1000000
      in case map sender_timestamp (rows (packets db)) of
           [] \<Rightarrow> current_unix_seconds
         | t # ts \<Rightarrow> max current_unix_seconds (fold max ts t + 1))"

definition new_packet :: "contact \<Rightarrow> packet_purpose \<Rightarrow> pystr \<Rightarrow> datetime \<Rightarrow> int \<Rightarrow> packet" where
  "new_packet c kind text now generation =
     \<lparr>packet_id = 0, packet_contact_id = Some (contact_id c), packet_contact_label = contact_label_of c,
      packet_purpose = kind, packet_delivery_id = None, packet_part_number = None, packet_receipt_id = None,
      packet_receipt_level = None, packet_arm_generation = None, packet_attempt_number = None,
      packet_reply_key = [], packet_text = text, sender_timestamp = 0, packet_state = PACKET_PREPARED,
      packet_route = NO_ROUTE, expected_acknowledgement_code = [], suggested_timeout_milliseconds = None,
      prepared_at = Some now, queued_at = None, acknowledgement_deadline_at = None, acknowledged_at = None,
      round_trip_milliseconds = None, node_error_code = None, route_reset_state = RESET_NOT_APPLICABLE,
      route_reset_decided_at = None, connection_generation = generation\<rparr>"

text \<open>
  The timestamp allocated from the stored maximum is larger than every stored one, so the insert cannot
  break the unique constraint and the retry in \<^verbatim>\<open>except IntegrityError\<close> never runs.
\<close>

definition insert_prepared_packet :: "packet \<Rightarrow> datetime \<Rightarrow> db \<Rightarrow> (packet \<times> db) res" where
  "insert_prepared_packet p now db =
     res_bind (ensure_direct_message_text_is_sendable (packet_text p)) (\<lambda>_.
       let p1 = p\<lparr>sender_timestamp := allocate_sender_timestamp now db\<rparr>
       in Inr (p1\<lparr>packet_id := next_id (packets db)\<rparr>,
               db\<lparr>packets := insert_row (\<lambda>n. p1\<lparr>packet_id := n\<rparr>) (packets db)\<rparr>))"

definition build_packet_descriptor :: "packet \<Rightarrow> contact \<Rightarrow> packet_descriptor" where
  "build_packet_descriptor p c =
     \<lparr>descriptor_packet_id = packet_id p, descriptor_contact_id = contact_id c, contact_public_key = public_key c,
      descriptor_text = packet_text p, descriptor_sender_timestamp = sender_timestamp p,
      descriptor_purpose = packet_purpose p, descriptor_reply_key = packet_reply_key p\<rparr>"

section \<open>Deliveries\<close>

definition find_parts_left_in_round :: "delivery \<Rightarrow> int" where
  "find_parts_left_in_round d = round_pending_parts_mask d AND NOT (parts_received_mask d)"

function find_lowest_part_from :: "int \<Rightarrow> int \<Rightarrow> int option" where
  "find_lowest_part_from parts_mask part =
     (if parts_mask = 0 then None
      else if parts_mask AND 1 \<noteq> 0 then Some part
      else find_lowest_part_from (drop_bit 1 parts_mask) (part + 1))"
  by auto
termination
  by (relation "measure (\<lambda>(parts_mask, _). nat \<bar>parts_mask\<bar>)")
    (auto simp: drop_bit_eq_div and_one_eq mod2_eq_if split: if_splits)

declare find_lowest_part_from.simps [simp del]

definition find_lowest_part_number :: "int \<Rightarrow> int option" where
  "find_lowest_part_number parts_mask = find_lowest_part_from parts_mask 1"

definition fail_exhausted_delivery :: "delivery \<Rightarrow> datetime \<Rightarrow> db \<Rightarrow> db" where
  "fail_exhausted_delivery d now db =
     (let head_session_id = find_active_refresh_session_id d db;
          (_, _, db1) = fail_delivery_after_exhausted_attempts d now db
      in case head_session_id of None \<Rightarrow> db1 | Some session \<Rightarrow> stop_refresh_session session now db1)"

definition advance_delivery_to_new_round ::
  "relay_settings \<Rightarrow> delivery \<Rightarrow> message \<Rightarrow> datetime \<Rightarrow> nat \<Rightarrow> db \<Rightarrow> (bool \<times> delivery \<times> db) res" where
  "advance_delivery_to_new_round S d m now limit db =
     (if round_pending_parts_mask d \<noteq> 0
      then let (_, d1, db1) = complete_delivery_round S d (find_last_round_packet_suggested_timeout d db) now db
           in Inr (False, d1, db1)
      else if attempt_count d \<ge> maximum_attempts d then Inr (False, d, fail_exhausted_delivery d now db)
      else if round_started_at d = None \<and> deliveries_in_progress (delivery_device_id d) db \<ge> limit
        then Inr (False, d, db)
      else start_delivery_round d (part_count m) now db)"

text \<open>
  The rows a candidate is joined with: the query joins them, so they exist. A missing row or a part text
  that is not held raises.
\<close>

definition prepare_delivery_packet ::
  "relay_settings \<Rightarrow> delivery \<Rightarrow> datetime \<Rightarrow> int \<Rightarrow> nat \<Rightarrow> db \<Rightarrow> (packet_descriptor option \<times> db) res" where
  "prepare_delivery_packet S d now generation limit db =
     (case (find_message (delivery_message_id d) db, find_contact (delivery_device_id d) db) of
        (Some m, Some device) \<Rightarrow>
          res_bind (if find_parts_left_in_round d = 0
                    then advance_delivery_to_new_round S d m now limit db
                    else Inr (True, d, db)) (\<lambda>(may_send, d1, db1).
            if \<not> may_send then Inr (None, db1)
            else case find_lowest_part_number (find_parts_left_in_round d1) of
              None \<Rightarrow> Inr (None, db1)
            | Some part \<Rightarrow>
                if length (part_texts m) < nat part then Inl IndexError
                else case (find_user (sender_id m) db, part_texts m ! nat (part - 1)) of
                  (Some sender, Some held_text) \<Rightarrow>
                    res_bind (format_delivery_part (user_username sender) (client_message_id m) part (part_count m) held_text)
                      (\<lambda>text.
                    res_bind (insert_prepared_packet
                        ((new_packet device PURPOSE_DELIVERY text now generation)
                          \<lparr>packet_delivery_id := Some (delivery_id d1), packet_part_number := Some part,
                           packet_arm_generation := Some (arm_generation d1),
                           packet_attempt_number := Some (attempt_count d1)\<rparr>) now db1) (\<lambda>(p, db2).
                      Inr (Some (build_packet_descriptor p device), db2)))
                | _ \<Rightarrow> Inl DoesNotExist)
      | _ \<Rightarrow> Inl DoesNotExist)"

section \<open>Receipts and replies\<close>

definition prepare_receipt_packet ::
  "receipt \<Rightarrow> datetime \<Rightarrow> int \<Rightarrow> db \<Rightarrow> (packet_descriptor option \<times> db) res" where
  "prepare_receipt_packet r now generation db =
     (let (may_send, r1, db1) =
            (if \<not> round_pending r then
               if receipt_attempt_count r \<ge> receipt_maximum_attempts r
               then let (_, r', db') = fail_receipt_after_exhausted_attempts r now db in (False, r', db')
               else start_receipt_attempt r now db
             else (True, r, db))
      in if \<not> may_send then Inr (None, db1)
         else
           case (find_message (receipt_message_id r) db, find_contact (receipt_device_id r) db) of
             (Some m, Some device) \<Rightarrow>
               (case find_user (recipient_id m) db of
                  None \<Rightarrow> Inl DoesNotExist
                | Some recipient \<Rightarrow>
                    res_bind (RECEIPT_LEVELS_BY_NUMBER (target_level r1)) (\<lambda>level.
                    res_bind (format_receipt_push (user_username recipient) (client_message_id m) level) (\<lambda>text.
                    res_bind (insert_prepared_packet
                        ((new_packet device PURPOSE_RECEIPT text now generation)
                          \<lparr>packet_receipt_id := Some (receipt_id r1), packet_receipt_level := Some (target_level r1),
                           packet_arm_generation := Some (receipt_arm_generation r1),
                           packet_attempt_number := Some (receipt_attempt_count r1)\<rparr>) now db1) (\<lambda>(p, db2).
                      Inr (Some (build_packet_descriptor p device), db2)))))
           | _ \<Rightarrow> Inl DoesNotExist)"

definition prepare_reply_packet ::
  "nat \<Rightarrow> pystr \<Rightarrow> pystr \<Rightarrow> datetime \<Rightarrow> int \<Rightarrow> db \<Rightarrow> (packet_descriptor option \<times> db) res" where
  "prepare_reply_packet contact_key key text now generation db =
     res_bind (ensure_direct_message_text_is_sendable text) (\<lambda>_.
       case find_contact contact_key db of
         None \<Rightarrow> Inr (None, db)
       | Some c \<Rightarrow>
           if node_sync_state c \<noteq> ON_NODE then Inr (None, db)
           else res_bind (insert_prepared_packet
                  ((new_packet c PURPOSE_REPLY text now generation)\<lparr>packet_reply_key := key\<rparr>) now db) (\<lambda>(p, db1).
                  Inr (Some (build_packet_descriptor p c), db1)))"

section \<open>The next packet\<close>

fun prepare_candidate ::
  "relay_settings \<Rightarrow> candidate \<Rightarrow> datetime \<Rightarrow> int \<Rightarrow> nat \<Rightarrow> db \<Rightarrow> (packet_descriptor option \<times> db) res" where
  "prepare_candidate S (DeliveryCandidate d) now generation limit db = prepare_delivery_packet S d now generation limit db"
| "prepare_candidate S (ReceiptCandidate r) now generation limit db = prepare_receipt_packet r now generation db"

fun prepare_first :: "relay_settings \<Rightarrow> candidate list \<Rightarrow> datetime \<Rightarrow> int \<Rightarrow> nat \<Rightarrow> db \<Rightarrow> (packet_descriptor option \<times> db) res" where
  "prepare_first S [] now generation limit db = Inr (None, db)"
| "prepare_first S (c # cs) now generation limit db =
     res_bind (prepare_candidate S c now generation limit db) (\<lambda>(descriptor, db1).
       if descriptor \<noteq> None then Inr (descriptor, db1) else prepare_first S cs now generation limit db1)"

definition prepare_next_packet_in_transaction ::
  "relay_settings \<Rightarrow> (nat \<Rightarrow> bool) \<Rightarrow> (nat \<Rightarrow> bool) \<Rightarrow> datetime \<Rightarrow> int \<Rightarrow> db \<Rightarrow> (packet_descriptor option \<times> db) res" where
  "prepare_next_packet_in_transaction S skip_delivery skip_receipt now generation db =
     (let limit = maximum_active_deliveries_per_device (pacing S)
      in prepare_first S (lock_due_candidates skip_delivery skip_receipt now limit db) now generation limit db)"

section \<open>What waits\<close>

definition earliest :: "datetime option list \<Rightarrow> datetime option" where
  "earliest ts = (case List.map_filter id ts of [] \<Rightarrow> None | t # us \<Rightarrow> Some (fold min us t))"

definition calculate_next_eligible_time :: "relay_settings \<Rightarrow> db \<Rightarrow> datetime option" where
  "calculate_next_eligible_time S db =
     (let limit = maximum_active_deliveries_per_device (pacing S)
      in earliest
        [earliest (map next_attempt_at (select_where (delivery_is_eligible limit db) (deliveries db))),
         earliest (map receipt_next_attempt_at (select_where (receipt_is_eligible db) (receipts db)))])"

definition count_due_work :: "datetime \<Rightarrow> db \<Rightarrow> due_work_counts" where
  "count_due_work now db =
     \<lparr>deliveries_due = count_where (\<lambda>d. delivery_state d = DELIVERY_PENDING \<and> is_due now (next_attempt_at d)) (deliveries db),
      receipts_due = count_where (\<lambda>r. receipt_state r = RECEIPT_PENDING \<and> is_due now (receipt_next_attempt_at r)) (receipts db)\<rparr>"

section \<open>Sender timestamps\<close>

lemma fold_max_ge: "x \<in> set (t # ts) \<Longrightarrow> x \<le> fold max ts (t :: int)"
proof (induction ts arbitrary: t x)
  case (Cons a ts)
  have "max a t \<le> fold max ts (max a t)" using Cons.IH [of "max a t" "max a t"] by simp
  moreover have "x \<le> fold max ts (max a t)" if "x \<in> set ts" using Cons.IH that by simp
  ultimately show ?case using Cons.prems by auto
qed simp

lemma allocated_timestamp_fresh: "p \<in> set (rows (packets db)) \<Longrightarrow> sender_timestamp p < allocate_sender_timestamp now db"
proof -
  assume p: "p \<in> set (rows (packets db))"
  then obtain t ts where ts: "map sender_timestamp (rows (packets db)) = t # ts" by (cases "rows (packets db)") auto
  then have "sender_timestamp p \<in> set (t # ts)" using p by (metis image_eqI set_map)
  from fold_max_ge [OF this] ts show ?thesis by (simp add: allocate_sender_timestamp_def Let_def)
qed

lemma allocated_timestamp_clock: "now div 1000000 \<le> allocate_sender_timestamp now db"
  by (simp add: allocate_sender_timestamp_def Let_def split: list.split)

section \<open>The lowest part\<close>

lemma find_lowest_part_from_Some:
  "find_lowest_part_from m part = Some n \<longleftrightarrow>
    part \<le> n \<and> bit m (nat (n - part)) \<and> (\<forall>k < nat (n - part). \<not> bit m k)"
proof (induction m part arbitrary: n rule: find_lowest_part_from.induct)
  case (1 m part)
  consider "m = 0" | "m \<noteq> 0" "bit m 0" | "m \<noteq> 0" "\<not> bit m 0" by blast
  then show ?case
  proof cases
    case 1
    then show ?thesis by (simp add: find_lowest_part_from.simps)
  next
    case 2
    then have "find_lowest_part_from m part = Some part"
      by (simp add: find_lowest_part_from.simps bit_0 and_one_eq odd_iff_mod_2_eq_one)
    moreover have "n = part" if "part \<le> n" "\<forall>k < nat (n - part). \<not> bit m k"
    proof (rule ccontr)
      assume "n \<noteq> part"
      then have "0 < nat (n - part)" using that(1) by simp
      with that(2) 2(2) show False by blast
    qed
    ultimately show ?thesis using 2 by auto
  next
    case 3
    then have step: "find_lowest_part_from m part = find_lowest_part_from (drop_bit 1 m) (part + 1)"
      by (simp add: find_lowest_part_from.simps [of m] bit_0 and_one_eq even_iff_mod_2_eq_zero)
    have IH: "find_lowest_part_from (drop_bit 1 m) (part + 1) = Some n \<longleftrightarrow>
        part + 1 \<le> n \<and> bit (drop_bit 1 m) (nat (n - (part + 1))) \<and> (\<forall>k < nat (n - (part + 1)). \<not> bit (drop_bit 1 m) k)"
      using 3 by (intro "1.IH") (simp_all add: bit_0 and_one_eq even_iff_mod_2_eq_zero)
    show ?thesis
    proof (cases "part + 1 \<le> n")
      case True
      then have s: "nat (n - part) = Suc (nat (n - (part + 1)))" by linarith
      then have "(\<forall>k < nat (n - part). \<not> bit m k) \<longleftrightarrow> (\<forall>k < nat (n - (part + 1)). \<not> bit (drop_bit 1 m) k)"
        using 3(2) by (simp add: All_less_Suc2 bit_drop_bit_eq)
      with True s show ?thesis unfolding step IH by (simp add: bit_drop_bit_eq)
    next
      case False
      then show ?thesis unfolding step IH using 3(2) by (cases "n = part") auto
    qed
  qed
qed

lemma find_lowest_part_from_None: "0 \<le> m \<Longrightarrow> find_lowest_part_from m part = None \<longleftrightarrow> m = 0"
proof (induction m part rule: find_lowest_part_from.induct)
  case (1 m part)
  show ?case
  proof (cases "m = 0 \<or> m AND 1 \<noteq> 0")
    case True
    then show ?thesis by (auto simp: find_lowest_part_from.simps [of m])
  next
    case False
    then have "m \<noteq> 0" "even m" by (auto simp: and_one_eq)
    then have "drop_bit 1 m \<noteq> 0" "0 \<le> drop_bit 1 m" using "1.prems" by (auto simp: drop_bit_eq_div elim!: evenE)
    with 1 False show ?thesis by (simp add: find_lowest_part_from.simps [of m])
  qed
qed

section \<open>Preparing a packet\<close>

text \<open>
  The packet \<open>q\<close> was added to the log, prepared, with a text the firmware sends and a timestamp above all
  earlier ones. Nothing else changed in the log.
\<close>

definition packet_prepared :: "db \<Rightarrow> packet \<Rightarrow> db \<Rightarrow> bool" where
  "packet_prepared db q db' \<longleftrightarrow>
     rows (packets db') = rows (packets db) @ [q] \<and> packet_state q = PACKET_PREPARED \<and> sendable (packet_text q) \<and>
     (\<forall>p \<in> set (rows (packets db)). sender_timestamp p < sender_timestamp q)"

lemma insert_prepared_packetD:
  assumes "insert_prepared_packet p now db = Inr (q, db')"
  shows "q = p\<lparr>sender_timestamp := allocate_sender_timestamp now db, packet_id := next_id (packets db)\<rparr>"
    and "db' = db\<lparr>packets := insert_row (\<lambda>n. p\<lparr>sender_timestamp := allocate_sender_timestamp now db, packet_id := n\<rparr>) (packets db)\<rparr>"
    and "sendable (packet_text p)"
  using assms by (auto simp: insert_prepared_packet_def Let_def res_bind_eq_Inr ensure_sendable_iff)

lemma insert_prepared_packet_moves: "insert_prepared_packet p now db = Inr (q, db') \<Longrightarrow> db_moves db db'"
  using packets_insert_moves [of db "p\<lparr>sender_timestamp := allocate_sender_timestamp now db\<rparr>"]
  by (auto dest!: insert_prepared_packetD(2))

lemma insert_prepared_packet_prepared:
  "insert_prepared_packet p now db = Inr (q, db') \<Longrightarrow> packet_state p = PACKET_PREPARED \<Longrightarrow> packet_prepared db q db'"
  using insert_prepared_packetD [of p now db q db'] by (auto simp: packet_prepared_def allocated_timestamp_fresh)

lemma new_packet_simps [simp]:
  "packet_state (new_packet c kind text now generation) = PACKET_PREPARED"
  "packet_text (new_packet c kind text now generation) = text"
  "packet_purpose (new_packet c kind text now generation) = kind"
  "packet_contact_id (new_packet c kind text now generation) = Some (contact_id c)"
  by (simp_all add: new_packet_def)

section \<open>Counting rows\<close>

lemma count_where_update_le:
  "(\<And>r. r \<in> set (rows t) \<Longrightarrow> Q r \<Longrightarrow> P (f r) \<Longrightarrow> P r) \<Longrightarrow> count_where P (update_where Q f t) \<le> count_where P t"
proof -
  have "length (filter P (map (\<lambda>r. if Q r then f r else r) xs)) \<le> length (filter P xs)"
    if "\<And>r. r \<in> set xs \<Longrightarrow> Q r \<Longrightarrow> P (f r) \<Longrightarrow> P r" for xs
    using that by (induction xs) (auto intro: le_SucI)
  then show "(\<And>r. r \<in> set (rows t) \<Longrightarrow> Q r \<Longrightarrow> P (f r) \<Longrightarrow> P r) \<Longrightarrow> count_where P (update_where Q f t) \<le> count_where P t"
    by (simp add: count_where_def)
qed

lemma count_where_update_row:
  assumes "keys_ok delivery_id t"
  shows "count_where P (update_where (\<lambda>r. delivery_id r = i) f t) \<le> Suc (count_where P t)"
proof -
  have "length (filter P (map (\<lambda>r. if delivery_id r = i then f r else r) xs)) \<le> Suc (length (filter P xs))"
    if "distinct (map delivery_id xs)" for xs
    using that
  proof (induction xs)
    case (Cons x xs)
    show ?case
    proof (cases "delivery_id x = i")
      case True
      then have "map (\<lambda>r. if delivery_id r = i then f r else r) xs = xs"
        using Cons.prems by (intro map_idI) (auto simp: rev_image_eqI)
      with True show ?thesis by simp
    next
      case False
      with Cons show ?thesis by simp
    qed
  qed simp
  moreover have "distinct (map delivery_id (rows t))"
    using assms by (simp add: keys_ok_def strict_sorted_iff)
  ultimately show ?thesis by (simp add: count_where_def)
qed

section \<open>Advancing a delivery\<close>

text \<open>What a step on the candidate \<open>d\<close> leaves alone: the other tables, and the other pending deliveries.\<close>

definition only_candidate_changes :: "delivery \<Rightarrow> db \<Rightarrow> db \<Rightarrow> bool" where
  "only_candidate_changes d db db' \<longleftrightarrow>
     users db' = users db \<and> contacts db' = contacts db \<and> messages db' = messages db \<and> receipts db' = receipts db \<and>
     (\<forall>r \<in> set (rows (deliveries db)). delivery_id r \<noteq> delivery_id d \<longrightarrow> delivery_state r = DELIVERY_PENDING \<longrightarrow>
        r \<in> set (rows (deliveries db')))"

lemma update_delivery_only_candidate:
  "only_candidate_changes d db (db\<lparr>deliveries := update_where (\<lambda>r. delivery_id r = delivery_id d) f (deliveries db)\<rparr>)"
  by (force simp: only_candidate_changes_def)

lemma fail_exhausted_delivery_moves: "db_moves db (fail_exhausted_delivery d now db)"
proof -
  obtain b d1 db1 where f: "fail_delivery_after_exhausted_attempts d now db = (b, d1, db1)" by (metis prod.exhaust)
  note m = deliveries_move_db [OF fail_exhausted_moves [OF f]]
  show ?thesis
    using m db_moves_trans [OF m service_moves_db [OF stop_session_moves]] by (simp add: fail_exhausted_delivery_def Let_def f split: option.split)
qed

lemma stop_session_tables:
  "users (stop_refresh_session s now db) = users db" "contacts (stop_refresh_session s now db) = contacts db"
  "messages (stop_refresh_session s now db) = messages db" "receipts (stop_refresh_session s now db) = receipts db"
  "packets (stop_refresh_session s now db) = packets db" "inbox (stop_refresh_session s now db) = inbox db"
  using deliveries_move_tables [OF fail_queued_loop_deliveries [of db "queued_deliveries_of s db" now]]
  by (simp_all add: stop_refresh_session_def finish_refresh_session_def Let_def)

lemma fail_exhausted_delivery_rows:
  assumes "keys_ok delivery_id (deliveries db)" "d \<in> set (rows (deliveries db))" "delivery_state d = DELIVERY_PENDING"
  shows "only_candidate_changes d db (fail_exhausted_delivery d now db)"
    and "packets (fail_exhausted_delivery d now db) = packets db"
    and "deliveries_in_progress device (fail_exhausted_delivery d now db) \<le> deliveries_in_progress device db"
proof -
  define t1 where "t1 = update_where (\<lambda>r. delivery_id r = delivery_id d)
    (\<lambda>r. r\<lparr>delivery_state := DELIVERY_FAILED, failed_at := Some now, failure_reason := ATTEMPTS_EXHAUSTED\<rparr>) (deliveries db)"
  have f: "fail_delivery_after_exhausted_attempts d now db = (True,
      d\<lparr>delivery_state := DELIVERY_FAILED, failed_at := Some now, failure_reason := ATTEMPTS_EXHAUSTED\<rparr>, db\<lparr>deliveries := t1\<rparr>)"
    using update_locked_delivery_row [OF assms(1,2), of "[DELIVERY_PENDING]"] assms(3)
    by (simp add: fail_delivery_after_exhausted_attempts_def t1_def)
  have k1: "keys_ok delivery_id t1" unfolding t1_def by (rule delivery_table.keys_update [OF assms(1)]) simp
  have t: "deliveries (fail_exhausted_delivery d now db) = t1 \<or> (\<exists>s. deliveries (fail_exhausted_delivery d now db) =
      update_where (\<lambda>r. refresh_session_id r = Some s \<and> delivery_state r = DELIVERY_QUEUED_FOR_REFRESH) (fail_stopped_change now) t1)"
    using stop_session_deliveries [of "db\<lparr>deliveries := t1\<rparr>"] k1
    by (auto simp: fail_exhausted_delivery_def Let_def f split: option.split)
  have in1: "r \<in> set (rows t1)" if "r \<in> set (rows (deliveries db))" "delivery_id r \<noteq> delivery_id d" for r
    using that by (force simp: t1_def)
  have "r \<in> set (rows (deliveries (fail_exhausted_delivery d now db)))"
    if "r \<in> set (rows (deliveries db))" "delivery_id r \<noteq> delivery_id d" "delivery_state r = DELIVERY_PENDING" for r
    using t in1 [OF that(1,2)] that(3) by (force simp: image_iff)
  then show "only_candidate_changes d db (fail_exhausted_delivery d now db)"
    by (auto simp: only_candidate_changes_def fail_exhausted_delivery_def Let_def f stop_session_tables split: option.split)
  show "packets (fail_exhausted_delivery d now db) = packets db"
    by (simp add: fail_exhausted_delivery_def Let_def f stop_session_tables split: option.split)
  have c1: "count_where (is_in_progress device) t1 \<le> count_where (is_in_progress device) (deliveries db)"
    unfolding t1_def by (rule count_where_update_le) (simp add: is_in_progress_def)
  have c2: "count_where (is_in_progress device) (update_where Q (fail_stopped_change now) t1) \<le> count_where (is_in_progress device) t1" for Q
    by (rule count_where_update_le) (simp add: is_in_progress_def fail_stopped_change_def)
  show "deliveries_in_progress device (fail_exhausted_delivery d now db) \<le> deliveries_in_progress device db"
    using t c1 order_trans [OF c2 c1] by (auto simp: deliveries_in_progress_def)
qed

text \<open>A round starts only below the attempt limit, and for a delivery not yet in progress only below the device limit.\<close>

definition round_started :: "delivery \<Rightarrow> delivery \<Rightarrow> datetime \<Rightarrow> bool" where
  "round_started d d' now \<longleftrightarrow>
     attempt_count d < maximum_attempts d \<and> attempt_count d' = Suc (attempt_count d) \<and> round_started_at d' = Some now"

definition start_change :: "datetime \<Rightarrow> int \<Rightarrow> delivery \<Rightarrow> delivery" where
  "start_change now parts r =
     r\<lparr>attempt_count := attempt_count r + 1, round_started_at := Some now, round_pending_parts_mask := parts\<rparr>"

definition complete_change :: "datetime \<Rightarrow> delivery \<Rightarrow> delivery" where
  "complete_change due r = r\<lparr>round_pending_parts_mask := 0, next_attempt_at := Some due\<rparr>"

definition update_delivery :: "nat \<Rightarrow> (delivery \<Rightarrow> delivery) \<Rightarrow> db \<Rightarrow> db" where
  "update_delivery i f db = db\<lparr>deliveries := update_where (\<lambda>r. delivery_id r = i) f (deliveries db)\<rparr>"

lemma update_delivery_moves: "(\<And>r. delivery_evolves r (f r)) \<Longrightarrow> db_moves db (update_delivery i f db)"
  unfolding update_delivery_def
  by (intro deliveries_move_db deliveries_moveI [OF refl] table_evolves_update delivery_table.keys_update)
    (auto simp: delivery_evolves_def)

lemma round_changes_evolve: "delivery_evolves r (start_change now parts r)" "delivery_evolves r (complete_change due r)"
  by (simp_all add: start_change_def complete_change_def delivery_evolves_def)

lemma start_round_row:
  assumes "keys_ok delivery_id (deliveries db)" "d \<in> set (rows (deliveries db))" "delivery_state d = DELIVERY_PENDING"
    "start_delivery_round d parts now db = Inr (b, d1, db1)"
  obtains all_parts where "calculate_all_parts_mask parts = Inr all_parts" "b"
    "d1 = start_change now (all_parts AND NOT (parts_received_mask d)) d"
    "db1 = update_delivery (delivery_id d) (start_change now (all_parts AND NOT (parts_received_mask d))) db"
  using assms update_locked_delivery_row [OF assms(1,2), of "[DELIVERY_PENDING]"]
  by (auto simp: start_delivery_round_def Let_def res_bind_eq_Inr start_change_def [abs_def] update_delivery_def)

lemma complete_round_row:
  assumes "keys_ok delivery_id (deliveries db)" "d \<in> set (rows (deliveries db))" "delivery_state d = DELIVERY_PENDING"
  obtains due where "complete_delivery_round S d timeout now db =
    (True, complete_change due d, update_delivery (delivery_id d) (complete_change due) db)"
  using update_locked_delivery_row [OF assms(1,2), of "[DELIVERY_PENDING]"] assms(3)
  by (simp add: complete_delivery_round_def Let_def complete_change_def [abs_def] update_delivery_def)

lemma in_progress_single_update:
  assumes "keys_ok delivery_id (deliveries db)" "d \<in> set (rows (deliveries db))" "delivery_state d = DELIVERY_PENDING"
    "delivery_device_id (f d) = delivery_device_id d"
    "round_started_at d = None \<Longrightarrow> deliveries_in_progress (delivery_device_id d) db < limit"
    "deliveries_in_progress device db \<le> limit"
  shows "deliveries_in_progress device (update_delivery (delivery_id d) f db) \<le> limit"
proof -
  have unique: "r = d" if "r \<in> set (rows (deliveries db))" "delivery_id r = delivery_id d" for r
    using delivery_table.key_unique [OF assms(1) that(1) assms(2) that(2)] .
  show ?thesis
  proof (cases "round_started_at d = None \<and> delivery_device_id d = device")
    case True
    then show ?thesis
      using assms(5) count_where_update_row [OF assms(1), of "is_in_progress device" "delivery_id d" f]
      by (simp add: deliveries_in_progress_def update_delivery_def)
  next
    case False
    have "count_where (is_in_progress device) (update_where (\<lambda>r. delivery_id r = delivery_id d) f (deliveries db))
        \<le> count_where (is_in_progress device) (deliveries db)"
      by (rule count_where_update_le) (use False assms(3,4) in \<open>auto simp: is_in_progress_def dest!: unique\<close>)
    with assms(6) show ?thesis by (simp add: deliveries_in_progress_def update_delivery_def)
  qed
qed

lemma advance_delivery_rows:
  assumes "advance_delivery_to_new_round S d m now limit db = Inr (b, d1, db1)"
    and keys: "keys_ok delivery_id (deliveries db)" "d \<in> set (rows (deliveries db))" "delivery_state d = DELIVERY_PENDING"
  shows "db_moves db db1" "only_candidate_changes d db db1" "packets db1 = packets db"
    and "deliveries_in_progress device db \<le> limit \<Longrightarrow> deliveries_in_progress device db1 \<le> limit"
    and "b \<Longrightarrow> d1 \<in> set (rows (deliveries db1)) \<and> delivery_state d1 = DELIVERY_PENDING \<and> round_started d d1 now \<and>
      delivery_message_id d1 = delivery_message_id d \<and> delivery_device_id d1 = delivery_device_id d \<and>
      delivery_id d1 = delivery_id d \<and> arm_generation d1 = arm_generation d"
proof -
  consider (complete) due where "\<not> b" "db1 = update_delivery (delivery_id d) (complete_change due) db"
    | (exhausted) "\<not> b" "db1 = fail_exhausted_delivery d now db"
    | (full) "\<not> b" "db1 = db"
    | (start) parts where "b" "attempt_count d < maximum_attempts d"
      "d1 = start_change now parts d" "db1 = update_delivery (delivery_id d) (start_change now parts) db"
      "round_started_at d = None \<Longrightarrow> deliveries_in_progress (delivery_device_id d) db < limit"
  proof (cases "round_pending_parts_mask d \<noteq> 0")
    case True
    obtain due where "complete_delivery_round S d (find_last_round_packet_suggested_timeout d db) now db =
        (True, complete_change due d, update_delivery (delivery_id d) (complete_change due) db)"
      by (rule complete_round_row [OF keys])
    with assms(1) True show thesis by (intro that(1)) (auto simp: advance_delivery_to_new_round_def)
  next
    case pending: False
    show thesis
    proof (cases "maximum_attempts d \<le> attempt_count d \<or> round_started_at d = None \<and> limit \<le> deliveries_in_progress (delivery_device_id d) db")
      case True
      with assms(1) pending that(2,3) show thesis
        by (auto simp: advance_delivery_to_new_round_def split: if_splits)
    next
      case False
      with assms(1) pending have s: "start_delivery_round d (part_count m) now db = Inr (b, d1, db1)"
        by (auto simp: advance_delivery_to_new_round_def)
      show thesis
        by (rule start_round_row [OF keys s], rule that(4)) (use False in auto)
    qed
  qed
  note cases = this
  show "db_moves db db1"
    using cases by cases (simp_all add: update_delivery_moves round_changes_evolve fail_exhausted_delivery_moves)
  show "only_candidate_changes d db db1"
    using cases
    by cases (simp_all add: update_delivery_def update_delivery_only_candidate fail_exhausted_delivery_rows(1) [OF keys],
        simp add: only_candidate_changes_def)
  show "packets db1 = packets db"
    using cases by cases (simp_all add: update_delivery_def fail_exhausted_delivery_rows(2) [OF keys])
  show "deliveries_in_progress device db1 \<le> limit" if "deliveries_in_progress device db \<le> limit"
    using cases
  proof cases
    case (complete due)
    have "count_where (is_in_progress device) (deliveries db1) \<le> count_where (is_in_progress device) (deliveries db)"
      unfolding complete(2) update_delivery_def
      by (simp, rule count_where_update_le) (simp add: is_in_progress_def complete_change_def)
    with that show ?thesis by (simp add: deliveries_in_progress_def)
  next
    case exhausted
    with that show ?thesis using fail_exhausted_delivery_rows(3) [OF keys, of device now] by simp
  next
    case (start parts)
    show ?thesis unfolding start(4) by (rule in_progress_single_update [OF keys _ start(5) that]) (simp_all add: start_change_def)
  qed (simp add: that)
  assume b
  with cases obtain parts where s: "attempt_count d < maximum_attempts d" "d1 = start_change now parts d"
      "db1 = update_delivery (delivery_id d) (start_change now parts) db" by cases auto
  then show "d1 \<in> set (rows (deliveries db1)) \<and> delivery_state d1 = DELIVERY_PENDING \<and> round_started d d1 now \<and>
      delivery_message_id d1 = delivery_message_id d \<and> delivery_device_id d1 = delivery_device_id d \<and>
      delivery_id d1 = delivery_id d \<and> arm_generation d1 = arm_generation d"
    using keys(2,3) by (auto simp: start_change_def update_delivery_def round_started_def image_iff)
qed

section \<open>What a prepared packet carries\<close>

text \<open>
  A delivery packet carries the lowest part its pending delivery still has to send in this round, with the
  arm and the attempt of the row, as the text of an \<^verbatim>\<open>M\<close> line from the sender.
\<close>

definition carries_lowest_part :: "db \<Rightarrow> packet \<Rightarrow> delivery \<Rightarrow> message \<Rightarrow> int \<Rightarrow> bool" where
  "carries_lowest_part db q d m part \<longleftrightarrow>
     d \<in> set (rows (deliveries db)) \<and> delivery_state d = DELIVERY_PENDING \<and> find_message (delivery_message_id d) db = Some m \<and>
     packet_purpose q = PURPOSE_DELIVERY \<and> packet_contact_id q = Some (delivery_device_id d) \<and>
     packet_delivery_id q = Some (delivery_id d) \<and> packet_arm_generation q = Some (arm_generation d) \<and>
     packet_attempt_number q = Some (attempt_count d) \<and> packet_part_number q = Some part \<and>
     1 \<le> part \<and> bit (find_parts_left_in_round d) (nat (part - 1)) \<and>
     (\<forall>k < nat (part - 1). \<not> bit (find_parts_left_in_round d) k) \<and>
     (\<exists>sender text. find_user (sender_id m) db = Some sender \<and> part_texts m ! nat (part - 1) = Some text \<and>
        format_delivery_part (user_username sender) (client_message_id m) part (part_count m) text = Inr (packet_text q))"

text \<open>A receipt packet carries the level the receipt stands for now.\<close>

definition carries_receipt :: "db \<Rightarrow> packet \<Rightarrow> receipt \<Rightarrow> message \<Rightarrow> bool" where
  "carries_receipt db q r m \<longleftrightarrow>
     r \<in> set (rows (receipts db)) \<and> receipt_state r = RECEIPT_PENDING \<and> find_message (receipt_message_id r) db = Some m \<and>
     packet_purpose q = PURPOSE_RECEIPT \<and> packet_contact_id q = Some (receipt_device_id r) \<and>
     packet_receipt_id q = Some (receipt_id r) \<and> packet_arm_generation q = Some (receipt_arm_generation r) \<and>
     packet_attempt_number q = Some (receipt_attempt_count r) \<and> packet_receipt_level q = Some (target_level r) \<and>
     (\<exists>recipient level. find_user (recipient_id m) db = Some recipient \<and> RECEIPT_LEVELS_BY_NUMBER (target_level r) = Inr level \<and>
        format_receipt_push (user_username recipient) (client_message_id m) level = Inr (packet_text q))"

lemma only_candidate_changes_lookups:
  "only_candidate_changes d db db' \<Longrightarrow> find_user i db' = find_user i db"
  "only_candidate_changes d db db' \<Longrightarrow> find_contact i db' = find_contact i db"
  "only_candidate_changes d db db' \<Longrightarrow> find_message i db' = find_message i db"
  by (simp_all add: only_candidate_changes_def find_user_def find_contact_def find_message_def)

lemma packets_update_lookups [simp]:
  "find_user i (db\<lparr>packets := t\<rparr>) = find_user i db"
  "find_contact i (db\<lparr>packets := t\<rparr>) = find_contact i db"
  "find_message i (db\<lparr>packets := t\<rparr>) = find_message i db"
  "deliveries_in_progress i (db\<lparr>packets := t\<rparr>) = deliveries_in_progress i db"
  by (simp_all add: find_user_def find_contact_def find_message_def deliveries_in_progress_def)

lemma find_contactD: "find_contact i db = Some c \<Longrightarrow> c \<in> set (rows (contacts db)) \<and> contact_id c = i"
  unfolding find_contact_def by (drule first_where_SomeD) simp

text \<open>The parts a delivery sends: its own round, or the round that starts now.\<close>

lemma prepare_delivery_packetE:
  assumes "prepare_delivery_packet S d now generation limit db = Inr (r, db')"
  obtains m device may_send d1 db1 where
    "find_message (delivery_message_id d) db = Some m" "find_contact (delivery_device_id d) db = Some device"
    "(if find_parts_left_in_round d = 0 then advance_delivery_to_new_round S d m now limit db else Inr (True, d, db)) =
       Inr (may_send, d1, db1)"
    "r = None \<longrightarrow> db' = db1"
    "r \<noteq> None \<longrightarrow> may_send \<and> (\<exists>part sender text line q. find_lowest_part_number (find_parts_left_in_round d1) = Some part \<and>
       find_user (sender_id m) db = Some sender \<and> part_texts m ! nat (part - 1) = Some text \<and>
       format_delivery_part (user_username sender) (client_message_id m) part (part_count m) text = Inr line \<and>
       insert_prepared_packet ((new_packet device PURPOSE_DELIVERY line now generation)
         \<lparr>packet_delivery_id := Some (delivery_id d1), packet_part_number := Some part,
          packet_arm_generation := Some (arm_generation d1), packet_attempt_number := Some (attempt_count d1)\<rparr>) now db1 = Inr (q, db') \<and>
       r = Some (build_packet_descriptor q device))"
  using assms
  by (fastforce simp: prepare_delivery_packet_def res_bind_eq_Inr split: option.splits if_splits)

lemma prepare_delivery_packet_spec:
  assumes step: "prepare_delivery_packet S d now generation limit db = Inr (r, db')"
    and keys: "keys_ok delivery_id (deliveries db)" "d \<in> set (rows (deliveries db))" "delivery_state d = DELIVERY_PENDING"
  shows "db_moves db db'" "only_candidate_changes d db db'"
    and "\<forall>device. deliveries_in_progress device db \<le> limit \<longrightarrow> deliveries_in_progress device db' \<le> limit"
    and "r = None \<Longrightarrow> packets db' = packets db"
    and "r = Some descriptor \<Longrightarrow> \<exists>q d1 m part device. packet_prepared db q db' \<and> carries_lowest_part db' q d1 m part \<and>
      delivery_id d1 = delivery_id d \<and> find_contact (delivery_device_id d) db = Some device \<and> descriptor = build_packet_descriptor q device"
proof -
  from step obtain m device may_send d1 db1 where
    m: "find_message (delivery_message_id d) db = Some m" and device: "find_contact (delivery_device_id d) db = Some device"
    and adv: "(if find_parts_left_in_round d = 0 then advance_delivery_to_new_round S d m now limit db else Inr (True, d, db)) =
       Inr (may_send, d1, db1)"
    and none: "r = None \<longrightarrow> db' = db1"
    and some: "r \<noteq> None \<longrightarrow> may_send \<and> (\<exists>part sender text line q. find_lowest_part_number (find_parts_left_in_round d1) = Some part \<and>
       find_user (sender_id m) db = Some sender \<and> part_texts m ! nat (part - 1) = Some text \<and>
       format_delivery_part (user_username sender) (client_message_id m) part (part_count m) text = Inr line \<and>
       insert_prepared_packet ((new_packet device PURPOSE_DELIVERY line now generation)
         \<lparr>packet_delivery_id := Some (delivery_id d1), packet_part_number := Some part,
          packet_arm_generation := Some (arm_generation d1), packet_attempt_number := Some (attempt_count d1)\<rparr>) now db1 = Inr (q, db') \<and>
       r = Some (build_packet_descriptor q device))"
    by (rule prepare_delivery_packetE)
  have a: "db_moves db db1" "only_candidate_changes d db db1" "packets db1 = packets db"
    "\<forall>device. deliveries_in_progress device db \<le> limit \<longrightarrow> deliveries_in_progress device db1 \<le> limit"
    using adv advance_delivery_rows(1-4) [OF _ keys, of S m now limit may_send d1 db1] keys
    by (auto simp: only_candidate_changes_def split: if_splits)
  have d1: "d1 \<in> set (rows (deliveries db1))" "delivery_state d1 = DELIVERY_PENDING" "delivery_message_id d1 = delivery_message_id d"
    "delivery_device_id d1 = delivery_device_id d" "delivery_id d1 = delivery_id d" if may_send
    using that adv advance_delivery_rows(5) [OF _ keys, of S m now limit may_send d1 db1] keys by (auto split: if_splits)
  have insert: "db_moves db1 db' \<and> (\<exists>t. db' = db1\<lparr>packets := t\<rparr>)" if "r \<noteq> None"
    using some that insert_prepared_packet_moves insert_prepared_packetD(2) by blast
  show "db_moves db db'" using a(1) none insert db_moves_trans by (cases r) auto
  show "only_candidate_changes d db db'" using a(2) none insert by (cases r) (auto simp: only_candidate_changes_def)
  show "\<forall>device. deliveries_in_progress device db \<le> limit \<longrightarrow> deliveries_in_progress device db' \<le> limit"
    using a(4) none insert by (cases r) auto
  show "packets db' = packets db" if "r = None" using that none a(3) by simp
  assume r: "r = Some descriptor"
  then obtain part sender held line q where q: "may_send" "find_lowest_part_number (find_parts_left_in_round d1) = Some part"
    "find_user (sender_id m) db = Some sender" "part_texts m ! nat (part - 1) = Some held"
    "format_delivery_part (user_username sender) (client_message_id m) part (part_count m) held = Inr line"
    and ins: "insert_prepared_packet ((new_packet device PURPOSE_DELIVERY line now generation)
         \<lparr>packet_delivery_id := Some (delivery_id d1), packet_part_number := Some part,
          packet_arm_generation := Some (arm_generation d1), packet_attempt_number := Some (attempt_count d1)\<rparr>) now db1 = Inr (q, db')"
    and descriptor: "descriptor = build_packet_descriptor q device"
    using some by auto
  have "packet_prepared db q db'" using insert_prepared_packet_prepared [OF ins] a(3) by (simp add: packet_prepared_def)
  moreover have "carries_lowest_part db' q d1 m part"
    using q(2-) d1 [OF q(1)] m find_contactD [OF device] insert_prepared_packetD(1,2) [OF ins] only_candidate_changes_lookups [OF a(2)]
    by (simp add: carries_lowest_part_def find_lowest_part_number_def find_lowest_part_from_Some)
  ultimately show "\<exists>q d1 m part device. packet_prepared db q db' \<and> carries_lowest_part db' q d1 m part \<and>
      delivery_id d1 = delivery_id d \<and> find_contact (delivery_device_id d) db = Some device \<and> descriptor = build_packet_descriptor q device"
    using d1(5) [OF q(1)] device descriptor by blast
qed

definition only_receipt_changes :: "receipt \<Rightarrow> db \<Rightarrow> db \<Rightarrow> bool" where
  "only_receipt_changes r db db' \<longleftrightarrow>
     users db' = users db \<and> contacts db' = contacts db \<and> messages db' = messages db \<and> deliveries db' = deliveries db \<and>
     (\<forall>x \<in> set (rows (receipts db)). receipt_id x \<noteq> receipt_id r \<longrightarrow> x \<in> set (rows (receipts db')))"

lemma only_receipt_changes_refl [simp]: "only_receipt_changes r db db"
  by (simp add: only_receipt_changes_def)

lemma update_receipt_only:
  "only_receipt_changes r db (db\<lparr>receipts := update_where (\<lambda>x. receipt_id x = receipt_id r) f (receipts db)\<rparr>)"
  by (force simp: only_receipt_changes_def)

lemma only_receipt_changes_lookups:
  "only_receipt_changes r db db' \<Longrightarrow> find_user i db' = find_user i db"
  "only_receipt_changes r db db' \<Longrightarrow> find_contact i db' = find_contact i db"
  "only_receipt_changes r db db' \<Longrightarrow> find_message i db' = find_message i db"
  "only_receipt_changes r db db' \<Longrightarrow> deliveries_in_progress i db' = deliveries_in_progress i db"
  by (simp_all add: only_receipt_changes_def find_user_def find_contact_def find_message_def deliveries_in_progress_def)

definition ready_receipt :: "receipt \<Rightarrow> datetime \<Rightarrow> db \<Rightarrow> bool \<times> receipt \<times> db" where
  "ready_receipt r now db =
     (if \<not> round_pending r then
        if receipt_attempt_count r \<ge> receipt_maximum_attempts r
        then let (_, r', db') = fail_receipt_after_exhausted_attempts r now db in (False, r', db')
        else start_receipt_attempt r now db
      else (True, r, db))"

lemma ready_receipt_spec:
  assumes "ready_receipt r now db = (may_send, r1, db1)"
    and keys: "keys_ok receipt_id (receipts db)" "r \<in> set (rows (receipts db))" "receipt_state r = RECEIPT_PENDING"
  shows "db_moves db db1" "only_receipt_changes r db db1" "packets db1 = packets db"
    and "may_send \<Longrightarrow> r1 \<in> set (rows (receipts db1)) \<and> receipt_state r1 = RECEIPT_PENDING \<and> receipt_id r1 = receipt_id r \<and>
      receipt_message_id r1 = receipt_message_id r \<and> receipt_device_id r1 = receipt_device_id r \<and> target_level r1 = target_level r"
proof -
  note row = update_locked_receipt_row [OF keys(1,2), of "[RECEIPT_PENDING]" now]
  show "db_moves db db1"
    using assms(1) fail_receipt_moves [of r now db] start_receipt_attempt_moves [of r now db]
    by (auto simp: ready_receipt_def split: if_splits prod.splits intro!: receipts_move_db)
  show "only_receipt_changes r db db1" "packets db1 = packets db"
    using assms(1) row keys(3)
    by (auto simp: ready_receipt_def fail_receipt_after_exhausted_attempts_def start_receipt_attempt_def update_receipt_only
        split: if_splits)
  show "r1 \<in> set (rows (receipts db1)) \<and> receipt_state r1 = RECEIPT_PENDING \<and> receipt_id r1 = receipt_id r \<and>
      receipt_message_id r1 = receipt_message_id r \<and> receipt_device_id r1 = receipt_device_id r \<and> target_level r1 = target_level r"
    if may_send
    using assms(1) row keys(2,3) that
    by (auto simp: ready_receipt_def fail_receipt_after_exhausted_attempts_def start_receipt_attempt_def image_iff split: if_splits)
qed

lemma prepare_receipt_packetE:
  assumes "prepare_receipt_packet r now generation db = Inr (result, db')"
  obtains may_send r1 db1 where "ready_receipt r now db = (may_send, r1, db1)" "result = None \<longrightarrow> db' = db1"
    "result \<noteq> None \<longrightarrow> may_send \<and> (\<exists>m device recipient level line q.
       find_message (receipt_message_id r) db = Some m \<and> find_contact (receipt_device_id r) db = Some device \<and>
       find_user (recipient_id m) db = Some recipient \<and> RECEIPT_LEVELS_BY_NUMBER (target_level r1) = Inr level \<and>
       format_receipt_push (user_username recipient) (client_message_id m) level = Inr line \<and>
       insert_prepared_packet ((new_packet device PURPOSE_RECEIPT line now generation)
         \<lparr>packet_receipt_id := Some (receipt_id r1), packet_receipt_level := Some (target_level r1),
          packet_arm_generation := Some (receipt_arm_generation r1),
          packet_attempt_number := Some (receipt_attempt_count r1)\<rparr>) now db1 = Inr (q, db') \<and>
       result = Some (build_packet_descriptor q device))"
proof -
  obtain may_send r1 db1 where ready: "ready_receipt r now db = (may_send, r1, db1)" by (metis prod.exhaust)
  show thesis
    by (rule that [OF ready])
      (use assms in \<open>auto simp: prepare_receipt_packet_def ready_receipt_def [symmetric] ready res_bind_eq_Inr split: option.splits if_splits\<close>)
qed

lemma prepare_receipt_packet_spec:
  assumes step: "prepare_receipt_packet r now generation db = Inr (result, db')"
    and keys: "keys_ok receipt_id (receipts db)" "r \<in> set (rows (receipts db))" "receipt_state r = RECEIPT_PENDING"
  shows "db_moves db db'" "only_receipt_changes r db db'"
    and "result = None \<Longrightarrow> packets db' = packets db"
    and "result = Some descriptor \<Longrightarrow> \<exists>q r1 m device. packet_prepared db q db' \<and> carries_receipt db' q r1 m \<and>
      receipt_id r1 = receipt_id r \<and> find_contact (receipt_device_id r) db = Some device \<and> descriptor = build_packet_descriptor q device"
proof -
  from step obtain may_send r1 db1 where ready: "ready_receipt r now db = (may_send, r1, db1)" and none: "result = None \<longrightarrow> db' = db1"
    and some: "result \<noteq> None \<longrightarrow> may_send \<and> (\<exists>m device recipient level line q.
       find_message (receipt_message_id r) db = Some m \<and> find_contact (receipt_device_id r) db = Some device \<and>
       find_user (recipient_id m) db = Some recipient \<and> RECEIPT_LEVELS_BY_NUMBER (target_level r1) = Inr level \<and>
       format_receipt_push (user_username recipient) (client_message_id m) level = Inr line \<and>
       insert_prepared_packet ((new_packet device PURPOSE_RECEIPT line now generation)
         \<lparr>packet_receipt_id := Some (receipt_id r1), packet_receipt_level := Some (target_level r1),
          packet_arm_generation := Some (receipt_arm_generation r1),
          packet_attempt_number := Some (receipt_attempt_count r1)\<rparr>) now db1 = Inr (q, db') \<and>
       result = Some (build_packet_descriptor q device))"
    by (rule prepare_receipt_packetE)
  note a = ready_receipt_spec [OF ready keys]
  have insert: "db_moves db1 db' \<and> (\<exists>t. db' = db1\<lparr>packets := t\<rparr>)" if "result \<noteq> None"
    using some that insert_prepared_packet_moves insert_prepared_packetD(2) by blast
  show "db_moves db db'" using a(1) none insert db_moves_trans by (cases result) auto
  show "only_receipt_changes r db db'" using a(2) none insert by (cases result) (auto simp: only_receipt_changes_def)
  show "packets db' = packets db" if "result = None" using that none a(3) by simp
  assume "result = Some descriptor"
  then obtain m device recipient level line q where may_send and device: "find_contact (receipt_device_id r) db = Some device"
    and q: "find_message (receipt_message_id r) db = Some m"
       "find_user (recipient_id m) db = Some recipient" "RECEIPT_LEVELS_BY_NUMBER (target_level r1) = Inr level"
       "format_receipt_push (user_username recipient) (client_message_id m) level = Inr line"
    and ins: "insert_prepared_packet ((new_packet device PURPOSE_RECEIPT line now generation)
         \<lparr>packet_receipt_id := Some (receipt_id r1), packet_receipt_level := Some (target_level r1),
          packet_arm_generation := Some (receipt_arm_generation r1),
          packet_attempt_number := Some (receipt_attempt_count r1)\<rparr>) now db1 = Inr (q, db')"
    and descriptor: "descriptor = build_packet_descriptor q device"
    using some by auto
  have "packet_prepared db q db'" using insert_prepared_packet_prepared [OF ins] a(3) by (simp add: packet_prepared_def)
  moreover have "carries_receipt db' q r1 m"
    using q a(4) [OF \<open>may_send\<close>] find_contactD [OF device] insert_prepared_packetD(1,2) [OF ins] only_receipt_changes_lookups [OF a(2)]
    by (simp add: carries_receipt_def)
  ultimately show "\<exists>q r1 m device. packet_prepared db q db' \<and> carries_receipt db' q r1 m \<and>
      receipt_id r1 = receipt_id r \<and> find_contact (receipt_device_id r) db = Some device \<and> descriptor = build_packet_descriptor q device"
    using a(4) [OF \<open>may_send\<close>] device descriptor by blast
qed

section \<open>The walk over the due rows\<close>

fun candidate_key :: "candidate \<Rightarrow> nat \<times> nat" where
  "candidate_key (DeliveryCandidate d) = (0, delivery_id d)"
| "candidate_key (ReceiptCandidate r) = (1, receipt_id r)"

fun candidate_contact :: "candidate \<Rightarrow> nat" where
  "candidate_contact (DeliveryCandidate d) = delivery_device_id d"
| "candidate_contact (ReceiptCandidate r) = receipt_device_id r"

fun candidate_current :: "db \<Rightarrow> candidate \<Rightarrow> bool" where
  "candidate_current db (DeliveryCandidate d) \<longleftrightarrow> d \<in> set (rows (deliveries db)) \<and> delivery_state d = DELIVERY_PENDING"
| "candidate_current db (ReceiptCandidate r) \<longleftrightarrow> r \<in> set (rows (receipts db)) \<and> receipt_state r = RECEIPT_PENDING"

text \<open>The packet belongs to the row of the candidate.\<close>

fun packet_for_candidate :: "db \<Rightarrow> packet \<Rightarrow> candidate \<Rightarrow> bool" where
  "packet_for_candidate db q (DeliveryCandidate d) \<longleftrightarrow>
     (\<exists>d1 m part. carries_lowest_part db q d1 m part \<and> delivery_id d1 = delivery_id d)"
| "packet_for_candidate db q (ReceiptCandidate r) \<longleftrightarrow> (\<exists>r1 m. carries_receipt db q r1 m \<and> receipt_id r1 = receipt_id r)"

lemma prepare_candidate_spec:
  assumes "prepare_candidate S c now generation limit db = Inr (result, db')" "tables_ok db" "candidate_current db c"
  shows "db_moves db db'"
    and "\<forall>device. deliveries_in_progress device db \<le> limit \<longrightarrow> deliveries_in_progress device db' \<le> limit"
    and "candidate_current db x \<Longrightarrow> candidate_key x \<noteq> candidate_key c \<Longrightarrow> candidate_current db' x"
    and "contacts db' = contacts db" "messages db' = messages db"
    and "result = None \<Longrightarrow> packets db' = packets db"
    and "result = Some descriptor \<Longrightarrow> \<exists>q device. packet_prepared db q db' \<and> packet_for_candidate db' q c \<and>
      find_contact (candidate_contact c) db = Some device \<and> descriptor = build_packet_descriptor q device"
proof -
  have keys: "keys_ok delivery_id (deliveries db)" "keys_ok receipt_id (receipts db)"
    using assms(2) by (simp_all add: tables_ok_def)
  have "db_moves db db' \<and>
    (\<forall>device. deliveries_in_progress device db \<le> limit \<longrightarrow> deliveries_in_progress device db' \<le> limit) \<and>
    (\<forall>x. candidate_current db x \<longrightarrow> candidate_key x \<noteq> candidate_key c \<longrightarrow> candidate_current db' x) \<and>
    contacts db' = contacts db \<and> messages db' = messages db \<and> (result = None \<longrightarrow> packets db' = packets db) \<and>
    (result = Some descriptor \<longrightarrow> (\<exists>q device. packet_prepared db q db' \<and> packet_for_candidate db' q c \<and>
      find_contact (candidate_contact c) db = Some device \<and> descriptor = build_packet_descriptor q device))"
  proof (cases c)
    case (DeliveryCandidate d)
    then have d: "d \<in> set (rows (deliveries db))" "delivery_state d = DELIVERY_PENDING"
      and step: "prepare_delivery_packet S d now generation limit db = Inr (result, db')"
      using assms by auto
    note spec = prepare_delivery_packet_spec [OF step keys(1) d]
    have "candidate_current db' x" if "candidate_current db x" "candidate_key x \<noteq> candidate_key c" for x
      using that spec(2) DeliveryCandidate by (cases x) (auto simp: only_candidate_changes_def)
    then show ?thesis
      using spec(1,3,4) spec(5) [of descriptor] spec(2) DeliveryCandidate by (auto simp: only_candidate_changes_def)
  next
    case (ReceiptCandidate r)
    then have r: "r \<in> set (rows (receipts db))" "receipt_state r = RECEIPT_PENDING"
      and step: "prepare_receipt_packet r now generation db = Inr (result, db')"
      using assms by auto
    note spec = prepare_receipt_packet_spec [OF step keys(2) r]
    have "candidate_current db' x" if "candidate_current db x" "candidate_key x \<noteq> candidate_key c" for x
      using that spec(2) ReceiptCandidate by (cases x) (auto simp: only_receipt_changes_def)
    then show ?thesis
      using spec(1,3) spec(4) [of descriptor] spec(2) ReceiptCandidate only_receipt_changes_lookups(4) [OF spec(2)]
      by (auto simp: only_receipt_changes_def)
  qed
  then show "db_moves db db'"
    and "\<forall>device. deliveries_in_progress device db \<le> limit \<longrightarrow> deliveries_in_progress device db' \<le> limit"
    and "candidate_current db x \<Longrightarrow> candidate_key x \<noteq> candidate_key c \<Longrightarrow> candidate_current db' x"
    and "contacts db' = contacts db" "messages db' = messages db"
    and "result = None \<Longrightarrow> packets db' = packets db"
    and "result = Some descriptor \<Longrightarrow> \<exists>q device. packet_prepared db q db' \<and> packet_for_candidate db' q c \<and>
      find_contact (candidate_contact c) db = Some device \<and> descriptor = build_packet_descriptor q device"
    by blast+
qed

definition walk_result :: "db \<Rightarrow> candidate list \<Rightarrow> nat \<Rightarrow> packet_descriptor option \<Rightarrow> db \<Rightarrow> bool" where
  "walk_result db cs limit result db' \<longleftrightarrow>
     db_moves db db' \<and> messages db' = messages db \<and>
     (\<forall>device. deliveries_in_progress device db \<le> limit \<longrightarrow> deliveries_in_progress device db' \<le> limit) \<and>
     (case result of
        None \<Rightarrow> packets db' = packets db
      | Some descriptor \<Rightarrow>
          \<exists>q c device. c \<in> set cs \<and> packet_prepared db q db' \<and> packet_for_candidate db' q c \<and>
            find_contact (candidate_contact c) db = Some device \<and> descriptor = build_packet_descriptor q device)"

lemma prepare_first_spec:
  "prepare_first S cs now generation limit db = Inr (result, db') \<Longrightarrow> tables_ok db \<Longrightarrow>
     \<forall>c \<in> set cs. candidate_current db c \<Longrightarrow> distinct (map candidate_key cs) \<Longrightarrow> walk_result db cs limit result db'"
proof (induction cs arbitrary: db)
  case (Cons c cs)
  from Cons.prems(1) obtain descriptor db1 where c: "prepare_candidate S c now generation limit db = Inr (descriptor, db1)"
    and rest: "(if descriptor \<noteq> None then Inr (descriptor, db1) else prepare_first S cs now generation limit db1) = Inr (result, db')"
    by (auto simp: res_bind_eq_Inr)
  have cur: "candidate_current db c" using Cons.prems(3) by simp
  note spec = prepare_candidate_spec [OF c Cons.prems(2) cur]
  show ?case
  proof (cases descriptor)
    case None
    have "\<forall>x \<in> set cs. candidate_current db1 x"
      using Cons.prems(3,4) spec(3) by (auto simp: image_iff)
    with None rest Cons.prems(4) db_moves_ok [OF spec(1) Cons.prems(2)]
    have "walk_result db1 cs limit result db'" by (intro Cons.IH) simp_all
    with spec(1,2,4,5) spec(6) [OF None] show ?thesis
      by (cases result) (fastforce simp: walk_result_def packet_prepared_def find_contact_def intro: db_moves_trans)+
  next
    case (Some a)
    with rest spec(1,2,5) spec(7) [OF Some] show ?thesis by (auto simp: walk_result_def) blast
  qed
qed (simp add: walk_result_def)

section \<open>The next packet\<close>

text \<open>The row is due, pending, and of a contact that is on the node.\<close>

fun candidate_is_due :: "datetime \<Rightarrow> nat \<Rightarrow> db \<Rightarrow> candidate \<Rightarrow> bool" where
  "candidate_is_due now limit db (DeliveryCandidate d) \<longleftrightarrow>
     d \<in> set (rows (deliveries db)) \<and> delivery_is_eligible limit db d \<and> is_due now (next_attempt_at d)"
| "candidate_is_due now limit db (ReceiptCandidate r) \<longleftrightarrow>
     r \<in> set (rows (receipts db)) \<and> receipt_is_eligible db r \<and> is_due now (receipt_next_attempt_at r)"

lemma candidates_are_due:
  "c \<in> set (lock_due_candidates skip_delivery skip_receipt now limit db) \<Longrightarrow> candidate_is_due now limit db c"
  by (auto simp: lock_due_candidates_def due_delivery_candidates_def due_receipt_candidates_def dest!: in_set_takeD)

lemma due_is_current: "candidate_is_due now limit db c \<Longrightarrow> candidate_current db c"
  by (cases c) (auto simp: delivery_is_eligible_def receipt_is_eligible_def)

lemma due_is_on_node: "candidate_is_due now limit db c \<Longrightarrow> contact_is_on_node (candidate_contact c) db"
  by (cases c) (auto simp: delivery_is_eligible_def receipt_is_eligible_def)

lemma distinct_map_take_sort:
  "distinct (map f xs) \<Longrightarrow> distinct (map f (take n (sort_key k xs)))"
proof -
  assume "distinct (map f xs)"
  then have "distinct (map f (sort_key k xs))" by (simp add: distinct_map)
  then show ?thesis by (simp flip: take_map)
qed

lemma candidates_distinct:
  assumes "tables_ok db"
  shows "distinct (map candidate_key (lock_due_candidates skip_delivery skip_receipt now limit db))"
proof -
  have d: "distinct (map delivery_id (due_delivery_candidates skip_delivery now limit db))"
    unfolding due_delivery_candidates_def
    by (intro distinct_map_take_sort distinct_delivery_ids) (use assms in \<open>simp add: tables_ok_def\<close>)
  have r: "distinct (map receipt_id (due_receipt_candidates skip_receipt now db))"
    unfolding due_receipt_candidates_def
    by (rule distinct_map_take_sort)
      (use assms in \<open>auto simp: tables_ok_def keys_ok_def select_where_def strict_sorted_iff intro: distinct_map_filter\<close>)
  have "distinct (map candidate_key (map DeliveryCandidate (due_delivery_candidates skip_delivery now limit db) @
        map ReceiptCandidate (due_receipt_candidates skip_receipt now db)))"
    using d r by (auto simp: distinct_map inj_on_def)
  then have "distinct (map candidate_key (sort_key order_candidate (map DeliveryCandidate (due_delivery_candidates skip_delivery now limit db) @
        map ReceiptCandidate (due_receipt_candidates skip_receipt now db))))"
    by (simp only: distinct_map set_sort distinct_sort)
  then show ?thesis by (simp only: lock_due_candidates_def)
qed

lemma prepare_next_packet_spec:
  assumes "prepare_next_packet_in_transaction S skip_delivery skip_receipt now generation db = Inr (result, db')" "tables_ok db"
  defines "limit \<equiv> maximum_active_deliveries_per_device (pacing S)"
  shows "walk_result db (lock_due_candidates skip_delivery skip_receipt now limit db) limit result db'"
  by (rule prepare_first_spec [OF _ assms(2) _ candidates_distinct [OF assms(2)]])
    (use assms(1) in \<open>auto simp: prepare_next_packet_in_transaction_def limit_def Let_def
      intro: due_is_current [OF candidates_are_due]\<close>)

lemma prepare_reply_packet_moves:
  assumes "prepare_reply_packet contact_key key line now generation db = Inr (result, db')"
  shows "db_moves db db'" "result = None \<Longrightarrow> db' = db"
    "result = Some descriptor \<Longrightarrow> \<exists>q c. packet_prepared db q db' \<and> packet_purpose q = PURPOSE_REPLY \<and> packet_reply_key q = key \<and>
       packet_text q = line \<and> find_contact contact_key db = Some c \<and> node_sync_state c = ON_NODE \<and>
       descriptor = build_packet_descriptor q c"
proof -
  show "db_moves db db'"
    using assms by (auto simp: prepare_reply_packet_def res_bind_eq_Inr split: option.splits if_splits dest!: insert_prepared_packet_moves)
  show "db' = db" if "result = None"
    using assms that by (auto simp: prepare_reply_packet_def res_bind_eq_Inr split: option.splits if_splits)
  assume "result = Some descriptor"
  then obtain c q where c: "find_contact contact_key db = Some c" "node_sync_state c = ON_NODE"
    and ins: "insert_prepared_packet ((new_packet c PURPOSE_REPLY line now generation)\<lparr>packet_reply_key := key\<rparr>) now db = Inr (q, db')"
    and d: "descriptor = build_packet_descriptor q c"
    using assms by (auto simp: prepare_reply_packet_def res_bind_eq_Inr split: option.splits if_splits)
  show "\<exists>q c. packet_prepared db q db' \<and> packet_purpose q = PURPOSE_REPLY \<and> packet_reply_key q = key \<and>
       packet_text q = line \<and> find_contact contact_key db = Some c \<and> node_sync_state c = ON_NODE \<and>
       descriptor = build_packet_descriptor q c"
    using c d insert_prepared_packet_prepared [OF ins] insert_prepared_packetD(1) [OF ins] by auto
qed

end
