(* ===== verification/Route_Resets.thy ===== *)
theory Route_Resets
  imports Outbound_Scheduling
begin

text \<open>
  Route resets decided from evidence in the database (\<^verbatim>\<open>messaging/route_reset_evidence.py\<close>): at a packet's
  acknowledgement deadline, right before the next packet to its contact, and for a direct message that
  arrived by flood.
\<close>

definition REPLY_EVIDENCE_REQUEST_LIMIT :: nat where
  "REPLY_EVIDENCE_REQUEST_LIMIT = 20"

record reply_resend_candidate =
  resend_packet_id :: nat
  resend_contact_id :: nat
  resend_reply_key :: pystr
  resend_text :: pystr

record route_reset_settlement =
  settlement_contact_id :: nat
  packet_ids_needing_reset :: "nat list"
  replies_to_resend :: "reply_resend_candidate list"

definition needs_reset :: "route_reset_settlement \<Rightarrow> bool" where
  "needs_reset settlement \<longleftrightarrow> packet_ids_needing_reset settlement \<noteq> []"

definition record_path_update :: "pystr \<Rightarrow> datetime \<Rightarrow> db \<Rightarrow> nat option \<times> db" where
  "record_path_update key now db =
     (let db1 = db\<lparr>contacts := update_where (\<lambda>c. public_key c = key)
                     (\<lambda>c. c\<lparr>last_path_update_at := Some now\<rparr>) (contacts db)\<rparr>
      in if count_where (\<lambda>c. public_key c = key) (contacts db) = 0 then (None, db1)
         else (map_option contact_id (first_where (\<lambda>c. public_key c = key) (contacts db1)), db1))"

definition is_path_update_recent :: "relay_settings \<Rightarrow> datetime option \<Rightarrow> datetime \<Rightarrow> bool" where
  "is_path_update_recent S path_update now \<longleftrightarrow>
     (case path_update of
        None \<Rightarrow> False
      | Some t \<Rightarrow> now - t \<le> timedelta_seconds (recent_path_update_seconds (engine_timing S)))"

definition needs_flood_arrival_route_reset ::
  "relay_settings \<Rightarrow> bool \<Rightarrow> datetime \<Rightarrow> datetime option \<Rightarrow> datetime \<Rightarrow> bool" where
  "needs_flood_arrival_route_reset S arrived_by_flood received path_update now \<longleftrightarrow>
     (if \<not> arrived_by_flood \<or> is_path_update_recent S path_update now then False
      else now - received \<le> timedelta_seconds (flood_arrival_reset_maximum_age_seconds (engine_timing S)))"

definition has_path_update_after :: "datetime option \<Rightarrow> datetime option \<Rightarrow> bool" where
  "has_path_update_after path_update queued \<longleftrightarrow>
     (case (path_update, queued) of (Some t, Some q) \<Rightarrow> t > q | _ \<Rightarrow> False)"

definition decide_route_reset_at_deadline :: "packet_route \<Rightarrow> datetime option \<Rightarrow> datetime option \<Rightarrow> route_reset_state" where
  "decide_route_reset_at_deadline taken queued path_update =
     (if taken \<noteq> ROUTE_DIRECT then RESET_NOT_APPLICABLE
      else if has_path_update_after path_update queued then RESET_SKIPPED_PATH_UPDATE
      else RESET_PENDING)"

section \<open>Evidence\<close>

text \<open>A SQL comparison with NULL is not true.\<close>

definition is_after :: "datetime option \<Rightarrow> datetime option \<Rightarrow> bool" where
  "is_after a b \<longleftrightarrow> (case (a, b) of (Some x, Some y) \<Rightarrow> x > y | _ \<Rightarrow> False)"

definition has_delivery_evidence :: "packet \<Rightarrow> db \<Rightarrow> bool" where
  "has_delivery_evidence p db \<longleftrightarrow>
     (case (packet_delivery_id p, packet_part_number p) of
        (Some delivery, Some part) \<Rightarrow>
          (case first_where (\<lambda>d. delivery_id d = delivery \<and>
                               is_after (last_acknowledgement_received_at d) (queued_at p)) (deliveries db) of
             None \<Rightarrow> False
           | Some d \<Rightarrow> parts_received_mask d AND push_bit (nat (part - 1)) 1 \<noteq> 0)
      | _ \<Rightarrow> False)"

definition has_receipt_evidence :: "packet \<Rightarrow> db \<Rightarrow> bool" where
  "has_receipt_evidence p db \<longleftrightarrow>
     (case (packet_receipt_id p, packet_receipt_level p) of
        (Some receipt, Some level) \<Rightarrow>
          exists_where (\<lambda>r. receipt_id r = receipt \<and> is_after (last_confirmation_received_at r) (queued_at p) \<and>
                            confirmed_level r \<ge> level) (receipts db)
      | _ \<Rightarrow> False)"

fun any_other_request :: "pystr \<Rightarrow> (nat \<times> pystr) list \<Rightarrow> bool res" where
  "any_other_request key [] = Inr False"
| "any_other_request key ((row, text) # later) =
     res_bind (parse_direct_message_text text) (\<lambda>parsed.
       case build_reply_key_for_direct_message parsed row of
         Some reply_key \<Rightarrow> if reply_key \<noteq> key then Inr True else any_other_request key later
       | None \<Rightarrow> any_other_request key later)"

definition has_reply_evidence :: "packet \<Rightarrow> db \<Rightarrow> bool res" where
  "has_reply_evidence p db =
     (case packet_contact_id p of
        None \<Rightarrow> Inr False
      | Some contact_key \<Rightarrow>
          any_other_request (packet_reply_key p)
            (take REPLY_EVIDENCE_REQUEST_LIMIT
              (map (\<lambda>i. (inbound_id i, inbound_text i))
                (select_where (\<lambda>i. inbound_contact_id i = Some contact_key \<and> is_after (Some (received_at i)) (queued_at p))
                  (inbox db)))))"

definition has_application_evidence :: "packet \<Rightarrow> db \<Rightarrow> bool res" where
  "has_application_evidence p db =
     (if queued_at p = None then Inr False
      else case packet_purpose p of
        PURPOSE_DELIVERY \<Rightarrow> Inr (has_delivery_evidence p db)
      | PURPOSE_RECEIPT \<Rightarrow> Inr (has_receipt_evidence p db)
      | PURPOSE_REPLY \<Rightarrow> has_reply_evidence p db)"

section \<open>Settling\<close>

definition settle_route_reset :: "nat \<Rightarrow> route_reset_state \<Rightarrow> datetime \<Rightarrow> db \<Rightarrow> bool \<times> db" where
  "settle_route_reset i new_state now db =
     (let pending = (\<lambda>p. packet_id p = i \<and> route_reset_state p = RESET_PENDING)
      in (count_where pending (packets db) = 1,
          db\<lparr>packets := update_where pending
               (\<lambda>p. p\<lparr>route_reset_state := new_state, route_reset_decided_at := Some now\<rparr>) (packets db)\<rparr>))"

definition record_route_reset_performed :: "nat list \<Rightarrow> datetime \<Rightarrow> db \<Rightarrow> nat \<times> db" where
  "record_route_reset_performed ids now db =
     (let pending = (\<lambda>p. packet_id p \<in> set ids \<and> route_reset_state p = RESET_PENDING)
      in (count_where pending (packets db),
          db\<lparr>packets := update_where pending
               (\<lambda>p. p\<lparr>route_reset_state := RESET_PERFORMED, route_reset_decided_at := Some now\<rparr>) (packets db)\<rparr>))"

definition find_replies_to_resend :: "relay_settings \<Rightarrow> packet list \<Rightarrow> datetime \<Rightarrow> db \<Rightarrow> reply_resend_candidate list" where
  "find_replies_to_resend S ps now db =
     (let maximum_resend_age = timedelta_seconds (reply_resend_maximum_age_seconds (engine_timing S))
      in List.map_filter (\<lambda>p.
           case (packet_contact_id p, prepared_at p) of
             (Some contact_key, Some prepared) \<Rightarrow>
               if packet_purpose p \<noteq> PURPOSE_REPLY \<or> now - prepared \<ge> maximum_resend_age \<or>
                  exists_where (\<lambda>q. packet_contact_id q = Some contact_key \<and> packet_purpose q = PURPOSE_REPLY \<and>
                                    packet_reply_key q = packet_reply_key p \<and> packet_id q > packet_id p) (packets db)
               then None
               else Some \<lparr>resend_packet_id = packet_id p, resend_contact_id = contact_key,
                          resend_reply_key = packet_reply_key p, resend_text = packet_text p\<rparr>
           | _ \<Rightarrow> None) ps)"

fun settle_loop :: "datetime option \<Rightarrow> datetime \<Rightarrow> packet list \<Rightarrow> packet list \<Rightarrow> db \<Rightarrow> (packet list \<times> db) res" where
  "settle_loop path_update now [] needing db = Inr (needing, db)"
| "settle_loop path_update now (p # ps) needing db =
     (if has_path_update_after path_update (queued_at p)
      then settle_loop path_update now ps needing (snd (settle_route_reset (packet_id p) RESET_SKIPPED_PATH_UPDATE now db))
      else res_bind (has_application_evidence p db) (\<lambda>evidence.
        if evidence
        then settle_loop path_update now ps needing
               (snd (settle_route_reset (packet_id p) RESET_SKIPPED_APPLICATION_EVIDENCE now db))
        else settle_loop path_update now ps (needing @ [p]) db))"

definition settle_pending_route_resets_in_transaction ::
  "relay_settings \<Rightarrow> nat \<Rightarrow> datetime \<Rightarrow> db \<Rightarrow> (route_reset_settlement \<times> db) res" where
  "settle_pending_route_resets_in_transaction S contact_key now db =
     (let path_update = Option.bind (find_contact contact_key db) last_path_update_at;
          pending_packets = select_where (\<lambda>p. packet_contact_id p = Some contact_key \<and> route_reset_state p = RESET_PENDING)
                              (packets db)
      in res_bind (settle_loop path_update now pending_packets [] db) (\<lambda>(needing, db1).
           Inr (\<lparr>settlement_contact_id = contact_key, packet_ids_needing_reset = map packet_id needing,
                 replies_to_resend = find_replies_to_resend S needing now db1\<rparr>, db1)))"

section \<open>Packet rows move along their machine\<close>

lemma settle_route_reset_moves: "db_moves db (snd (settle_route_reset i new_state now db))"
  by (auto simp: settle_route_reset_def Let_def packet_evolves_def intro!: packets_update_moves)

lemma record_route_reset_performed_moves: "db_moves db (snd (record_route_reset_performed ids now db))"
  by (auto simp: record_route_reset_performed_def Let_def packet_evolves_def intro!: packets_update_moves)

lemma record_path_update_moves: "db_moves db (snd (record_path_update key now db))"
  by (auto simp: record_path_update_def Let_def contact_evolves_def contact_row_ok_def intro!: contacts_update_moves)

lemma settle_loop_moves: "settle_loop path_update now ps needing db = Inr (needing', db') \<Longrightarrow> db_moves db db'"
proof (induction ps arbitrary: needing db)
  case (Cons p ps)
  then show ?case
    by (auto simp: res_bind_eq_Inr split: if_splits intro: db_moves_trans [OF settle_route_reset_moves])
qed simp

lemma settle_pending_moves:
  "settle_pending_route_resets_in_transaction S contact_key now db = Inr (settlement, db') \<Longrightarrow> db_moves db db'"
  by (auto simp: settle_pending_route_resets_in_transaction_def Let_def res_bind_eq_Inr dest!: settle_loop_moves)

section \<open>The settlement in one update\<close>

text \<open>
  What the evidence says of one packet: the reference the loop is compared with. It does not read the packets
  table, so settling one packet does not change what is found for the next.
\<close>

definition reset_verdict :: "datetime option \<Rightarrow> db \<Rightarrow> packet \<Rightarrow> route_reset_state" where
  "reset_verdict path_update db p =
     (if has_path_update_after path_update (queued_at p) then RESET_SKIPPED_PATH_UPDATE
      else if has_application_evidence p db = Inr True then RESET_SKIPPED_APPLICATION_EVIDENCE
      else RESET_PENDING)"

definition settle_change :: "datetime option \<Rightarrow> datetime \<Rightarrow> db \<Rightarrow> packet \<Rightarrow> packet" where
  "settle_change path_update now db p =
     p\<lparr>route_reset_state := reset_verdict path_update db p, route_reset_decided_at := Some now\<rparr>"

lemma evidence_packets [simp]: "has_application_evidence p (db\<lparr>packets := t\<rparr>) = has_application_evidence p db"
  by (simp add: has_application_evidence_def has_delivery_evidence_def has_receipt_evidence_def has_reply_evidence_def
      cong: option.case_cong packet_purpose.case_cong)

lemma reset_verdict_packets [simp]: "reset_verdict path_update (db\<lparr>packets := t\<rparr>) p = reset_verdict path_update db p"
  by (simp add: reset_verdict_def)

lemma settle_change_packets [simp]: "settle_change path_update now (db\<lparr>packets := t\<rparr>) = settle_change path_update now db"
  by (simp add: settle_change_def fun_eq_iff)

lemma settle_one:
  assumes "keys_ok packet_id (packets db)" "p \<in> set (rows (packets db))" "route_reset_state p = RESET_PENDING"
  shows "snd (settle_route_reset (packet_id p) new_state now db) =
    db\<lparr>packets := update_where (\<lambda>q. q = p) (\<lambda>q. q\<lparr>route_reset_state := new_state, route_reset_decided_at := Some now\<rparr>) (packets db)\<rparr>"
proof -
  have "update_where (\<lambda>q. packet_id q = packet_id p \<and> route_reset_state q = RESET_PENDING) f (packets db) =
      update_where (\<lambda>q. q = p) f (packets db)" for f
    using assms packet_table.key_unique [OF assms(1) _ assms(2)] by (intro update_where_cong) auto
  then show ?thesis by (simp add: settle_route_reset_def Let_def)
qed

lemma update_rows_compose:
  assumes "p \<notin> A" "g p \<notin> A"
  shows "update_where (\<lambda>q. q \<in> A) g (update_where (\<lambda>q. q = p) g t) = update_where (\<lambda>q. q \<in> insert p A) g t"
  using assms by (auto simp: update_where_def)

lemma settle_loop_eq:
  assumes "settle_loop path_update now ps needing db = Inr (needing', db')"
    and "keys_ok packet_id (packets db)" "distinct (map packet_id ps)"
    and "\<forall>p \<in> set ps. p \<in> set (rows (packets db)) \<and> route_reset_state p = RESET_PENDING"
  shows "needing' = needing @ filter (\<lambda>p. reset_verdict path_update db p = RESET_PENDING) ps \<and>
    db' = db\<lparr>packets := update_where (\<lambda>q. q \<in> {p \<in> set ps. reset_verdict path_update db p \<noteq> RESET_PENDING})
            (settle_change path_update now db) (packets db)\<rparr>"
  using assms
proof (induction ps arbitrary: needing db)
  case (Cons p ps)
  let ?v = "reset_verdict path_update db p"
  have p: "p \<in> set (rows (packets db))" "route_reset_state p = RESET_PENDING" using Cons.prems(4) by auto
  show ?case
  proof (cases "?v = RESET_PENDING")
    case True
    then have "settle_loop path_update now ps (needing @ [p]) db = Inr (needing', db')"
      using Cons.prems(1) by (auto simp: reset_verdict_def res_bind_eq_Inr split: if_splits)
    moreover have "{x \<in> set (p # ps). reset_verdict path_update db x \<noteq> RESET_PENDING} =
        {x \<in> set ps. reset_verdict path_update db x \<noteq> RESET_PENDING}"
      using True by auto
    ultimately show ?thesis using Cons.IH [of "needing @ [p]" db] Cons.prems(2-4) True by simp
  next
    case False
    let ?g = "settle_change path_update now db"
    define db1 where "db1 = db\<lparr>packets := update_where (\<lambda>q. q = p) ?g (packets db)\<rparr>"
    have "snd (settle_route_reset (packet_id p) ?v now db) = db1"
      unfolding settle_one [OF Cons.prems(2) p] db1_def
      by (intro arg_cong [where f = "\<lambda>t. db\<lparr>packets := t\<rparr>"] update_where_cong) (auto simp: settle_change_def)
    with False have loop: "settle_loop path_update now ps needing db1 = Inr (needing', db')"
      using Cons.prems(1) by (auto simp: reset_verdict_def res_bind_eq_Inr split: if_splits)
    have keys1: "keys_ok packet_id (packets db1)"
      unfolding db1_def by (simp, rule packet_table.keys_update [OF Cons.prems(2)]) (simp add: settle_change_def)
    have rows1: "\<forall>x \<in> set ps. x \<in> set (rows (packets db1)) \<and> route_reset_state x = RESET_PENDING"
      using Cons.prems(3,4) by (force simp: db1_def)
    let ?A = "{x \<in> set ps. reset_verdict path_update db x \<noteq> RESET_PENDING}"
    have "p \<notin> ?A" "?g p \<notin> ?A"
      using Cons.prems(3) by (auto simp: settle_change_def rev_image_eqI)
    then have "update_where (\<lambda>q. q \<in> ?A) ?g (update_where (\<lambda>q. q = p) ?g (packets db)) =
        update_where (\<lambda>q. q \<in> insert p ?A) ?g (packets db)"
      by (rule update_rows_compose)
    moreover have "insert p ?A = {x \<in> set (p # ps). reset_verdict path_update db x \<noteq> RESET_PENDING}"
      using False by auto
    ultimately show ?thesis
      using Cons.IH [OF loop keys1 _ rows1] Cons.prems(3) False by (simp add: db1_def)
  qed
qed simp

lemma settle_pending_eq:
  assumes "settle_pending_route_resets_in_transaction S contact_key now db = Inr (settlement, db')" "tables_ok db"
  defines "pending \<equiv> \<lambda>p. packet_contact_id p = Some contact_key \<and> route_reset_state p = RESET_PENDING"
    and "path_update \<equiv> Option.bind (find_contact contact_key db) last_path_update_at"
  shows "packet_ids_needing_reset settlement =
      map packet_id (select_where (\<lambda>p. pending p \<and> reset_verdict path_update db p = RESET_PENDING) (packets db))"
    and "db' = db\<lparr>packets := update_where (\<lambda>p. pending p \<and> reset_verdict path_update db p \<noteq> RESET_PENDING)
      (settle_change path_update now db) (packets db)\<rparr>"
proof -
  have keys: "keys_ok packet_id (packets db)" using assms(2) by (simp add: tables_ok_def)
  obtain needing where loop: "settle_loop path_update now (select_where pending (packets db)) [] db = Inr (needing, db')"
    and ids: "packet_ids_needing_reset settlement = map packet_id needing"
    using assms(1) by (auto simp: settle_pending_route_resets_in_transaction_def Let_def res_bind_eq_Inr pending_def path_update_def)
  have "distinct (map packet_id (select_where pending (packets db)))"
    using keys by (auto simp: keys_ok_def select_where_def strict_sorted_iff intro: distinct_map_filter)
  from settle_loop_eq [OF loop keys this]
  have eq: "needing = filter (\<lambda>p. reset_verdict path_update db p = RESET_PENDING) (select_where pending (packets db))"
    "db' = db\<lparr>packets := update_where (\<lambda>q. q \<in> {p \<in> set (select_where pending (packets db)). reset_verdict path_update db p \<noteq> RESET_PENDING})
            (settle_change path_update now db) (packets db)\<rparr>"
    by (simp_all add: pending_def)
  show "packet_ids_needing_reset settlement =
      map packet_id (select_where (\<lambda>p. pending p \<and> reset_verdict path_update db p = RESET_PENDING) (packets db))"
    using eq(1) ids by (simp add: select_where_def conj_commute)
  show "db' = db\<lparr>packets := update_where (\<lambda>p. pending p \<and> reset_verdict path_update db p \<noteq> RESET_PENDING)
      (settle_change path_update now db) (packets db)\<rparr>"
    unfolding eq(2) by (intro arg_cong [where f = "\<lambda>t. db\<lparr>packets := t\<rparr>"] update_where_cong) auto
qed

end
