(* ===== verification/Outbound_Packets.thy ===== *)
theory Outbound_Packets
  imports Route_Resets
begin

text \<open>
  The life of an outbound packet after it was prepared (\<^verbatim>\<open>messaging/outbound_packets.py\<close>): the node's answer,
  the firmware acknowledgement, the deadline and restarts. The lemmas show the packet state machine, that
  the outcome of a packet from an earlier arm or round changes no delivery and no receipt, and that a
  firmware acknowledgement never marks anything delivered.
\<close>

definition ERR_CODE_NOT_FOUND :: int where
  "ERR_CODE_NOT_FOUND = 2"

definition ERR_CODE_TABLE_FULL :: int where
  "ERR_CODE_TABLE_FULL = 3"

definition LATE_ACKNOWLEDGEMENT_MATCH_MINUTES :: int where
  "LATE_ACKNOWLEDGEMENT_MATCH_MINUTES = 10"

definition PACKET_STATES_AWAITING_ACKNOWLEDGEMENT :: "packet_state list" where
  "PACKET_STATES_AWAITING_ACKNOWLEDGEMENT = [PACKET_QUEUED_ON_NODE, PACKET_ACKNOWLEDGEMENT_TIMED_OUT]"

datatype node_send_outcome =
    PacketQueuedOnNode packet_route pystr int
  | PacketRejectedByNode int
  | PacketOutcomeUnknown

record recorded_send_outcome =
  recorded_packet_id :: nat
  outcome_contact_id :: "nat option"
  recorded_purpose :: packet_purpose
  recorded_packet_state :: packet_state
  recorded_route :: packet_route
  recorded_acknowledgement_code :: pystr
  recorded_queued_at :: "datetime option"
  recorded_deadline_at :: "datetime option"
  node_packet_pool_full :: bool
  contact_needs_reconciliation :: bool

definition awaits_acknowledgement :: "recorded_send_outcome \<Rightarrow> bool" where
  "awaits_acknowledgement outcome \<longleftrightarrow> recorded_packet_state outcome = PACKET_QUEUED_ON_NODE"

record acknowledged_packet =
  acknowledged_packet_id :: nat
  acknowledged_contact_id :: "nat option"
  was_awaiting_acknowledgement :: bool

record acknowledgement_timeout =
  timeout_packet_id :: nat
  timeout_contact_id :: "nat option"
  timeout_purpose :: packet_purpose
  route_reset_pending :: bool

record outbound_packet_recovery =
  prepared_packets_now_unknown :: nat
  queued_packets_dropped :: nat
  route_resets_dropped :: nat

section \<open>The node's answer\<close>

fun counts_as_sent :: "node_send_outcome \<Rightarrow> bool" where
  "counts_as_sent (PacketRejectedByNode code) \<longleftrightarrow> code \<notin> {ERR_CODE_NOT_FOUND, ERR_CODE_TABLE_FULL}"
| "counts_as_sent _ \<longleftrightarrow> True"

definition mark_contact_missing_on_node :: "nat \<Rightarrow> db \<Rightarrow> db" where
  "mark_contact_missing_on_node contact_key db =
     db\<lparr>contacts := update_where (\<lambda>c. contact_id c = contact_key)
          (\<lambda>c. c\<lparr>node_sync_state := PENDING_ADD,
                  node_sync_error := str ''The node did not know this contact when a message was sent to it.''\<rparr>)
          (contacts db)\<rparr>"

definition count_packet_as_sent :: "relay_settings \<Rightarrow> packet \<Rightarrow> int option \<Rightarrow> datetime \<Rightarrow> db \<Rightarrow> db" where
  "count_packet_as_sent S p suggested_timeout now db =
     (case (packet_arm_generation p, packet_attempt_number p) of
        (Some generation, Some attempt) \<Rightarrow>
          (case (packet_delivery_id p, packet_part_number p) of
             (Some delivery, Some part) \<Rightarrow>
               (case first_where (\<lambda>d. delivery_id d = delivery \<and> delivery_state d = DELIVERY_PENDING \<and>
                                     arm_generation d = generation \<and> attempt_count d = attempt) (deliveries db) of
                  None \<Rightarrow> db
                | Some d \<Rightarrow> snd (snd (record_delivery_part_sent S d part suggested_timeout now db)))
           | _ \<Rightarrow>
               (case packet_receipt_id p of
                  None \<Rightarrow> db
                | Some receipt \<Rightarrow>
                    (case first_where (\<lambda>r. receipt_id r = receipt \<and> receipt_state r = RECEIPT_PENDING \<and>
                                          receipt_arm_generation r = generation \<and> receipt_attempt_count r = attempt \<and>
                                          round_pending r) (receipts db) of
                       None \<Rightarrow> db
                     | Some r \<Rightarrow> snd (snd (record_receipt_packet_sent S r suggested_timeout now db)))))
      | _ \<Rightarrow> db)"

fun build_packet_outcome_changes :: "relay_settings \<Rightarrow> node_send_outcome \<Rightarrow> datetime \<Rightarrow> packet \<Rightarrow> packet" where
  "build_packet_outcome_changes S (PacketQueuedOnNode taken code timeout) now p =
     p\<lparr>packet_state := PACKET_QUEUED_ON_NODE, packet_route := taken, expected_acknowledgement_code := lower code,
       suggested_timeout_milliseconds := Some timeout, queued_at := Some now,
       acknowledgement_deadline_at := Some (now + calculate_acknowledgement_wait S (Some timeout))\<rparr>"
| "build_packet_outcome_changes S (PacketRejectedByNode code) now p =
     p\<lparr>packet_state := PACKET_REJECTED_BY_NODE, node_error_code := Some code\<rparr>"
| "build_packet_outcome_changes S PacketOutcomeUnknown now p = p\<lparr>packet_state := PACKET_OUTCOME_UNKNOWN\<rparr>"

definition describe_recorded_outcome :: "packet \<Rightarrow> recorded_send_outcome" where
  "describe_recorded_outcome p =
     \<lparr>recorded_packet_id = packet_id p, outcome_contact_id = packet_contact_id p, recorded_purpose = packet_purpose p,
      recorded_packet_state = packet_state p, recorded_route = packet_route p,
      recorded_acknowledgement_code = expected_acknowledgement_code p, recorded_queued_at = queued_at p,
      recorded_deadline_at = (if packet_state p = PACKET_QUEUED_ON_NODE then acknowledgement_deadline_at p else None),
      node_packet_pool_full = False, contact_needs_reconciliation = False\<rparr>"

definition find_packet :: "nat \<Rightarrow> db \<Rightarrow> packet option" where
  "find_packet i db = first_where (\<lambda>p. packet_id p = i) (packets db)"

definition record_send_outcome_in_transaction ::
  "relay_settings \<Rightarrow> nat \<Rightarrow> node_send_outcome \<Rightarrow> datetime \<Rightarrow> db \<Rightarrow> recorded_send_outcome option \<times> db" where
  "record_send_outcome_in_transaction S i outcome now db =
     (case find_packet i db of
        None \<Rightarrow> (None, db)
      | Some p \<Rightarrow>
          if packet_state p \<noteq> PACKET_PREPARED then (Some (describe_recorded_outcome p), db)
          else
            let is_contact_missing_on_node = (outcome = PacketRejectedByNode ERR_CODE_NOT_FOUND);
                db1 = (case packet_contact_id p of
                         Some contact_key \<Rightarrow> if is_contact_missing_on_node
                                              then mark_contact_missing_on_node contact_key db else db
                       | None \<Rightarrow> db);
                db2 = (if counts_as_sent outcome
                       then count_packet_as_sent S p
                              (case outcome of PacketQueuedOnNode _ _ timeout \<Rightarrow> Some timeout | _ \<Rightarrow> None) now db1
                       else db1);
                db3 = db2\<lparr>packets := update_where (\<lambda>q. packet_id q = i \<and> packet_state q = PACKET_PREPARED)
                            (build_packet_outcome_changes S outcome now) (packets db2)\<rparr>;
                is_node_packet_pool_full = (outcome = PacketRejectedByNode ERR_CODE_TABLE_FULL)
            in (map_option (\<lambda>q. (describe_recorded_outcome q)
                    \<lparr>node_packet_pool_full := is_node_packet_pool_full,
                     contact_needs_reconciliation := is_contact_missing_on_node\<rparr>) (find_packet i db3), db3))"

section \<open>The firmware acknowledgement\<close>

fun acknowledge_loop :: "int option \<Rightarrow> datetime \<Rightarrow> packet list \<Rightarrow> db \<Rightarrow> acknowledged_packet list \<times> db" where
  "acknowledge_loop round_trip now [] db = ([], db)"
| "acknowledge_loop round_trip now (p # ps) db =
     (let change = (\<lambda>q. let q1 = q\<lparr>packet_state := PACKET_NODE_ACKNOWLEDGED, acknowledged_at := Some now,
                                    round_trip_milliseconds := round_trip\<rparr>
                        in if route_reset_state p = RESET_PENDING
                           then q1\<lparr>route_reset_state := RESET_SKIPPED_LATE_ACKNOWLEDGEMENT,
                                   route_reset_decided_at := Some now\<rparr> else q1);
          db1 = db\<lparr>packets := update_where (\<lambda>q. packet_id q = packet_id p \<and> packet_state q = packet_state p)
                    change (packets db)\<rparr>;
          (acknowledged, db2) = acknowledge_loop round_trip now ps db1
      in (\<lparr>acknowledged_packet_id = packet_id p, acknowledged_contact_id = packet_contact_id p,
           was_awaiting_acknowledgement = (packet_state p = PACKET_QUEUED_ON_NODE)\<rparr> # acknowledged, db2))"

definition record_node_acknowledgement ::
  "pystr \<Rightarrow> int option \<Rightarrow> datetime \<Rightarrow> db \<Rightarrow> acknowledged_packet list \<times> db" where
  "record_node_acknowledgement code round_trip now db =
     acknowledge_loop round_trip now
       (select_where (\<lambda>p. expected_acknowledgement_code p = lower code \<and>
                          packet_state p \<in> set PACKET_STATES_AWAITING_ACKNOWLEDGEMENT \<and>
                          (case queued_at p of None \<Rightarrow> False
                           | Some t \<Rightarrow> t \<ge> now - timedelta_minutes LATE_ACKNOWLEDGEMENT_MATCH_MINUTES)) (packets db)) db"

definition record_acknowledgement_deadline_passed_in_transaction ::
  "nat \<Rightarrow> datetime \<Rightarrow> db \<Rightarrow> acknowledgement_timeout option \<times> db" where
  "record_acknowledgement_deadline_passed_in_transaction i now db =
     (case first_where (\<lambda>p. packet_id p = i \<and> packet_state p = PACKET_QUEUED_ON_NODE) (packets db) of
        None \<Rightarrow> (None, db)
      | Some p \<Rightarrow>
          let path_update = Option.bind (packet_contact_id p)
                              (\<lambda>contact_key. Option.bind (find_contact contact_key db) last_path_update_at);
              reset = decide_route_reset_at_deadline (packet_route p) (queued_at p) path_update;
              is_route_reset_decided = reset = RESET_SKIPPED_PATH_UPDATE;
              db1 = db\<lparr>packets := update_where (\<lambda>q. packet_id q = i \<and> packet_state q = PACKET_QUEUED_ON_NODE)
                        (\<lambda>q. q\<lparr>packet_state := PACKET_ACKNOWLEDGEMENT_TIMED_OUT, route_reset_state := reset,
                                route_reset_decided_at := (if is_route_reset_decided then Some now else None)\<rparr>)
                        (packets db)\<rparr>
          in (Some \<lparr>timeout_packet_id = packet_id p, timeout_contact_id = packet_contact_id p,
                    timeout_purpose = packet_purpose p, route_reset_pending = (reset = RESET_PENDING)\<rparr>, db1))"

section \<open>Restarts\<close>

definition drop_packets_awaiting_acknowledgement :: "datetime \<Rightarrow> db \<Rightarrow> nat \<times> db" where
  "drop_packets_awaiting_acknowledgement now db =
     (let queued = (\<lambda>p. packet_state p = PACKET_QUEUED_ON_NODE)
      in (count_where queued (packets db),
          db\<lparr>packets := update_where queued
               (\<lambda>p. p\<lparr>packet_state := PACKET_ACKNOWLEDGEMENT_TIMED_OUT,
                       route_reset_state := RESET_DROPPED_BY_RESTART, route_reset_decided_at := Some now\<rparr>)
               (packets db)\<rparr>))"

definition drop_pending_route_resets :: "datetime \<Rightarrow> db \<Rightarrow> nat \<times> db" where
  "drop_pending_route_resets now db =
     (let pending = (\<lambda>p. route_reset_state p = RESET_PENDING)
      in (count_where pending (packets db),
          db\<lparr>packets := update_where pending
               (\<lambda>p. p\<lparr>route_reset_state := RESET_DROPPED_BY_RESTART, route_reset_decided_at := Some now\<rparr>)
               (packets db)\<rparr>))"

definition mark_prepared_packets_outcome_unknown :: "db \<Rightarrow> nat \<times> db" where
  "mark_prepared_packets_outcome_unknown db =
     (let prepared = (\<lambda>p. packet_state p = PACKET_PREPARED)
      in (count_where prepared (packets db),
          db\<lparr>packets := update_where prepared (\<lambda>p. p\<lparr>packet_state := PACKET_OUTCOME_UNKNOWN\<rparr>) (packets db)\<rparr>))"

definition recover_outbound_packets_at_startup :: "datetime \<Rightarrow> db \<Rightarrow> outbound_packet_recovery \<times> db" where
  "recover_outbound_packets_at_startup now db =
     (let (unknown, db1) = mark_prepared_packets_outcome_unknown db;
          (dropped, db2) = drop_packets_awaiting_acknowledgement now db1;
          (resets, db3) = drop_pending_route_resets now db2
      in (\<lparr>prepared_packets_now_unknown = unknown, queued_packets_dropped = dropped,
           route_resets_dropped = resets\<rparr>, db3))"

definition count_pending_route_resets :: "db \<Rightarrow> nat" where
  "count_pending_route_resets db =
     count_where (\<lambda>p. route_reset_state p = RESET_PENDING \<and> packet_contact_id p \<noteq> None) (packets db)"

definition select_packets_awaiting_node_acknowledgement :: "datetime \<Rightarrow> db \<Rightarrow> packet list" where
  "select_packets_awaiting_node_acknowledgement now db =
     select_where (\<lambda>p. (case acknowledgement_deadline_at p of None \<Rightarrow> False | Some t \<Rightarrow> t > now) \<and>
                       acknowledged_at p = None) (packets db)"

definition is_any_packet_awaiting_node_acknowledgement :: "datetime \<Rightarrow> db \<Rightarrow> bool" where
  "is_any_packet_awaiting_node_acknowledgement now db \<longleftrightarrow> select_packets_awaiting_node_acknowledgement now db \<noteq> []"

definition read_latest_acknowledgement_deadline :: "datetime \<Rightarrow> db \<Rightarrow> datetime option" where
  "read_latest_acknowledgement_deadline now db =
     (case List.map_filter acknowledgement_deadline_at (select_packets_awaiting_node_acknowledgement now db) of
        [] \<Rightarrow> None
      | t # ts \<Rightarrow> Some (fold max ts t))"

section \<open>The services move the database along the machines\<close>

lemma mark_contact_missing_moves: "db_moves db (mark_contact_missing_on_node contact_key db)"
  by (auto simp: mark_contact_missing_on_node_def contact_evolves_def contact_row_ok_def intro!: contacts_update_moves)

lemma part_sent_moves_snd: "deliveries_move db (snd (snd (record_delivery_part_sent S d part t now db)))"
  using record_delivery_part_sent_moves by (metis prod.collapse)

lemma receipt_sent_moves_snd: "receipts_move db (snd (snd (record_receipt_packet_sent S r t now db)))"
  using record_receipt_packet_sent_moves by (metis prod.collapse)

lemma count_packet_as_sent_moves: "db_moves db (count_packet_as_sent S p t now db)"
  by (simp add: count_packet_as_sent_def deliveries_move_db [OF part_sent_moves_snd] receipts_move_db [OF receipt_sent_moves_snd]
      split: option.split)

lemma count_packet_as_sent_packets: "packets (count_packet_as_sent S p t now db) = packets db"
  by (simp add: count_packet_as_sent_def deliveries_move_tables(7) [OF part_sent_moves_snd]
      receipts_move_tables(7) [OF receipt_sent_moves_snd] split: option.split)

lemma outcome_changes_evolve:
  "packet_state p = PACKET_PREPARED \<Longrightarrow> packet_evolves p (build_packet_outcome_changes S outcome now p)"
  by (cases outcome) (auto simp: packet_evolves_def)

lemma outcome_changes_id: "packet_id (build_packet_outcome_changes S outcome now p) = packet_id p"
  by (cases outcome) auto

lemma outcome_changes_state: "packet_state (build_packet_outcome_changes S outcome now p) \<noteq> PACKET_PREPARED"
  by (cases outcome) auto

lemma record_outcome_packets_moves:
  "db_moves db (db\<lparr>packets := update_where (\<lambda>q. packet_id q = i \<and> packet_state q = PACKET_PREPARED)
     (build_packet_outcome_changes S outcome now) (packets db)\<rparr>)"
  by (rule packets_update_moves) (auto simp: outcome_changes_evolve outcome_changes_id)

text \<open>The state the outcome of packet \<open>p\<close> leaves, before the packet itself is written.\<close>

definition outcome_effects :: "relay_settings \<Rightarrow> packet \<Rightarrow> node_send_outcome \<Rightarrow> datetime \<Rightarrow> db \<Rightarrow> db" where
  "outcome_effects S p outcome now db =
     (let db1 = (case packet_contact_id p of
                   Some contact_key \<Rightarrow> if outcome = PacketRejectedByNode ERR_CODE_NOT_FOUND
                                        then mark_contact_missing_on_node contact_key db else db
                 | None \<Rightarrow> db)
      in if counts_as_sent outcome
         then count_packet_as_sent S p (case outcome of PacketQueuedOnNode _ _ timeout \<Rightarrow> Some timeout | _ \<Rightarrow> None) now db1
         else db1)"

lemma outcome_effects_moves: "db_moves db (outcome_effects S p outcome now db)"
  by (auto simp: outcome_effects_def Let_def count_packet_as_sent_moves mark_contact_missing_moves
      intro: db_moves_trans [OF mark_contact_missing_moves] split: option.split)

lemma outcome_effects_packets: "packets (outcome_effects S p outcome now db) = packets db"
  by (simp add: outcome_effects_def Let_def count_packet_as_sent_packets mark_contact_missing_on_node_def split: option.split)

lemma record_outcome_eq:
  "snd (record_send_outcome_in_transaction S i outcome now db) =
     (case find_packet i db of
        None \<Rightarrow> db
      | Some p \<Rightarrow>
          if packet_state p \<noteq> PACKET_PREPARED then db
          else (outcome_effects S p outcome now db)
            \<lparr>packets := update_where (\<lambda>q. packet_id q = i \<and> packet_state q = PACKET_PREPARED)
               (build_packet_outcome_changes S outcome now) (packets db)\<rparr>)"
  by (auto simp: record_send_outcome_in_transaction_def outcome_effects_def Let_def count_packet_as_sent_packets
      mark_contact_missing_on_node_def split: option.split)

lemma record_send_outcome_moves: "db_moves db (snd (record_send_outcome_in_transaction S i outcome now db))"
proof (cases "find_packet i db")
  case (Some p)
  have "db_moves db ((outcome_effects S p outcome now db)\<lparr>packets := update_where (\<lambda>q. packet_id q = i \<and> packet_state q = PACKET_PREPARED)
               (build_packet_outcome_changes S outcome now) (packets db)\<rparr>)"
    using db_moves_trans [OF outcome_effects_moves record_outcome_packets_moves] outcome_effects_packets by metis
  with Some show ?thesis by (simp add: record_outcome_eq)
qed (simp add: record_outcome_eq)

text \<open>An outcome is recorded once: a second report, whatever it says, changes nothing.\<close>

lemma recorded_packet_is_not_prepared:
  assumes "keys_ok packet_id (packets db)" "find_packet i db = Some p" "packet_state p = PACKET_PREPARED"
  shows "find_packet i (snd (record_send_outcome_in_transaction S i outcome now db)) =
    Some (build_packet_outcome_changes S outcome now p)"
proof -
  have p: "p \<in> set (rows (packets db))" "packet_id p = i"
    using assms(2) unfolding find_packet_def by (auto dest!: first_where_SomeD)
  have "update_where (\<lambda>q. packet_id q = i \<and> packet_state q = PACKET_PREPARED) (build_packet_outcome_changes S outcome now) (packets db) =
      update_where (\<lambda>q. packet_id q = packet_id p) (\<lambda>_. build_packet_outcome_changes S outcome now p) (packets db)"
  proof (rule update_where_cong)
    fix r assume r: "r \<in> set (rows (packets db))"
    show "(packet_id r = i \<and> packet_state r = PACKET_PREPARED) \<longleftrightarrow> packet_id r = packet_id p"
      using packet_table.key_unique [OF assms(1) r p(1)] p(2) assms(3) by metis
    show "build_packet_outcome_changes S outcome now r = build_packet_outcome_changes S outcome now p" if "packet_id r = packet_id p"
      using packet_table.key_unique [OF assms(1) r p(1) that] by simp
  qed
  then show ?thesis
    using packet_table.first_where_written [OF assms(1), of "\<lambda>q. packet_id q = i" p "build_packet_outcome_changes S outcome now p"]
      assms(2,3) p outcome_changes_id [of S outcome now p]
    by (simp add: record_outcome_eq find_packet_def)
qed

lemma outcome_recorded_once:
  assumes "keys_ok packet_id (packets db)"
  shows "snd (record_send_outcome_in_transaction S i later now' (snd (record_send_outcome_in_transaction S i outcome now db))) =
    snd (record_send_outcome_in_transaction S i outcome now db)"
proof (cases "find_packet i db")
  case (Some p)
  show ?thesis
  proof (cases "packet_state p = PACKET_PREPARED")
    case True
    show ?thesis
      unfolding record_outcome_eq [of S i later] recorded_packet_is_not_prepared [OF assms Some True]
      by (simp add: outcome_changes_state)
  qed (use Some in \<open>simp add: record_outcome_eq\<close>)
qed (simp add: record_outcome_eq)

section \<open>The outcome of a packet of an earlier arm\<close>

text \<open>
  The row a packet was prepared for is still in the arm and the attempt the packet was prepared in, and
  still waits for it.
\<close>

definition packet_is_current :: "packet \<Rightarrow> db \<Rightarrow> bool" where
  "packet_is_current p db \<longleftrightarrow>
     exists_where (\<lambda>d. packet_delivery_id p = Some (delivery_id d) \<and> delivery_state d = DELIVERY_PENDING \<and>
        packet_arm_generation p = Some (arm_generation d) \<and> packet_attempt_number p = Some (attempt_count d)) (deliveries db) \<or>
     exists_where (\<lambda>r. packet_receipt_id p = Some (receipt_id r) \<and> receipt_state r = RECEIPT_PENDING \<and>
        packet_arm_generation p = Some (receipt_arm_generation r) \<and> packet_attempt_number p = Some (receipt_attempt_count r) \<and>
        round_pending r) (receipts db)"

lemma stale_packet_counts_nothing:
  assumes "\<not> packet_is_current p db"
  shows "count_packet_as_sent S p t now db = db"
proof -
  have d: "first_where (\<lambda>d. delivery_id d = delivery \<and> delivery_state d = DELIVERY_PENDING \<and> arm_generation d = generation \<and>
      attempt_count d = attempt) (deliveries db) = None"
    if "packet_delivery_id p = Some delivery" "packet_arm_generation p = Some generation" "packet_attempt_number p = Some attempt"
    for delivery generation attempt
    using assms that by (auto simp: packet_is_current_def exists_where_def list_ex_iff first_where_def find_None_iff)
  have r: "first_where (\<lambda>r. receipt_id r = receipt \<and> receipt_state r = RECEIPT_PENDING \<and> receipt_arm_generation r = generation \<and>
      receipt_attempt_count r = attempt \<and> round_pending r) (receipts db) = None"
    if "packet_receipt_id p = Some receipt" "packet_arm_generation p = Some generation" "packet_attempt_number p = Some attempt"
    for receipt generation attempt
    using assms that by (auto simp: packet_is_current_def exists_where_def list_ex_iff first_where_def find_None_iff)
  show ?thesis by (auto simp: count_packet_as_sent_def d r split: option.split)
qed

lemma stale_outcome_changes_no_row:
  assumes "find_packet i db = Some p" "\<not> packet_is_current p db"
  shows "deliveries (snd (record_send_outcome_in_transaction S i outcome now db)) = deliveries db"
    and "receipts (snd (record_send_outcome_in_transaction S i outcome now db)) = receipts db"
proof -
  have "\<not> packet_is_current p (mark_contact_missing_on_node c db)" for c
    using assms(2) by (simp add: packet_is_current_def mark_contact_missing_on_node_def)
  note stale = stale_packet_counts_nothing [OF this] stale_packet_counts_nothing [OF assms(2)]
  show "deliveries (snd (record_send_outcome_in_transaction S i outcome now db)) = deliveries db"
    and "receipts (snd (record_send_outcome_in_transaction S i outcome now db)) = receipts db"
    using assms(1)
    by (simp_all add: record_outcome_eq outcome_effects_def Let_def stale mark_contact_missing_on_node_def split: option.split)
qed

section \<open>Acknowledgements, deadlines and restarts touch only packets\<close>

definition only_packets_move :: "db \<Rightarrow> db \<Rightarrow> bool" where
  "only_packets_move db db' \<longleftrightarrow> db_moves db db' \<and> (\<exists>t. db' = db\<lparr>packets := t\<rparr>)"

lemma only_packets_move_refl [simp]: "only_packets_move db db"
  by (auto simp: only_packets_move_def intro!: exI [of _ "packets db"])

lemma only_packets_move_trans: "only_packets_move a b \<Longrightarrow> only_packets_move b c \<Longrightarrow> only_packets_move a c"
  by (auto simp: only_packets_move_def intro: db_moves_trans)

lemma only_packets_moveI:
  assumes "\<And>p. p \<in> set (rows (packets db)) \<Longrightarrow> P p \<Longrightarrow> packet_evolves p (f p)" "\<And>p. packet_id (f p) = packet_id p"
  shows "only_packets_move db (db\<lparr>packets := update_where P f (packets db)\<rparr>)"
  using packets_update_moves [OF assms] by (auto simp: only_packets_move_def)

lemma acknowledge_loop_moves:
  "\<forall>p \<in> set ps. packet_state p \<in> set PACKET_STATES_AWAITING_ACKNOWLEDGEMENT \<Longrightarrow>
     only_packets_move db (snd (acknowledge_loop round_trip now ps db))"
proof (induction ps arbitrary: db)
  case (Cons p ps)
  define change where "change = (\<lambda>q :: packet. let q1 = q\<lparr>packet_state := PACKET_NODE_ACKNOWLEDGED, acknowledged_at := Some now,
                                    round_trip_milliseconds := round_trip\<rparr>
                        in if route_reset_state p = RESET_PENDING
                           then q1\<lparr>route_reset_state := RESET_SKIPPED_LATE_ACKNOWLEDGEMENT,
                                   route_reset_decided_at := Some now\<rparr> else q1)"
  have "only_packets_move db (db\<lparr>packets := update_where (\<lambda>q. packet_id q = packet_id p \<and> packet_state q = packet_state p) change (packets db)\<rparr>)"
    using Cons.prems
    by (intro only_packets_moveI) (auto simp: change_def Let_def packet_evolves_def PACKET_STATES_AWAITING_ACKNOWLEDGEMENT_def)
  from only_packets_move_trans [OF this Cons.IH] Cons.prems show ?case
    by (simp add: Let_def case_prod_beta change_def)
qed simp

lemma record_node_acknowledgement_moves: "only_packets_move db (snd (record_node_acknowledgement code round_trip now db))"
  unfolding record_node_acknowledgement_def by (rule acknowledge_loop_moves) simp

lemma deadline_passed_moves: "only_packets_move db (snd (record_acknowledgement_deadline_passed_in_transaction i now db))"
  by (auto simp: record_acknowledgement_deadline_passed_in_transaction_def Let_def packet_evolves_def
      split: option.split intro!: only_packets_moveI)

lemma restart_steps_move:
  "only_packets_move db (snd (mark_prepared_packets_outcome_unknown db))"
  "only_packets_move db (snd (drop_packets_awaiting_acknowledgement now db))"
  "only_packets_move db (snd (drop_pending_route_resets now db))"
  by (auto simp: mark_prepared_packets_outcome_unknown_def drop_packets_awaiting_acknowledgement_def
      drop_pending_route_resets_def Let_def packet_evolves_def intro!: only_packets_moveI)

lemma recover_moves: "only_packets_move db (snd (recover_outbound_packets_at_startup now db))"
  using only_packets_move_trans [OF only_packets_move_trans [OF restart_steps_move(1) restart_steps_move(2)] restart_steps_move(3)]
  by (simp add: recover_outbound_packets_at_startup_def case_prod_beta)

text \<open>After a restart no packet waits for the node, and a second recovery finds nothing.\<close>

definition packet_is_settled :: "packet \<Rightarrow> bool" where
  "packet_is_settled p \<longleftrightarrow> packet_state p \<notin> {PACKET_PREPARED, PACKET_QUEUED_ON_NODE} \<and> route_reset_state p \<noteq> RESET_PENDING"

lemma recover_settles: "all_rows packet_is_settled (packets (snd (recover_outbound_packets_at_startup now db)))"
  by (auto simp: recover_outbound_packets_at_startup_def mark_prepared_packets_outcome_unknown_def Let_def
      drop_packets_awaiting_acknowledgement_def drop_pending_route_resets_def all_rows_def packet_is_settled_def split: if_splits)

lemma recover_settled:
  assumes "all_rows packet_is_settled (packets db)"
  shows "recover_outbound_packets_at_startup now db =
    (\<lparr>prepared_packets_now_unknown = 0, queued_packets_dropped = 0, route_resets_dropped = 0\<rparr>, db)"
proof -
  have none: "\<forall>p \<in> set (rows (packets db)). packet_state p \<noteq> PACKET_PREPARED"
    "\<forall>p \<in> set (rows (packets db)). packet_state p \<noteq> PACKET_QUEUED_ON_NODE"
    "\<forall>p \<in> set (rows (packets db)). route_reset_state p \<noteq> RESET_PENDING"
    using assms by (auto simp: all_rows_def packet_is_settled_def)
  then show ?thesis
    by (simp add: recover_outbound_packets_at_startup_def mark_prepared_packets_outcome_unknown_def Let_def
        drop_packets_awaiting_acknowledgement_def drop_pending_route_resets_def count_where_def filter_empty_conv)
qed

end
