(* ===== verification/Reply_Queue.thy ===== *)
theory Reply_Queue
  imports Relay_Prelude "HOL-Library.AList" "HOL-Library.Product_Lexorder" Complex_Main
begin

text \<open>
  Replies waiting for the sender loop (\<^verbatim>\<open>worker/reply_queue.py\<close>): one per contact and request, in the
  worker's memory. A dictionary is an association list in insertion order, and a time is an exact rational
  number of seconds. The lemmas show that a key has at most one pending reply, the newest; that the reply
  taken is ready, not expired, not a repeat of a text just sent, and the earliest of those; and that a
  flood resend is never held back.
\<close>

datatype reply_readiness = IMMEDIATE | COALESCED_INCOMPLETE_STATUS

text \<open>The three delays of \<^verbatim>\<open>worker/worker_timing.py\<close> the queue uses, with the production values.\<close>

record reply_timing =
  incomplete_status_coalescing_seconds :: rat
  reply_lifetime_seconds :: rat
  identical_reply_suppression_seconds :: rat

definition default_reply_timing :: reply_timing where
  "default_reply_timing =
     \<lparr>incomplete_status_coalescing_seconds = 5, reply_lifetime_seconds = 60, identical_reply_suppression_seconds = 10\<rparr>"

record pending_reply =
  pending_contact_id :: nat
  pending_reply_key :: pystr
  pending_text :: pystr
  ready_at :: rat
  pending_created_at :: rat
  expires_at :: rat
  sequence_number :: nat
  bypasses_identical_reply_suppression :: bool

type_synonym reply_identity = "nat \<times> pystr"

record reply_queue =
  timing :: reply_timing
  pending_replies :: "(reply_identity \<times> pending_reply) list"
  sent_texts :: "((nat \<times> pystr) \<times> rat) list"
  sequence_numbers :: nat

definition reply_identity_of :: "pending_reply \<Rightarrow> reply_identity" where
  "reply_identity_of r = (pending_contact_id r, pending_reply_key r)"

definition new_reply_queue :: "reply_timing \<Rightarrow> reply_queue" where
  "new_reply_queue T = \<lparr>timing = T, pending_replies = [], sent_texts = [], sequence_numbers = 0\<rparr>"

definition reply_queue_len :: "reply_queue \<Rightarrow> nat" where
  "reply_queue_len q = length (pending_replies q)"

section \<open>Adding\<close>

definition put_reply :: "pending_reply \<Rightarrow> reply_queue \<Rightarrow> reply_queue" where
  "put_reply r q = q\<lparr>pending_replies := AList.update (reply_identity_of r) r (pending_replies q)\<rparr>"

definition add_reply ::
  "nat \<Rightarrow> pystr \<Rightarrow> pystr \<Rightarrow> reply_readiness \<Rightarrow> rat \<Rightarrow> reply_queue \<Rightarrow> pending_reply \<times> reply_queue" where
  "add_reply contact_key key text readiness now q =
     (let is_coalesced = readiness = COALESCED_INCOMPLETE_STATUS;
          ready_delay = (if is_coalesced then incomplete_status_coalescing_seconds (timing q) else 0);
          r = \<lparr>pending_contact_id = contact_key, pending_reply_key = key, pending_text = text,
               ready_at = now + ready_delay, pending_created_at = now,
               expires_at = now + reply_lifetime_seconds (timing q), sequence_number = sequence_numbers q,
               bypasses_identical_reply_suppression = False\<rparr>
      in (r, put_reply r (q\<lparr>sequence_numbers := Suc (sequence_numbers q)\<rparr>)))"

definition add_flood_resend :: "nat \<Rightarrow> pystr \<Rightarrow> pystr \<Rightarrow> rat \<Rightarrow> reply_queue \<Rightarrow> pending_reply \<times> reply_queue" where
  "add_flood_resend contact_key key text now q =
     (let r = \<lparr>pending_contact_id = contact_key, pending_reply_key = key, pending_text = text,
               ready_at = now, pending_created_at = now,
               expires_at = now + reply_lifetime_seconds (timing q), sequence_number = sequence_numbers q,
               bypasses_identical_reply_suppression = True\<rparr>
      in (r, put_reply r (q\<lparr>sequence_numbers := Suc (sequence_numbers q)\<rparr>)))"

definition has_reply_for :: "nat \<Rightarrow> pystr \<Rightarrow> reply_queue \<Rightarrow> bool" where
  "has_reply_for contact_key key q \<longleftrightarrow> map_of (pending_replies q) (contact_key, key) \<noteq> None"

definition put_back :: "pending_reply \<Rightarrow> rat \<Rightarrow> reply_queue \<Rightarrow> bool \<times> reply_queue" where
  "put_back r new_ready_at q =
     (if map_of (pending_replies q) (reply_identity_of r) \<noteq> None \<or> new_ready_at \<ge> expires_at r then (False, q)
      else (True, put_reply (r\<lparr>ready_at := new_ready_at\<rparr>) q))"

section \<open>Taking\<close>

definition order_by_readiness :: "pending_reply \<Rightarrow> rat \<times> nat" where
  "order_by_readiness r = (ready_at r, sequence_number r)"

definition drop_expired_replies :: "rat \<Rightarrow> reply_queue \<Rightarrow> reply_queue" where
  "drop_expired_replies now q = q\<lparr>pending_replies := filter (\<lambda>(_, r). \<not> expires_at r \<le> now) (pending_replies q)\<rparr>"

definition repeats_a_recently_sent_text :: "pending_reply \<Rightarrow> rat \<Rightarrow> reply_queue \<Rightarrow> bool" where
  "repeats_a_recently_sent_text r now q \<longleftrightarrow>
     (if bypasses_identical_reply_suppression r then False
      else case map_of (sent_texts q) (pending_contact_id r, pending_text r) of
             None \<Rightarrow> False
           | Some sent_at \<Rightarrow> now - sent_at < identical_reply_suppression_seconds (timing q))"

fun take_ready_loop :: "rat \<Rightarrow> pending_reply list \<Rightarrow> reply_queue \<Rightarrow> pending_reply option \<times> reply_queue" where
  "take_ready_loop now [] q = (None, q)"
| "take_ready_loop now (r # rs) q =
     (if ready_at r > now then (None, q)
      else let q1 = q\<lparr>pending_replies := AList.delete (reply_identity_of r) (pending_replies q)\<rparr>
           in if \<not> repeats_a_recently_sent_text r now q1 then (Some r, q1) else take_ready_loop now rs q1)"

definition take_next_ready_reply :: "rat \<Rightarrow> reply_queue \<Rightarrow> pending_reply option \<times> reply_queue" where
  "take_next_ready_reply now q =
     (let q1 = drop_expired_replies now q
      in take_ready_loop now (sort_key order_by_readiness (map snd (pending_replies q1))) q1)"

definition forget_old_sent_texts :: "rat \<Rightarrow> reply_queue \<Rightarrow> reply_queue" where
  "forget_old_sent_texts now q =
     q\<lparr>sent_texts := filter (\<lambda>(_, sent_at). \<not> now - sent_at \<ge> identical_reply_suppression_seconds (timing q)) (sent_texts q)\<rparr>"

definition record_reply_sent :: "pending_reply \<Rightarrow> rat \<Rightarrow> reply_queue \<Rightarrow> reply_queue" where
  "record_reply_sent r now q =
     (if bypasses_identical_reply_suppression r then q
      else let q1 = forget_old_sent_texts now q
           in q1\<lparr>sent_texts := AList.update (pending_contact_id r, pending_text r) now (sent_texts q1)\<rparr>)"

definition next_ready_time :: "rat \<Rightarrow> reply_queue \<Rightarrow> rat option \<times> reply_queue" where
  "next_ready_time now q =
     (let q1 = drop_expired_replies now q
      in (case map (ready_at \<circ> snd) (pending_replies q1) of [] \<Rightarrow> None | t # ts \<Rightarrow> Some (fold min ts t), q1))"

definition drop_replies_to_contacts_other_than :: "nat list \<Rightarrow> reply_queue \<Rightarrow> nat \<times> reply_queue" where
  "drop_replies_to_contacts_other_than existing q =
     (length (filter (\<lambda>(identity, _). fst identity \<notin> set existing) (pending_replies q)),
      q\<lparr>pending_replies := filter (\<lambda>(identity, _). fst identity \<in> set existing) (pending_replies q)\<rparr>)"

section \<open>The queue's invariant\<close>

text \<open>One reply per identity, stored under its own identity, with distinct sequence numbers all handed out.\<close>

definition queue_ok :: "reply_queue \<Rightarrow> bool" where
  "queue_ok q \<longleftrightarrow>
     distinct (map fst (pending_replies q)) \<and> distinct (map fst (sent_texts q)) \<and>
     (\<forall>(identity, r) \<in> set (pending_replies q). identity = reply_identity_of r \<and> sequence_number r < sequence_numbers q)"

lemma queue_ok_new: "queue_ok (new_reply_queue T)"
  by (simp add: queue_ok_def new_reply_queue_def)

lemma distinct_filter_fst: "distinct (map fst xs) \<Longrightarrow> distinct (map fst (filter P xs))"
  by (rule distinct_map_filter)

lemma update_entry: "(k, v) \<in> set (AList.update a b al) \<Longrightarrow> distinct (map fst al) \<Longrightarrow> k = a \<and> v = b \<or> (k, v) \<in> set al"
  by (metis map_of_eq_Some_iff distinct_update update_conv fun_upd_other fun_upd_same option.inject)

lemma put_reply_ok:
  assumes "queue_ok q" "sequence_number r < sequence_numbers q"
  shows "queue_ok (put_reply r q)"
  using assms by (auto simp: queue_ok_def put_reply_def distinct_update dest!: update_entry)

lemma add_reply_ok: "queue_ok q \<Longrightarrow> queue_ok (snd (add_reply contact_key key line readiness now q))"
  by (auto simp: add_reply_def Let_def intro!: put_reply_ok) (auto simp: queue_ok_def less_Suc_eq)

lemma add_flood_resend_ok: "queue_ok q \<Longrightarrow> queue_ok (snd (add_flood_resend contact_key key line now q))"
  by (auto simp: add_flood_resend_def Let_def intro!: put_reply_ok) (auto simp: queue_ok_def less_Suc_eq)

lemma filtered_queue_ok: "queue_ok q \<Longrightarrow> queue_ok (q\<lparr>pending_replies := filter P (pending_replies q)\<rparr>)"
  by (auto simp: queue_ok_def distinct_filter_fst)

lemma delete_entry: "AList.delete k al = filter (\<lambda>(k', _). k \<noteq> k') al"
  by (simp add: AList.delete_eq case_prod_beta)

lemma take_ready_loop_ok: "queue_ok q \<Longrightarrow> take_ready_loop now rs q = (r, q') \<Longrightarrow> queue_ok q'"
proof (induction rs arbitrary: q)
  case (Cons x rs)
  have "queue_ok (q\<lparr>pending_replies := AList.delete (reply_identity_of x) (pending_replies q)\<rparr>)"
    unfolding delete_entry by (rule filtered_queue_ok [OF Cons.prems(1)])
  with Cons show ?case by (auto simp: Let_def split: if_splits)
qed simp

lemma take_next_ready_reply_ok: "queue_ok q \<Longrightarrow> take_next_ready_reply now q = (r, q') \<Longrightarrow> queue_ok q'"
  by (auto simp: take_next_ready_reply_def drop_expired_replies_def Let_def intro: take_ready_loop_ok [OF filtered_queue_ok])

lemma put_back_ok: "queue_ok q \<Longrightarrow> sequence_number r < sequence_numbers q \<Longrightarrow> queue_ok (snd (put_back r t q))"
  by (simp add: put_back_def put_reply_ok)

lemma record_reply_sent_ok: "queue_ok q \<Longrightarrow> queue_ok (record_reply_sent r now q)"
  by (auto simp: record_reply_sent_def forget_old_sent_texts_def Let_def queue_ok_def distinct_update distinct_filter_fst)

lemma next_ready_time_ok: "queue_ok q \<Longrightarrow> queue_ok (snd (next_ready_time now q))"
  by (simp add: next_ready_time_def drop_expired_replies_def Let_def filtered_queue_ok)

lemma drop_replies_ok: "queue_ok q \<Longrightarrow> queue_ok (snd (drop_replies_to_contacts_other_than existing q))"
  by (simp add: drop_replies_to_contacts_other_than_def filtered_queue_ok)

section \<open>The newest reply wins\<close>

lemma newest_reply_wins:
  assumes "add_reply contact_key key line readiness now q = (r, q')"
  shows "map_of (pending_replies q') (contact_key, key) = Some r"
    and "identity \<noteq> (contact_key, key) \<Longrightarrow> map_of (pending_replies q') identity = map_of (pending_replies q) identity"
  using assms by (auto simp: add_reply_def put_reply_def reply_identity_of_def Let_def update_conv)

section \<open>What is taken\<close>

text \<open>A pending reply that may be sent now.\<close>

definition is_sendable_now :: "rat \<Rightarrow> reply_queue \<Rightarrow> pending_reply \<Rightarrow> bool" where
  "is_sendable_now now q r \<longleftrightarrow>
     r \<in> snd ` set (pending_replies q) \<and> now < expires_at r \<and> ready_at r \<le> now \<and> \<not> repeats_a_recently_sent_text r now q"

lemma repeats_pending [simp]:
  "repeats_a_recently_sent_text r now (q\<lparr>pending_replies := x\<rparr>) = repeats_a_recently_sent_text r now q"
  by (simp add: repeats_a_recently_sent_text_def cong: option.case_cong)

text \<open>The loop stops at the first reply that is not ready, or takes the first one that is no repeat.\<close>

lemma take_ready_loop_spec:
  assumes "sorted (map order_by_readiness rs)"
  shows "fst (take_ready_loop now rs q) =
    find (\<lambda>r. ready_at r \<le> now \<and> \<not> repeats_a_recently_sent_text r now q) rs"
  using assms
proof (induction rs arbitrary: q)
  case (Cons r rs)
  show ?case
  proof (cases "ready_at r > now")
    case True
    then have "\<not> ready_at x \<le> now" if "x \<in> set rs" for x
      using Cons.prems that by (auto simp: order_by_readiness_def less_eq_prod_def)
    then have "find (\<lambda>r. ready_at r \<le> now \<and> \<not> repeats_a_recently_sent_text r now q) rs = None"
      by (auto simp: find_None_iff)
    with True show ?thesis by simp
  next
    case False
    with Cons show ?thesis by (simp add: Let_def)
  qed
qed simp

lemma take_next_spec:
  "fst (take_next_ready_reply now q) =
     find (\<lambda>r. ready_at r \<le> now \<and> \<not> repeats_a_recently_sent_text r now q)
       (sort_key order_by_readiness (map snd (filter (\<lambda>(_, r). \<not> expires_at r \<le> now) (pending_replies q))))"
  by (simp add: take_next_ready_reply_def drop_expired_replies_def Let_def take_ready_loop_spec)

lemma find_sorted_least:
  assumes "find P xs = Some x" "sorted (map k xs)" "y \<in> set xs" "P y"
  shows "k x \<le> (k y :: 'a :: linorder)"
proof -
  obtain i where i: "i < length xs" "P (xs ! i)" "x = xs ! i" "\<forall>j < i. \<not> P (xs ! j)" using assms(1) by (auto simp: find_Some_iff)
  obtain j where j: "j < length xs" "y = xs ! j" using assms(3) by (auto simp: in_set_conv_nth)
  then have "i \<le> j" using i(4) assms(4) by (meson not_le)
  with assms(2) i j show ?thesis by (simp add: sorted_iff_nth_mono)
qed

lemma taken_reply_is_earliest:
  assumes "take_next_ready_reply now q = (Some r, q')"
  shows "is_sendable_now now q r"
    and "is_sendable_now now q x \<Longrightarrow> order_by_readiness r \<le> order_by_readiness x"
proof -
  let ?rs = "sort_key order_by_readiness (map snd (filter (\<lambda>(_, r). \<not> expires_at r \<le> now) (pending_replies q)))"
  let ?P = "\<lambda>r. ready_at r \<le> now \<and> \<not> repeats_a_recently_sent_text r now q"
  have f: "find ?P ?rs = Some r" using take_next_spec [of now q] assms by simp
  then have "r \<in> set ?rs" "?P r" unfolding find_Some_iff by (metis nth_mem, metis)
  then show "is_sendable_now now q r" by (force simp: is_sendable_now_def)
  show "order_by_readiness r \<le> order_by_readiness x" if "is_sendable_now now q x"
    by (rule find_sorted_least [OF f]) (use that in \<open>force simp: is_sendable_now_def\<close>)+
qed

lemma nothing_taken:
  assumes "take_next_ready_reply now q = (None, q')"
  shows "\<not> is_sendable_now now q x"
proof
  assume "is_sendable_now now q x"
  moreover have "find (\<lambda>r. ready_at r \<le> now \<and> \<not> repeats_a_recently_sent_text r now q)
       (sort_key order_by_readiness (map snd (filter (\<lambda>(_, r). \<not> expires_at r \<le> now) (pending_replies q)))) = None"
    using take_next_spec [of now q] assms by simp
  ultimately show False by (force simp: find_None_iff is_sendable_now_def)
qed

text \<open>The reply taken is no longer pending.\<close>

lemma take_ready_loop_removes:
  "take_ready_loop now rs q = (Some r, q') \<Longrightarrow> map_of (pending_replies q') (reply_identity_of r) = None"
proof (induction rs arbitrary: q)
  case (Cons x rs)
  then show ?case by (auto simp: Let_def delete_conv split: if_splits)
qed simp

lemma taken_reply_is_gone: "take_next_ready_reply now q = (Some r, q') \<Longrightarrow> \<not> has_reply_for (pending_contact_id r) (pending_reply_key r) q'"
  by (auto simp: take_next_ready_reply_def Let_def has_reply_for_def reply_identity_of_def dest!: take_ready_loop_removes)

lemma flood_resend_is_taken:
  assumes "add_flood_resend contact_key key line now q = (r, q')" "queue_ok q" "0 < reply_lifetime_seconds (timing q)"
  shows "is_sendable_now now q' r"
proof -
  have "map_of (pending_replies q') (contact_key, key) = Some r"
    using assms(1) by (auto simp: add_flood_resend_def put_reply_def reply_identity_of_def Let_def update_conv)
  then have "r \<in> snd ` set (pending_replies q')" by (force dest: map_of_SomeD)
  with assms(1,3) show ?thesis
    by (auto simp: is_sendable_now_def add_flood_resend_def put_reply_def Let_def repeats_a_recently_sent_text_def)
qed

end
