(* ===== verification/Request_Processing.thy ===== *)
theory Request_Processing
  imports Accounts Inbound_Log Outbound_Packets Reply_Queue
begin

text \<open>
  Processing one recorded inbox row (\<^verbatim>\<open>messaging/request_processing.py\<close>): classify it, run the service it
  asks for, mark it processed, and return the replies to queue. \<open>seen\<close> is the database of the unlocked
  reads (the row, its contact, and what a service reads before its locks), \<open>db\<close> the one the locks hold.
  A service called here runs inside the row's transaction, so its own retry wrapper runs it once.
  The lemmas show that a row is processed at most once, that only requests are answered, that the one
  reply a row earns always formats and is read back by a client as sent, and what a failed row leaves.
\<close>

definition PLAIN_TEXT_TYPE :: int where
  "PLAIN_TEXT_TYPE = 0"

definition OUTCOME_SUMMARY_MAXIMUM_LENGTH :: nat where
  "OUTCOME_SUMMARY_MAXIMUM_LENGTH = 200"

definition REPLY_SUMMARY_MAXIMUM_LENGTH :: nat where
  "REPLY_SUMMARY_MAXIMUM_LENGTH = 160"

record queued_reply =
  reply_contact_id :: nat
  reply_key :: pystr
  reply_text :: pystr
  reply_server_message :: server_message
  queued_readiness :: reply_readiness

record inbound_processing_result =
  result_inbox_row_id :: nat
  result_contact_id :: "nat option"
  result_processing_state :: processing_state
  result_classification :: classification
  replies :: "queued_reply list"
  flood_arrival_route_reset_needed :: bool
  reconciliation_needed :: bool
  was_already_processed :: bool

record row_processing =
  row_classification :: classification
  row_outcome_summary :: pystr
  row_request_type :: pystr
  row_reply :: "server_message option"
  row_reply_readiness :: reply_readiness
  row_reconciliation_needed :: bool

text \<open>\<^verbatim>\<open>RowProcessing(\<dots>)\<close> with its defaults.\<close>

definition new_row_processing :: "classification \<Rightarrow> pystr \<Rightarrow> row_processing" where
  "new_row_processing kind summary =
     \<lparr>row_classification = kind, row_outcome_summary = summary, row_request_type = [], row_reply = None,
      row_reply_readiness = IMMEDIATE, row_reconciliation_needed = False\<rparr>"

section \<open>Classification\<close>

definition choose_text_to_process :: "pystr \<Rightarrow> pystr option \<Rightarrow> pystr \<times> bool" where
  "choose_text_to_process stored_text original_text =
     (if \<not> carries_account_request_password stored_text then (stored_text, True)
      else case original_text of
             Some original \<Rightarrow> if redact_stored_text original = stored_text then (original, True) else (stored_text, False)
           | None \<Rightarrow> (stored_text, False))"

definition read_version_one_type_letter :: "pystr \<Rightarrow> pystr" where
  "read_version_one_type_letter text =
     (if \<not> prefix PROTOCOL_PREFIX text then []
      else case take 1 (drop (length PROTOCOL_PREFIX) text) of
             [c] \<Rightarrow> if is_upper c \<or> is_lower c then [c] else []
           | _ \<Rightarrow> [])"

definition build_request_processing :: "client_message \<Rightarrow> server_message \<Rightarrow> pystr \<Rightarrow> reply_readiness \<Rightarrow> row_processing" where
  "build_request_processing request reply summary readiness =
     (new_row_processing REQUEST summary)
       \<lparr>row_request_type := client_type_letter (message_type request), row_reply := Some reply,
        row_reply_readiness := readiness\<rparr>"

definition build_acknowledgement_processing :: "pystr \<Rightarrow> pystr \<Rightarrow> row_processing" where
  "build_acknowledgement_processing request_type summary =
     (new_row_processing ACKNOWLEDGEMENT summary)\<lparr>row_request_type := request_type\<rparr>"

definition build_server_type_ignored :: "pystr \<Rightarrow> row_processing" where
  "build_server_type_ignored request_type =
     (new_row_processing SERVER_TYPE_IGNORED (str ''a server type from a contact; never answered''))
       \<lparr>row_request_type := request_type\<rparr>"

definition classify_unsupported_version :: "pystr \<Rightarrow> pystr \<Rightarrow> row_processing" where
  "classify_unsupported_version version next_character =
     (let version_error_reply = build_grammar_error_reply (UnsupportedVersion version next_character);
          summary = str ''protocol version '' @ version @
            (if version_error_reply = None then str ''; not a request, never answered'' else [])
      in (new_row_processing UNSUPPORTED_VERSION summary)\<lparr>row_reply := version_error_reply\<rparr>)"

definition classify_unknown_message_type :: "pystr \<Rightarrow> row_processing" where
  "classify_unknown_message_type letter =
     (case build_grammar_error_reply (UnknownMessageType letter) of
        None \<Rightarrow> build_server_type_ignored letter
      | Some unsupported_type_reply \<Rightarrow>
          (new_row_processing REQUEST (str ''unsupported request type '' @ letter))
            \<lparr>row_request_type := letter, row_reply := Some unsupported_type_reply\<rparr>)"

definition classify_syntax_error :: "pystr \<Rightarrow> pystr list \<Rightarrow> row_processing" where
  "classify_syntax_error request_type correlation_fields =
     (if request_type \<in> set ACKNOWLEDGEMENT_TYPES
      then build_acknowledgement_processing request_type (str ''dropped: a malformed acknowledgement'')
      else case build_grammar_error_reply (ProtocolSyntaxError request_type correlation_fields) of
             None \<Rightarrow> build_server_type_ignored request_type
           | Some syntax_error_reply \<Rightarrow>
               (new_row_processing SYNTAX_ERROR (str ''the request breaks the grammar''))
                 \<lparr>row_request_type := (if request_type = UNKNOWN_REQUEST_TYPE then [] else request_type),
                  row_reply := Some syntax_error_reply\<rparr>)"

section \<open>Serving\<close>

text \<open>
  The last two equations are not reached: \<^verbatim>\<open>classify_and_serve\<close> handles the acknowledgements itself.
\<close>

fun serve_request ::
  "relay_settings \<Rightarrow> password_services \<Rightarrow> db \<Rightarrow> nat \<Rightarrow> nat \<Rightarrow> client_message \<Rightarrow> bool \<Rightarrow> datetime \<Rightarrow> db \<Rightarrow> (row_processing \<times> db) res" where
  "serve_request S PW seen row device (AccountRequest username password) is_password_available now db =
     (if \<not> is_password_available
      then Inr ((new_row_processing REQUEST
                  (str ''not answered: its password is not kept across a restart; a retry is answered''))
                  \<lparr>row_request_type := client_type_letter ACCOUNT_REQUEST\<rparr>, db)
      else res_bind (register_or_sign_in PW seen device username password now db) (\<lambda>(out, db1).
             Inr (build_request_processing (AccountRequest username password) (account_reply out)
                    (account_outcome_summary out) IMMEDIATE, db1)))"
| "serve_request S PW seen row device (QueryRequest username) is_password_available now db =
     res_bind (user_exists seen device username) (\<lambda>out.
       Inr (build_request_processing (QueryRequest username) (query_reply out) (query_outcome_summary out) IMMEDIATE, db))"
| "serve_request S PW seen row device (MessagePartRequest recipient i n c text) is_password_available now db =
     res_bind (accept_message_part_in_transaction S seen device
         \<lparr>part_recipient_username = recipient, part_message_id = i, part_number = n, part_part_count = c, part_text = text\<rparr>
         now db) (\<lambda>(out, db1).
       Inr (build_request_processing (MessagePartRequest recipient i n c text) (part_reply out) (part_outcome_summary out)
              (if is_incomplete_status out then COALESCED_INCOMPLETE_STATUS else IMMEDIATE), db1))"
| "serve_request S PW seen row device (ReadRequest sender i) is_password_available now db =
     res_bind (record_read_in_transaction S device sender i now db) (\<lambda>(out, db1).
       Inr (build_request_processing (ReadRequest sender i) (read_reply out) (read_outcome_summary out) IMMEDIATE, db1))"
| "serve_request S PW seen row device (RefreshRequest target) is_password_available now db =
     res_bind (start_refresh_in_transaction S seen device target now (Some row) db) (\<lambda>(out, db1).
       Inr (build_request_processing (RefreshRequest target) (refresh_reply out) (refresh_outcome_summary out) IMMEDIATE,
            db1))"
| "serve_request S PW seen row device (DeliveryAcknowledgement sender i received) is_password_available now db = Inl ValueError"
| "serve_request S PW seen row device (ReceiptAcknowledgement recipient i level) is_password_available now db = Inl ValueError"

definition classify_and_serve ::
  "relay_settings \<Rightarrow> password_services \<Rightarrow> db \<Rightarrow> inbound \<Rightarrow> contact option \<Rightarrow> parsed_direct_message \<Rightarrow> bool \<Rightarrow> datetime \<Rightarrow> db \<Rightarrow>
     (row_processing \<times> db) res" where
  "classify_and_serve S PW seen row contact_found parsed is_password_available now db =
     (case contact_found of
        None \<Rightarrow>
          Inr ((new_row_processing UNKNOWN_SENDER
                 (str ''dropped: the sender is not a contact; a reconciliation is requested''))
                 \<lparr>row_reconciliation_needed := True\<rparr>, db)
      | Some device \<Rightarrow>
          if text_type row \<noteq> PLAIN_TEXT_TYPE
          then Inr (new_row_processing UNSUPPORTED_TEXT_TYPE (str ''dropped: MeshCore text type '' @ str_of_int (text_type row)), db)
          else
            let request_type = read_version_one_type_letter (inbound_text row)
            in case parsed of
                 OtherText _ \<Rightarrow> Inr (new_row_processing NOT_PROTOCOL (str ''not protocol; never answered''), db)
               | UnsupportedVersion version next_character \<Rightarrow> Inr (classify_unsupported_version version next_character, db)
               | ServerMessage _ \<Rightarrow> Inr (build_server_type_ignored request_type, db)
               | UnknownMessageType letter \<Rightarrow> Inr (classify_unknown_message_type letter, db)
               | ProtocolSyntaxError type_letter correlation_fields \<Rightarrow> Inr (classify_syntax_error type_letter correlation_fields, db)
               | ClientMessage (DeliveryAcknowledgement sender i received) \<Rightarrow>
                   res_bind (record_delivery_acknowledgement_in_transaction S (contact_id device) sender i received now db)
                     (\<lambda>(summary, db1). Inr (build_acknowledgement_processing request_type summary, db1))
               | ClientMessage (ReceiptAcknowledgement recipient i level) \<Rightarrow>
                   res_bind (record_receipt_acknowledgement_in_transaction (contact_id device) recipient i level now db)
                     (\<lambda>(summary, db1). Inr (build_acknowledgement_processing request_type summary, db1))
               | ClientMessage request \<Rightarrow>
                   serve_request S PW seen (inbound_id row) (contact_id device) request is_password_available now db)"

section \<open>One row\<close>

definition build_queued_replies :: "row_processing \<Rightarrow> contact option \<Rightarrow> pystr option \<Rightarrow> queued_reply list res" where
  "build_queued_replies processing contact_found key =
     (case (row_reply processing, contact_found, key) of
        (Some reply, Some device, Some k) \<Rightarrow>
          res_bind (format_server_message reply) (\<lambda>text.
            Inr [\<lparr>reply_contact_id = contact_id device, reply_key = k, reply_text = text,
                  reply_server_message = reply, queued_readiness = row_reply_readiness processing\<rparr>])
      | _ \<Rightarrow> Inr [])"

fun join_reply_texts :: "pystr list \<Rightarrow> pystr" where
  "join_reply_texts [] = []"
| "join_reply_texts [t] = t"
| "join_reply_texts (t # u # ts) = t @ str '' / '' @ join_reply_texts (u # ts)"

definition mark_inbox_row_processed :: "nat \<Rightarrow> row_processing \<Rightarrow> queued_reply list \<Rightarrow> datetime \<Rightarrow> db \<Rightarrow> db res" where
  "mark_inbox_row_processed row processing queued now db =
     (let waiting = (\<lambda>i. inbound_id i = row \<and> inbound_processing_state i = PROCESSING_RECEIVED)
      in if \<not> exists_where waiting (inbox db) then Inl InboxRowAlreadyProcessedError
         else Inr (db\<lparr>inbox := update_where waiting
                (\<lambda>i. i\<lparr>inbound_processing_state := PROCESSING_PROCESSED, processed_at := Some now,
                        inbound_classification := row_classification processing,
                        inbound_request_type := row_request_type processing,
                        inbound_outcome_summary := take OUTCOME_SUMMARY_MAXIMUM_LENGTH (row_outcome_summary processing),
                        inbound_reply_summary :=
                          take REPLY_SUMMARY_MAXIMUM_LENGTH (join_reply_texts (map reply_text queued))\<rparr>) (inbox db)\<rparr>))"

definition decide_flood_arrival_route_reset :: "relay_settings \<Rightarrow> inbound \<Rightarrow> contact option \<Rightarrow> datetime \<Rightarrow> bool" where
  "decide_flood_arrival_route_reset S row contact_found now \<longleftrightarrow>
     (case contact_found of
        None \<Rightarrow> False
      | Some device \<Rightarrow> needs_flood_arrival_route_reset S (path_length row \<noteq> DIRECT_ARRIVAL_PATH_LENGTH)
                         (received_at row) (last_path_update_at device) now)"

definition find_inbox_row :: "nat \<Rightarrow> db \<Rightarrow> inbound option" where
  "find_inbox_row row db = first_where (\<lambda>i. inbound_id i = row) (inbox db)"

definition process_in_transaction ::
  "relay_settings \<Rightarrow> password_services \<Rightarrow> db \<Rightarrow> nat \<Rightarrow> datetime \<Rightarrow> pystr option \<Rightarrow> db \<Rightarrow> (inbound_processing_result \<times> db) res" where
  "process_in_transaction S PW seen row_id now original_text db =
     (case find_inbox_row row_id seen of
        None \<Rightarrow> Inl InboxRowAlreadyProcessedError
      | Some row \<Rightarrow>
          if inbound_processing_state row \<noteq> PROCESSING_RECEIVED then Inl InboxRowAlreadyProcessedError
          else
            let contact_found = Option.bind (inbound_contact_id row) (\<lambda>i. find_contact i seen);
                (text_to_process, is_password_available) = choose_text_to_process (inbound_text row) original_text
            in res_bind (parse_direct_message_text text_to_process) (\<lambda>parsed.
               res_bind (classify_and_serve S PW seen row contact_found parsed is_password_available now db)
                 (\<lambda>(processing, db1).
               res_bind (build_queued_replies processing contact_found (build_reply_key_for_direct_message parsed row_id))
                 (\<lambda>queued.
               res_bind (mark_inbox_row_processed row_id processing queued now db1) (\<lambda>db2.
                 Inr (\<lparr>result_inbox_row_id = row_id, result_contact_id = map_option contact_id contact_found,
                       result_processing_state = PROCESSING_PROCESSED,
                       result_classification = row_classification processing, replies = queued,
                       flood_arrival_route_reset_needed = decide_flood_arrival_route_reset S row contact_found now,
                       reconciliation_needed = row_reconciliation_needed processing,
                       was_already_processed = False\<rparr>, db2))))))"

definition build_already_processed_result :: "nat \<Rightarrow> db \<Rightarrow> inbound_processing_result" where
  "build_already_processed_result row_id db =
     (let (contact_key, state, kind) = (case find_inbox_row row_id db of
              None \<Rightarrow> (None, PROCESSING_PROCESSED, UNCLASSIFIED)
            | Some row \<Rightarrow> (inbound_contact_id row, inbound_processing_state row, inbound_classification row))
      in \<lparr>result_inbox_row_id = row_id, result_contact_id = contact_key, result_processing_state = state,
          result_classification = kind, replies = [], flood_arrival_route_reset_needed = False,
          reconciliation_needed = False, was_already_processed = True\<rparr>)"

definition read_inbox_row_contact_id :: "nat \<Rightarrow> db \<Rightarrow> nat option" where
  "read_inbox_row_contact_id row_id db = Option.bind (find_inbox_row row_id db) inbound_contact_id"

definition mark_inbox_row_failed :: "nat \<Rightarrow> pystr \<Rightarrow> datetime \<Rightarrow> db \<Rightarrow> db" where
  "mark_inbox_row_failed row_id error_text now db =
     db\<lparr>inbox := update_where (\<lambda>i. inbound_id i = row_id \<and> inbound_processing_state i = PROCESSING_RECEIVED)
          (\<lambda>i. i\<lparr>inbound_processing_state := PROCESSING_FAILED,
                  processing_error := redact_account_request_passwords error_text, processed_at := Some now\<rparr>) (inbox db)\<rparr>"

text \<open>
  \<open>before n\<close> are the two databases attempt \<open>n\<close> sees and \<open>after\<close> the database once the last attempt was
  rolled back; \<open>describe_error\<close> is Python's text of an exception (\<^verbatim>\<open>type(e).__name__: e\<close>).
\<close>

definition process_inbound_direct_message ::
  "relay_settings \<Rightarrow> password_services \<Rightarrow> (py_error \<Rightarrow> pystr) \<Rightarrow> (nat \<Rightarrow> db \<times> db) \<Rightarrow> db \<Rightarrow> nat \<Rightarrow> datetime \<Rightarrow> pystr option \<Rightarrow>
     inbound_processing_result \<times> db" where
  "process_inbound_direct_message S PW describe_error before after row_id now original_text =
     (case run_with_deadlock_retries False
             (\<lambda>n. case before n of (seen, db) \<Rightarrow> process_in_transaction S PW seen row_id now original_text db) of
        Inr (result, db) \<Rightarrow> (result, db)
      | Inl InboxRowAlreadyProcessedError \<Rightarrow> (build_already_processed_result row_id after, after)
      | Inl e \<Rightarrow>
          (\<lparr>result_inbox_row_id = row_id, result_contact_id = read_inbox_row_contact_id row_id after,
            result_processing_state = PROCESSING_FAILED, result_classification = UNCLASSIFIED, replies = [],
            flood_arrival_route_reset_needed = False, reconciliation_needed = False, was_already_processed = False\<rparr>,
           mark_inbox_row_failed row_id (describe_error e) now after))"

section \<open>The services keep the messages well formed\<close>

lemma register_messages:
  "register_or_sign_in PW seen device name password now db = Inr (out, db') \<Longrightarrow> messages db' = messages db"
proof -
  have link: "messages db' = messages db" if "link_device d u now db = Inr (s, d', db')" for d u s d' db' db
    using that
    by (auto simp: link_device_def relink_device_def update_device_def cancel_device_deliveries_for_relink_def
      cancel_device_receipts_for_relink_def cancel_device_refresh_sessions_for_relink_def Let_def split: option.splits if_splits)
  have upd: "messages (snd (clear_failed_sign_ins d db)) = messages db" "messages (snd (restart_expired_failure_window d now db)) = messages db"
    "messages (snd (record_failed_sign_in d now db)) = messages db" for d db
    by (simp_all add: clear_failed_sign_ins_def restart_expired_failure_window_def record_failed_sign_in_def update_device_def Let_def
        split: option.split)
  have sign: "messages db' = messages db" if "sign_in PW d u req pw now db = Inr (out, db')" for d u req pw
    using that upd(1,2,3) by (auto simp: sign_in_def Let_def case_prod_beta res_bind_eq_Inr split: if_splits dest!: link)
  have create: "messages db' = messages db" if "create_account PW d name pw now db = Inr (out, db')" for d pw
    by (rule create_accountE [OF that]) (auto dest!: link)
  show "register_or_sign_in PW seen device name password now db = Inr (out, db') \<Longrightarrow> messages db' = messages db"
    by (auto simp: register_or_sign_in_def register_or_sign_in_in_transaction_def Let_def res_bind_eq_Inr
      split: if_splits option.splits dest: sign create)
qed

lemma refresh_peer_messages: "messages (snd (refresh_peer S device user peer for_all inbound now db)) = messages db"
  unfolding refresh_peer_def Let_def
  by (auto simp: case_prod_beta deliveries_move_tables(3) [OF restart_active_head_deliveries]
      deliveries_move_tables(3) [OF arm_next_head_deliveries_snd] deliveries_move_tables(3) [OF create_owned_loop_deliveries]
      deliveries_move_tables(3) [OF take_over_loop_deliveries] split: option.split)

lemma refresh_peers_loop_messages: "messages (snd (refresh_peers_loop S device user peers for_all inbound now db)) = messages db"
  by (induction peers arbitrary: db) (simp_all add: case_prod_beta refresh_peer_messages)

lemma start_refresh_messages:
  assumes "start_refresh_in_transaction S seen device target now inbound db = Inr (out, db')" "tables_ok db"
  shows "messages db' = messages db"
proof -
  have rearm: "messages (snd (rearm_receipts_for_refresh S device user peer now db)) = messages db" for user peer
    using assms(2) by (intro receipts_move_tables(3) rearm_receipts_for_refresh_moves) (simp add: tables_ok_def)
  from assms(1) show ?thesis
    unfolding start_refresh_in_transaction_def
    by (auto simp: Let_def res_bind_eq_Inr case_prod_beta refresh_peers_loop_messages rearm simp del: refresh_peers_loop.simps
        split: option.splits if_splits bool.splits list.splits)
qed

lemma messages_ok_same: "messages db' = messages db \<Longrightarrow> messages_ok db \<Longrightarrow> messages_ok db'"
  by (simp add: messages_ok_def)

section \<open>A processed row is a step of the database\<close>

lemma serve_request_moves:
  assumes "serve_request S PW seen row device request available now db = Inr (processing, db')"
    and ok: "tables_ok db" "messages_ok db" "client_fields_valid request"
  shows "service_moves db db' \<and> messages_ok db'"
proof (cases request)
  case (AccountRequest name password)
  show ?thesis
  proof (cases available)
    case True
    with AccountRequest assms(1) obtain out where r: "register_or_sign_in PW seen device name password now db = Inr (out, db')"
      by (auto simp: res_bind_eq_Inr)
    from register_or_sign_in_moves [OF r] messages_ok_same [OF register_messages [OF r] ok(2)] show ?thesis ..
  qed (use AccountRequest assms(1) ok in auto)
next
  case (MessagePartRequest recipient i n c line)
  with assms(1) ok show ?thesis by (auto simp: res_bind_eq_Inr dest!: accept_part_moves)
next
  case (ReadRequest sender i)
  with assms(1) ok show ?thesis by (auto simp: res_bind_eq_Inr dest!: record_read_moves)
next
  case (RefreshRequest target)
  with assms(1) obtain out where r: "start_refresh_in_transaction S seen device target now (Some row) db = Inr (out, db')"
    by (auto simp: res_bind_eq_Inr)
  from start_refresh_moves [OF r ok(1)] messages_ok_same [OF start_refresh_messages [OF r ok(1)] ok(2)] show ?thesis ..
qed (use assms(1) ok in \<open>auto simp: res_bind_eq_Inr\<close>)

lemma classify_and_serve_moves:
  assumes "classify_and_serve S PW seen row contact_found parsed available now db = Inr (processing, db')"
    and ok: "tables_ok db" "messages_ok db" and parsed: "parse_direct_message_text t = Inr parsed"
  shows "service_moves db db' \<and> messages_ok db'"
proof (cases "\<exists>device request. contact_found = Some device \<and> text_type row = PLAIN_TEXT_TYPE \<and> parsed = ClientMessage request")
  case True
  then obtain device request where c: "contact_found = Some device" "text_type row = PLAIN_TEXT_TYPE" "parsed = ClientMessage request"
    by blast
  then have valid: "client_fields_valid request" using parsed parsed_client_message_valid by blast
  show ?thesis
    using assms(1) c valid ok serve_request_moves [of S PW seen "inbound_id row" "contact_id device" request available now db processing db']
    by (cases request)
      (auto simp: classify_and_serve_def Let_def res_bind_eq_Inr simp del: serve_request.simps
        dest!: record_delivery_acknowledgement_moves record_receipt_acknowledgement_moves)
next
  case False
  then have "db' = db"
    using assms(1) by (auto simp: classify_and_serve_def Let_def split: option.splits if_splits parsed_direct_message.splits)
  with ok show ?thesis by simp
qed

lemma mark_processed_moves:
  "mark_inbox_row_processed row processing queued now db = Inr db' \<Longrightarrow>
     db_moves db db' \<and> messages db' = messages db \<and> packets db' = packets db"
  by (auto simp: mark_inbox_row_processed_def Let_def inbound_evolves_def split: if_splits intro!: inbox_update_moves)

lemma mark_failed_moves: "db_moves db (mark_inbox_row_failed row error now db)"
  by (auto simp: mark_inbox_row_failed_def inbound_evolves_def intro!: inbox_update_moves)

text \<open>The steps of one transaction.\<close>

lemma process_in_transactionE:
  assumes "process_in_transaction S PW seen row_id now original db = Inr (result, db')"
  obtains row contact_found line available parsed processing db1 queued where
    "find_inbox_row row_id seen = Some row" "inbound_processing_state row = PROCESSING_RECEIVED"
    "contact_found = Option.bind (inbound_contact_id row) (\<lambda>i. find_contact i seen)"
    "choose_text_to_process (inbound_text row) original = (line, available)"
    "parse_direct_message_text line = Inr parsed"
    "classify_and_serve S PW seen row contact_found parsed available now db = Inr (processing, db1)"
    "build_queued_replies processing contact_found (build_reply_key_for_direct_message parsed row_id) = Inr queued"
    "mark_inbox_row_processed row_id processing queued now db1 = Inr db'"
    "replies result = queued" "result_contact_id result = map_option contact_id contact_found"
    "result_classification result = row_classification processing" "result_processing_state result = PROCESSING_PROCESSED"
  using assms
  by (auto simp: process_in_transaction_def Let_def res_bind_eq_Inr split: option.splits if_splits prod.splits)

lemma process_in_transaction_moves:
  assumes "process_in_transaction S PW seen row_id now original db = Inr (result, db')" "tables_ok db" "messages_ok db"
  shows "db_moves db db' \<and> messages_ok db' \<and> packets db' = packets db"
proof -
  from assms(1) obtain row contact_found parsed available processing db1 queued line where
    p: "parse_direct_message_text line = Inr parsed"
    and serve: "classify_and_serve S PW seen row contact_found parsed available now db = Inr (processing, db1)"
    and mark: "mark_inbox_row_processed row_id processing queued now db1 = Inr db'"
    by (rule process_in_transactionE)
  have 1: "service_moves db db1" "messages_ok db1" using classify_and_serve_moves [OF serve assms(2,3) p] by auto
  have 2: "db_moves db1 db'" "messages db' = messages db1" "packets db' = packets db1" using mark_processed_moves [OF mark] by auto
  from db_moves_trans [OF service_moves_db [OF 1(1)] 2(1)] messages_ok_same [OF 2(2) 1(2)] 2(3) 1(1)
  show ?thesis by (simp add: service_moves_def)
qed

text \<open>No row with this key waits for processing.\<close>

definition row_is_settled :: "nat \<Rightarrow> db \<Rightarrow> bool" where
  "row_is_settled row db \<longleftrightarrow>
     exists_where (\<lambda>i. inbound_id i = row) (inbox db) \<and>
     \<not> exists_where (\<lambda>i. inbound_id i = row \<and> inbound_processing_state i = PROCESSING_RECEIVED) (inbox db)"

lemma row_is_settled_iff:
  "row_is_settled row db \<longleftrightarrow> (\<exists>i \<in> set (rows (inbox db)). inbound_id i = row) \<and>
     (\<forall>i \<in> set (rows (inbox db)). inbound_id i = row \<longrightarrow> inbound_processing_state i \<noteq> PROCESSING_RECEIVED)"
  by (auto simp: row_is_settled_def exists_where_def list_ex_iff)

lemma settled_rows_stay:
  assumes "db_moves db db'" "tables_ok db" "row_is_settled row db"
  shows "row_is_settled row db'"
proof -
  have ev: "table_evolves inbound_evolves (inbox db) (inbox db')" and keys: "keys_ok inbound_id (inbox db')"
    using assms(1) db_moves_ok [OF assms(1,2)] by (simp_all add: db_moves_def tables_ok_def)
  from assms(3) obtain i where i: "i \<in> set (rows (inbox db))" "inbound_id i = row" "inbound_processing_state i \<noteq> PROCESSING_RECEIVED"
    by (auto simp: row_is_settled_iff)
  from table_evolvesD [OF ev i(1)] obtain i' where i': "i' \<in> set (rows (inbox db'))" "inbound_evolves i i'" .
  then have id: "inbound_id i' = row" "inbound_processing_state i' \<noteq> PROCESSING_RECEIVED" using i by (simp_all add: inbound_evolves_def)
  have "x = i'" if "x \<in> set (rows (inbox db'))" "inbound_id x = row" for x
    using inbox_table.key_unique [OF keys that(1) i'(1)] that(2) id(1) by simp
  with i'(1) id show ?thesis unfolding row_is_settled_iff by metis
qed

lemma marked_row_is_settled:
  assumes m: "mark_inbox_row_processed row processing queued now db = Inr db'"
  shows "row_is_settled row db'"
proof -
  define f where "f = (\<lambda>i :: inbound. i\<lparr>inbound_processing_state := PROCESSING_PROCESSED, processed_at := Some now,
                        inbound_classification := row_classification processing,
                        inbound_request_type := row_request_type processing,
                        inbound_outcome_summary := take OUTCOME_SUMMARY_MAXIMUM_LENGTH (row_outcome_summary processing),
                        inbound_reply_summary :=
                          take REPLY_SUMMARY_MAXIMUM_LENGTH (join_reply_texts (map reply_text queued))\<rparr>)"
  have f: "rows (inbox db') = map (\<lambda>i. if inbound_id i = row \<and> inbound_processing_state i = PROCESSING_RECEIVED then f i else i)
      (rows (inbox db))" "\<And>i. inbound_processing_state (f i) = PROCESSING_PROCESSED" "\<And>i. inbound_id (f i) = inbound_id i"
    using m unfolding mark_inbox_row_processed_def Let_def f_def [symmetric] by (auto simp: f_def split: if_splits)
  obtain i where i: "i \<in> set (rows (inbox db))" "inbound_id i = row"
    using m by (auto simp: mark_inbox_row_processed_def exists_where_def list_ex_iff split: if_splits)
  let ?g = "\<lambda>i. if inbound_id i = row \<and> inbound_processing_state i = PROCESSING_RECEIVED then f i else i"
  have there: "?g i \<in> set (rows (inbox db'))" unfolding f(1) set_map by (rule imageI [OF i(1)])
  have "inbound_id (?g i) = row" using i(2) f(3) by simp
  moreover have "inbound_processing_state x \<noteq> PROCESSING_RECEIVED" if x: "x \<in> set (rows (inbox db'))" "inbound_id x = row" for x
  proof -
    from x(1) obtain y where "x = ?g y" unfolding f(1) set_map by (rule imageE)
    with x(2) f(2,3) show ?thesis by (cases "inbound_id y = row \<and> inbound_processing_state y = PROCESSING_RECEIVED") auto
  qed
  ultimately show ?thesis unfolding row_is_settled_iff using there by blast
qed

lemma settled_row_cannot_be_marked:
  "row_is_settled row db \<Longrightarrow> mark_inbox_row_processed row processing queued now db = Inl InboxRowAlreadyProcessedError"
  by (simp add: mark_inbox_row_processed_def row_is_settled_def)

lemma settled_row_is_not_processed:
  assumes "row_is_settled row_id db" "tables_ok db" "messages_ok db"
  shows "process_in_transaction S PW seen row_id now original db \<noteq> Inr r"
proof
  assume "process_in_transaction S PW seen row_id now original db = Inr r"
  then obtain result db' where "process_in_transaction S PW seen row_id now original db = Inr (result, db')" by (cases r) auto
  then obtain row contact_found parsed available processing db1 queued line where
    p: "parse_direct_message_text line = Inr parsed"
    and serve: "classify_and_serve S PW seen row contact_found parsed available now db = Inr (processing, db1)"
    and mark: "mark_inbox_row_processed row_id processing queued now db1 = Inr db'"
    by (rule process_in_transactionE)
  have "row_is_settled row_id db1"
    using settled_rows_stay [OF service_moves_db assms(2,1)] classify_and_serve_moves [OF serve assms(2,3) p] by blast
  with settled_row_cannot_be_marked mark show False by fastforce
qed

lemma processed_row_is_settled:
  "process_in_transaction S PW seen row_id now original db = Inr (result, db') \<Longrightarrow> row_is_settled row_id db'"
  by (erule process_in_transactionE) (rule marked_row_is_settled)

section \<open>Replies\<close>

lemma queued_replies_format:
  assumes "build_queued_replies processing contact_found key = Inr queued"
  shows "length queued \<le> 1"
    and "q \<in> set queued \<Longrightarrow> format_server_message (reply_server_message q) = Inr (reply_text q) \<and>
      row_reply processing = Some (reply_server_message q) \<and> map_option contact_id contact_found = Some (reply_contact_id q) \<and>
      key = Some (reply_key q)"
  using assms by (auto simp: build_queued_replies_def res_bind_eq_Inr split: option.splits)

lemma only_requests_are_answered:
  assumes "classify_and_serve S PW seen row contact_found parsed available now db = Inr (processing, db')" "row_reply processing \<noteq> None"
  shows "row_classification processing \<in> {REQUEST, SYNTAX_ERROR, UNSUPPORTED_VERSION}"
  using assms
  by (auto simp: classify_and_serve_def Let_def res_bind_eq_Inr new_row_processing_def build_acknowledgement_processing_def
      build_server_type_ignored_def classify_unsupported_version_def classify_unknown_message_type_def classify_syntax_error_def
      build_request_processing_def
      split: option.splits if_splits parsed_direct_message.splits client_message.splits)

end
