(* ===== verification/Message_Splitting.thy ===== *)
theory Message_Splitting
  imports Field_Grammar
begin

text \<open>
  The reference splitter (\<^verbatim>\<open>protocol/message_splitting.py\<close>): \<^verbatim>\<open>PartPacker\<close> is a record, its methods are
  functions on it, and the loop of \<^verbatim>\<open>pack_units_into_parts\<close> is a recursion over the units.
  The segmenter is passed in, as in the code, and nothing is assumed of it. The lemmas show that the
  parts join back into the text, that each is a valid part text, and that greedy packing of code points
  uses as few parts as any way of cutting the text.
\<close>

definition LONGEST_CODE_POINT_BYTES :: nat where
  "LONGEST_CODE_POINT_BYTES = 4"

record part_packer =
  part_byte_budget :: nat
  finished_parts :: "pystr list"
  current_part_units :: "pystr list"
  current_part_bytes :: nat

definition new_part_packer :: "nat \<Rightarrow> part_packer" where
  "new_part_packer budget =
     \<lparr>part_byte_budget = budget, finished_parts = [], current_part_units = [], current_part_bytes = 0\<rparr>"

definition finish_current_part :: "part_packer \<Rightarrow> part_packer" where
  "finish_current_part p =
     p\<lparr>finished_parts := (if current_part_units p \<noteq> []
                         then finished_parts p @ [concat (current_part_units p)] else finished_parts p),
       current_part_units := [], current_part_bytes := 0\<rparr>"

definition add_unit :: "pystr \<Rightarrow> part_packer \<Rightarrow> part_packer res" where
  "add_unit unit p =
     res_bind (count_utf8_bytes unit) (\<lambda>unit_bytes.
       let p' = (if current_part_bytes p + unit_bytes > part_byte_budget p then finish_current_part p else p)
       in Inr (p'\<lparr>current_part_units := current_part_units p' @ [unit],
                  current_part_bytes := current_part_bytes p' + unit_bytes\<rparr>))"

definition finish :: "part_packer \<Rightarrow> pystr list" where
  "finish p = finished_parts (finish_current_part p)"

fun add_units :: "pystr list \<Rightarrow> part_packer \<Rightarrow> part_packer res" where
  "add_units [] p = Inr p"
| "add_units (u # us) p = res_bind (add_unit u p) (add_units us)"

definition code_points :: "pystr \<Rightarrow> pystr list" where
  "code_points t = map (\<lambda>c. [c]) t"

fun pack_loop :: "nat \<Rightarrow> pystr list \<Rightarrow> part_packer \<Rightarrow> part_packer res" where
  "pack_loop budget [] p = Inr p"
| "pack_loop budget (unit # units) p =
     res_bind (count_utf8_bytes unit) (\<lambda>n.
     res_bind (if n > budget then add_units (code_points unit) p else add_unit unit p)
       (pack_loop budget units))"

definition pack_units_into_parts :: "pystr list \<Rightarrow> nat \<Rightarrow> pystr list res" where
  "pack_units_into_parts units budget =
     (if budget < LONGEST_CODE_POINT_BYTES then Inl ValueError
      else res_bind (pack_loop budget units (new_part_packer budget)) (\<lambda>p. Inr (finish p)))"

definition require_splittable_message_text :: "pystr \<Rightarrow> unit res" where
  "require_splittable_message_text message_text =
     (if message_text = [] then Inl ValueError
      else if \<not> list_all is_allowed_part_text_character message_text then Inl ValueError
      else Inr ())"

definition split_message_text :: "pystr \<Rightarrow> (pystr \<Rightarrow> pystr list) \<Rightarrow> pystr list res" where
  "split_message_text message_text split_into_grapheme_clusters =
     res_bind (require_splittable_message_text message_text) (\<lambda>_.
     let grapheme_clusters = split_into_grapheme_clusters message_text
     in if concat grapheme_clusters \<noteq> message_text then Inl ValueError
        else
          res_bind (pack_units_into_parts (code_points message_text) PART_TEXT_MAXIMUM_BYTES) (\<lambda>code_point_parts.
          res_bind (pack_units_into_parts grapheme_clusters PART_TEXT_MAXIMUM_BYTES) (\<lambda>grapheme_parts.
          let parts = (if length grapheme_parts = length code_point_parts then grapheme_parts
                       else code_point_parts)
          in if int (length parts) > MAXIMUM_PART_COUNT
             then res_bind (count_utf8_bytes message_text) (\<lambda>n.
                    Inl (MessageTooLongError (int n) (int (length parts))))
             else Inr parts)))"

section \<open>What the packer keeps\<close>

text \<open>
  The segmenter may return empty pieces; an empty piece always fits, so a part is closed only when it
  holds text.
\<close>

definition packer_inv :: "nat \<Rightarrow> pystr \<Rightarrow> part_packer \<Rightarrow> bool" where
  "packer_inv b t p \<longleftrightarrow>
     part_byte_budget p = b \<and> concat (finished_parts p) @ concat (current_part_units p) = t \<and>
     current_part_bytes p = utf8_length (concat (current_part_units p)) \<and> current_part_bytes p \<le> b \<and>
     (\<forall>x \<in> set (finished_parts p). x \<noteq> [] \<and> utf8_length x \<le> b) \<and>
     (current_part_bytes p = 0 \<longrightarrow> finished_parts p = [])"

lemma packer_inv_new: "packer_inv b [] (new_part_packer b)"
  by (simp add: packer_inv_def new_part_packer_def)

lemma packer_inv_add_unit:
  assumes "packer_inv b t p" "utf8_length u \<le> b" "\<not> contains_surrogate u"
  shows "\<exists>p'. add_unit u p = Inr p' \<and> packer_inv b (t @ u) p'"
proof -
  have "current_part_units p \<noteq> [] \<and> concat (current_part_units p) \<noteq> []"
    if "b < current_part_bytes p + utf8_length u"
    using that assms by (auto simp: packer_inv_def simp del: concat_eq_Nil_conv)
  then show ?thesis
    using assms
    by (cases "b < current_part_bytes p + utf8_length u")
      (auto simp: add_unit_def count_utf8_bytes_eq packer_inv_def finish_current_part_def
        simp del: concat_eq_Nil_conv)
qed

lemma packer_inv_add_units:
  assumes "packer_inv b t p" "\<forall>u \<in> set us. utf8_length u \<le> b \<and> \<not> contains_surrogate u"
  shows "\<exists>p'. add_units us p = Inr p' \<and> packer_inv b (t @ concat us) p'"
  using assms
proof (induction us arbitrary: t p)
  case (Cons u us)
  obtain p' where "add_unit u p = Inr p'" "packer_inv b (t @ u) p'"
    using packer_inv_add_unit [OF Cons.prems(1), of u] Cons.prems(2) by auto
  with Cons.IH [of "t @ u" p'] Cons.prems(2) show ?case by auto
qed simp

lemma code_points_clean:
  "4 \<le> b \<Longrightarrow> \<not> contains_surrogate t \<Longrightarrow>
     \<forall>u \<in> set (code_points t). utf8_length u \<le> b \<and> \<not> contains_surrogate u"
  by (auto simp: code_points_def contains_surrogate_def list_ex_iff
      intro: le_trans [OF length_utf8_bytes_bounds(2)])

lemma concat_code_points [simp]: "concat (code_points t) = t"
  by (induction t) (auto simp: code_points_def)

lemma pack_loop_inv:
  assumes "packer_inv b t p" "4 \<le> b" "\<forall>u \<in> set us. \<not> contains_surrogate u"
  shows "\<exists>p'. pack_loop b us p = Inr p' \<and> packer_inv b (t @ concat us) p'"
  using assms
proof (induction us arbitrary: t p)
  case (Cons u us)
  have u: "\<not> contains_surrogate u" using Cons.prems(3) by auto
  obtain p' where "(if utf8_length u > b then add_units (code_points u) p else add_unit u p) = Inr p'"
    and p': "packer_inv b (t @ u) p'"
    using packer_inv_add_unit [OF Cons.prems(1) _ u]
      packer_inv_add_units [OF Cons.prems(1) code_points_clean [OF Cons.prems(2) u]]
    by (cases "utf8_length u > b") auto
  then have "pack_loop b (u # us) p = pack_loop b us p'"
    using u by (simp add: count_utf8_bytes_eq)
  with Cons.IH [OF p'] Cons.prems show ?case by simp
qed simp

lemma finish_parts:
  assumes "packer_inv b t p" "t \<noteq> []"
  shows "concat (finish p) = t" "\<forall>x \<in> set (finish p). x \<noteq> [] \<and> utf8_length x \<le> b"
  using assms
  by (auto simp: finish_def finish_current_part_def packer_inv_def simp del: concat_eq_Nil_conv)

lemma pack_units_parts:
  assumes "4 \<le> b" "\<forall>u \<in> set us. \<not> contains_surrogate u" "concat us \<noteq> []"
  obtains parts where "pack_units_into_parts us b = Inr parts" and "concat parts = concat us"
    and "\<forall>x \<in> set parts. x \<noteq> [] \<and> utf8_length x \<le> b"
proof -
  obtain p where "pack_loop b us (new_part_packer b) = Inr p" "packer_inv b (concat us) p"
    using pack_loop_inv [OF packer_inv_new assms(1,2)] by auto
  then show thesis
    using that [of "finish p"] finish_parts [OF _ assms(3)] assms(1)
    by (simp add: pack_units_into_parts_def LONGEST_CODE_POINT_BYTES_def)
qed

section \<open>Greedy packing is optimal\<close>

text \<open>
  Of all ways to cut a text into pieces of at most \<open>b\<close> bytes, the packer's has the fewest pieces, and
  among those with as few the shortest last piece.
\<close>

definition cut :: "nat \<Rightarrow> pystr \<Rightarrow> pystr list \<Rightarrow> bool" where
  "cut b t qs \<longleftrightarrow> concat qs = t \<and> (\<forall>q \<in> set qs. q \<noteq> [] \<and> utf8_length q \<le> b)"

definition part_count_so_far :: "part_packer \<Rightarrow> nat" where
  "part_count_so_far p = length (finished_parts p) + (if current_part_units p = [] then 0 else 1)"

definition best_so_far :: "nat \<Rightarrow> pystr \<Rightarrow> part_packer \<Rightarrow> bool" where
  "best_so_far b t p \<longleftrightarrow>
     (\<forall>qs. cut b t qs \<longrightarrow>
        part_count_so_far p < length qs \<or>
        part_count_so_far p = length qs \<and> (qs \<noteq> [] \<longrightarrow> current_part_bytes p \<le> utf8_length (last qs)))"

lemma cut_Nil [simp]: "cut b [] qs \<longleftrightarrow> qs = []"
  by (cases qs) (auto simp: cut_def)

lemma cut_snoc:
  assumes "cut b (t @ [c]) qs"
  obtains q qs' where "qs = qs' @ [q @ [c]]" and "cut b t (if q = [] then qs' else qs' @ [q])"
    and "utf8_length (q @ [c]) \<le> b"
proof -
  have "qs \<noteq> []" using assms by (auto simp: cut_def)
  then obtain qs' l where qs: "qs = qs' @ [l]" by (cases qs rule: rev_cases) auto
  have "l \<noteq> []" using assms qs by (auto simp: cut_def)
  then obtain q d where l: "l = q @ [d]" by (cases l rule: rev_cases) auto
  have "concat qs' @ q @ [d] = t @ [c]" using assms qs l by (simp add: cut_def)
  then have "concat qs' @ q = t" "d = c"
    by (metis append.assoc append1_eq_conv)+
  then show thesis
    using that [of qs' q] assms qs l by (auto simp: cut_def)
qed

lemma best_add_code_point:
  assumes inv: "packer_inv b t p" and best: "best_so_far b t p" and start: "current_part_units p = [] \<longleftrightarrow> t = []"
    and add: "add_unit [c] p = Inr p'"
  shows "best_so_far b (t @ [c]) p' \<and> current_part_units p' \<noteq> []"
proof -
  let ?n = "length (utf8_bytes c)"
  have nc: "\<not> is_surrogate c" using add by (auto simp: add_unit_def count_utf8_bytes_eq split: if_splits)
  have budget: "part_byte_budget p = b" using inv by (simp add: packer_inv_def)
  define fits where "fits \<longleftrightarrow> current_part_bytes p + ?n \<le> b"
  have p': "current_part_units p' \<noteq> []"
    "current_part_bytes p' = (if fits then current_part_bytes p + ?n else ?n)"
    "part_count_so_far p' =
       (if fits \<and> current_part_units p \<noteq> [] then part_count_so_far p else Suc (part_count_so_far p))"
    using add nc budget
    by (auto simp: add_unit_def count_utf8_bytes_eq Let_def finish_current_part_def part_count_so_far_def
        fits_def split: if_splits)
  have "part_count_so_far p' < length qs \<or>
        part_count_so_far p' = length qs \<and> current_part_bytes p' \<le> utf8_length (last qs)"
    if "cut b (t @ [c]) qs" for qs
    using that
  proof (rule cut_snoc)
    fix q qs'
    assume qs: "qs = qs' @ [q @ [c]]" and cut: "cut b t (if q = [] then qs' else qs' @ [q])"
      and q: "utf8_length (q @ [c]) \<le> b"
    let ?cut = "if q = [] then qs' else qs' @ [q]"
    have le: "part_count_so_far p < length ?cut \<or>
        part_count_so_far p = length ?cut \<and> (?cut \<noteq> [] \<longrightarrow> current_part_bytes p \<le> utf8_length (last ?cut))"
      using best cut unfolding best_so_far_def by blast
    show ?thesis
    proof (cases "t = []")
      case True
      then have "q = []" "qs' = []"
        using cut by (simp_all split: if_splits)
      moreover have units: "current_part_units p = []" using start True by simp
      moreover have "current_part_bytes p = 0" "finished_parts p = []"
        using inv units by (simp_all add: packer_inv_def)
      ultimately show ?thesis
        using p' qs by (simp add: part_count_so_far_def)
    next
      case False
      then show ?thesis
        using le p' start qs q by (cases "q = []"; cases fits) (auto simp: fits_def)
    qed
  qed
  with p'(1) show ?thesis
    by (auto simp: best_so_far_def)
qed


lemma best_add_code_points:
  assumes "4 \<le> b" "\<not> contains_surrogate us" "packer_inv b t p" "best_so_far b t p"
    and "current_part_units p = [] \<longleftrightarrow> t = []"
  shows "\<exists>p'. pack_loop b (code_points us) p = Inr p' \<and> packer_inv b (t @ us) p' \<and> best_so_far b (t @ us) p' \<and>
           (current_part_units p' = [] \<longleftrightarrow> t @ us = [])"
  using assms
proof (induction us arbitrary: t p)
  case (Cons c us)
  have c: "utf8_length [c] \<le> b" "\<not> contains_surrogate [c]"
    using Cons.prems(1,2) by (auto intro: le_trans [OF length_utf8_bytes_bounds(2)])
  obtain p' where p': "add_unit [c] p = Inr p'" "packer_inv b (t @ [c]) p'"
    using packer_inv_add_unit [OF Cons.prems(3) c] by blast
  note best = best_add_code_point [OF Cons.prems(3-5) p'(1)]
  have "pack_loop b (code_points (c # us)) p = pack_loop b (code_points us) p'"
    using c p'(1) by (simp add: code_points_def count_utf8_bytes_eq)
  then show ?case
    using Cons.IH [OF Cons.prems(1) _ p'(2)] best Cons.prems(2) by auto
qed (simp add: code_points_def)

lemma code_point_packing_optimal:
  assumes "4 \<le> b" "\<not> contains_surrogate t" "cut b t qs"
  obtains parts where "pack_units_into_parts (code_points t) b = Inr parts" and "length parts \<le> length qs"
proof -
  have "best_so_far b [] (new_part_packer b)"
    by (auto simp: best_so_far_def cut_def part_count_so_far_def new_part_packer_def)
  then obtain p where p: "pack_loop b (code_points t) (new_part_packer b) = Inr p" "best_so_far b t p"
    using best_add_code_points [OF assms(1,2) packer_inv_new] by (auto simp: new_part_packer_def)
  have "length (finish p) = part_count_so_far p"
    by (simp add: finish_def finish_current_part_def part_count_so_far_def)
  also have "\<dots> \<le> length qs"
    using p(2) assms(3) by (auto simp: best_so_far_def)
  finally show thesis
    using that [of "finish p"] p(1) assms(1)
    by (simp add: pack_units_into_parts_def LONGEST_CODE_POINT_BYTES_def)
qed

lemma cut_filter: "concat qs = t \<Longrightarrow> \<forall>q \<in> set qs. utf8_length q \<le> b \<Longrightarrow> cut b t (filter (\<lambda>q. q \<noteq> []) qs)"
  by (induction qs arbitrary: t) (auto simp: cut_def)

lemma splittable_iff:
  "require_splittable_message_text t = Inr u \<longleftrightarrow> t \<noteq> [] \<and> list_all is_allowed_part_text_character t"
  by (auto simp: require_splittable_message_text_def)

lemma clusters_clean:
  assumes "\<not> contains_surrogate (concat us)"
  shows "\<forall>u \<in> set us. \<not> contains_surrogate u"
  using assms by (induction us) auto

text \<open>Both packings of a splittable text, and which one is returned.\<close>

lemma split_message_text_cases:
  assumes "t \<noteq> []" "list_all is_allowed_part_text_character t" "concat (segment t) = t"
  obtains parts where "concat parts = t" and "\<forall>x \<in> set parts. x \<noteq> [] \<and> utf8_length x \<le> 104"
    and "\<And>qs. concat qs = t \<Longrightarrow> \<forall>q \<in> set qs. utf8_length q \<le> 104 \<Longrightarrow> length parts \<le> length qs"
    and "split_message_text t segment =
           (if length parts > 10 then Inl (MessageTooLongError (int (utf8_length t)) (int (length parts)))
            else Inr parts)"
proof -
  have clean: "\<not> contains_surrogate t" using allowed_text_no_surrogate assms(2) by blast
  have us: "\<forall>u \<in> set (code_points t). \<not> contains_surrogate u" "\<forall>u \<in> set (segment t). \<not> contains_surrogate u"
    using clusters_clean [of "code_points t"] clusters_clean [of "segment t"] clean assms(3) by auto
  obtain cps where cps: "pack_units_into_parts (code_points t) 104 = Inr cps" "concat cps = t"
    "\<forall>x \<in> set cps. x \<noteq> [] \<and> utf8_length x \<le> 104"
    using pack_units_parts [of 104 "code_points t"] us(1) assms(1) by auto
  obtain gps where gps: "pack_units_into_parts (segment t) 104 = Inr gps" "concat gps = t"
    "\<forall>x \<in> set gps. x \<noteq> [] \<and> utf8_length x \<le> 104"
    using pack_units_parts [of 104 "segment t"] us(2) assms(1,3) by auto
  have best: "length cps \<le> length qs" if qs: "concat qs = t" "\<forall>q \<in> set qs. utf8_length q \<le> 104" for qs
  proof -
    obtain parts where "pack_units_into_parts (code_points t) 104 = Inr parts"
      and "length parts \<le> length (filter (\<lambda>q. q \<noteq> []) qs)"
      using code_point_packing_optimal [OF _ clean cut_filter [OF qs]] by auto
    then show ?thesis
      using cps(1) by (auto intro: order.trans [OF _ length_filter_le])
  qed
  define parts where "parts = (if length gps = length cps then gps else cps)"
  have "length parts = length cps" by (simp add: parts_def)
  with that [of parts] best cps gps assms clean show thesis
    by (simp add: parts_def split_message_text_def require_splittable_message_text_def
        PART_TEXT_MAXIMUM_BYTES_def MAXIMUM_PART_COUNT_def count_utf8_bytes_eq Let_def)
qed

end
