(* ===== verification/Uploads.thy ===== *)
theory Uploads
  imports Incoming_Messages Message_Splitting
begin

text \<open>
  A whole upload: the parts of one text sent by one device, in any order and any number of times each. The
  lemmas follow the message row from part to part; the properties are that nothing is lost or mixed up, and
  that the message is accepted exactly when every part has arrived.
\<close>

definition upload_request :: "pystr \<Rightarrow> int \<Rightarrow> pystr list \<Rightarrow> nat \<Rightarrow> message_part" where
  "upload_request recipient_name i ts k =
     \<lparr>part_recipient_username = recipient_name, part_message_id = i, part_number = int (Suc k),
      part_part_count = int (length ts), part_text = ts ! k\<rparr>"

text \<open>One request after another; the databases before and under the locks are the same.\<close>

fun upload :: "relay_settings \<Rightarrow> nat \<Rightarrow> pystr \<Rightarrow> int \<Rightarrow> pystr list \<Rightarrow> datetime \<Rightarrow> nat list \<Rightarrow> db \<Rightarrow> db res" where
  "upload S device recipient_name i ts now [] db = Inr db"
| "upload S device recipient_name i ts now (k # ks) db =
     res_bind (accept_message_part_in_transaction S db device (upload_request recipient_name i ts k) now db)
       (\<lambda>(_, db1). upload S device recipient_name i ts now ks db1)"

definition find_upload :: "nat \<Rightarrow> int \<Rightarrow> db \<Rightarrow> message option" where
  "find_upload sender i db = first_where (\<lambda>m. sender_id m = sender \<and> client_message_id m = i) (messages db)"

text \<open>Sender and recipient are known, differ, and the device is the sender's.\<close>

definition upload_parties :: "nat \<Rightarrow> pystr \<Rightarrow> nat \<Rightarrow> user \<Rightarrow> db \<Rightarrow> bool" where
  "upload_parties device recipient_name sender recipient db \<longleftrightarrow>
     device_user_id device db = Some sender \<and> find_user_by_lookup recipient_name db = Some recipient \<and>
     user_id recipient \<noteq> sender \<and> lock_sender_recipient_and_device sender (user_id recipient) device db = Inr ()"

lemma upload_parties_same:
  "users db' = users db \<Longrightarrow> contacts db' = contacts db \<Longrightarrow>
     upload_parties device recipient_name sender recipient db' = upload_parties device recipient_name sender recipient db"
  by (simp add: upload_parties_def device_user_id_def find_contact_def find_user_by_lookup_def
      lock_sender_recipient_and_device_def)

text \<open>The message holds exactly the parts \<open>K\<close> of \<open>ts\<close>.\<close>

definition holds_parts :: "nat \<Rightarrow> user \<Rightarrow> nat \<Rightarrow> int \<Rightarrow> pystr list \<Rightarrow> nat set \<Rightarrow> message \<Rightarrow> bool" where
  "holds_parts device recipient sender i ts K m \<longleftrightarrow>
     sender_id m = sender \<and> client_message_id m = i \<and> recipient_id m = user_id recipient \<and>
     sender_device_id m = Some device \<and> part_count m = int (length ts) \<and>
     part_texts m = map (\<lambda>k. if k \<in> K then Some (ts ! k) else None) [0..<length ts] \<and>
     (accepted_at m \<noteq> None \<longleftrightarrow> K = {..<length ts}) \<and>
     (accepted_at m \<noteq> None \<longrightarrow> message_text m = Some (concat ts))"

lemma holds_all: "(None \<notin> set (map (\<lambda>k. if k \<in> K then Some (ts ! k) else None) [0..<n])) \<longleftrightarrow> {..<n} \<subseteq> K"
  by (auto split: if_splits)

lemma map_filter_all_held:
  "List.map_filter id (map (\<lambda>k. if k \<in> {..<length ts} then Some (ts ! k) else None) [0..<length ts]) = ts"
proof -
  have "map (\<lambda>k. if k \<in> {..<length ts} then Some (ts ! k) else None) [0..<length ts] = map Some ts"
    by (intro nth_equalityI) auto
  moreover have "List.map_filter id (map Some ts) = ts" by (induction ts) (simp_all add: List.map_filter_simps)
  ultimately show ?thesis by (simp only:)
qed

lemma holds_parts_after:
  assumes m: "holds_parts device recipient sender i ts K m" and k: "k < length ts" "K \<subseteq> {..<length ts}"
  shows "find_part_conflict m (user_id recipient) device (upload_request recipient_name i ts k) = None"
    and "holds_parts device recipient sender i ts (insert k K) (after_part m (upload_request recipient_name i ts k) now)"
proof -
  let ?p = "upload_request recipient_name i ts k"
  have kth: "part_texts m ! k = (if k \<in> K then Some (ts ! k) else None)" using m k by (simp add: holds_parts_def)
  show none: "find_part_conflict m (user_id recipient) device ?p = None"
    using m k kth by (simp add: find_part_conflict_def holds_parts_def upload_request_def)
  have "part_texts (with_part m ?p now) = (part_texts m)[k := Some (ts ! k)]"
    using with_part_texts [OF none] by (simp add: upload_request_def)
  also have "\<dots> = map (\<lambda>j. if j \<in> insert k K then Some (ts ! j) else None) [0..<length ts]"
    using m k by (intro nth_equalityI) (auto simp: holds_parts_def nth_list_update)
  finally have texts: "part_texts (with_part m ?p now) = map (\<lambda>j. if j \<in> insert k K then Some (ts ! j) else None) [0..<length ts]" .
  have same: "accepted_at (with_part m ?p now) = accepted_at m" "message_text (with_part m ?p now) = message_text m"
    "sender_id (with_part m ?p now) = sender_id m" "client_message_id (with_part m ?p now) = client_message_id m"
    "sender_device_id (with_part m ?p now) = sender_device_id m" "part_count (with_part m ?p now) = part_count m"
    by (simp_all add: with_part_def Let_def)
  have whole: "{..<length ts} \<subseteq> insert k K \<longleftrightarrow> insert k K = {..<length ts}" using k by auto
  have held: "None \<notin> set (part_texts (with_part m ?p now)) \<longleftrightarrow> insert k K = {..<length ts}"
    unfolding texts holds_all by (rule whole)
  show "holds_parts device recipient sender i ts (insert k K) (after_part m ?p now)"
  proof (cases "is_complete (with_part m ?p now)")
    case True
    then have full: "insert k K = {..<length ts}" unfolding is_complete_def held by simp
    then have "List.map_filter id (part_texts (with_part m ?p now)) = ts"
      by (simp only: texts map_filter_all_held)
    with True m texts same full show ?thesis
      by (simp add: after_part_def accepted_def holds_parts_def)
  next
    case False
    then have "accepted_at m \<noteq> None \<or> insert k K \<noteq> {..<length ts}" unfolding is_complete_def held same by simp
    moreover have "accepted_at m \<noteq> None \<Longrightarrow> insert k K = {..<length ts}" using m k by (auto simp: holds_parts_def)
    ultimately have "accepted_at m \<noteq> None \<longleftrightarrow> insert k K = {..<length ts}" by blast
    with False m texts same show ?thesis by (simp add: after_part_def holds_parts_def)
  qed
qed

lemma new_message_holds_nothing:
  assumes "ts \<noteq> []"
  shows "holds_parts device recipient sender i ts {}
    ((new_message sender (user_id recipient) device (upload_request recipient_name i ts k) now)\<lparr>message_pk := n\<rparr>)"
  using assms
  by (auto simp: holds_parts_def new_message_def upload_request_def map_replicate_const)

text \<open>
  The state between two parts: the row of the upload, if there is one, holds the parts sent so far.
\<close>

definition upload_state :: "nat \<Rightarrow> pystr \<Rightarrow> nat \<Rightarrow> user \<Rightarrow> int \<Rightarrow> pystr list \<Rightarrow> nat set \<Rightarrow> db \<Rightarrow> bool" where
  "upload_state device recipient_name sender recipient i ts K db \<longleftrightarrow>
     tables_ok db \<and> messages_ok db \<and> upload_parties device recipient_name sender recipient db \<and>
     (case find_upload sender i db of
        None \<Rightarrow> K = {}
      | Some m \<Rightarrow> holds_parts device recipient sender i ts K m)"

lemma upload_step:
  assumes st: "upload_state device recipient_name sender recipient i ts K db"
    and k: "k < length ts" "K \<subseteq> {..<length ts}" "length ts \<le> 10" "valid_message_id i" "\<forall>t \<in> set ts. valid_part_text t"
  obtains out db' where
    "accept_message_part_in_transaction S db device (upload_request recipient_name i ts k) now db = Inr (out, db')"
    "upload_state device recipient_name sender recipient i ts (insert k K) db'" "find_upload sender i db' \<noteq> None"
proof -
  let ?p = "upload_request recipient_name i ts k"
  have up: "may_upload db device ?p db sender recipient"
    using st k by (auto simp: may_upload_def upload_state_def upload_parties_def upload_request_def
        is_valid_part_numbering_def FIRST_PART_NUMBER_def MAXIMUM_PART_COUNT_def)
  obtain m db1 where lock: "lock_or_create_message sender (user_id recipient) device ?p now db = (m, db1)" by fastforce
  note l = lock_or_create_in_table [OF lock]
  have ok: "tables_ok db" "messages_ok db" using st by (simp_all add: upload_state_def)
  have ok1: "tables_ok db1" using l(2) ok(1) by (rule service_moves_ok)
  have row: "message_row_ok m"
    using lock_or_create_row_ok(1) [OF lock ok(2)] up k by (simp add: may_upload_def upload_request_def)
  have found: "find_upload sender i db1 = Some m"
  proof (cases "find_upload sender i db")
    case None
    then have "m = (new_message sender (user_id recipient) device ?p now)\<lparr>message_pk := next_id (messages db)\<rparr>"
      "db1 = db\<lparr>messages := insert_row (\<lambda>n. (new_message sender (user_id recipient) device ?p now)\<lparr>message_pk := n\<rparr>) (messages db)\<rparr>"
      using lock by (auto simp: lock_or_create_message_def find_upload_def upload_request_def Let_def)
    then show ?thesis
      using None message_table.first_where_created [of "\<lambda>m. sender_id m = sender \<and> client_message_id m = i" "messages db"
        "new_message sender (user_id recipient) device ?p now"]
      by (simp add: find_upload_def new_message_def upload_request_def)
  next
    case (Some m')
    then show ?thesis using lock by (simp add: lock_or_create_message_def find_upload_def upload_request_def)
  qed
  have m: "holds_parts device recipient sender i ts K m"
  proof (cases "find_upload sender i db")
    case None
    then have "m = (new_message sender (user_id recipient) device ?p now)\<lparr>message_pk := next_id (messages db)\<rparr>" "K = {}"
      using lock st by (auto simp: lock_or_create_message_def find_upload_def upload_state_def upload_request_def Let_def)
    moreover have "ts \<noteq> []" using k by auto
    ultimately show ?thesis using new_message_holds_nothing by simp
  next
    case (Some m')
    then have "m' = m" using lock by (auto simp: lock_or_create_message_def find_upload_def upload_request_def)
    with Some st show ?thesis by (simp add: upload_state_def)
  qed
  note after = holds_parts_after [OF m k(1,2)]
  obtain summary n db3 where
    res: "accept_message_part_in_transaction S db device ?p now db =
       Inr (\<lparr>part_reply = SendStatusReply (user_username recipient) (part_message_id ?p) (held_set (after_part m ?p now)),
             part_outcome_summary = summary, is_incomplete_status = (accepted_at (after_part m ?p now) = None)\<rparr>, db3)"
    and db3: "if is_complete (with_part m ?p now)
     then create_deliveries_for_accepted_message S (after_part m ?p now) now
            (save_message (after_part m ?p now) (save_message (with_part m ?p now) db1)) = (n, db3)
     else db3 = save_message (with_part m ?p now) db1"
    using accept_part_main [OF up lock after(1) row, of S] by metis
  let ?saved = "save_message (after_part m ?p now) db1"
  have same: "messages db3 = messages ?saved" "users db3 = users db1" "contacts db3 = contacts db1"
  proof -
    have "messages db3 = messages ?saved \<and> users db3 = users db1 \<and> contacts db3 = contacts db1"
    proof (cases "is_complete (with_part m ?p now)")
      case True
      then have "create_deliveries_for_accepted_message S (after_part m ?p now) now ?saved = (n, db3)"
        using db3 by (simp add: save_message_twice)
      then obtain added active where "messages db3 = messages ?saved" "users db3 = users ?saved" "contacts db3 = contacts ?saved"
        by (rule fan_out_rows)
      then show ?thesis by (simp add: save_message_def)
    next
      case False
      then show ?thesis using db3 by (simp add: after_part_def save_message_def)
    qed
    then show "messages db3 = messages ?saved" "users db3 = users db1" "contacts db3 = contacts db1" by auto
  qed
  have "find_upload sender i db3 = Some (after_part m ?p now)"
    unfolding find_upload_def same(1)
    using message_table.first_where_written [of "messages db1" "\<lambda>m. sender_id m = sender \<and> client_message_id m = i" m "after_part m ?p now"]
      found ok1 after(2) [where now = now]
    by (simp add: save_message_def find_upload_def tables_ok_def holds_parts_def)
  moreover have "tables_ok db3 \<and> messages_ok db3"
    using accept_part_moves [OF res ok] k(4) service_moves_ok ok(1) by (auto simp: upload_request_def)
  moreover have "upload_parties device recipient_name sender recipient db3"
    using st l(6,7) same(2,3) by (simp add: upload_state_def upload_parties_same [of db3 db])
  ultimately show thesis
    using after(2) by (intro that [OF res]) (simp_all add: upload_state_def)
qed

lemma upload_loop:
  assumes "upload_state device recipient_name sender recipient i ts K db" "set ks \<subseteq> {..<length ts}"
    and "K \<subseteq> {..<length ts}" "length ts \<le> 10" "valid_message_id i" "\<forall>t \<in> set ts. valid_part_text t"
  obtains db' where "upload S device recipient_name i ts now ks db = Inr db'"
    "upload_state device recipient_name sender recipient i ts (K \<union> set ks) db'"
  using assms
proof (induction ks arbitrary: K db thesis)
  case (Cons k ks)
  obtain out db1 where step: "accept_message_part_in_transaction S db device (upload_request recipient_name i ts k) now db = Inr (out, db1)"
    "upload_state device recipient_name sender recipient i ts (insert k K) db1"
    using upload_step [OF Cons.prems(2) _ Cons.prems(4-7), of k S now] Cons.prems(3) by (metis insert_subset lessThan_iff list.set(2))
  obtain db' where "upload S device recipient_name i ts now ks db1 = Inr db'"
    "upload_state device recipient_name sender recipient i ts (insert k K \<union> set ks) db'"
    by (rule Cons.IH [OF _ step(2)]) (use Cons.prems in auto)
  with step(1) show ?case by (intro Cons.prems(1)) simp_all
qed simp

end
