(* ===== verification/Sample_Relay.thy ===== *)
theory Sample_Relay
  imports Request_Processing Uploads "HOL-Library.Code_Target_Nat"
begin

text \<open>
  A small relay in use: two users with one device each, both on the node, an accepted message on its way
  to the second device, a receipt for the first, and an empty traffic log. The witnesses of the properties
  evaluate the services on it.
\<close>

definition sample_user :: "nat \<Rightarrow> pystr \<Rightarrow> pystr \<Rightarrow> user" where
  "sample_user i name hash = \<lparr>user_id = i, user_username = name, password_hash = hash, user_created_at = 0\<rparr>"

definition sample_contact :: "nat \<Rightarrow> nat option \<Rightarrow> contact" where
  "sample_contact i u =
     \<lparr>contact_id = i, public_key = replicate 64 (48 + i), contact_name = str ''dev'', node_type = 1, advert_timestamp = 0,
      latitude_microdegrees = 0, longitude_microdegrees = 0, contact_source = SOURCE_CARD, card_uri = [], added_at = 0,
      contact_user_id = u, linked_at = map_option (\<lambda>_. 0) u, failed_sign_in_count = 0,
      failed_sign_in_window_started_at = None, node_sync_state = ON_NODE, node_sync_error = [], node_synced_at = Some 0,
      node_name = [], node_out_path_length = None, last_heard_at = None, last_path_update_at = None\<rparr>"

definition sample_message :: "nat \<Rightarrow> nat \<Rightarrow> nat \<Rightarrow> int \<Rightarrow> pystr list \<Rightarrow> message" where
  "sample_message k sender recipient i ts =
     \<lparr>message_pk = k, sender_id = sender, sender_device_id = Some sender, recipient_id = recipient,
      client_message_id = i, part_count = int (length ts), part_texts = map Some ts, message_text = Some (concat ts),
      message_created_at = 0, last_part_at = 0, accepted_at = Some 0, message_delivered_at = None, message_read_at = None\<rparr>"

definition sample_receipt :: receipt where
  "sample_receipt =
     \<lparr>receipt_id = 1, receipt_message_id = 1, receipt_device_id = 1, target_level = 1, confirmed_level = 0,
      receipt_state = RECEIPT_PENDING, receipt_attempt_count = 0, receipt_maximum_attempts = 6, receipt_arm_generation = 1,
      round_pending = False, receipt_next_attempt_at = Some 900, receipt_round_started_at = None, receipt_last_sent_at = None,
      last_confirmation_received_at = None, receipt_failed_at = None, receipt_cancelled_at = None, receipt_created_at = 0,
      receipt_updated_at = 0\<rparr>"

definition sample_delivery :: delivery where
  "sample_delivery = (new_delivery default_settings 1 2 0)\<lparr>delivery_id := 1, next_attempt_at := Some 800\<rparr>"

definition sample_db :: db where
  "sample_db = empty_db
     \<lparr>users := \<lparr>rows = [sample_user 1 (str ''alice'') [], sample_user 2 (str ''bob'') []], next_id = 3\<rparr>,
      contacts := \<lparr>rows = [sample_contact 1 (Some 1), sample_contact 2 (Some 2)], next_id = 3\<rparr>,
      messages := \<lparr>rows = [sample_message 1 1 2 7 [str ''hello '', str ''Bob'']], next_id = 2\<rparr>,
      deliveries := \<lparr>rows = [sample_delivery], next_id = 2\<rparr>,
      receipts := \<lparr>rows = [sample_receipt], next_id = 2\<rparr>\<rparr>"

lemma sample_tables_ok: "tables_ok sample_db"
  by code_simp

lemma sample_messages_ok: "messages_ok sample_db"
  by code_simp

text \<open>The row of a direct message from the first device that waits to be processed.\<close>

definition sample_row :: "pystr \<Rightarrow> inbound" where
  "sample_row line =
     \<lparr>inbound_id = 1, received_at = 1000, sender_public_key_prefix = replicate 12 49, inbound_contact_id = Some 1,
      inbound_contact_label = [], inbound_sender_timestamp = 5, text_type = 0, path_length = 255, signal_to_noise_ratio = None,
      inbound_text = line, text_sha256 = [], duplicate_count = 0, last_duplicate_at = None,
      inbound_classification = UNCLASSIFIED, inbound_request_type = [], inbound_processing_state = PROCESSING_RECEIVED,
      processing_error = [], processed_at = None, inbound_outcome_summary = [], inbound_reply_summary = [],
      route_reset_performed = False\<rparr>"

definition sample_received :: "pystr \<Rightarrow> db" where
  "sample_received line = sample_db\<lparr>inbox := \<lparr>rows = [sample_row line], next_id = 2\<rparr>\<rparr>"

text \<open>A password service that keeps passwords as they are.\<close>

definition plain_passwords :: password_services where
  "plain_passwords = \<lparr>nfc = id, make_password = id, check_password = (=)\<rparr>"

lemma sample_received_ok: "tables_ok (sample_received line)" "messages_ok (sample_received line)"
  using sample_tables_ok sample_messages_ok
  by (simp_all add: sample_received_def tables_ok_def messages_ok_def keys_ok_def sample_row_def)

end
