(* ===== verification/Protocol_Properties.thy ===== *)
theory Protocol_Properties
  imports Error_Replies Message_Splitting "HOL-Library.Code_Target_Nat"
begin

text \<open>
  The properties of the HT1 protocol library: what is written is read back, the parser is total and
  canonical, every answer the server owes formats within the byte budget, and a text is split optimally.
\<close>

lemma formatted_server_text_sendable: "format_server_message m = Inr t \<Longrightarrow> sendable t"
  by (cases m)
    (auto simp: format_message_defs res_bind_eq_Inr build_direct_message_text_Inr Let_def split: if_splits option.splits)

lemma formatted_client_text_sendable: "format_client_message nfc m = Inr t \<Longrightarrow> sendable t"
  by (cases m)
    (auto simp: format_message_defs res_bind_eq_Inr build_direct_message_text_Inr Let_def split: if_splits option.splits)

section \<open>Reading back what was written\<close>

text \<open>
  C17: a server message that formats is a direct message a node can send (at most 150 bytes, no NUL, no lone
  surrogate), and a client that parses it gets the message back: only a message count above 9999 is capped
  and an error code is read by its name.
\<close>

theorem server_message_round_trip:
  "format_server_message m = Inr t \<Longrightarrow>
     parse_direct_message_text t = Inr (ServerMessage (as_received m)) \<and> sendable t"
  using format_server_message_parses formatted_server_text_sendable by blast

theorem server_message_round_trip_witness:
  "parse_direct_message_text (str ''HT1 r Bob 42'') = Inr (ServerMessage (ReadReply (str ''Bob'') 42)) \<and>
   sendable (str ''HT1 r Bob 42'')"
proof -
  have "format_server_message (ReadReply (str ''Bob'') 42) = Inr (str ''HT1 r Bob 42'')" by code_simp
  from server_message_round_trip [OF this] show ?thesis by simp
qed

text \<open>
  C18: a client message that formats is parsed by the server as exactly that message, password and part text
  included.
\<close>

theorem client_message_round_trip:
  "format_client_message nfc m = Inr t \<Longrightarrow> parse_direct_message_text t = Inr (ClientMessage m) \<and> sendable t"
  using format_client_message_parses formatted_client_text_sendable by blast

theorem client_message_round_trip_witness:
  "parse_direct_message_text (str ''HT1 M Bob 7 1/2 hi  there '') =
     Inr (ClientMessage (MessagePartRequest (str ''Bob'') 7 1 2 (str ''hi  there ''))) \<and>
   sendable (str ''HT1 M Bob 7 1/2 hi  there '')"
proof -
  have "format_client_message id (MessagePartRequest (str ''Bob'') 7 1 2 (str ''hi  there '')) =
      Inr (str ''HT1 M Bob 7 1/2 hi  there '')" by code_simp
  from client_message_round_trip [OF this] show ?thesis .
qed

text \<open>
  C19: the parser classifies every text and never raises, and it is canonical: when the message it read can
  be formatted at all, formatting gives the very text that was received, so no two texts mean one message.
\<close>

theorem parser_total_and_canonical:
  "\<exists>p. parse_direct_message_text t = Inr p \<and>
     (\<forall>m t'. p = (case m of Inl c \<Rightarrow> ClientMessage c | Inr s \<Rightarrow> ServerMessage s) \<and>
        format_protocol_message nfc m = Inr t' \<longrightarrow> t' = t)"
proof -
  obtain p where p: "parse_direct_message_text t = Inr p" using parse_total by blast
  have "t' = t" if "p = (case m of Inl c \<Rightarrow> ClientMessage c | Inr s \<Rightarrow> ServerMessage s)"
    "format_protocol_message nfc m = Inr t'" for m t'
    using parsed_text_canonical [of t m nfc t'] p that by simp
  with p show ?thesis by blast
qed

theorem parser_total_and_canonical_witness:
  "\<exists>t'. format_protocol_message id (Inl (QueryRequest (str ''Bob''))) = Inr t' \<and> t' = str ''HT1 Q Bob''"
proof -
  have p: "parse_direct_message_text (str ''HT1 Q Bob'') = Inr (ClientMessage (QueryRequest (str ''Bob'')))" by code_simp
  have "\<not> isl (format_protocol_message id (Inl (QueryRequest (str ''Bob''))))" by code_simp
  then obtain t' where "format_protocol_message id (Inl (QueryRequest (str ''Bob''))) = Inr t'"
    by (cases "format_protocol_message id (Inl (QueryRequest (str ''Bob'')))") auto
  with p parser_total_and_canonical [of "str ''HT1 Q Bob''" id] show ?thesis by force
qed

section \<open>Answers\<close>

text \<open>
  an error answer never fails to format. A text that earns a grammar error (syntax, version, unsupported
  type) gets one that is sendable, and so does a parsed request that a service refuses, whatever the code.
\<close>

lemma error_answers_are_sendable:
  assumes "parse_direct_message_text t = Inr p"
  shows "(\<forall>m. build_grammar_error_reply p = Some m \<longrightarrow> (\<exists>t'. format_server_message m = Inr t' \<and> sendable t')) \<and>
    (\<forall>m code. p = ClientMessage m \<and> is_answerable_request m \<longrightarrow>
       (\<exists>reply t'. build_request_error_reply code m = Inr reply \<and> format_server_message reply = Inr t' \<and> sendable t'))"
proof (intro conjI allI impI)
  fix m assume "build_grammar_error_reply p = Some m"
  with grammar_error_reply_formattable [OF assms] show "\<exists>t'. format_server_message m = Inr t' \<and> sendable t'"
    using formatted_server_text_sendable by blast
next
  fix m code assume "p = ClientMessage m \<and> is_answerable_request m"
  then have "client_fields_valid m" "is_answerable_request m" using parsed_client_message_valid assms by auto
  then obtain reply t' where "build_request_error_reply code m = Inr reply" "format_server_message reply = Inr t'"
    by (rule request_error_formattable)
  then show "\<exists>reply t'. build_request_error_reply code m = Inr reply \<and> format_server_message reply = Inr t' \<and> sendable t'"
    using formatted_server_text_sendable by blast
qed

lemma error_answers_are_sendable_witness:
  "\<exists>t'. format_server_message (ErrorReply (KnownCode SYNTAX) (str ''Q'') None) = Inr t' \<and> sendable t'"
proof -
  have "parse_direct_message_text (str ''HT1 Q b!'') = Inr (ProtocolSyntaxError (str ''Q'') [])" by code_simp
  moreover have "build_grammar_error_reply (ProtocolSyntaxError (str ''Q'') []) =
      Some (ErrorReply (KnownCode SYNTAX) (str ''Q'') None)" by code_simp
  ultimately show ?thesis using error_answers_are_sendable by blast
qed



text \<open>
  a reply key identifies the request it answers. A key exists for exactly the texts that are answered,
  and two parsed requests share it only when they are of the same type and name the same user, in whatever
  case, and message.
\<close>

lemma reply_keys_identify_requests:
  assumes "parse_direct_message_text t = Inr (ClientMessage m)" "parse_direct_message_text t' = Inr (ClientMessage m')"
  shows "(build_reply_key_for_direct_message (ClientMessage m) i \<noteq> None \<longleftrightarrow> is_answerable_request m) \<and>
    (build_request_reply_key m = build_request_reply_key m' \<longleftrightarrow>
       message_type m = message_type m' \<and> reply_key_fields m = reply_key_fields m')"
  using request_reply_key_inject [OF parsed_client_message_valid [OF assms(1)] parsed_client_message_valid [OF assms(2)]]
  by simp

lemma reply_keys_identify_requests_witness:
  "build_request_reply_key (ReadRequest (str ''BOB'') 12) = build_request_reply_key (ReadRequest (str ''bob'') 12)"
proof -
  have "parse_direct_message_text (str ''HT1 R BOB 12'') = Inr (ClientMessage (ReadRequest (str ''BOB'') 12))"
    "parse_direct_message_text (str ''HT1 R bob 12'') = Inr (ClientMessage (ReadRequest (str ''bob'') 12))"
    by code_simp+
  from reply_keys_identify_requests [OF this] show ?thesis
    by (simp add: normalize_username_for_lookup_def) code_simp
qed

section \<open>Parts\<close>

text \<open>
  C40: splitting is correct and optimal. Whatever the grapheme segmenter does, as long as its pieces join to
  the text, the parts join to the text, none is empty or over 104 bytes, no split into parts of 104 bytes
  has fewer, and the text is refused exactly when more than 10 parts are needed.
\<close>

theorem splitting_is_optimal:
  assumes "t \<noteq> []" "list_all is_allowed_part_text_character t" "concat (segment t) = t"
  shows "\<exists>parts. concat parts = t \<and> (\<forall>x \<in> set parts. x \<noteq> [] \<and> utf8_length x \<le> 104) \<and>
    (\<forall>qs. concat qs = t \<and> (\<forall>q \<in> set qs. utf8_length q \<le> 104) \<longrightarrow> length parts \<le> length qs) \<and>
    split_message_text t segment =
      (if length parts > 10 then Inl (MessageTooLongError (int (utf8_length t)) (int (length parts))) else Inr parts)"
  using split_message_text_cases [of t segment, OF assms] by metis

theorem splitting_is_optimal_witness:
  "\<exists>parts. concat parts = str ''hi'' \<and>
     split_message_text (str ''hi'') (\<lambda>t. [t]) =
      (if length parts > 10 then Inl (MessageTooLongError (int (utf8_length (str ''hi''))) (int (length parts))) else Inr parts)"
proof -
  have "str ''hi'' \<noteq> []" "list_all is_allowed_part_text_character (str ''hi'')" by code_simp+
  from splitting_is_optimal [OF this, of "\<lambda>t. [t]"] show ?thesis by auto
qed

text \<open>
  the byte budget of a part adds up. A part with a valid username, id, numbering and text always formats,
  both as the client's M request and as the server's d push, within the 150 bytes of a direct message.
\<close>

lemma valid_parts_always_fit:
  assumes "is_valid_username u" "MESSAGE_ID_MINIMUM \<le> i" "i \<le> MESSAGE_ID_MAXIMUM"
    and "is_valid_part_numbering n c" "valid_part_text body"
  shows "\<exists>t t'. format_message_part_request u i n c body = Inr t \<and> format_delivery_part u i n c body = Inr t' \<and>
    utf8_length t \<le> 150 \<and> utf8_length t' \<le> 150"
proof -
  obtain t where t: "format_message_part_request u i n c body = Inr t"
    using part_message_fits [OF assms, of "client_type_letter MESSAGE_PART_REQUEST" 77]
    by (auto simp: format_message_part_request_def str_def)
  obtain t' where t': "format_delivery_part u i n c body = Inr t'"
    using part_message_fits [OF assms, of "server_type_letter DELIVERY_PART" "of_char (hd (map char_of (server_type_letter DELIVERY_PART)))"]
    by (auto simp: format_delivery_part_def str_def)
  have "sendable t" "sendable t'"
    using formatted_client_text_sendable [of id "MessagePartRequest u i n c body"] t
      formatted_server_text_sendable [of "DeliveryPart u i n c body"] t' by auto
  with t t' show ?thesis by (auto simp: sendable_def)
qed

lemma valid_parts_always_fit_witness:
  "\<exists>t t'. format_message_part_request (str ''Bob'') 1 1 1 (str ''x'') = Inr t \<and>
     format_delivery_part (str ''Bob'') 1 1 1 (str ''x'') = Inr t' \<and> utf8_length t \<le> 150 \<and> utf8_length t' \<le> 150"
proof -
  have "is_valid_username (str ''Bob'')" "MESSAGE_ID_MINIMUM \<le> 1" "(1 :: int) \<le> MESSAGE_ID_MAXIMUM"
    "is_valid_part_numbering 1 1" "valid_part_text (str ''x'')" by code_simp+
  from valid_parts_always_fit [OF this] show ?thesis .
qed

text \<open>
  a received-set and a mask of parts carry the same information: converting one to the other and back
  gives it unchanged, and the set is all ones exactly when the mask has every part.
\<close>

lemma received_sets_round_trip:
  assumes "is_received_set_field s" "1 \<le> n" "n \<le> 10" "0 \<le> m" "m \<le> mask (nat n)"
  shows "(\<exists>k. convert_received_set_to_parts_mask s = Inr k \<and>
       convert_parts_mask_to_received_set k (int (length s)) = Inr s \<and>
       (calculate_all_parts_mask (int (length s)) = Inr k \<longleftrightarrow> is_complete_received_set s)) \<and>
    (\<exists>r. convert_parts_mask_to_received_set m n = Inr r \<and> convert_received_set_to_parts_mask r = Inr m)"
proof -
  have len: "1 \<le> length s" "length s \<le> 10"
    using assms(1) by (auto simp: is_received_set_field_def MAXIMUM_PART_COUNT_def)
  have "is_received_set_field (map (\<lambda>i. if bit m i then 49 else 48) [0..<nat n])"
    using assms by (auto simp: is_received_set_field_def list_all_iff MAXIMUM_PART_COUNT_def)
  then show ?thesis
    using assms len received_set_of_mask_of_received_set [OF assms(1)] mask_of_received_set_of_mask [OF assms(4,5)]
      convert_parts_mask_to_received_set_eq [OF assms(2-5)] received_parts_complete_iff [of s]
    by (auto simp: convert_received_set_to_parts_mask_def calculate_all_parts_mask_eq is_complete_received_set_def)
qed

lemma received_sets_round_trip_witness:
  "\<exists>r. convert_parts_mask_to_received_set 5 3 = Inr r \<and> convert_received_set_to_parts_mask r = Inr 5"
proof -
  have "is_received_set_field (str ''101'')" by code_simp
  moreover have "(5 :: int) \<le> mask (nat 3)" by code_simp
  ultimately show ?thesis using received_sets_round_trip [of "str ''101''" 3 5] by simp
qed

end
