(* ===== verification/Messaging_Properties.thy ===== *)
theory Messaging_Properties
  imports Sample_Relay Protocol_Properties
begin

text \<open>
  The properties of the messaging services: what happens to an uploaded text, to a received row, to the
  deliveries and receipts of a message, to a refresh, and to the packets the sender loop prepares.
\<close>

lemma no_row_left: "(\<And>r. P r \<Longrightarrow> \<not> P (f r)) \<Longrightarrow> \<not> exists_where P (update_where P f t)"
proof -
  have "(\<And>r. P r \<Longrightarrow> \<not> P (f r)) \<Longrightarrow> \<not> list_ex P (map (\<lambda>r. if P r then f r else r) xs)" for xs
    by (induction xs) auto
  then show "(\<And>r. P r \<Longrightarrow> \<not> P (f r)) \<Longrightarrow> \<not> exists_where P (update_where P f t)" by (simp add: exists_where_def)
qed

section \<open>Uploading a message\<close>

lemma split_parts_valid:
  assumes "t \<noteq> []" "list_all is_allowed_part_text_character t" "concat (segment t) = t" "split_message_text t segment = Inr ts"
  shows "concat ts = t" "length ts \<le> 10" "ts \<noteq> []" "\<forall>x \<in> set ts. valid_part_text x"
proof -
  obtain parts where p: "concat parts = t" "\<forall>x \<in> set parts. x \<noteq> [] \<and> utf8_length x \<le> 104"
    "split_message_text t segment = (if length parts > 10 then Inl (MessageTooLongError (int (utf8_length t)) (int (length parts))) else Inr parts)"
    by (rule split_message_text_cases [of t segment, OF assms(1-3)])
  then have ts: "ts = parts" "length ts \<le> 10" using assms(4) by (auto split: if_splits)
  show "concat ts = t" "length ts \<le> 10" "ts \<noteq> []" using p(1) ts assms(1) by auto
  have pos: "1 \<le> utf8_length x" if "x \<noteq> []" for x using that by (cases x) (simp_all add: utf8_bytes_def)
  have "list_all is_allowed_part_text_character x" if "x \<in> set ts" for x
    using assms(2) that p(1) ts(1) by (auto simp: list_all_iff)
  then show "\<forall>x \<in> set ts. valid_part_text x" using p(2) ts(1) pos by (auto simp: valid_part_text_def)
qed

text \<open>
  C2: a text split into parts and uploaded part by part, in any order and with any repetitions, is held
  exactly as far as it arrived; the message is accepted when and only when the last missing part arrived,
  and then its text is the text that was split.
\<close>

theorem uploaded_text_is_kept:
  assumes "tables_ok db" "messages_ok db" "upload_parties device name sender recipient db" "find_upload sender i db = None"
    and "valid_message_id i" "t \<noteq> []" "list_all is_allowed_part_text_character t" "concat (segment t) = t"
    and "split_message_text t segment = Inr ts" "set ks \<subseteq> {..<length ts}" "ks \<noteq> []"
  shows "\<exists>db' m. upload S device name i ts now ks db = Inr db' \<and> find_upload sender i db' = Some m \<and>
    part_texts m = map (\<lambda>k. if k \<in> set ks then Some (ts ! k) else None) [0..<length ts] \<and>
    (accepted_at m \<noteq> None \<longleftrightarrow> set ks = {..<length ts}) \<and> (accepted_at m \<noteq> None \<longrightarrow> message_text m = Some t)"
proof -
  note ts = split_parts_valid [OF assms(6-9)]
  have "upload_state device name sender recipient i ts {} db" using assms(1-4) by (simp add: upload_state_def)
  then obtain db' where db': "upload S device name i ts now ks db = Inr db'" "upload_state device name sender recipient i ts ({} \<union> set ks) db'"
    by (rule upload_loop [OF _ assms(10) _ ts(2) assms(5) ts(4)]) simp
  moreover obtain m where "find_upload sender i db' = Some m" "holds_parts device recipient sender i ts (set ks) m"
    using db'(2) assms(11) by (auto simp: upload_state_def split: option.splits)
  ultimately show ?thesis using ts(1) by (auto simp: holds_parts_def)
qed

theorem uploaded_text_is_kept_witness:
  "\<exists>db' m. upload default_settings 1 (str ''Bob'') 9 [str ''hey''] 500 [0, 0] sample_db = Inr db' \<and>
     find_upload 1 9 db' = Some m \<and> message_text m = Some (str ''hey'')"
proof -
  have a: "upload_parties 1 (str ''Bob'') 1 (sample_user 2 (str ''bob'') []) sample_db" "find_upload 1 9 sample_db = None"
    "valid_message_id 9" "str ''hey'' \<noteq> []" "list_all is_allowed_part_text_character (str ''hey'')"
    "split_message_text (str ''hey'') (\<lambda>t. [t]) = Inr [str ''hey'']"
    by code_simp+
  obtain db' m where "upload default_settings 1 (str ''Bob'') 9 [str ''hey''] 500 [0, 0] sample_db = Inr db'"
    "find_upload 1 9 db' = Some m" "accepted_at m \<noteq> None \<longleftrightarrow> set [0 :: nat, 0] = {..<length [str ''hey'']}"
    "accepted_at m \<noteq> None \<longrightarrow> message_text m = Some (str ''hey'')"
    using uploaded_text_is_kept [OF sample_tables_ok sample_messages_ok a(1-5) _ a(6), of "[0, 0]" default_settings 500] by auto
  then show ?thesis by (auto simp: lessThan_Suc)
qed

section \<open>Processing a received row\<close>

text \<open>
  One processed row, whatever it asks for, moves every table along its abstract machine: nothing is
  deleted, keys stay unique, accepted texts and first times stay, delivered and cancelled deliveries stay
  so in their arm, levels of receipts only grow, finished sessions do not change; and the message rows keep
  their constraints.
\<close>

lemma processing_refines_the_machines:
  assumes "process_in_transaction S PW seen row_id now original db = Inr (result, db')" "tables_ok db" "messages_ok db"
  shows "db_moves db db' \<and> messages_ok db'"
  using process_in_transaction_moves [OF assms] by simp

lemma processing_refines_the_machines_witness:
  "\<exists>result db'. process_in_transaction default_settings plain_passwords (sample_received (str ''HT1 R bob 3'')) 1 2000 None
     (sample_received (str ''HT1 R bob 3'')) = Inr (result, db') \<and> db_moves (sample_received (str ''HT1 R bob 3'')) db'"
proof -
  have "\<not> isl (process_in_transaction default_settings plain_passwords (sample_received (str ''HT1 R bob 3'')) 1 2000 None
     (sample_received (str ''HT1 R bob 3'')))"
    by code_simp
  then obtain result db' where p: "process_in_transaction default_settings plain_passwords (sample_received (str ''HT1 R bob 3'')) 1 2000 None
     (sample_received (str ''HT1 R bob 3'')) = Inr (result, db')"
    by (metis isl_def prod.exhaust sum.exhaust)
  from processing_refines_the_machines [OF p sample_received_ok] p show ?thesis by blast
qed







section \<open>Deliveries\<close>

text \<open>
  an accepted message is handed to every device of its recipient: each gets exactly one new delivery, due
  at once, or queued behind the device's active refresh of the sender, and no earlier delivery changes.
\<close>

lemma accepted_message_reaches_every_device:
  assumes "create_deliveries_for_accepted_message S m now db = (n, db')"
  shows "\<exists>added active. rows (deliveries db') = rows (deliveries db) @ added \<and>
    map delivery_device_id added = device_ids_of_user (recipient_id m) db \<and> n = length added \<and>
    (\<forall>d \<in> set added. delivery_message_id d = message_pk m \<and> attempt_count d = 0 \<and>
       refresh_session_id d = active (delivery_device_id d) \<and>
       (if active (delivery_device_id d) = None then delivery_state d = DELIVERY_PENDING \<and> next_attempt_at d = Some now
        else delivery_state d = DELIVERY_QUEUED_FOR_REFRESH))"
proof -
  obtain added active where a: "rows (deliveries db') = rows (deliveries db) @ added"
    "map delivery_device_id added = device_ids_of_user (recipient_id m) db"
    "list_all (delivery_created_for (message_pk m) active now) added"
    "n = length (device_ids_of_user (recipient_id m) db)"
    by (rule fan_out_rows [OF assms])
  have "n = length added" using a(2,4) by (metis length_map)
  with a(1-3) show ?thesis
    by (intro exI [of _ added] exI [of _ active]) (auto simp: list_all_iff delivery_created_for_def split: option.splits)
qed

lemma accepted_message_reaches_every_device_witness:
  "\<exists>n db' added. create_deliveries_for_accepted_message default_settings (sample_message 1 1 2 7 [str ''hey'']) 50 sample_db = (n, db') \<and>
     rows (deliveries db') = rows (deliveries sample_db) @ added \<and> map delivery_device_id added = [2]"
proof -
  obtain n db' where c: "create_deliveries_for_accepted_message default_settings (sample_message 1 1 2 7 [str ''hey'']) 50 sample_db = (n, db')"
    by (metis prod.exhaust)
  have "device_ids_of_user (recipient_id (sample_message 1 1 2 7 [str ''hey''])) sample_db = [2]" by code_simp
  with accepted_message_reaches_every_device [OF c] c show ?thesis by auto
qed

text \<open>The tables the end of a confirmation leaves alone.\<close>

lemma confirmation_keeps_deliveries:
  assumes "record_message_confirmation m now is_read db = (rose, m1, db1)" "m \<in> set (rows (messages db))" "tables_ok db"
  shows "deliveries (complete_confirmed_head_session confirmation now (if rose then raise_receipts_for_message S m1 now db1 else db1)) =
    deliveries db"
proof -
  note c = record_confirmation_moves [OF assms]
  have ok: "tables_ok db1" using service_moves_ok [OF c(1) assms(3)] .
  have "deliveries (raise_receipts_for_message S m1 now db1) = deliveries db1" if rose
    using receipts_move_tables(5) [OF raise_receipts_for_message_moves] c(2) [OF that] ok by (simp add: tables_ok_def)
  then show ?thesis
    using c(4) by (simp add: complete_confirmed_head_session_def complete_refresh_session_def finish_refresh_session_def Let_def split: option.split)
qed

text \<open>
  C10: when a device reports that it has every part of a message, its delivery is delivered, whatever had become
  of it before: pending, failed, or queued for a refresh. The row keeps the full received-set and the time.
\<close>

theorem full_acknowledgement_delivers:
  assumes "record_delivery_acknowledgement_in_transaction S device name i received_set now db = Inr (out, db')"
    and "tables_ok db" "messages_ok db"
    and "Option.bind (lock_device_for_key_share device db) locked_user_id = Some user"
      "lock_incoming_message user name i db = Some m" "lock_delivery (message_pk m) device db = Some d"
    and "delivery_state d \<in> set DELIVERY_STATES_A_CONFIRMATION_DELIVERS"
      "received_set_matches_part_count received_set (part_count m)" "is_complete_received_set received_set"
  shows "\<exists>d' \<in> set (rows (deliveries db')). delivery_id d' = delivery_id d \<and> delivery_state d' = DELIVERY_DELIVERED \<and>
    delivered_at d' = Some now \<and> calculate_all_parts_mask (part_count m) = Inr (parts_received_mask d')"
proof -
  have keys: "keys_ok delivery_id (deliveries db)" using assms(2) by (simp add: tables_ok_def)
  obtain d1 db1 where ack: "record_delivery_acknowledgement_time d now db = (d1, db1)" by fastforce
  have d: "d \<in> set (rows (deliveries db))" using lock_deliveryD [OF assms(6)] by simp
  have d1: "d1 = d\<lparr>last_acknowledgement_received_at := Some now\<rparr>" "d1 \<in> set (rows (deliveries db1))"
    using ack d by (force simp: record_delivery_acknowledgement_time_def)+
  note move1 = acknowledgement_time_moves [OF ack]
  have ok1: "tables_ok db1" using service_moves_ok [OF deliveries_move_service [OF move1] assms(2)] .
  have m: "m \<in> set (rows (messages db))" using lock_incoming_messageD [OF assms(5)] by simp
  have len: "part_count m = int (length received_set)" "1 \<le> part_count m" "part_count m \<le> 10"
    using m assms(3,8) by (auto simp: messages_ok_def all_rows_def message_row_ok_def received_set_matches_part_count_def MAXIMUM_PART_COUNT_def)
  have field: "is_received_set_field received_set"
    using assms(9) len by (auto simp: is_received_set_field_def is_complete_received_set_def list_all_iff MAXIMUM_PART_COUNT_def RECEIVED_SET_RECEIVED_def)
  have n: "1 \<le> length received_set" "length received_set \<le> 10" using len by auto
  obtain k where k: "convert_received_set_to_parts_mask received_set = Inr k" "calculate_all_parts_mask (part_count m) = Inr k"
    using received_parts_complete_iff [of received_set] field n assms(9) len(1)
    by (auto simp: convert_received_set_to_parts_mask_def calculate_all_parts_mask_eq is_complete_received_set_def)
  obtain confirmation db2 where c: "deliver S d1 now (Some k) False db1 = (confirmation, db2)" by fastforce
  obtain rose m1 db3 where r: "record_message_confirmation m now False db2 = (rose, m1, db3)" by (metis prod.exhaust)
  have db': "db' = complete_confirmed_head_session confirmation now (if rose then raise_receipts_for_message S m1 now db3 else db3)"
    using assms(1,4-8) ack c r k d1(1)
    by (simp add: record_delivery_acknowledgement_in_transaction_def)
  have ok2: "tables_ok db2" using service_moves_ok [OF deliveries_move_service [OF deliver_moves [OF c]] ok1] .
  have m2: "m \<in> set (rows (messages db2))"
    using m deliveries_move_tables(3) [OF move1] deliveries_move_tables(3) [OF deliver_moves [OF c]] by simp
  have "delivered_change now (Some k) False d1 \<in> set (rows (deliveries db2))"
    by (rule deliver_delivers [OF _ d1(2) _ c]) (use ok1 assms(7) d1(1) in \<open>simp_all add: tables_ok_def\<close>)
  then have "delivered_change now (Some k) False d1 \<in> set (rows (deliveries db'))"
    unfolding db' confirmation_keeps_deliveries [OF r m2 ok2] .
  then show ?thesis using k(2) d1(1) by (intro bexI) (auto simp: delivered_change_def)
qed

theorem full_acknowledgement_delivers_witness:
  "\<exists>out db'. record_delivery_acknowledgement_in_transaction default_settings 2 (str ''alice'') 7 (str ''11'') 900 sample_db = Inr (out, db') \<and>
     (\<exists>d' \<in> set (rows (deliveries db')). delivery_id d' = 1 \<and> delivery_state d' = DELIVERY_DELIVERED)"
proof -
  let ?m = "sample_message 1 1 2 7 [str ''hello '', str ''Bob'']"
  have "\<not> isl (record_delivery_acknowledgement_in_transaction default_settings 2 (str ''alice'') 7 (str ''11'') 900 sample_db)" by code_simp
  then obtain out db' where r: "record_delivery_acknowledgement_in_transaction default_settings 2 (str ''alice'') 7 (str ''11'') 900 sample_db = Inr (out, db')"
    by (metis isl_def prod.exhaust sum.exhaust)
  have "lock_incoming_message 2 (str ''alice'') 7 sample_db \<noteq> None" by code_simp
  then obtain m where l: "lock_incoming_message 2 (str ''alice'') 7 sample_db = Some m" by blast
  with lock_incoming_messageD [OF l] have m: "lock_incoming_message 2 (str ''alice'') 7 sample_db = Some ?m"
    by (simp add: sample_db_def)
  have d: "lock_delivery (message_pk ?m) 2 sample_db = Some sample_delivery"
    by (simp add: lock_delivery_def first_where_def sample_db_def sample_delivery_def new_delivery_def sample_message_def)
  have a: "Option.bind (lock_device_for_key_share 2 sample_db) locked_user_id = Some 2"
    "delivery_state sample_delivery \<in> set DELIVERY_STATES_A_CONFIRMATION_DELIVERS"
    "received_set_matches_part_count (str ''11'') (part_count ?m)" "is_complete_received_set (str ''11'')" by code_simp+
  from full_acknowledgement_delivers [OF r sample_tables_ok sample_messages_ok a(1) m d a(2-4)] r
  show ?thesis by (auto simp: sample_delivery_def)
qed

section \<open>Refreshes\<close>

text \<open>
  C34: a refresh that starts for a peer takes over or creates at least one delivery, and of the deliveries it owns
  exactly one, the first in acceptance order, is armed and due at once; all others wait behind it. The answer
  counts them.
\<close>

theorem refresh_starts_with_one_head:
  assumes "refresh_peer S device user peer for_all inbound now db = (r, db')" "started_new_session r" "tables_ok db"
    and "\<forall>d \<in> set (rows (deliveries db)). refresh_session_id d \<noteq> Some (next_id (refresh_sessions db))"
  shows "\<exists>head. session_has_head db' (next_id (refresh_sessions db)) head \<and> next_attempt_at head = Some now \<and>
    count_where (\<lambda>d. refresh_session_id d = Some (next_id (refresh_sessions db))) (deliveries db') = message_count r"
proof -
  obtain head where "session_has_head db' (next_id (refresh_sessions db)) head" "next_attempt_at head = Some now"
    "count_where (\<lambda>d. refresh_session_id d = Some (next_id (refresh_sessions db))) (deliveries db') = message_count r"
    by (rule refresh_peer_starts [OF assms(1-3)]) (use assms(4) in auto)
  then show ?thesis by blast
qed

theorem refresh_starts_with_one_head_witness:
  "\<exists>r db' head. refresh_peer default_settings 2 2 1 False None 900 sample_db = (r, db') \<and>
     session_has_head db' (next_id (refresh_sessions sample_db)) head \<and> message_count r = 1"
proof -
  have s: "started_new_session (fst (refresh_peer default_settings 2 2 1 False None 900 sample_db))"
    "message_count (fst (refresh_peer default_settings 2 2 1 False None 900 sample_db)) = 1"
    "\<forall>d \<in> set (rows (deliveries sample_db)). refresh_session_id d \<noteq> Some (next_id (refresh_sessions sample_db))" by code_simp+
  from refresh_starts_with_one_head [OF prod.collapse [symmetric] s(1) sample_tables_ok s(3)] s(2)
  show ?thesis by (metis prod.collapse)
qed

text \<open>
  stopping a refresh fails exactly the deliveries that were still queued in it, with the reason kept, and
  leaves the session no longer active; nothing of it is queued any more.
\<close>

lemma stopped_refresh_leaves_nothing_queued:
  assumes "tables_ok db"
  shows "deliveries (stop_refresh_session session now db) =
      update_where (\<lambda>r. refresh_session_id r = Some session \<and> delivery_state r = DELIVERY_QUEUED_FOR_REFRESH)
        (\<lambda>r. r\<lparr>delivery_state := DELIVERY_FAILED, failed_at := Some now, failure_reason := REFRESH_STOPPED\<rparr>) (deliveries db) \<and>
    queued_deliveries_of session (stop_refresh_session session now db) = [] \<and>
    \<not> exists_where (\<lambda>s. session_id s = session \<and> session_state s = SESSION_ACTIVE) (refresh_sessions (stop_refresh_session session now db))"
proof -
  have d: "deliveries (stop_refresh_session session now db) =
      update_where (\<lambda>r. refresh_session_id r = Some session \<and> delivery_state r = DELIVERY_QUEUED_FOR_REFRESH)
        (\<lambda>r. r\<lparr>delivery_state := DELIVERY_FAILED, failed_at := Some now, failure_reason := REFRESH_STOPPED\<rparr>) (deliveries db)"
    using stop_session_deliveries [of db session now] assms by (simp add: tables_ok_def fail_stopped_change_def [abs_def])
  have "\<not> exists_where (\<lambda>r. refresh_session_id r = Some session \<and> delivery_state r = DELIVERY_QUEUED_FOR_REFRESH)
      (deliveries (stop_refresh_session session now db))"
    unfolding d by (rule no_row_left) simp
  then have "queued_deliveries_of session (stop_refresh_session session now db) = []"
    by (simp add: queued_deliveries_of_def select_where_def exists_where_def list_ex_iff filter_empty_conv)
  moreover have "\<not> exists_where (\<lambda>s. session_id s = session \<and> session_state s = SESSION_ACTIVE) (refresh_sessions (stop_refresh_session session now db))"
    unfolding stop_session_sessions by (rule no_row_left) simp
  ultimately show ?thesis using d by blast
qed

lemma stopped_refresh_leaves_nothing_queued_witness:
  "queued_deliveries_of 1 (stop_refresh_session 1 9 (sample_db\<lparr>deliveries := \<lparr>rows = [sample_delivery
     \<lparr>delivery_state := DELIVERY_QUEUED_FOR_REFRESH, refresh_session_id := Some 1\<rparr>], next_id = 2\<rparr>\<rparr>)) = []"
proof -
  have "tables_ok (sample_db\<lparr>deliveries := \<lparr>rows = [sample_delivery
     \<lparr>delivery_state := DELIVERY_QUEUED_FOR_REFRESH, refresh_session_id := Some 1\<rparr>], next_id = 2\<rparr>\<rparr>)"
    using sample_tables_ok by (simp add: tables_ok_def keys_ok_def sample_delivery_def)
  from stopped_refresh_leaves_nothing_queued [OF this] show ?thesis by blast
qed

end
