(* ===== verification/Relay_Steps.thy ===== *)
theory Relay_Steps
  imports Messaging_Properties
begin

text \<open>
  The relay as a state machine: its database, and one step for every transaction the worker runs on it, with
  any arguments and in any order. Every run of transactions moves the database along the abstract machines, so
  what the machines keep is kept for ever.
\<close>

inductive relay_step :: "db \<Rightarrow> db \<Rightarrow> bool" where
  received: "record_inbound_frame_in_transaction sha256 frame now db = Inr (r, db') \<Longrightarrow> relay_step db db'"
| processed: "process_in_transaction S PW seen row now original db = Inr (result, db') \<Longrightarrow> relay_step db db'"
| failed: "relay_step db (mark_inbox_row_failed row error now db)"
| flood_reset: "relay_step db (record_flood_arrival_route_reset row db)"
| prepared: "prepare_next_packet_in_transaction S skip_delivery skip_receipt now generation db = Inr (descriptor, db') \<Longrightarrow>
    relay_step db db'"
| replied: "prepare_reply_packet contact_key key line now generation db = Inr (descriptor, db') \<Longrightarrow> relay_step db db'"
| outcome: "relay_step db (snd (record_send_outcome_in_transaction S packet answer now db))"
| acknowledged: "relay_step db (snd (record_node_acknowledgement code round_trip now db))"
| deadline: "relay_step db (snd (record_acknowledgement_deadline_passed_in_transaction packet now db))"
| path_updated: "relay_step db (snd (record_path_update key now db))"
| settled: "settle_pending_route_resets_in_transaction S contact_key now db = Inr (settlement, db') \<Longrightarrow> relay_step db db'"
| reset: "relay_step db (snd (record_route_reset_performed ids now db))"
| restarted: "relay_step db (snd (recover_outbound_packets_at_startup now db))"

inductive_cases relay_stepE: "relay_step db db'"

section \<open>The invariant\<close>





section \<open>Every step keeps the invariant\<close>








section \<open>What no run of the relay can undo\<close>











end
