(* ===== verification/Worker_Properties.thy ===== *)
theory Worker_Properties
  imports Sample_Relay
begin

text \<open>
  The properties of what the worker sends and records: which packet the sender loop prepares, what an answer
  of the node or the firmware changes, how route resets are settled, and the reply queue.
\<close>

section \<open>The next packet\<close>



text \<open>
  C33: no device gets more deliveries in progress than the limit: preparing packets never lifts a device that is
  within the limit above it.
\<close>

theorem in_progress_limit_holds:
  assumes "prepare_next_packet_in_transaction S skip_delivery skip_receipt now generation db = Inr (result, db')" "tables_ok db"
    and "deliveries_in_progress device db \<le> maximum_active_deliveries_per_device (pacing S)"
  shows "deliveries_in_progress device db' \<le> maximum_active_deliveries_per_device (pacing S)"
  using prepare_next_packet_spec [OF assms(1,2)] assms(3) by (simp add: walk_result_def)

theorem in_progress_limit_holds_witness:
  "\<exists>result db'. prepare_next_packet_in_transaction default_settings (\<lambda>_. False) (\<lambda>_. False) 1000 1 sample_db = Inr (result, db') \<and>
     deliveries_in_progress 2 db' \<le> 3"
proof -
  let ?run = "prepare_next_packet_in_transaction default_settings (\<lambda>_. False) (\<lambda>_. False) 1000 1 sample_db"
  have "\<not> isl ?run" by code_simp
  then obtain result db' where r: "?run = Inr (result, db')" by (metis isl_def prod.exhaust sum.exhaust)
  have l: "maximum_active_deliveries_per_device (pacing default_settings) = 3" "deliveries_in_progress 2 sample_db \<le> 3" by code_simp+
  from in_progress_limit_holds [OF r sample_tables_ok, of 2] r l show ?thesis by auto
qed

text \<open>
  the loop over the bits of a parts mask gives the number of the lowest set bit, counted from one, and it
  gives none exactly for the empty mask.
\<close>

lemma lowest_part_number_is_lowest:
  "(find_lowest_part_number m = Some n \<longleftrightarrow> 1 \<le> n \<and> bit m (nat (n - 1)) \<and> (\<forall>k. k < nat (n - 1) \<longrightarrow> \<not> bit m k)) \<and>
   (0 \<le> m \<longrightarrow> (find_lowest_part_number m = None \<longleftrightarrow> m = 0))"
  by (simp add: find_lowest_part_number_def find_lowest_part_from_Some find_lowest_part_from_None)

lemma lowest_part_number_is_lowest_witness:
  "bit (12 :: int) (nat (3 - 1)) \<and> \<not> bit (12 :: int) 0"
proof -
  have "find_lowest_part_number 12 = Some 3" by code_simp
  with lowest_part_number_is_lowest [of 12 3] show ?thesis by simp
qed

section \<open>The answers of the node\<close>

text \<open>
  the outcome of a packet is recorded once. A second report of the same packet, with whatever outcome,
  changes nothing.
\<close>

lemma outcomes_are_recorded_once:
  assumes "tables_ok db"
  shows "snd (record_send_outcome_in_transaction S i later now' (snd (record_send_outcome_in_transaction S i outcome now db))) =
    snd (record_send_outcome_in_transaction S i outcome now db)"
  by (rule outcome_recorded_once) (use assms in \<open>simp add: tables_ok_def\<close>)

lemma outcomes_are_recorded_once_witness:
  "snd (record_send_outcome_in_transaction default_settings 1 PacketOutcomeUnknown 9
      (snd (record_send_outcome_in_transaction default_settings 1 (PacketRejectedByNode 3) 8 sample_db))) =
    snd (record_send_outcome_in_transaction default_settings 1 (PacketRejectedByNode 3) 8 sample_db)"
  by (rule outcomes_are_recorded_once [OF sample_tables_ok])

text \<open>
  the outcome of a stale packet changes no delivery and no receipt: when the row it was prepared for was
  armed again, started another attempt, or is no longer pending, only the packet and its contact change.
\<close>

lemma stale_outcomes_change_no_row:
  assumes "find_packet i db = Some p" "\<not> packet_is_current p db"
  shows "deliveries (snd (record_send_outcome_in_transaction S i outcome now db)) = deliveries db \<and>
    receipts (snd (record_send_outcome_in_transaction S i outcome now db)) = receipts db"
  using stale_outcome_changes_no_row [OF assms] by simp

definition sample_stale :: db where
  "sample_stale = sample_db\<lparr>packets := \<lparr>rows = [(new_packet (sample_contact 2 (Some 2)) PURPOSE_DELIVERY (str ''HT1 m'') 4 1)
     \<lparr>packet_id := 1, packet_delivery_id := Some 1, packet_part_number := Some 1, packet_arm_generation := Some 1,
      packet_attempt_number := Some 5\<rparr>], next_id = 2\<rparr>\<rparr>"

lemma stale_outcomes_change_no_row_witness:
  "deliveries (snd (record_send_outcome_in_transaction default_settings 1 (PacketQueuedOnNode ROUTE_FLOOD [] 5) 9 sample_stale)) =
     deliveries sample_stale"
proof -
  have "find_packet 1 sample_stale \<noteq> None" "\<not> packet_is_current (the (find_packet 1 sample_stale)) sample_stale" by code_simp+
  then show ?thesis using stale_outcomes_change_no_row [of 1 sample_stale] by auto
qed

text \<open>
  A firmware acknowledgement, a passed deadline and a restart change only packets: none of them marks a
  delivery delivered or a receipt confirmed, since the firmware acknowledges a hop and not the device.
\<close>

lemma acknowledgements_only_touch_packets:
  "only_packets_move db (snd (record_node_acknowledgement code round_trip now db)) \<and>
   only_packets_move db (snd (record_acknowledgement_deadline_passed_in_transaction i now db)) \<and>
   only_packets_move db (snd (recover_outbound_packets_at_startup now db))"
  using record_node_acknowledgement_moves deadline_passed_moves recover_moves by blast

text \<open>
  after a restart no packet waits for the node, for an acknowledgement or for a route reset, and recovering
  again finds nothing and changes nothing.
\<close>

lemma recovery_settles_every_packet:
  "all_rows packet_is_settled (packets (snd (recover_outbound_packets_at_startup now db))) \<and>
   recover_outbound_packets_at_startup later (snd (recover_outbound_packets_at_startup now db)) =
     (\<lparr>prepared_packets_now_unknown = 0, queued_packets_dropped = 0, route_resets_dropped = 0\<rparr>,
      snd (recover_outbound_packets_at_startup now db))"
  using recover_settles recover_settled by blast

text \<open>
  C37: settling the pending route resets of a contact one by one is the same as deciding each of its pending
  packets from the evidence in the database at the start: those with a later path update or application
  evidence are settled as such, and the node is asked for a reset for exactly the others.
\<close>

theorem route_resets_are_settled_by_evidence:
  assumes "settle_pending_route_resets_in_transaction S contact_key now db = Inr (settlement, db')" "tables_ok db"
  defines "pending \<equiv> \<lambda>p. packet_contact_id p = Some contact_key \<and> route_reset_state p = RESET_PENDING"
    and "path_update \<equiv> Option.bind (find_contact contact_key db) last_path_update_at"
  shows "packet_ids_needing_reset settlement =
      map packet_id (select_where (\<lambda>p. pending p \<and> reset_verdict path_update db p = RESET_PENDING) (packets db)) \<and>
    db' = db\<lparr>packets := update_where (\<lambda>p. pending p \<and> reset_verdict path_update db p \<noteq> RESET_PENDING)
      (settle_change path_update now db) (packets db)\<rparr>"
  using settle_pending_eq [OF assms(1,2)] unfolding pending_def path_update_def by blast

definition sample_pending_reset :: db where
  "sample_pending_reset = sample_db\<lparr>packets := \<lparr>rows = [(new_packet (sample_contact 2 (Some 2)) PURPOSE_DELIVERY (str ''HT1 m'') 4 1)
     \<lparr>packet_id := 1, packet_state := PACKET_ACKNOWLEDGEMENT_TIMED_OUT, queued_at := Some 5, route_reset_state := RESET_PENDING\<rparr>],
     next_id = 2\<rparr>\<rparr>"

theorem route_resets_are_settled_by_evidence_witness:
  "\<exists>settlement db'. settle_pending_route_resets_in_transaction default_settings 2 9 sample_pending_reset = Inr (settlement, db') \<and>
     packet_ids_needing_reset settlement = [1]"
proof -
  have "\<not> isl (settle_pending_route_resets_in_transaction default_settings 2 9 sample_pending_reset)" by code_simp
  then obtain settlement db' where r: "settle_pending_route_resets_in_transaction default_settings 2 9 sample_pending_reset = Inr (settlement, db')"
    by (metis isl_def prod.exhaust sum.exhaust)
  have ok: "tables_ok sample_pending_reset" by code_simp
  have "map packet_id (select_where (\<lambda>p. (packet_contact_id p = Some 2 \<and> route_reset_state p = RESET_PENDING) \<and>
      reset_verdict (Option.bind (find_contact 2 sample_pending_reset) last_path_update_at) sample_pending_reset p = RESET_PENDING)
      (packets sample_pending_reset)) = [1]"
    by code_simp
  with route_resets_are_settled_by_evidence [OF r ok] r show ?thesis by auto
qed

section \<open>The reply queue\<close>

text \<open>One operation of the worker on its reply queue, with any arguments.\<close>

inductive queue_step :: "reply_queue \<Rightarrow> reply_queue \<Rightarrow> bool" where
  add: "queue_step q (snd (add_reply contact_key key line readiness now q))"
| resend: "queue_step q (snd (add_flood_resend contact_key key line now q))"
| take: "queue_step q (snd (take_next_ready_reply now q))"
| put_back: "sequence_number r < sequence_numbers q \<Longrightarrow> queue_step q (snd (put_back r t q))"
| sent: "queue_step q (record_reply_sent r now q)"
| time: "queue_step q (snd (next_ready_time now q))"
| drop: "queue_step q (snd (drop_replies_to_contacts_other_than existing q))"

text \<open>
  however the worker uses the queue, it holds at most one reply per contact and request, each under its
  own identity and with a sequence number that was handed out before.
\<close>

lemma queue_holds_one_reply_per_request:
  "queue_step\<^sup>*\<^sup>* (new_reply_queue T) q \<Longrightarrow> queue_ok q"
proof (induction rule: rtranclp_induct)
  case base
  show ?case by (rule queue_ok_new)
next
  case (step q q')
  from step.hyps(2) step.IH show ?case
  proof cases
    case (take now)
    with step.IH show ?thesis using take_next_ready_reply_ok by (metis prod.collapse)
  qed (simp_all add: add_reply_ok add_flood_resend_ok put_back_ok record_reply_sent_ok next_ready_time_ok drop_replies_ok step.IH)
qed

lemma queue_holds_one_reply_per_request_witness:
  "queue_ok (snd (add_reply 1 (str ''R'') (str ''HT1 r Bob 7'') IMMEDIATE 0 (new_reply_queue default_reply_timing)))"
  by (rule queue_holds_one_reply_per_request [of default_reply_timing], rule r_into_rtranclp, rule queue_step.add)

text \<open>
  A new reply replaces the pending one to the same request, and no other.
\<close>

lemma newest_reply_replaces:
  assumes "add_reply contact_key key line readiness now q = (r, q')"
  shows "map_of (pending_replies q') = (map_of (pending_replies q))((contact_key, key) \<mapsto> r) \<and> pending_text r = line"
  using newest_reply_wins [OF assms] assms by (auto simp: add_reply_def Let_def fun_eq_iff)

lemma newest_reply_replaces_witness:
  "\<exists>r q'. add_reply 1 (str ''R'') (str ''HT1 r Bob 7'') IMMEDIATE 0 (new_reply_queue default_reply_timing) = (r, q') \<and>
     map_of (pending_replies q') (1, str ''R'') = Some r"
proof -
  obtain r q' where a: "add_reply 1 (str ''R'') (str ''HT1 r Bob 7'') IMMEDIATE 0 (new_reply_queue default_reply_timing) = (r, q')"
    by (metis prod.exhaust)
  from newest_reply_replaces [OF a] a show ?thesis by simp
qed

text \<open>
  C38: the reply taken is one that may be sent now (it is pending, ready, not expired and no repeat of a text
  just sent to the contact), no other such reply was ready earlier, and it is no longer pending; when none is
  taken, none may be sent now.
\<close>

theorem earliest_sendable_reply_is_taken:
  "case take_next_ready_reply now q of
     (Some r, q') \<Rightarrow> is_sendable_now now q r \<and> \<not> has_reply_for (pending_contact_id r) (pending_reply_key r) q' \<and>
       (\<forall>x. is_sendable_now now q x \<longrightarrow> order_by_readiness r \<le> order_by_readiness x)
   | (None, q') \<Rightarrow> \<forall>x. \<not> is_sendable_now now q x"
proof -
  obtain taken q' where t: "take_next_ready_reply now q = (taken, q')" by (metis prod.exhaust)
  show ?thesis
  proof (cases taken)
    case None
    with t nothing_taken show ?thesis by auto
  next
    case (Some r)
    with t show ?thesis using taken_reply_is_earliest [of now q r q'] taken_reply_is_gone [of now q r q'] by auto
  qed
qed

definition sample_queue :: reply_queue where
  "sample_queue = snd (add_reply 1 (str ''R'') (str ''HT1 r Bob 7'') IMMEDIATE 0 (new_reply_queue default_reply_timing))"

theorem earliest_sendable_reply_is_taken_witness:
  "\<exists>r q'. take_next_ready_reply 3 sample_queue = (Some r, q') \<and> is_sendable_now 3 sample_queue r"
proof -
  have "fst (take_next_ready_reply 3 sample_queue) \<noteq> None" by code_simp
  then obtain r q' where "take_next_ready_reply 3 sample_queue = (Some r, q')" by (metis prod.collapse option.exhaust)
  with earliest_sendable_reply_is_taken [of 3 sample_queue] show ?thesis by auto
qed

text \<open>
  a flood resend is never held back as a repeat: the moment it was added it may be sent, whatever was
  sent to the contact before.
\<close>

lemma flood_resends_are_not_suppressed:
  assumes "add_flood_resend contact_key key line now q = (r, q')" "queue_ok q" "0 < reply_lifetime_seconds (timing q)"
  shows "is_sendable_now now q' r"
  by (rule flood_resend_is_taken [OF assms])

lemma flood_resends_are_not_suppressed_witness:
  "is_sendable_now 2 (snd (add_flood_resend 1 (str ''R'') (str ''HT1 r Bob 7'') 2 sample_queue))
     (fst (add_flood_resend 1 (str ''R'') (str ''HT1 r Bob 7'') 2 sample_queue))"
proof -
  have "queue_ok sample_queue" "0 < reply_lifetime_seconds (timing sample_queue)" by code_simp+
  from flood_resends_are_not_suppressed [OF prod.collapse [symmetric] this] show ?thesis .
qed

section \<open>Retries\<close>

text \<open>
  the pause before the next attempt never shrinks with the attempt number, and stays between the initial
  and the maximum pause of the strategy.
\<close>

lemma retry_pause_grows_to_its_limit:
  assumes "retry_strategy_ok s" "m \<le> n"
  shows "calculate_retry_pause m s \<le> calculate_retry_pause n s \<and>
    timedelta_seconds (initial_pause_seconds s) \<le> calculate_retry_pause n s \<and>
    calculate_retry_pause n s \<le> timedelta_seconds (maximum_pause_seconds s)"
  using retry_pause_mono [OF assms] retry_pause_bounds [OF assms(1), of n] by simp

lemma retry_pause_grows_to_its_limit_witness:
  "calculate_retry_pause 1 (retry_strategy default_settings) \<le> calculate_retry_pause 4 (retry_strategy default_settings)"
proof -
  have "retry_strategy_ok (retry_strategy default_settings)" by (simp add: retry_strategy_ok_def default_settings_def)
  from retry_pause_grows_to_its_limit [OF this, of 1 4] show ?thesis by simp
qed

text \<open>
  A service transaction runs at most three times. It returns the first success; a retryable error is
  followed by another attempt, any other error ends it, and after the third attempt its error is the result.
\<close>

lemma transactions_run_at_most_three_times:
  "run_with_deadlock_retries False run =
     (let retried = (\<lambda>n. case run n of Inl e \<Rightarrow> is_retryable_error e | Inr _ \<Rightarrow> False)
      in run (if \<not> retried 1 then 1 else if \<not> retried 2 then 2 else 3))"
  by (simp add: run_with_deadlock_retries_eq split: sum.split)

end
