(* ===== verification/Node_Model.thy ===== *)
theory Node_Model
  imports Database_Moves "HOL-Library.AList"
begin

text \<open>
  The tables of \<^verbatim>\<open>node/models.py\<close>: settings of the configured node, setup runs, node commands, pairing
  sessions and heard adverts, beside the relay's own tables. Every operation of the node package is a function of the record \<open>system\<close>; the
  notifications a transaction sends at commit are part of it, newest last. An operation that raises returns
  its exception and no new state: its transaction is rolled back.
\<close>

section \<open>Text\<close>

text \<open>\<^verbatim>\<open>str.isspace()\<close>, and \<^verbatim>\<open>str.strip()\<close>, which removes such characters from both ends.\<close>

definition is_python_space :: "codepoint \<Rightarrow> bool" where
  "is_python_space c \<longleftrightarrow>
     in_range 9 13 c \<or> in_range 28 32 c \<or> c = 133 \<or> c = 160 \<or> c = 5760 \<or> in_range 8192 8202 c \<or>
     c = 8232 \<or> c = 8233 \<or> c = 8239 \<or> c = 8287 \<or> c = 12288"

definition strip :: "pystr \<Rightarrow> pystr" where
  "strip s = rev (dropWhile is_python_space (rev (dropWhile is_python_space s)))"

lemma str_eq_iff: "str s = str t \<longleftrightarrow> s = t"
  unfolding str_def by (rule inj_map_eq_map) (simp add: inj_on_def)

section \<open>JSON columns\<close>

text \<open>A JSON value as Python reads it back: an object is a list of named values.\<close>

datatype json =
    JNull
  | JBool bool
  | JInt int
  | JFloat rat
  | JString pystr
  | JArray "json list"
  | JObject "(pystr \<times> json) list"

section \<open>Exceptions\<close>

text \<open>
  The text of an exception is shown to the operator, so it is part of the value. An
  \<^verbatim>\<open>InvalidNodeInformationError\<close> holds what its text names: the field, and the type and the value.
\<close>

datatype node_error =
    SetupRunTransitionError pystr
  | NodeValueError pystr
  | IncompleteNodeConfigurationError pystr
  | NodeInformationFieldMissing pystr
  | NodeInformationFieldMistyped pystr pystr json
  | NodeRowDoesNotExist

definition node_bind :: "node_error + 'a \<Rightarrow> ('a \<Rightarrow> node_error + 'b) \<Rightarrow> node_error + 'b" where
  "node_bind m f = (case m of Inl e \<Rightarrow> Inl e | Inr x \<Rightarrow> f x)"

lemma node_bind_simps [simp]: "node_bind (Inl e) f = Inl e" "node_bind (Inr x) f = f x"
  by (simp_all add: node_bind_def)

lemma node_bind_eq_Inr: "node_bind m f = Inr y \<longleftrightarrow> (\<exists>x. m = Inr x \<and> f x = Inr y)"
  by (cases m) auto

section \<open>Setup runs\<close>

datatype setup_purpose = PURPOSE_INITIAL | PURPOSE_RECONFIGURE

datatype setup_state =
    SETUP_READING_NODE | SETUP_AWAITING_RESET_CONFIRMATION | SETUP_RESETTING | SETUP_AWAITING_CONFIGURATION
  | SETUP_CONFIGURING | SETUP_COMPLETED | SETUP_ABANDONED

definition FINAL_STATES :: "setup_state list" where
  "FINAL_STATES = [SETUP_COMPLETED, SETUP_ABANDONED]"

fun setup_state_display :: "setup_state \<Rightarrow> pystr" where
  "setup_state_display SETUP_READING_NODE = str ''Reading the node''"
| "setup_state_display SETUP_AWAITING_RESET_CONFIRMATION = str ''Awaiting the reset confirmation''"
| "setup_state_display SETUP_RESETTING = str ''Resetting''"
| "setup_state_display SETUP_AWAITING_CONFIGURATION = str ''Awaiting the configuration''"
| "setup_state_display SETUP_CONFIGURING = str ''Configuring''"
| "setup_state_display SETUP_COMPLETED = str ''Completed''"
| "setup_state_display SETUP_ABANDONED = str ''Abandoned''"

text \<open>\<^verbatim>\<open>RequestedNodeConfiguration\<close>, which the run keeps as JSON, is kept as the record it is written from.\<close>

record requested_node_configuration =
  requested_node_name :: pystr
  requested_radio_preset_title :: pystr
  requested_radio_frequency_kilohertz :: int
  requested_radio_bandwidth_hertz :: int
  requested_radio_spreading_factor :: int
  requested_radio_coding_rate :: int
  requested_path_hash_size :: int
  requested_transmit_power_dbm :: int
  requested_replace_public_channel :: bool
  requested_restore_identity :: bool

record setup_run =
  run_id :: nat
  run_purpose :: setup_purpose
  run_state :: setup_state
  run_started_at :: datetime
  run_finished_at :: "datetime option"
  original_node_information :: "(pystr \<times> json) list option"
  original_public_key :: pystr
  new_public_key :: pystr
  restored_public_key :: pystr
  requested_configuration :: "requested_node_configuration option"
  run_last_error :: pystr
  run_is_active :: bool

text \<open>\<^verbatim>\<open>node_setup_run_active_matches_state\<close>\<close>

definition setup_run_row_ok :: "setup_run \<Rightarrow> bool" where
  "setup_run_row_ok r \<longleftrightarrow> (run_is_active r \<longleftrightarrow> run_state r \<notin> set FINAL_STATES)"

section \<open>Node commands\<close>

datatype command_kind =
    KIND_READ_NODE_INFORMATION | KIND_FACTORY_RESET | KIND_CONFIGURE_NODE | KIND_APPLY_CONFIGURED_SETTINGS
  | KIND_REBOOT_NODE | KIND_SEND_ADVERT | KIND_EXPORT_CONTACT_CARD | KIND_START_PAIRING | KIND_STOP_PAIRING
  | KIND_RECONCILE_CONTACTS

fun command_kind_display :: "command_kind \<Rightarrow> pystr" where
  "command_kind_display KIND_READ_NODE_INFORMATION = str ''Read node information''"
| "command_kind_display KIND_FACTORY_RESET = str ''Factory reset''"
| "command_kind_display KIND_CONFIGURE_NODE = str ''Configure node''"
| "command_kind_display KIND_APPLY_CONFIGURED_SETTINGS = str ''Apply configured settings''"
| "command_kind_display KIND_REBOOT_NODE = str ''Reboot node''"
| "command_kind_display KIND_SEND_ADVERT = str ''Send advert''"
| "command_kind_display KIND_EXPORT_CONTACT_CARD = str ''Export contact card''"
| "command_kind_display KIND_START_PAIRING = str ''Start pairing''"
| "command_kind_display KIND_STOP_PAIRING = str ''Stop pairing''"
| "command_kind_display KIND_RECONCILE_CONTACTS = str ''Reconcile contacts''"

datatype command_state =
    COMMAND_PENDING | COMMAND_RUNNING | COMMAND_SUCCEEDED | COMMAND_FAILED | COMMAND_INTERRUPTED | COMMAND_EXPIRED
  | COMMAND_CANCELLED

fun command_state_value :: "command_state \<Rightarrow> pystr" where
  "command_state_value COMMAND_PENDING = str ''pending''"
| "command_state_value COMMAND_RUNNING = str ''running''"
| "command_state_value COMMAND_SUCCEEDED = str ''succeeded''"
| "command_state_value COMMAND_FAILED = str ''failed''"
| "command_state_value COMMAND_INTERRUPTED = str ''interrupted''"
| "command_state_value COMMAND_EXPIRED = str ''expired''"
| "command_state_value COMMAND_CANCELLED = str ''cancelled''"

definition TERMINAL_STATES :: "command_state list" where
  "TERMINAL_STATES = [COMMAND_SUCCEEDED, COMMAND_FAILED, COMMAND_INTERRUPTED, COMMAND_EXPIRED, COMMAND_CANCELLED]"

datatype progress_step_state = STEP_RUNNING | STEP_DONE | STEP_FAILED | STEP_SKIPPED

record progress_step =
  step_name :: pystr
  step_state :: progress_step_state
  step_detail :: pystr
  step_at :: datetime

text \<open>A worker instance is a UUID, which is a number of 128 bits.\<close>

record node_command =
  command_id :: nat
  command_kind :: command_kind
  command_arguments :: "(pystr \<times> json) list"
  command_state :: command_state
  command_setup_run_id :: "nat option"
  command_created_at :: datetime
  command_expires_at :: datetime
  claimed_at :: "datetime option"
  command_finished_at :: "datetime option"
  claimed_by_worker_instance :: "nat option"
  command_progress :: "progress_step list"
  command_result :: "json option"
  command_error_message :: pystr

definition node_command_row_ok :: "node_command \<Rightarrow> bool" where
  "node_command_row_ok c \<longleftrightarrow>
     (command_state c \<in> set TERMINAL_STATES \<longrightarrow> command_finished_at c \<noteq> None) \<and>
     command_created_at c < command_expires_at c"

section \<open>Pairing\<close>

datatype pairing_state = PAIRING_ACTIVE | PAIRING_ENDED | PAIRING_STOPPED

record pairing_session =
  pairing_id :: nat
  pairing_state :: pairing_state
  pairing_started_at :: datetime
  pairing_ends_at :: datetime
  advert_interval_seconds :: int
  adverts_sent :: nat
  advert_flood :: bool
  last_advert_at :: "datetime option"
  pairing_finished_at :: "datetime option"
  start_command_id :: "nat option"

record heard_advert =
  advert_id :: nat
  advert_session_id :: nat
  advert_public_key :: pystr
  advert_name :: pystr
  advert_node_type :: int
  advert_clock :: int
  advert_latitude :: int
  advert_longitude :: int
  contact_record :: json
  first_heard_at :: datetime
  last_heard_advert_at :: datetime
  heard_count :: nat
  added_contact_id :: "nat option"

section \<open>The system\<close>

datatype notification_channel = CHANNEL_NODE_COMMANDS | CHANNEL_CONTACTS_CHANGED | CHANNEL_SETUP_CHANGED

text \<open>
  \<open>node_settings\<close> are the rows of \<^verbatim>\<open>node_setting\<close> by their primary key; of the worker's status row only the key
  of the attached node is read by the services modelled here.
\<close>

record system =
  relay :: db
  node_settings :: "(pystr \<times> pystr) list"
  setup_runs :: "setup_run table"
  node_commands :: "node_command table"
  pairing_sessions :: "pairing_session table"
  heard_adverts :: "heard_advert table"
  worker_node_public_key :: "pystr option"
  notifications :: "(notification_channel \<times> pystr) list"

definition empty_system :: system where
  "empty_system = \<lparr>relay = empty_db, node_settings = [], setup_runs = empty_table, node_commands = empty_table,
     pairing_sessions = empty_table, heard_adverts = empty_table, worker_node_public_key = None, notifications = []\<rparr>"

definition notify_relay_worker :: "notification_channel \<Rightarrow> pystr \<Rightarrow> system \<Rightarrow> system" where
  "notify_relay_worker channel payload s = s\<lparr>notifications := notifications s @ [(channel, payload)]\<rparr>"

definition notified_row :: "nat \<Rightarrow> pystr" where
  "notified_row key = str_of_int (int key)"

interpretation setup_run_table: keyed_table run_id "\<lambda>r n. r\<lparr>run_id := n\<rparr>"
  by unfold_locales simp

interpretation node_command_table: keyed_table command_id "\<lambda>c n. c\<lparr>command_id := n\<rparr>"
  by unfold_locales simp

interpretation pairing_table: keyed_table pairing_id "\<lambda>p n. p\<lparr>pairing_id := n\<rparr>"
  by unfold_locales simp

interpretation advert_table: keyed_table advert_id "\<lambda>a n. a\<lparr>advert_id := n\<rparr>"
  by unfold_locales simp

end
