(* ===== verification/Node_Information.thy ===== *)
theory Node_Information
  imports Node_Model
begin

text \<open>
  What the worker reports about the attached node (\<^verbatim>\<open>node/node_information.py\<close>): the record, its JSON and the
  strict reading of it. A setup run keeps this JSON, so what was written is read back.
\<close>

record node_information =
  information_public_key :: pystr
  information_name :: pystr
  information_firmware_version :: pystr
  information_firmware_build :: pystr
  information_model :: pystr
  information_protocol_version :: int
  information_maximum_contacts :: int
  information_radio_frequency_kilohertz :: int
  information_radio_bandwidth_hertz :: int
  information_radio_spreading_factor :: int
  information_radio_coding_rate :: int
  information_client_repeat :: bool
  information_transmit_power_dbm :: int
  information_maximum_transmit_power_dbm :: int
  information_path_hash_size :: int
  information_multi_acks :: int
  information_manual_add_contacts :: bool
  information_auto_add_configuration :: int
  information_auto_add_maximum_hops :: int
  information_advert_location_policy :: int
  information_telemetry_modes :: int
  information_contact_count :: int
  information_node_clock_timestamp :: int
  information_server_clock_timestamp :: int
  information_channel_zero_name :: pystr
  information_channel_zero_is_public :: bool

definition clock_offset_seconds :: "node_information \<Rightarrow> int" where
  "clock_offset_seconds i = information_node_clock_timestamp i - information_server_clock_timestamp i"

definition node_information_to_json :: "node_information \<Rightarrow> (pystr \<times> json) list" where
  "node_information_to_json i = [(str ''public_key'', JString (information_public_key i)),
     (str ''name'', JString (information_name i)),
     (str ''firmware_version'', JString (information_firmware_version i)),
     (str ''firmware_build'', JString (information_firmware_build i)),
     (str ''model'', JString (information_model i)),
     (str ''protocol_version'', JInt (information_protocol_version i)),
     (str ''maximum_contacts'', JInt (information_maximum_contacts i)),
     (str ''radio_frequency_kilohertz'', JInt (information_radio_frequency_kilohertz i)),
     (str ''radio_bandwidth_hertz'', JInt (information_radio_bandwidth_hertz i)),
     (str ''radio_spreading_factor'', JInt (information_radio_spreading_factor i)),
     (str ''radio_coding_rate'', JInt (information_radio_coding_rate i)),
     (str ''client_repeat'', JBool (information_client_repeat i)),
     (str ''transmit_power_dbm'', JInt (information_transmit_power_dbm i)),
     (str ''maximum_transmit_power_dbm'', JInt (information_maximum_transmit_power_dbm i)),
     (str ''path_hash_size'', JInt (information_path_hash_size i)),
     (str ''multi_acks'', JInt (information_multi_acks i)),
     (str ''manual_add_contacts'', JBool (information_manual_add_contacts i)),
     (str ''auto_add_configuration'', JInt (information_auto_add_configuration i)),
     (str ''auto_add_maximum_hops'', JInt (information_auto_add_maximum_hops i)),
     (str ''advert_location_policy'', JInt (information_advert_location_policy i)),
     (str ''telemetry_modes'', JInt (information_telemetry_modes i)),
     (str ''contact_count'', JInt (information_contact_count i)),
     (str ''node_clock_timestamp'', JInt (information_node_clock_timestamp i)),
     (str ''server_clock_timestamp'', JInt (information_server_clock_timestamp i)),
     (str ''channel_zero_name'', JString (information_channel_zero_name i)),
     (str ''channel_zero_is_public'', JBool (information_channel_zero_is_public i))]"

datatype field_type = TYPE_STR | TYPE_INT | TYPE_BOOL

fun field_type_name :: "field_type \<Rightarrow> pystr" where
  "field_type_name TYPE_STR = str ''str''"
| "field_type_name TYPE_INT = str ''int''"
| "field_type_name TYPE_BOOL = str ''bool''"

text \<open>A JSON boolean is no number here, although Python's \<^verbatim>\<open>bool\<close> is an \<^verbatim>\<open>int\<close>.\<close>

fun has_json_type :: "json \<Rightarrow> field_type \<Rightarrow> bool" where
  "has_json_type (JString _) TYPE_STR = True"
| "has_json_type (JInt _) TYPE_INT = True"
| "has_json_type (JBool _) TYPE_BOOL = True"
| "has_json_type _ _ = False"

definition NODE_INFORMATION_FIELD_TYPES :: "(pystr \<times> field_type) list" where
  "NODE_INFORMATION_FIELD_TYPES = [(str ''public_key'', TYPE_STR),
     (str ''name'', TYPE_STR),
     (str ''firmware_version'', TYPE_STR),
     (str ''firmware_build'', TYPE_STR),
     (str ''model'', TYPE_STR),
     (str ''protocol_version'', TYPE_INT),
     (str ''maximum_contacts'', TYPE_INT),
     (str ''radio_frequency_kilohertz'', TYPE_INT),
     (str ''radio_bandwidth_hertz'', TYPE_INT),
     (str ''radio_spreading_factor'', TYPE_INT),
     (str ''radio_coding_rate'', TYPE_INT),
     (str ''client_repeat'', TYPE_BOOL),
     (str ''transmit_power_dbm'', TYPE_INT),
     (str ''maximum_transmit_power_dbm'', TYPE_INT),
     (str ''path_hash_size'', TYPE_INT),
     (str ''multi_acks'', TYPE_INT),
     (str ''manual_add_contacts'', TYPE_BOOL),
     (str ''auto_add_configuration'', TYPE_INT),
     (str ''auto_add_maximum_hops'', TYPE_INT),
     (str ''advert_location_policy'', TYPE_INT),
     (str ''telemetry_modes'', TYPE_INT),
     (str ''contact_count'', TYPE_INT),
     (str ''node_clock_timestamp'', TYPE_INT),
     (str ''server_clock_timestamp'', TYPE_INT),
     (str ''channel_zero_name'', TYPE_STR),
     (str ''channel_zero_is_public'', TYPE_BOOL)]"

fun read_information_fields :: "(pystr \<times> json) list \<Rightarrow> (pystr \<times> field_type) list \<Rightarrow> node_error + (pystr \<times> json) list" where
  "read_information_fields stored [] = Inr []"
| "read_information_fields stored ((field_name, field_type) # rest) =
     (case map_of stored field_name of
        None \<Rightarrow> Inl (NodeInformationFieldMissing field_name)
      | Some field_value \<Rightarrow>
          if \<not> has_json_type field_value field_type
          then Inl (NodeInformationFieldMistyped field_name (field_type_name field_type) field_value)
          else node_bind (read_information_fields stored rest) (\<lambda>found. Inr ((field_name, field_value) # found)))"

text \<open>The value of a field that was checked: the other cases do not arise.\<close>

definition text_value :: "pystr \<Rightarrow> (pystr \<times> json) list \<Rightarrow> pystr" where
  "text_value field found = (case map_of found field of Some (JString t) \<Rightarrow> t | _ \<Rightarrow> [])"

definition integer_value :: "pystr \<Rightarrow> (pystr \<times> json) list \<Rightarrow> int" where
  "integer_value field found = (case map_of found field of Some (JInt n) \<Rightarrow> n | _ \<Rightarrow> 0)"

definition boolean_value :: "pystr \<Rightarrow> (pystr \<times> json) list \<Rightarrow> bool" where
  "boolean_value field found = (case map_of found field of Some (JBool b) \<Rightarrow> b | _ \<Rightarrow> False)"

definition node_information_from_json :: "(pystr \<times> json) list \<Rightarrow> node_error + node_information" where
  "node_information_from_json stored =
     node_bind (read_information_fields stored NODE_INFORMATION_FIELD_TYPES) (\<lambda>found. Inr \<lparr>
       information_public_key = text_value (str ''public_key'') found,
       information_name = text_value (str ''name'') found,
       information_firmware_version = text_value (str ''firmware_version'') found,
       information_firmware_build = text_value (str ''firmware_build'') found,
       information_model = text_value (str ''model'') found,
       information_protocol_version = integer_value (str ''protocol_version'') found,
       information_maximum_contacts = integer_value (str ''maximum_contacts'') found,
       information_radio_frequency_kilohertz = integer_value (str ''radio_frequency_kilohertz'') found,
       information_radio_bandwidth_hertz = integer_value (str ''radio_bandwidth_hertz'') found,
       information_radio_spreading_factor = integer_value (str ''radio_spreading_factor'') found,
       information_radio_coding_rate = integer_value (str ''radio_coding_rate'') found,
       information_client_repeat = boolean_value (str ''client_repeat'') found,
       information_transmit_power_dbm = integer_value (str ''transmit_power_dbm'') found,
       information_maximum_transmit_power_dbm = integer_value (str ''maximum_transmit_power_dbm'') found,
       information_path_hash_size = integer_value (str ''path_hash_size'') found,
       information_multi_acks = integer_value (str ''multi_acks'') found,
       information_manual_add_contacts = boolean_value (str ''manual_add_contacts'') found,
       information_auto_add_configuration = integer_value (str ''auto_add_configuration'') found,
       information_auto_add_maximum_hops = integer_value (str ''auto_add_maximum_hops'') found,
       information_advert_location_policy = integer_value (str ''advert_location_policy'') found,
       information_telemetry_modes = integer_value (str ''telemetry_modes'') found,
       information_contact_count = integer_value (str ''contact_count'') found,
       information_node_clock_timestamp = integer_value (str ''node_clock_timestamp'') found,
       information_server_clock_timestamp = integer_value (str ''server_clock_timestamp'') found,
       information_channel_zero_name = text_value (str ''channel_zero_name'') found,
       information_channel_zero_is_public = boolean_value (str ''channel_zero_is_public'') found\<rparr>)"

section \<open>What was written is read back\<close>

text \<open>A reading is the checked fields in their order, or the first problem.\<close>

lemma read_information_fields_Inr:
  "read_information_fields stored types = Inr found \<longleftrightarrow>
     list_all2 (\<lambda>(field_name, field_type) (read_name, field_value).
       read_name = field_name \<and> map_of stored field_name = Some field_value \<and> has_json_type field_value field_type) types found"
proof (induction types arbitrary: found)
  case (Cons t types)
  then show ?case
    by (cases t; cases found) (auto simp: node_bind_eq_Inr split: option.splits)
qed auto

lemma node_information_read_back: "node_information_from_json (node_information_to_json i) = Inr i"
proof -
  have "read_information_fields (node_information_to_json i) NODE_INFORMATION_FIELD_TYPES = Inr (node_information_to_json i)"
    unfolding read_information_fields_Inr NODE_INFORMATION_FIELD_TYPES_def node_information_to_json_def
    by (simp add: str_eq_iff)
  then show ?thesis
    by (simp add: node_information_from_json_def text_value_def integer_value_def boolean_value_def
        node_information_to_json_def str_eq_iff)
qed

text \<open>A stored document whose fields all have their types is read; any other is refused.\<close>

lemma node_information_reads_iff:
  "(\<exists>i. node_information_from_json stored = Inr i) \<longleftrightarrow>
     list_all (\<lambda>(field_name, field_type). \<exists>v. map_of stored field_name = Some v \<and> has_json_type v field_type)
       NODE_INFORMATION_FIELD_TYPES"
proof -
  have "(\<exists>found. read_information_fields stored types = Inr found) \<longleftrightarrow>
      list_all (\<lambda>(field_name, field_type). \<exists>v. map_of stored field_name = Some v \<and> has_json_type v field_type) types" for types
    by (induction types) (auto simp: node_bind_eq_Inr split: option.splits if_splits)
  then show ?thesis
    by (simp add: node_information_from_json_def node_bind_eq_Inr)
qed

end
