(* ===== verification/Setup_Runs.thy ===== *)
theory Setup_Runs
  imports Node_Information
begin

text \<open>
  The setup wizard's runs and the queue of node commands (\<^verbatim>\<open>node/setup_runs.py\<close>, \<^verbatim>\<open>node/node_commands.py\<close>).
  The two modules call each other and share the commands' table, so they share a theory: first creating and cancelling a command, then
  the runs, then the worker's side of the queue.
\<close>

section \<open>Creating and cancelling a command\<close>

definition timedelta_of_seconds :: "int \<Rightarrow> int" where
  "timedelta_of_seconds n = n * 1000000"

definition SHORT_COMMAND_LIFETIME_SECONDS :: int where
  "SHORT_COMMAND_LIFETIME_SECONDS = 60"

definition DEFAULT_COMMAND_LIFETIME_SECONDS :: int where
  "DEFAULT_COMMAND_LIFETIME_SECONDS = 300"

fun COMMAND_LIFETIME_SECONDS_BY_KIND :: "command_kind \<Rightarrow> int" where
  "COMMAND_LIFETIME_SECONDS_BY_KIND KIND_READ_NODE_INFORMATION = DEFAULT_COMMAND_LIFETIME_SECONDS"
| "COMMAND_LIFETIME_SECONDS_BY_KIND KIND_FACTORY_RESET = SHORT_COMMAND_LIFETIME_SECONDS"
| "COMMAND_LIFETIME_SECONDS_BY_KIND KIND_CONFIGURE_NODE = SHORT_COMMAND_LIFETIME_SECONDS"
| "COMMAND_LIFETIME_SECONDS_BY_KIND KIND_APPLY_CONFIGURED_SETTINGS = DEFAULT_COMMAND_LIFETIME_SECONDS"
| "COMMAND_LIFETIME_SECONDS_BY_KIND KIND_REBOOT_NODE = SHORT_COMMAND_LIFETIME_SECONDS"
| "COMMAND_LIFETIME_SECONDS_BY_KIND KIND_SEND_ADVERT = DEFAULT_COMMAND_LIFETIME_SECONDS"
| "COMMAND_LIFETIME_SECONDS_BY_KIND KIND_EXPORT_CONTACT_CARD = DEFAULT_COMMAND_LIFETIME_SECONDS"
| "COMMAND_LIFETIME_SECONDS_BY_KIND KIND_START_PAIRING = SHORT_COMMAND_LIFETIME_SECONDS"
| "COMMAND_LIFETIME_SECONDS_BY_KIND KIND_STOP_PAIRING = DEFAULT_COMMAND_LIFETIME_SECONDS"
| "COMMAND_LIFETIME_SECONDS_BY_KIND KIND_RECONCILE_CONTACTS = DEFAULT_COMMAND_LIFETIME_SECONDS"

definition NODE_COMMAND_RETENTION_DAYS :: int where
  "NODE_COMMAND_RETENTION_DAYS = 90"

definition EXPIRED_COMMAND_ERROR_MESSAGE :: pystr where
  "EXPIRED_COMMAND_ERROR_MESSAGE =
     str ''The relay worker did not start this command in time: it was offline, or the node was not connected.''"

definition INTERRUPTED_COMMAND_ERROR_MESSAGE :: pystr where
  "INTERRUPTED_COMMAND_ERROR_MESSAGE = str ''The relay worker restarted while this command was running.''"

definition UNSUCCESSFUL_STATES :: "command_state list" where
  "UNSUCCESSFUL_STATES = [COMMAND_FAILED, COMMAND_INTERRUPTED, COMMAND_EXPIRED]"

definition new_node_command :: "command_kind \<Rightarrow> (pystr \<times> json) list \<Rightarrow> datetime \<Rightarrow> nat option \<Rightarrow> nat \<Rightarrow> node_command" where
  "new_node_command kind arguments now run key =
     \<lparr>command_id = key, command_kind = kind, command_arguments = arguments, command_state = COMMAND_PENDING,
      command_setup_run_id = run, command_created_at = now,
      command_expires_at = now + timedelta_of_seconds (COMMAND_LIFETIME_SECONDS_BY_KIND kind), claimed_at = None,
      command_finished_at = None, claimed_by_worker_instance = None, command_progress = [], command_result = None,
      command_error_message = []\<rparr>"

definition create_node_command ::
  "command_kind \<Rightarrow> (pystr \<times> json) list \<Rightarrow> datetime \<Rightarrow> nat option \<Rightarrow> system \<Rightarrow> node_command \<times> system" where
  "create_node_command kind arguments now run s =
     (let key = next_id (node_commands s);
          s1 = s\<lparr>node_commands := insert_row (new_node_command kind arguments now run) (node_commands s)\<rparr>
      in (new_node_command kind arguments now run key, notify_relay_worker CHANNEL_NODE_COMMANDS (notified_row key) s1))"

definition cancel_node_command :: "nat \<Rightarrow> datetime \<Rightarrow> system \<Rightarrow> bool \<times> system" where
  "cancel_node_command i now s =
     (let pending = (\<lambda>c. command_id c = i \<and> command_state c = COMMAND_PENDING)
      in (count_where pending (node_commands s) = 1,
          s\<lparr>node_commands := update_where pending
               (\<lambda>c. c\<lparr>command_state := COMMAND_CANCELLED, command_finished_at := Some now\<rparr>) (node_commands s)\<rparr>))"

section \<open>Reading and moving a run\<close>

definition UNNAMED_NODE_CONFIRMATION_KEY_DIGITS :: nat where
  "UNNAMED_NODE_CONFIRMATION_KEY_DIGITS = 8"

definition CANCELLABLE_STATES :: "setup_state list" where
  "CANCELLABLE_STATES = [SETUP_READING_NODE, SETUP_AWAITING_RESET_CONFIRMATION, SETUP_AWAITING_CONFIGURATION]"

definition WORKER_STATES :: "setup_state list" where
  "WORKER_STATES = [SETUP_READING_NODE, SETUP_RESETTING, SETUP_CONFIGURING]"

definition SEND_RESET_FRAME :: pystr where
  "SEND_RESET_FRAME = str ''send_reset_frame''"

definition get_active_setup_run :: "system \<Rightarrow> setup_run option" where
  "get_active_setup_run s = first_where run_is_active (setup_runs s)"

text \<open>The identity may sit on a reset node that no completed run has configured since.\<close>

definition was_configured_identity_restored_without_configuration :: "pystr \<Rightarrow> system \<Rightarrow> bool" where
  "was_configured_identity_restored_without_configuration configured_key s =
     (if configured_key = [] then False
      else
        let latest_completed_run_id = fold max (map run_id (select_where (\<lambda>r. run_state r = SETUP_COMPLETED) (setup_runs s))) 0
        in exists_where (\<lambda>r. run_state r = SETUP_ABANDONED \<and> restored_public_key r = configured_key \<and>
                              run_id r > latest_completed_run_id) (setup_runs s))"

definition find_latest_setup_run_command :: "setup_run \<Rightarrow> system \<Rightarrow> node_command option" where
  "find_latest_setup_run_command r s =
     (case rev (select_where (\<lambda>c. command_setup_run_id c = Some (run_id r)) (node_commands s)) of
        [] \<Rightarrow> None | c # _ \<Rightarrow> Some c)"

definition read_original_node_information :: "setup_run \<Rightarrow> node_error + node_information option" where
  "read_original_node_information r =
     (case original_node_information r of
        None \<Rightarrow> Inr None
      | Some stored \<Rightarrow> node_bind (node_information_from_json stored) (\<lambda>i. Inr (Some i)))"

definition lock_setup_run :: "nat \<Rightarrow> system \<Rightarrow> node_error + setup_run" where
  "lock_setup_run i s =
     (case first_where (\<lambda>r. run_id r = i) (setup_runs s) of
        None \<Rightarrow> Inl (SetupRunTransitionError (str ''This setup run does not exist.''))
      | Some r \<Rightarrow> Inr r)"

definition require_setup_run_state :: "setup_run \<Rightarrow> setup_state \<Rightarrow> node_error + unit" where
  "require_setup_run_state r required =
     (if run_state r \<noteq> required
      then Inl (SetupRunTransitionError
        (str ''This step is not possible while setup is '' @ lower (setup_state_display (run_state r)) @
         str ''. Reload the page to see where it stands.''))
      else Inr ())"

text \<open>A save writes the fields of the locked instance back to its row.\<close>

definition save_setup_run :: "setup_run \<Rightarrow> system \<Rightarrow> system" where
  "save_setup_run r s = s\<lparr>setup_runs := update_where (\<lambda>x. run_id x = run_id r) (\<lambda>_. r) (setup_runs s)\<rparr>"

definition move_setup_run :: "setup_run \<Rightarrow> setup_state \<Rightarrow> datetime \<Rightarrow> pystr option \<Rightarrow> system \<Rightarrow> system" where
  "move_setup_run r new_state now last_error s =
     (let is_final_state = new_state \<in> set FINAL_STATES;
          r1 = r\<lparr>run_state := new_state, run_is_active := \<not> is_final_state,
                  run_finished_at := (if is_final_state then Some now else None),
                  run_last_error := (case last_error of None \<Rightarrow> run_last_error r | Some e \<Rightarrow> e)\<rparr>
      in notify_relay_worker CHANNEL_SETUP_CHANGED (notified_row (run_id r)) (save_setup_run r1 s))"

fun cancel_commands :: "nat list \<Rightarrow> datetime \<Rightarrow> system \<Rightarrow> system" where
  "cancel_commands [] now s = s"
| "cancel_commands (i # is) now s = cancel_commands is now (snd (cancel_node_command i now s))"

definition cancel_pending_setup_run_commands :: "setup_run \<Rightarrow> datetime \<Rightarrow> system \<Rightarrow> system" where
  "cancel_pending_setup_run_commands r now s =
     cancel_commands
       (map command_id (select_where (\<lambda>c. command_setup_run_id c = Some (run_id r) \<and> command_state c = COMMAND_PENDING)
          (node_commands s))) now s"

section \<open>The operator's steps\<close>

definition NODE_IDENTITY_BACKUP_KEY :: pystr where
  "NODE_IDENTITY_BACKUP_KEY = str ''node.identity_backup''"

definition is_node_configured :: "system \<Rightarrow> bool" where
  "is_node_configured s = list_ex (\<lambda>(key, _). key \<noteq> NODE_IDENTITY_BACKUP_KEY) (node_settings s)"

definition new_setup_run :: "setup_purpose \<Rightarrow> datetime \<Rightarrow> nat \<Rightarrow> setup_run" where
  "new_setup_run purpose now key =
     \<lparr>run_id = key, run_purpose = purpose, run_state = SETUP_READING_NODE, run_started_at = now, run_finished_at = None,
      original_node_information = None, original_public_key = [], new_public_key = [], restored_public_key = [],
      requested_configuration = None, run_last_error = [], run_is_active = True\<rparr>"

definition start_setup_run :: "datetime \<Rightarrow> system \<Rightarrow> node_error + setup_run \<times> system" where
  "start_setup_run now s =
     (let purpose = (if is_node_configured s then PURPOSE_RECONFIGURE else PURPOSE_INITIAL);
          key = next_id (setup_runs s)
      in if exists_where run_is_active (setup_runs s)
         then Inl (SetupRunTransitionError (str ''Another setup run is already in progress.''))
         else let s1 = s\<lparr>setup_runs := insert_row (new_setup_run purpose now) (setup_runs s)\<rparr>;
                  (_, s2) = create_node_command KIND_READ_NODE_INFORMATION [] now (Some key) s1
              in Inr (new_setup_run purpose now key, notify_relay_worker CHANNEL_SETUP_CHANGED (notified_row key) s2))"

definition retry_reading_node :: "nat \<Rightarrow> datetime \<Rightarrow> system \<Rightarrow> node_error + node_command \<times> system" where
  "retry_reading_node i now s =
     node_bind (lock_setup_run i s) (\<lambda>r.
     node_bind (require_setup_run_state r SETUP_READING_NODE) (\<lambda>_.
       if exists_where (\<lambda>c. command_setup_run_id c = Some (run_id r) \<and> command_state c = COMMAND_RUNNING) (node_commands s)
       then Inl (SetupRunTransitionError (str ''The node is being read right now.''))
       else let s1 = cancel_pending_setup_run_commands r now s;
                s2 = save_setup_run (r\<lparr>run_last_error := []\<rparr>) s1;
                (c, s3) = create_node_command KIND_READ_NODE_INFORMATION [] now (Some (run_id r)) s2
            in Inr (c, notify_relay_worker CHANNEL_SETUP_CHANGED (notified_row (run_id r)) s3)))"

definition find_expected_factory_reset_confirmation :: "setup_run \<Rightarrow> node_error + pystr" where
  "find_expected_factory_reset_confirmation r =
     node_bind (read_original_node_information r) (\<lambda>found.
       Inr (case found of
              None \<Rightarrow> []
            | Some i \<Rightarrow> if information_name i \<noteq> [] then information_name i
                        else take UNNAMED_NODE_CONFIRMATION_KEY_DIGITS (information_public_key i)))"

definition setup_run_argument :: "setup_run \<Rightarrow> (pystr \<times> json) list" where
  "setup_run_argument r = [(str ''setup_run_id'', JInt (int (run_id r)))]"

definition confirm_factory_reset :: "nat \<Rightarrow> pystr \<Rightarrow> datetime \<Rightarrow> system \<Rightarrow> node_error + node_command \<times> system" where
  "confirm_factory_reset i typed_confirmation now s =
     node_bind (lock_setup_run i s) (\<lambda>r.
     node_bind (require_setup_run_state r SETUP_AWAITING_RESET_CONFIRMATION) (\<lambda>_.
     node_bind (find_expected_factory_reset_confirmation r) (\<lambda>expected.
       if expected = [] \<or> strip typed_confirmation \<noteq> expected
       then Inl (SetupRunTransitionError
         (str ''Type the node's current name, '' @ expected @ str '', exactly to confirm the factory reset.''))
       else Inr (create_node_command KIND_FACTORY_RESET (setup_run_argument r) now (Some (run_id r))
                  (move_setup_run r SETUP_RESETTING now (Some []) s)))))"

definition submit_node_configuration ::
  "nat \<Rightarrow> requested_node_configuration \<Rightarrow> datetime \<Rightarrow> system \<Rightarrow> node_error + node_command \<times> system" where
  "submit_node_configuration i requested now s =
     node_bind (lock_setup_run i s) (\<lambda>r.
     node_bind (require_setup_run_state r SETUP_AWAITING_CONFIGURATION) (\<lambda>_.
       let r1 = r\<lparr>requested_configuration := Some requested\<rparr>
       in Inr (create_node_command KIND_CONFIGURE_NODE (setup_run_argument r) now (Some (run_id r))
                (move_setup_run r1 SETUP_CONFIGURING now (Some []) (save_setup_run r1 s)))))"

definition cancel_setup_run :: "nat \<Rightarrow> datetime \<Rightarrow> system \<Rightarrow> node_error + system" where
  "cancel_setup_run i now s =
     node_bind (lock_setup_run i s) (\<lambda>r.
       if run_state r \<notin> set CANCELLABLE_STATES
       then Inl (SetupRunTransitionError
         (str ''Setup cannot be cancelled while it is '' @ lower (setup_state_display (run_state r)) @ str ''.''))
       else Inr (move_setup_run r SETUP_ABANDONED now None (cancel_pending_setup_run_commands r now s)))"

section \<open>The worker's reports\<close>

text \<open>The wiped node holds no contact any more.\<close>

definition complete_factory_reset :: "setup_run \<Rightarrow> pystr \<Rightarrow> datetime \<Rightarrow> system \<Rightarrow> system" where
  "complete_factory_reset r new_key now s =
     (let relay1 = (relay s)\<lparr>contacts := update_where (\<lambda>_. True)
                     (\<lambda>c. c\<lparr>node_sync_state := PENDING_ADD, node_sync_error := []\<rparr>) (contacts (relay s))\<rparr>;
          r1 = r\<lparr>new_public_key := new_key\<rparr>
      in move_setup_run r1 SETUP_AWAITING_CONFIGURATION now (Some []) (save_setup_run r1 (s\<lparr>relay := relay1\<rparr>)))"

definition record_node_information_read :: "nat \<Rightarrow> (pystr \<times> json) list \<Rightarrow> datetime \<Rightarrow> system \<Rightarrow> node_error + system" where
  "record_node_information_read i reported now s =
     node_bind (node_information_from_json reported) (\<lambda>information.
     node_bind (lock_setup_run i s) (\<lambda>r.
       if run_state r \<noteq> SETUP_READING_NODE then Inr s
       else
         let is_reread_after_reset = original_public_key r \<noteq> []
         in if is_reread_after_reset \<and> information_public_key information \<noteq> original_public_key r
            then Inr (complete_factory_reset r (information_public_key information) now s)
            else
              let r1 = r\<lparr>original_node_information := Some (node_information_to_json information),
                          original_public_key := information_public_key information\<rparr>
              in Inr (move_setup_run r1 SETUP_AWAITING_RESET_CONFIRMATION now (Some []) (save_setup_run r1 s))))"

definition record_factory_reset_succeeded :: "nat \<Rightarrow> pystr \<Rightarrow> datetime \<Rightarrow> system \<Rightarrow> node_error + system" where
  "record_factory_reset_succeeded i new_key now s =
     node_bind (lock_setup_run i s) (\<lambda>r.
     node_bind (require_setup_run_state r SETUP_RESETTING) (\<lambda>_.
       if new_key = original_public_key r
       then Inl (SetupRunTransitionError (str ''The node kept its identity, so it was not reset.''))
       else Inr (complete_factory_reset r new_key now s)))"

definition record_identity_restore_started :: "nat \<Rightarrow> pystr \<Rightarrow> system \<Rightarrow> node_error + system" where
  "record_identity_restore_started i restored_key s =
     node_bind (lock_setup_run i s) (\<lambda>r.
     node_bind (require_setup_run_state r SETUP_CONFIGURING) (\<lambda>_.
       Inr (save_setup_run (r\<lparr>restored_public_key := restored_key\<rparr>) s)))"

fun describe_setup_action :: "command_kind \<Rightarrow> pystr" where
  "describe_setup_action KIND_READ_NODE_INFORMATION = str ''Reading the node''"
| "describe_setup_action KIND_FACTORY_RESET = str ''The factory reset''"
| "describe_setup_action KIND_CONFIGURE_NODE = str ''Configuring the node''"
| "describe_setup_action kind = command_kind_display kind"

fun describe_setup_outcome :: "command_state \<Rightarrow> pystr" where
  "describe_setup_outcome COMMAND_FAILED = str ''failed''"
| "describe_setup_outcome COMMAND_INTERRUPTED = str ''was interrupted''"
| "describe_setup_outcome COMMAND_EXPIRED = str ''did not start''"
| "describe_setup_outcome _ = str ''did not succeed''"

definition describe_unsuccessful_setup_command :: "node_command \<Rightarrow> pystr" where
  "describe_unsuccessful_setup_command c =
     describe_setup_action (command_kind c) @ str '' '' @ describe_setup_outcome (command_state c) @ str '': '' @
     (if command_error_message c = [] then str ''No reason was reported.'' else command_error_message c)"

definition factory_reset_frame_may_have_been_sent :: "node_command \<Rightarrow> bool" where
  "factory_reset_frame_may_have_been_sent c = list_ex (\<lambda>p. step_name p = SEND_RESET_FRAME) (command_progress c)"

definition fall_back_after_unsuccessful_factory_reset ::
  "setup_run \<Rightarrow> node_command \<Rightarrow> pystr \<Rightarrow> datetime \<Rightarrow> system \<Rightarrow> system" where
  "fall_back_after_unsuccessful_factory_reset r c last_error now s =
     (if \<not> factory_reset_frame_may_have_been_sent c
      then move_setup_run r SETUP_AWAITING_RESET_CONFIRMATION now (Some last_error) s
      else snd (create_node_command KIND_READ_NODE_INFORMATION [] now (Some (run_id r))
             (move_setup_run r SETUP_READING_NODE now
               (Some (last_error @ str '' The node is being read again to find out whether it was reset.'')) s)))"

definition fall_back_after_unsuccessful_command :: "node_command \<Rightarrow> datetime \<Rightarrow> system \<Rightarrow> node_error + system" where
  "fall_back_after_unsuccessful_command c now s =
     (case command_setup_run_id c of
        None \<Rightarrow> Inr s
      | Some i \<Rightarrow> node_bind (lock_setup_run i s) (\<lambda>r.
          if exists_where (\<lambda>x. command_setup_run_id x = Some (run_id r) \<and> command_id x > command_id c) (node_commands s)
          then Inr s
          else
            let last_error = describe_unsuccessful_setup_command c
            in if command_kind c = KIND_READ_NODE_INFORMATION \<and> run_state r = SETUP_READING_NODE
               then Inr (notify_relay_worker CHANNEL_SETUP_CHANGED (notified_row (run_id r))
                          (save_setup_run (r\<lparr>run_last_error := last_error\<rparr>) s))
               else if command_kind c = KIND_FACTORY_RESET \<and> run_state r = SETUP_RESETTING
               then Inr (fall_back_after_unsuccessful_factory_reset r c last_error now s)
               else if command_kind c = KIND_CONFIGURE_NODE \<and> run_state r = SETUP_CONFIGURING
               then Inr (move_setup_run r SETUP_AWAITING_CONFIGURATION now (Some last_error) s)
               else Inr s))"

end
