(* ===== verification/Node_Commands.thy ===== *)
theory Node_Commands
  imports Setup_Runs
begin

text \<open>
  The worker's side of the command queue (\<^verbatim>\<open>node/node_commands.py\<close>): stale commands expire, the oldest pending
  one is claimed, progress is reported, and a command ends once. A command of a setup run that ends without
  success moves its run back in the same transaction. The rows another transaction holds (\<^verbatim>\<open>SKIP LOCKED\<close>) are an
  argument.
\<close>

definition is_node_command_terminal :: "node_command \<Rightarrow> bool" where
  "is_node_command_terminal c \<longleftrightarrow> command_state c \<in> set TERMINAL_STATES"

definition save_node_command :: "node_command \<Rightarrow> system \<Rightarrow> system" where
  "save_node_command c s = s\<lparr>node_commands := update_where (\<lambda>x. command_id x = command_id c) (\<lambda>_. c) (node_commands s)\<rparr>"

text \<open>Ending each of the locked commands in turn, and moving back the run each belongs to.\<close>

fun end_commands :: "command_state \<Rightarrow> pystr \<Rightarrow> node_command list \<Rightarrow> datetime \<Rightarrow> system \<Rightarrow> node_error + node_command list \<times> system" where
  "end_commands new_state message [] now s = Inr ([], s)"
| "end_commands new_state message (c # cs) now s =
     (let c1 = c\<lparr>command_state := new_state, command_finished_at := Some now, command_error_message := message\<rparr>;
          s1 = save_node_command c1 s
      in node_bind (if command_setup_run_id c1 \<noteq> None then fall_back_after_unsuccessful_command c1 now s1 else Inr s1) (\<lambda>s2.
         node_bind (end_commands new_state message cs now s2) (\<lambda>(ended, s3). Inr (c1 # ended, s3))))"

definition expire_pending_node_commands :: "(nat \<Rightarrow> bool) \<Rightarrow> datetime \<Rightarrow> system \<Rightarrow> node_error + node_command list \<times> system" where
  "expire_pending_node_commands locked now s =
     end_commands COMMAND_EXPIRED EXPIRED_COMMAND_ERROR_MESSAGE
       (select_where (\<lambda>c. \<not> locked (command_id c) \<and> command_state c = COMMAND_PENDING \<and> command_expires_at c \<le> now)
          (node_commands s)) now s"

definition interrupt_running_node_commands :: "datetime \<Rightarrow> system \<Rightarrow> node_error + node_command list \<times> system" where
  "interrupt_running_node_commands now s =
     end_commands COMMAND_INTERRUPTED INTERRUPTED_COMMAND_ERROR_MESSAGE
       (select_where (\<lambda>c. command_state c = COMMAND_RUNNING) (node_commands s)) now s"

text \<open>The unique constraint \<^verbatim>\<open>node_command_single_running\<close> refuses a second running command.\<close>

definition claim_next_node_command ::
  "(nat \<Rightarrow> bool) \<Rightarrow> nat \<Rightarrow> datetime \<Rightarrow> system \<Rightarrow> node_error + node_command option \<times> system" where
  "claim_next_node_command locked worker_instance now s =
     node_bind (expire_pending_node_commands locked now s) (\<lambda>(_, s1).
       case first_where (\<lambda>c. \<not> locked (command_id c) \<and> command_state c = COMMAND_PENDING) (node_commands s1) of
         None \<Rightarrow> Inr (None, s1)
       | Some c \<Rightarrow>
           let c1 = c\<lparr>command_state := COMMAND_RUNNING, claimed_at := Some now,
                       claimed_by_worker_instance := Some worker_instance\<rparr>
           in if exists_where (\<lambda>x. command_state x = COMMAND_RUNNING) (node_commands s1)
              then Inr (None, s1)
              else Inr (Some c1, save_node_command c1 s1))"

fun replace_steps :: "progress_step list \<Rightarrow> progress_step \<Rightarrow> bool \<times> progress_step list" where
  "replace_steps [] p = (False, [])"
| "replace_steps (q # qs) p =
     (let (was_replaced, updated) = replace_steps qs p
      in if step_name q = step_name p then (True, p # updated) else (was_replaced, q # updated))"

definition replace_or_append_progress_step :: "progress_step list \<Rightarrow> progress_step \<Rightarrow> progress_step list" where
  "replace_or_append_progress_step stored p =
     (let (step_was_replaced, updated) = replace_steps stored p
      in if step_was_replaced then updated else updated @ [p])"

definition record_node_command_progress :: "nat \<Rightarrow> progress_step \<Rightarrow> system \<Rightarrow> node_error + system" where
  "record_node_command_progress i p s =
     (case first_where (\<lambda>c. command_id c = i) (node_commands s) of
        None \<Rightarrow> Inl NodeRowDoesNotExist
      | Some c \<Rightarrow> Inr (save_node_command
          (c\<lparr>command_progress := replace_or_append_progress_step (command_progress c) p\<rparr>) s))"

definition finish_node_command ::
  "nat \<Rightarrow> command_state \<Rightarrow> datetime \<Rightarrow> json option \<Rightarrow> pystr \<Rightarrow> system \<Rightarrow> node_error + bool \<times> system" where
  "finish_node_command i new_state now result message s =
     (if new_state \<notin> set TERMINAL_STATES
      then Inl (NodeValueError (command_state_value new_state @ str '' is not a terminal state of a node command.''))
      else
        let running = (\<lambda>c. command_id c = i \<and> command_state c = COMMAND_RUNNING);
            s1 = s\<lparr>node_commands := update_where running
                     (\<lambda>c. c\<lparr>command_state := new_state, command_finished_at := Some now, command_result := result,
                             command_error_message := message\<rparr>) (node_commands s)\<rparr>
        in if count_where running (node_commands s) = 0 then Inr (False, s)
           else if new_state \<in> set UNSUCCESSFUL_STATES
           then (case first_where (\<lambda>c. command_id c = i) (node_commands s1) of
                   None \<Rightarrow> Inl NodeRowDoesNotExist
                 | Some c \<Rightarrow>
                     node_bind (if command_setup_run_id c \<noteq> None then fall_back_after_unsuccessful_command c now s1
                                else Inr s1) (\<lambda>s2. Inr (True, s2)))
           else Inr (True, s1))"

text \<open>A pairing session outlives the command that started it and loses only the reference (\<^verbatim>\<open>SET_NULL\<close>).\<close>

definition delete_old_node_commands :: "datetime \<Rightarrow> system \<Rightarrow> nat \<times> system" where
  "delete_old_node_commands now s =
     (let old = (\<lambda>c. command_created_at c < now - timedelta_of_seconds (NODE_COMMAND_RETENTION_DAYS * 86400))
      in (count_where old (node_commands s),
          s\<lparr>node_commands := delete_where old (node_commands s),
            pairing_sessions := update_where
              (\<lambda>p. list_ex (\<lambda>c. start_command_id p = Some (command_id c)) (select_where old (node_commands s)))
              (\<lambda>p. p\<lparr>start_command_id := None\<rparr>) (pairing_sessions s)\<rparr>))"

end
