(* ===== verification/Setup_Steps.thy ===== *)
theory Setup_Steps
  imports Node_Commands
begin

text \<open>
  The invariant of setup runs and node commands. At most one run is active and at most one command runs, and
  run and command never disagree: a run that waits for the worker has a latest command of the kind it waits
  for, and a run that resets or configures the node has one that has not ended without success. Every operation
  of the operator and of the worker keeps it, in any order.
\<close>

section \<open>The latest command of a run\<close>

definition latest_of :: "nat \<Rightarrow> node_command table \<Rightarrow> node_command option" where
  "latest_of i t = (case rev (select_where (\<lambda>c. command_setup_run_id c = Some i) t) of [] \<Rightarrow> None | c # _ \<Rightarrow> Some c)"

lemma find_latest_is_latest: "find_latest_setup_run_command r s = latest_of (run_id r) (node_commands s)"
  by (simp add: find_latest_setup_run_command_def latest_of_def)

lemma latest_insert:
  "latest_of i (insert_row mk t) =
     (if command_setup_run_id (mk (next_id t)) = Some i then Some (mk (next_id t)) else latest_of i t)"
  by (simp add: latest_of_def select_where_def)

lemma latest_update:
  assumes "\<And>c. c \<in> set (rows t) \<Longrightarrow> P c \<Longrightarrow> command_setup_run_id (f c) = command_setup_run_id c"
  shows "latest_of i (update_where P f t) = map_option (\<lambda>c. if P c then f c else c) (latest_of i t)"
proof -
  have "filter (\<lambda>c. command_setup_run_id c = Some i) (map (\<lambda>c. if P c then f c else c) cs) =
      map (\<lambda>c. if P c then f c else c) (filter (\<lambda>c. command_setup_run_id c = Some i) cs)"
    if "set cs \<subseteq> set (rows t)" for cs
    using that assms by (induction cs) auto
  then have "select_where (\<lambda>c. command_setup_run_id c = Some i) (update_where P f t) =
      map (\<lambda>c. if P c then f c else c) (select_where (\<lambda>c. command_setup_run_id c = Some i) t)"
    by (simp add: select_where_def)
  then show ?thesis
    by (simp add: latest_of_def rev_map [symmetric] split: list.split)
qed

lemma latest_in:
  assumes "latest_of i t = Some c"
  shows "c \<in> set (rows t) \<and> command_setup_run_id c = Some i"
proof -
  from assms obtain cs where "rev (select_where (\<lambda>c. command_setup_run_id c = Some i) t) = c # cs"
    by (auto simp: latest_of_def split: list.splits)
  then have "c \<in> set (select_where (\<lambda>c. command_setup_run_id c = Some i) t)"
    by (metis list.set_intros(1) set_rev)
  then show ?thesis by simp
qed

lemma latest_iff:
  assumes "keys_ok command_id t" "c \<in> set (rows t)" "command_setup_run_id c = Some i"
    and "\<And>x. x \<in> set (rows t) \<Longrightarrow> command_setup_run_id x = Some i \<Longrightarrow> command_id x \<le> command_id c"
  shows "latest_of i t = Some c"
proof -
  let ?cs = "select_where (\<lambda>c. command_setup_run_id c = Some i) t"
  have c: "c \<in> set ?cs" using assms(2,3) by simp
  have sorted: "sorted_wrt (\<lambda>x y. command_id x < command_id y) ?cs"
    using assms(1) unfolding keys_ok_def sorted_wrt_map select_where_def by (blast intro: sorted_wrt_filter)
  obtain ds d where split: "?cs = ds @ [d]"
    using c by (metis empty_iff list.set(1) rev_exhaust)
  have "c = d"
  proof (rule ccontr)
    assume "c \<noteq> d"
    with c split have "c \<in> set ds" by simp
    then have "command_id c < command_id d" using sorted split by (simp add: sorted_wrt_append)
    moreover have "d \<in> set ?cs" using split by simp
    then have "command_id d \<le> command_id c" using assms(4) [of d] by simp
    ultimately show False by simp
  qed
  with split show ?thesis by (simp add: latest_of_def)
qed

lemma latest_greatest:
  assumes "keys_ok command_id t" "latest_of i t = Some c" "x \<in> set (rows t)" "command_setup_run_id x = Some i"
  shows "command_id x \<le> command_id c"
proof -
  let ?cs = "select_where (\<lambda>c. command_setup_run_id c = Some i) t"
  have sorted: "sorted_wrt (\<lambda>x y. command_id x < command_id y) ?cs"
    using assms(1) unfolding keys_ok_def sorted_wrt_map select_where_def by (blast intro: sorted_wrt_filter)
  from assms(2) obtain ds where "rev ?cs = c # ds" by (auto simp: latest_of_def split: list.splits)
  then have split: "?cs = rev ds @ [c]" by (metis rev.simps(2) rev_rev_ident)
  have "x \<in> set ?cs" using assms(3,4) by simp
  then have "x \<in> set (rev ds @ [c])" unfolding split .
  with sorted show ?thesis unfolding split by (auto simp: sorted_wrt_append less_imp_le)
qed

section \<open>The invariant\<close>

definition going :: "node_command \<Rightarrow> bool" where
  "going c \<longleftrightarrow> command_state c \<in> {COMMAND_PENDING, COMMAND_RUNNING, COMMAND_SUCCEEDED}"

fun in_step :: "setup_state \<Rightarrow> node_command option \<Rightarrow> bool" where
  "in_step SETUP_READING_NODE latest = (case latest of None \<Rightarrow> False | Some c \<Rightarrow> command_kind c = KIND_READ_NODE_INFORMATION)"
| "in_step SETUP_RESETTING latest = (case latest of None \<Rightarrow> False | Some c \<Rightarrow> command_kind c = KIND_FACTORY_RESET \<and> going c)"
| "in_step SETUP_CONFIGURING latest = (case latest of None \<Rightarrow> False | Some c \<Rightarrow> command_kind c = KIND_CONFIGURE_NODE \<and> going c)"
| "in_step _ latest = True"

definition runs_ok :: "setup_run table \<Rightarrow> bool" where
  "runs_ok rs \<longleftrightarrow> keys_ok run_id rs \<and> all_rows setup_run_row_ok rs \<and> count_where run_is_active rs \<le> 1"

definition commands_ok :: "node_command table \<Rightarrow> bool" where
  "commands_ok t \<longleftrightarrow> keys_ok command_id t \<and> all_rows node_command_row_ok t \<and>
     count_where (\<lambda>c. command_state c = COMMAND_RUNNING) t \<le> 1"

definition linked :: "setup_run table \<Rightarrow> node_command table \<Rightarrow> bool" where
  "linked rs t \<longleftrightarrow> all_rows (\<lambda>c. case command_setup_run_id c of None \<Rightarrow> True | Some i \<Rightarrow> i \<in> run_id ` set (rows rs)) t"

definition agree :: "setup_run table \<Rightarrow> node_command table \<Rightarrow> bool" where
  "agree rs t \<longleftrightarrow> all_rows (\<lambda>r. in_step (run_state r) (latest_of (run_id r) t)) rs"

definition setup_ok :: "system \<Rightarrow> bool" where
  "setup_ok s \<longleftrightarrow> runs_ok (setup_runs s) \<and> commands_ok (node_commands s) \<and> linked (setup_runs s) (node_commands s) \<and>
     agree (setup_runs s) (node_commands s)"

lemma setup_okI:
  "runs_ok (setup_runs s) \<Longrightarrow> commands_ok (node_commands s) \<Longrightarrow> linked (setup_runs s) (node_commands s) \<Longrightarrow>
     agree (setup_runs s) (node_commands s) \<Longrightarrow> setup_ok s"
  by (simp add: setup_ok_def)

lemma setup_ok_empty: "setup_ok empty_system"
  by (simp add: setup_ok_def empty_system_def runs_ok_def commands_ok_def linked_def agree_def count_where_def)
    (simp add: empty_table_def)

lemma setup_ok_frame:
  "setup_ok s \<Longrightarrow> setup_runs s' = setup_runs s \<Longrightarrow> node_commands s' = node_commands s \<Longrightarrow> setup_ok s'"
  by (simp add: setup_ok_def)

lemma notify_keeps [simp]:
  "setup_runs (notify_relay_worker ch payload s) = setup_runs s"
  "node_commands (notify_relay_worker ch payload s) = node_commands s"
  "relay (notify_relay_worker ch payload s) = relay s"
  "node_settings (notify_relay_worker ch payload s) = node_settings s"
  "pairing_sessions (notify_relay_worker ch payload s) = pairing_sessions s"
  "heard_adverts (notify_relay_worker ch payload s) = heard_adverts s"
  "worker_node_public_key (notify_relay_worker ch payload s) = worker_node_public_key s"
  by (simp_all add: notify_relay_worker_def)

section \<open>What a change of a run keeps\<close>

definition put_run :: "setup_run \<Rightarrow> setup_run table \<Rightarrow> setup_run table" where
  "put_run r rs = update_where (\<lambda>x. run_id x = run_id r) (\<lambda>_. r) rs"

lemma save_run_puts [simp]:
  "setup_runs (save_setup_run r s) = put_run r (setup_runs s)"
  "node_commands (save_setup_run r s) = node_commands s"
  "relay (save_setup_run r s) = relay s"
  "node_settings (save_setup_run r s) = node_settings s"
  by (simp_all add: save_setup_run_def put_run_def)

lemma put_run_twice [simp]: "run_id r' = run_id r \<Longrightarrow> put_run r' (put_run r rs) = put_run r' rs"
  by (simp add: put_run_def update_where_def)

lemma put_run_self: "keys_ok run_id rs \<Longrightarrow> r \<in> set (rows rs) \<Longrightarrow> put_run r rs = rs"
  by (auto simp: put_run_def update_where_def intro!: table.equality map_idI)
    (metis setup_run_table.key_unique)

lemma put_run_keys: "map run_id (rows (put_run r rs)) = map run_id (rows rs)"
  by (simp add: put_run_def)

lemma put_run_ids [simp]: "run_id ` set (rows (put_run r rs)) = run_id ` set (rows rs)"
  using arg_cong [OF put_run_keys, of set] by simp

lemma keys_ok_put: "keys_ok run_id rs \<Longrightarrow> keys_ok run_id (put_run r rs)"
proof -
  have iff: "keys_ok run_id t \<longleftrightarrow> sorted_wrt (<) (map run_id (rows t)) \<and> (\<forall>i \<in> set (map run_id (rows t)). i < next_id t)" for t
    by (simp add: keys_ok_def)
  have "next_id (put_run r rs) = next_id rs" by (simp add: put_run_def)
  then show "keys_ok run_id rs \<Longrightarrow> keys_ok run_id (put_run r rs)"
    unfolding iff put_run_keys by simp
qed

lemma count_where_update_mono:
  assumes "\<And>x. x \<in> set (rows t) \<Longrightarrow> P x \<Longrightarrow> Q (f x) \<Longrightarrow> Q x"
  shows "count_where Q (update_where P f t) \<le> count_where Q t"
proof -
  have "length (filter Q (map (\<lambda>x. if P x then f x else x) xs)) \<le> length (filter Q xs)" if "set xs \<subseteq> set (rows t)" for xs
    using that assms by (induction xs) (auto simp: le_SucI)
  then show ?thesis by (simp add: count_where_def)
qed

lemma runs_ok_put:
  assumes "runs_ok rs" "r \<in> set (rows rs)" "run_id r' = run_id r" "setup_run_row_ok r'" "run_is_active r' \<Longrightarrow> run_is_active r"
  shows "runs_ok (put_run r' rs)"
proof -
  have same: "x = r" if "x \<in> set (rows rs)" "run_id x = run_id r'" for x
    using assms(1,2,3) that setup_run_table.key_unique by (auto simp: runs_ok_def)
  have "count_where run_is_active (put_run r' rs) \<le> count_where run_is_active rs"
    unfolding put_run_def by (rule count_where_update_mono) (use assms(5) same in blast)
  moreover have "keys_ok run_id (put_run r' rs)"
    using assms(1) by (simp add: runs_ok_def keys_ok_put)
  moreover have "all_rows setup_run_row_ok (put_run r' rs)"
    using assms(1,4) by (auto simp: put_run_def runs_ok_def all_rows_def)
  ultimately show ?thesis using assms(1) by (simp add: runs_ok_def)
qed

lemma linked_put: "linked rs t \<Longrightarrow> linked (put_run r rs) t"
  unfolding linked_def put_run_ids .

lemma agree_put:
  "agree rs t \<Longrightarrow> in_step (run_state r) (latest_of (run_id r) t) \<Longrightarrow> agree (put_run r rs) t"
  by (auto simp: agree_def all_rows_def put_run_def)

lemma lock_setup_runD: "lock_setup_run i s = Inr r \<Longrightarrow> r \<in> set (rows (setup_runs s)) \<and> run_id r = i"
  by (auto simp: lock_setup_run_def split: option.splits dest: first_where_SomeD)

lemma lock_linked_run: "i \<in> run_id ` set (rows (setup_runs s)) \<Longrightarrow> \<exists>r. lock_setup_run i s = Inr r"
  by (cases "first_where (\<lambda>r. run_id r = i) (setup_runs s)") (auto simp: lock_setup_run_def dest: first_where_NoneD)

section \<open>What a change of a command keeps\<close>

lemma timedelta_lifetime_positive: "0 < timedelta_of_seconds (COMMAND_LIFETIME_SECONDS_BY_KIND kind)"
  by (cases kind)
    (simp_all add: timedelta_of_seconds_def SHORT_COMMAND_LIFETIME_SECONDS_def DEFAULT_COMMAND_LIFETIME_SECONDS_def)

lemma commands_ok_create: "commands_ok t \<Longrightarrow> commands_ok (insert_row (new_node_command kind arguments now run) t)"
  by (simp add: commands_ok_def all_rows_insert count_where_def)
    (auto simp: new_node_command_def node_command_row_ok_def TERMINAL_STATES_def timedelta_lifetime_positive keys_ok_def
      sorted_wrt_append less_Suc_eq)

lemma linked_create:
  "linked rs t \<Longrightarrow> (\<And>i. run = Some i \<Longrightarrow> i \<in> run_id ` set (rows rs)) \<Longrightarrow>
     linked rs (insert_row (new_node_command kind arguments now run) t)"
  by (auto simp: linked_def all_rows_def new_node_command_def split: option.splits)

lemma agree_create_other: "agree rs t \<Longrightarrow> agree rs (insert_row (new_node_command kind arguments now None) t)"
  by (simp add: agree_def latest_insert new_node_command_def)

lemma agree_put_create:
  assumes "agree rs t" "run = Some (run_id r)"
    and "in_step (run_state r) (Some (new_node_command kind arguments now run (next_id t)))"
  shows "agree (put_run r rs) (insert_row (new_node_command kind arguments now run) t)"
  using assms by (auto simp: agree_def all_rows_def put_run_def latest_insert new_node_command_def)

lemma commands_ok_update:
  assumes "commands_ok t" "\<And>c. command_id (f c) = command_id c"
    and "\<And>c. c \<in> set (rows t) \<Longrightarrow> P c \<Longrightarrow> node_command_row_ok c \<Longrightarrow> node_command_row_ok (f c)"
    and "\<And>c. c \<in> set (rows t) \<Longrightarrow> P c \<Longrightarrow> command_state (f c) = COMMAND_RUNNING \<Longrightarrow> command_state c = COMMAND_RUNNING"
  shows "commands_ok (update_where P f t)"
proof -
  have "count_where (\<lambda>c. command_state c = COMMAND_RUNNING) (update_where P f t) \<le>
      count_where (\<lambda>c. command_state c = COMMAND_RUNNING) t"
    by (rule count_where_update_mono) (use assms(4) in blast)
  then show ?thesis
    using assms(1-3) node_command_table.keys_update [of t f P] unfolding commands_ok_def
    by (auto intro: all_rows_update)
qed

lemma linked_update:
  "linked rs t \<Longrightarrow> (\<And>c. command_setup_run_id (f c) = command_setup_run_id c) \<Longrightarrow> linked rs (update_where P f t)"
  by (auto simp: linked_def all_rows_def)

lemma in_step_mono:
  "in_step st (Some c) \<Longrightarrow> command_kind d = command_kind c \<Longrightarrow> (going c \<Longrightarrow> going d) \<Longrightarrow> in_step st (Some d)"
  by (cases st) auto

lemma agree_update:
  assumes "agree rs t" "\<And>c. command_setup_run_id (f c) = command_setup_run_id c" "\<And>c. command_kind (f c) = command_kind c"
    and "\<And>c. c \<in> set (rows t) \<Longrightarrow> P c \<Longrightarrow> going c \<Longrightarrow> going (f c)"
  shows "agree rs (update_where P f t)"
proof -
  have "in_step st (latest_of i (update_where P f t))" if "in_step st (latest_of i t)" for st i
  proof (cases "latest_of i t")
    case None
    with that show ?thesis by (simp add: latest_update assms(2))
  next
    case (Some c)
    with that latest_in [OF Some] assms show ?thesis
      by (auto simp: latest_update intro: in_step_mono)
  qed
  with assms(1) show ?thesis by (simp add: agree_def all_rows_def)
qed
section \<open>The operator's and the worker's steps on a run\<close>

definition moved_run :: "setup_run \<Rightarrow> setup_state \<Rightarrow> datetime \<Rightarrow> pystr option \<Rightarrow> setup_run" where
  "moved_run r new_state now last_error =
     r\<lparr>run_state := new_state, run_is_active := new_state \<notin> set FINAL_STATES,
        run_finished_at := (if new_state \<in> set FINAL_STATES then Some now else None),
        run_last_error := (case last_error of None \<Rightarrow> run_last_error r | Some e \<Rightarrow> e)\<rparr>"

lemma moved_run_simps [simp]:
  "run_id (moved_run r st now e) = run_id r" "run_state (moved_run r st now e) = st"
  "run_is_active (moved_run r st now e) \<longleftrightarrow> st \<notin> set FINAL_STATES" "setup_run_row_ok (moved_run r st now e)"
  "restored_public_key (moved_run r st now e) = restored_public_key r"
  by (simp_all add: moved_run_def setup_run_row_ok_def)

lemma move_setup_run_simps [simp]:
  "setup_runs (move_setup_run r st now e s) = put_run (moved_run r st now e) (setup_runs s)"
  "node_commands (move_setup_run r st now e s) = node_commands s"
  "node_settings (move_setup_run r st now e s) = node_settings s"
  by (simp_all add: move_setup_run_def moved_run_def Let_def)

lemma create_command_simps [simp]:
  "setup_runs (snd (create_node_command kind arguments now run s)) = setup_runs s"
  "node_commands (snd (create_node_command kind arguments now run s)) =
     insert_row (new_node_command kind arguments now run) (node_commands s)"
  "node_settings (snd (create_node_command kind arguments now run s)) = node_settings s"
  "fst (create_node_command kind arguments now run s) = new_node_command kind arguments now run (next_id (node_commands s))"
  by (simp_all add: create_node_command_def Let_def)

lemma new_node_command_simps [simp]:
  "command_id (new_node_command kind arguments now run key) = key"
  "command_kind (new_node_command kind arguments now run key) = kind"
  "command_setup_run_id (new_node_command kind arguments now run key) = run"
  "command_state (new_node_command kind arguments now run key) = COMMAND_PENDING"
  "going (new_node_command kind arguments now run key)"
  by (simp_all add: new_node_command_def going_def)

lemma active_unless_final: "setup_run_row_ok r \<Longrightarrow> run_state r \<notin> set FINAL_STATES \<Longrightarrow> run_is_active r"
  by (simp add: setup_run_row_ok_def)

text \<open>Moving a run to a state that waits for no command, whatever fields it saves on the way.\<close>

lemma setup_ok_move:
  assumes "setup_ok s" "r \<in> set (rows (setup_runs s))" "run_id r' = run_id r"
    and "st \<notin> set FINAL_STATES \<Longrightarrow> run_state r \<notin> set FINAL_STATES"
    and "in_step st (latest_of (run_id r) (node_commands s))"
    and "setup_runs s' = put_run (moved_run r' st now e) (setup_runs s)" "node_commands s' = node_commands s"
  shows "setup_ok s'"
proof (rule setup_okI)
  have ok: "setup_run_row_ok r" using assms(1,2) by (simp add: setup_ok_def runs_ok_def all_rows_def)
  show "runs_ok (setup_runs s')"
    unfolding assms(6)
    by (rule runs_ok_put) (use assms(1-4) ok active_unless_final in \<open>auto simp: setup_ok_def\<close>)
  show "agree (setup_runs s') (node_commands s')"
    unfolding assms(6,7) by (rule agree_put) (use assms(1,3,5) in \<open>auto simp: setup_ok_def\<close>)
qed (use assms in \<open>auto simp: setup_ok_def linked_put\<close>)

text \<open>Moving a run and creating the command it waits for, in one transaction.\<close>

lemma setup_ok_move_create:
  assumes "setup_ok s" "r \<in> set (rows (setup_runs s))" "run_id r' = run_id r" "setup_run_row_ok r'"
    and "run_is_active r' \<Longrightarrow> run_is_active r"
    and "in_step (run_state r') (Some (new_node_command kind arguments now (Some (run_id r)) (next_id (node_commands s))))"
    and "setup_runs s' = put_run r' (setup_runs s)"
    and "node_commands s' = insert_row (new_node_command kind arguments now (Some (run_id r))) (node_commands s)"
  shows "setup_ok s'"
proof (rule setup_okI)
  show "runs_ok (setup_runs s')"
    unfolding assms(7) using assms(1) by (intro runs_ok_put [OF _ assms(2-5)]) (simp add: setup_ok_def)
  show "commands_ok (node_commands s')"
    using assms(1,8) by (simp add: setup_ok_def commands_ok_create)
  show "linked (setup_runs s') (node_commands s')"
    unfolding assms(7,8) by (rule linked_create) (use assms(1,2) in \<open>auto simp: setup_ok_def linked_put\<close>)
  show "agree (setup_runs s') (node_commands s')"
    unfolding assms(7,8) by (rule agree_put_create) (use assms(1,3,6) in \<open>auto simp: setup_ok_def\<close>)
qed

lemma cancel_commands_changes:
  "setup_runs (cancel_commands is now s) = setup_runs s \<and> node_settings (cancel_commands is now s) = node_settings s \<and>
   next_id (node_commands (cancel_commands is now s)) = next_id (node_commands s)"
  by (induction "is" arbitrary: s) (simp_all add: cancel_node_command_def Let_def)

lemma cancel_commands_ok:
  "commands_ok (node_commands s) \<and> linked rs (node_commands s) \<Longrightarrow>
     commands_ok (node_commands (cancel_commands is now s)) \<and> linked rs (node_commands (cancel_commands is now s))"
proof (induction "is" arbitrary: s)
  case (Cons i "is")
  have "commands_ok (node_commands (snd (cancel_node_command i now s))) \<and> linked rs (node_commands (snd (cancel_node_command i now s)))"
    using Cons.prems unfolding cancel_node_command_def Let_def
    by (auto intro!: commands_ok_update linked_update simp: node_command_row_ok_def)
  with Cons.IH show ?case by simp
qed simp

text \<open>Only the run whose pending commands are cancelled may fall out of step.\<close>

lemma cancel_pending_other:
  assumes "keys_ok command_id (node_commands s)" "j \<noteq> run_id r"
  shows "latest_of j (node_commands (cancel_pending_setup_run_commands r now s)) = latest_of j (node_commands s)"
proof -
  have "latest_of j (node_commands (cancel_commands is now u)) = latest_of j (node_commands u)"
    if "\<And>c. c \<in> set (rows (node_commands u)) \<Longrightarrow> command_id c \<in> set is \<Longrightarrow> command_setup_run_id c \<noteq> Some j" for "is" u
    using that
  proof (induction "is" arbitrary: u)
    case (Cons i "is")
    let ?u = "snd (cancel_node_command i now u)"
    have "latest_of j (node_commands ?u) = latest_of j (node_commands u)"
      using Cons.prems latest_in
      by (cases "latest_of j (node_commands u)") (auto simp: cancel_node_command_def Let_def latest_update)
    moreover have "latest_of j (node_commands (cancel_commands is now ?u)) = latest_of j (node_commands ?u)"
      by (rule Cons.IH) (use Cons.prems in \<open>auto simp: cancel_node_command_def Let_def split: if_splits\<close>)
    ultimately show ?case by simp
  qed simp
  from this [of s] show ?thesis
    unfolding cancel_pending_setup_run_commands_def
    using assms node_command_table.key_unique by (smt (verit, ccfv_threshold) imageE list.set_map mem_Collect_eq option.inject set_select_where)
qed
lemma start_setup_run_ok:
  assumes "setup_ok s" "start_setup_run now s = Inr (r, s')"
  shows "setup_ok s'"
proof -
  let ?key = "next_id (setup_runs s)"
  let ?rs = "insert_row (new_setup_run (if is_node_configured s then PURPOSE_RECONFIGURE else PURPOSE_INITIAL) now) (setup_runs s)"
  from assms(2) have inactive: "\<not> exists_where run_is_active (setup_runs s)"
    and rs: "setup_runs s' = ?rs"
    and cs: "node_commands s' = insert_row (new_node_command KIND_READ_NODE_INFORMATION [] now (Some ?key)) (node_commands s)"
    by (auto simp: start_setup_run_def Let_def case_prod_beta split: if_splits)
  note parts = assms(1) [unfolded setup_ok_def]
  have keys: "run_id x < ?key" if "x \<in> set (rows (setup_runs s))" for x
    using that parts by (auto simp: runs_ok_def keys_ok_def)
  show ?thesis
  proof (rule setup_okI)
    have "filter run_is_active (rows (setup_runs s)) = []"
      using inactive by (auto simp: exists_where_def list_ex_iff filter_empty_conv)
    then show "runs_ok (setup_runs s')"
      using parts keys unfolding rs
      by (auto simp: runs_ok_def keys_ok_def all_rows_insert count_where_def sorted_wrt_append new_setup_run_def
          setup_run_row_ok_def FINAL_STATES_def less_Suc_eq)
    show "commands_ok (node_commands s')"
      using parts unfolding cs by (simp add: commands_ok_create)
    have "linked ?rs (node_commands s)"
      using parts by (auto simp: linked_def all_rows_def split: option.splits)
    then show "linked (setup_runs s') (node_commands s')"
      unfolding rs cs by (rule linked_create) (auto simp: new_setup_run_def)
    have "in_step (run_state x) (latest_of (run_id x) (node_commands s'))" if "x \<in> set (rows (setup_runs s))" for x
      using parts that keys [OF that] by (simp add: cs latest_insert agree_def all_rows_def)
    then show "agree (setup_runs s') (node_commands s')"
      unfolding rs agree_def by (simp add: all_rows_insert) (simp add: all_rows_def cs latest_insert new_setup_run_def)
  qed
qed

lemma retry_reading_node_ok:
  assumes "setup_ok s" "retry_reading_node i now s = Inr (c, s')"
  shows "setup_ok s'"
proof -
  from assms(2) obtain r where r: "lock_setup_run i s = Inr r" "run_state r = SETUP_READING_NODE"
    and rs: "setup_runs s' = put_run (r\<lparr>run_last_error := []\<rparr>) (setup_runs s)"
    and cs: "node_commands s' = insert_row (new_node_command KIND_READ_NODE_INFORMATION [] now (Some (run_id r)))
      (node_commands (cancel_pending_setup_run_commands r now s))"
    by (auto simp: retry_reading_node_def node_bind_eq_Inr require_setup_run_state_def Let_def case_prod_beta
        cancel_pending_setup_run_commands_def cancel_commands_changes split: if_splits)
  note parts = assms(1) [unfolded setup_ok_def]
  have in_table: "r \<in> set (rows (setup_runs s))" using lock_setup_runD [OF r(1)] by simp
  then have row: "setup_run_row_ok r" using parts by (simp add: runs_ok_def all_rows_def)
  let ?cs = "node_commands (cancel_pending_setup_run_commands r now s)"
  have cancelled: "commands_ok ?cs" "linked (setup_runs s) ?cs"
    using parts cancel_commands_ok unfolding cancel_pending_setup_run_commands_def by blast+
  show ?thesis
  proof (rule setup_okI)
    show "runs_ok (setup_runs s')"
      unfolding rs using parts row by (intro runs_ok_put [OF _ in_table]) (auto simp: setup_run_row_ok_def)
    show "commands_ok (node_commands s')"
      unfolding cs by (rule commands_ok_create) (rule cancelled)
    show "linked (setup_runs s') (node_commands s')"
      unfolding rs cs by (rule linked_create) (use cancelled in_table in \<open>auto simp: linked_put\<close>)
    have "in_step (run_state x) (latest_of (run_id x) (node_commands s'))"
      if "x \<in> set (rows (setup_runs s))" "run_id x \<noteq> run_id r" for x
      using parts that cancel_pending_other [of s "run_id x" r now]
      by (simp add: cs latest_insert agree_def all_rows_def commands_ok_def)
    moreover have "in_step (run_state r) (latest_of (run_id r) (node_commands s'))"
      by (simp add: cs latest_insert r(2))
    ultimately show "agree (setup_runs s') (node_commands s')"
      unfolding rs agree_def all_rows_def put_run_def by auto
  qed
qed

lemma confirm_factory_reset_ok:
  assumes "setup_ok s" "confirm_factory_reset i typed now s = Inr (c, s')"
  shows "setup_ok s'"
proof -
  from assms(2) obtain r where "lock_setup_run i s = Inr r" "run_state r = SETUP_AWAITING_RESET_CONFIRMATION"
    and "setup_runs s' = put_run (moved_run r SETUP_RESETTING now (Some [])) (setup_runs s)"
      "node_commands s' = insert_row (new_node_command KIND_FACTORY_RESET (setup_run_argument r) now (Some (run_id r))) (node_commands s)"
    by (auto simp: confirm_factory_reset_def node_bind_eq_Inr require_setup_run_state_def prod_eq_iff split: if_splits)
  moreover from this have "setup_run_row_ok r"
    using assms(1) lock_setup_runD by (auto simp: setup_ok_def runs_ok_def all_rows_def)
  ultimately show ?thesis
    using lock_setup_runD [of i s r] active_unless_final [of r]
    by (intro setup_ok_move_create [OF assms(1), of r "moved_run r SETUP_RESETTING now (Some [])"]) (auto simp: FINAL_STATES_def)
qed

lemma submit_node_configuration_ok:
  assumes "setup_ok s" "submit_node_configuration i requested now s = Inr (c, s')"
  shows "setup_ok s'"
proof -
  from assms(2) obtain r where "lock_setup_run i s = Inr r" "run_state r = SETUP_AWAITING_CONFIGURATION"
    and "setup_runs s' = put_run (moved_run (r\<lparr>requested_configuration := Some requested\<rparr>) SETUP_CONFIGURING now (Some [])) (setup_runs s)"
      "node_commands s' = insert_row (new_node_command KIND_CONFIGURE_NODE (setup_run_argument r) now (Some (run_id r))) (node_commands s)"
    by (auto simp: submit_node_configuration_def node_bind_eq_Inr require_setup_run_state_def prod_eq_iff Let_def split: if_splits)
  moreover from this have "setup_run_row_ok r"
    using assms(1) lock_setup_runD by (auto simp: setup_ok_def runs_ok_def all_rows_def)
  ultimately show ?thesis
    using lock_setup_runD [of i s r] active_unless_final [of r]
    by (intro setup_ok_move_create [OF assms(1), of r
          "moved_run (r\<lparr>requested_configuration := Some requested\<rparr>) SETUP_CONFIGURING now (Some [])"]) (auto simp: FINAL_STATES_def)
qed

lemma cancel_setup_run_ok:
  assumes "setup_ok s" "cancel_setup_run i now s = Inr s'"
  shows "setup_ok s'"
proof -
  from assms(2) obtain r where r: "lock_setup_run i s = Inr r"
    and rs: "setup_runs s' = put_run (moved_run r SETUP_ABANDONED now None) (setup_runs s)"
    and cs: "node_commands s' = node_commands (cancel_pending_setup_run_commands r now s)"
    by (auto simp: cancel_setup_run_def node_bind_eq_Inr cancel_pending_setup_run_commands_def cancel_commands_changes
        split: if_splits)
  note parts = assms(1) [unfolded setup_ok_def]
  have in_table: "r \<in> set (rows (setup_runs s))" using lock_setup_runD [OF r] by simp
  have cancelled: "commands_ok (node_commands s')" "linked (setup_runs s) (node_commands s')"
    unfolding cs using parts cancel_commands_ok unfolding cancel_pending_setup_run_commands_def by blast+
  show ?thesis
  proof (rule setup_okI)
    show "runs_ok (setup_runs s')"
      unfolding rs using parts by (intro runs_ok_put [OF _ in_table]) (auto simp: FINAL_STATES_def)
    show "linked (setup_runs s') (node_commands s')"
      unfolding rs by (rule linked_put) (rule cancelled)
    have "in_step (run_state x) (latest_of (run_id x) (node_commands s'))"
      if "x \<in> set (rows (setup_runs s))" "run_id x \<noteq> run_id r" for x
      using parts that cancel_pending_other [of s "run_id x" r now]
      by (simp add: cs agree_def all_rows_def commands_ok_def)
    then show "agree (setup_runs s') (node_commands s')"
      unfolding rs agree_def all_rows_def put_run_def by auto
  qed (rule cancelled)
qed
lemma complete_factory_reset_simps [simp]:
  "setup_runs (complete_factory_reset r key now s) =
     put_run (moved_run (r\<lparr>new_public_key := key\<rparr>) SETUP_AWAITING_CONFIGURATION now (Some [])) (setup_runs s)"
  "node_commands (complete_factory_reset r key now s) = node_commands s"
  "node_settings (complete_factory_reset r key now s) = node_settings s"
  by (simp_all add: complete_factory_reset_def Let_def)

lemma complete_factory_reset_ok:
  assumes "setup_ok s" "r \<in> set (rows (setup_runs s))" "run_state r \<notin> set FINAL_STATES"
  shows "setup_ok (complete_factory_reset r key now s)"
  by (rule setup_ok_move [OF assms(1,2)]) (use assms(3) in \<open>auto simp: FINAL_STATES_def\<close>)

lemma record_node_information_readE:
  assumes "record_node_information_read i reported now s = Inr s'"
  obtains (left_alone) "s' = s"
  | (was_reset) r key where "lock_setup_run i s = Inr r" "run_state r = SETUP_READING_NODE"
      "s' = complete_factory_reset r key now s"
  | (was_read) r r' where "lock_setup_run i s = Inr r" "run_state r = SETUP_READING_NODE" "run_id r' = run_id r"
      "restored_public_key r' = restored_public_key r"
      "s' = move_setup_run r' SETUP_AWAITING_RESET_CONFIRMATION now (Some []) (save_setup_run r' s)"
proof -
  from assms obtain information r where r: "lock_setup_run i s = Inr r"
    and result: "(if run_state r \<noteq> SETUP_READING_NODE then Inr s
       else if original_public_key r \<noteq> [] \<and> information_public_key information \<noteq> original_public_key r
       then Inr (complete_factory_reset r (information_public_key information) now s)
       else Inr (move_setup_run (r\<lparr>original_node_information := Some (node_information_to_json information),
              original_public_key := information_public_key information\<rparr>) SETUP_AWAITING_RESET_CONFIRMATION now (Some [])
            (save_setup_run (r\<lparr>original_node_information := Some (node_information_to_json information),
              original_public_key := information_public_key information\<rparr>) s))) = (Inr s' :: node_error + system)"
    unfolding record_node_information_read_def node_bind_eq_Inr Let_def by blast
  show thesis
  proof (cases "run_state r = SETUP_READING_NODE")
    case reading: True
    show thesis
    proof (cases "original_public_key r \<noteq> [] \<and> information_public_key information \<noteq> original_public_key r")
      case True
      with reading result show thesis by (intro was_reset [OF r reading, of "information_public_key information"]) simp
    next
      case False
      with reading result show thesis by (intro was_read [OF r reading, of
            "r\<lparr>original_node_information := Some (node_information_to_json information),
              original_public_key := information_public_key information\<rparr>"]) auto
    qed
  qed (use result left_alone in simp)
qed

lemma record_node_information_read_ok:
  assumes "setup_ok s" "record_node_information_read i reported now s = Inr s'"
  shows "setup_ok s'"
  using assms(2)
proof (cases rule: record_node_information_readE)
  case (was_reset r key)
  with lock_setup_runD [of i s r] show ?thesis
    by (auto intro!: complete_factory_reset_ok [OF assms(1)] simp: FINAL_STATES_def)
next
  case (was_read r r')
  then show ?thesis
    by (intro setup_ok_move [OF assms(1), of r r' SETUP_AWAITING_RESET_CONFIRMATION s' now "Some []"])
      (auto simp: FINAL_STATES_def dest: lock_setup_runD)
qed (use assms(1) in simp)

lemma record_factory_reset_succeeded_ok:
  assumes "setup_ok s" "record_factory_reset_succeeded i key now s = Inr s'"
  shows "setup_ok s'"
  using assms complete_factory_reset_ok
  by (auto simp: record_factory_reset_succeeded_def node_bind_eq_Inr require_setup_run_state_def FINAL_STATES_def
      split: if_splits dest!: lock_setup_runD)

text \<open>A note on the run that leaves its state alone.\<close>

lemma setup_ok_note:
  assumes "setup_ok s" "r \<in> set (rows (setup_runs s))"
    and "run_id r' = run_id r" "run_state r' = run_state r" "run_is_active r' = run_is_active r"
    and "setup_runs s' = put_run r' (setup_runs s)" "node_commands s' = node_commands s"
  shows "setup_ok s'"
proof (rule setup_okI)
  have row: "setup_run_row_ok r" and step: "in_step (run_state r) (latest_of (run_id r) (node_commands s))"
    using assms(1,2) by (auto simp: setup_ok_def runs_ok_def agree_def all_rows_def)
  show "runs_ok (setup_runs s')"
    unfolding assms(6) using assms(1) row
    by (intro runs_ok_put [OF _ assms(2,3)]) (simp_all add: setup_ok_def setup_run_row_ok_def assms(4,5))
  show "agree (setup_runs s') (node_commands s')"
    unfolding assms(6,7) using assms(1,3,4) step by (intro agree_put) (simp_all add: setup_ok_def)
qed (use assms in \<open>auto simp: setup_ok_def linked_put\<close>)

lemma record_identity_restore_started_ok:
  assumes "setup_ok s" "record_identity_restore_started i key s = Inr s'"
  shows "setup_ok s'"
proof -
  from assms(2) obtain r where "lock_setup_run i s = Inr r" "s' = save_setup_run (r\<lparr>restored_public_key := key\<rparr>) s"
    by (auto simp: record_identity_restore_started_def node_bind_eq_Inr)
  with lock_setup_runD [of i s r] show ?thesis
    by (intro setup_ok_note [OF assms(1), of r "r\<lparr>restored_public_key := key\<rparr>"]) auto
qed

section \<open>A command that ends\<close>

definition put_command :: "node_command \<Rightarrow> node_command table \<Rightarrow> node_command table" where
  "put_command c t = update_where (\<lambda>x. command_id x = command_id c) (\<lambda>_. c) t"

lemma save_command_puts [simp]:
  "node_commands (save_node_command c s) = put_command c (node_commands s)"
  "setup_runs (save_node_command c s) = setup_runs s"
  "node_settings (save_node_command c s) = node_settings s"
  by (simp_all add: save_node_command_def put_command_def)

lemma put_command_keys: "map command_id (rows (put_command c t)) = map command_id (rows t)"
  by (simp add: put_command_def)

lemma keys_ok_put_command: "keys_ok command_id (put_command c t) \<longleftrightarrow> keys_ok command_id t"
proof -
  have iff: "keys_ok command_id u \<longleftrightarrow>
      sorted_wrt (<) (map command_id (rows u)) \<and> (\<forall>i \<in> set (map command_id (rows u)). i < next_id u)" for u
    by (simp add: keys_ok_def)
  have "next_id (put_command c t) = next_id t" by (simp add: put_command_def)
  then show ?thesis unfolding iff put_command_keys by simp
qed

lemma put_command_others: "x \<in> set (rows t) \<Longrightarrow> command_id x \<noteq> command_id c \<Longrightarrow> x \<in> set (rows (put_command c t))"
  by (auto simp: put_command_def image_iff)

text \<open>Writing a command keeps everything but, when the command ends without success, the agreement with its run.\<close>

definition same_command :: "node_command \<Rightarrow> node_command \<Rightarrow> bool" where
  "same_command c c' \<longleftrightarrow> command_id c' = command_id c \<and> command_kind c' = command_kind c \<and>
     command_setup_run_id c' = command_setup_run_id c"

lemma put_command_of_row:
  assumes "keys_ok command_id t" "c \<in> set (rows t)" "same_command c c'"
  shows "put_command c' t = update_where (\<lambda>x. x = c) (\<lambda>_. c') t"
  unfolding put_command_def
  by (rule update_where_cong) (use assms node_command_table.key_unique [OF assms(1) _ assms(2)] in \<open>auto simp: same_command_def\<close>)

lemma commands_ok_put:
  assumes "commands_ok t" "c \<in> set (rows t)" "same_command c c'" "node_command_row_ok c'"
    and "command_state c' = COMMAND_RUNNING \<Longrightarrow> command_state c = COMMAND_RUNNING"
  shows "commands_ok (put_command c' t)"
proof -
  have "update_where (\<lambda>x. x = c) (\<lambda>_. c') t = update_where (\<lambda>x. x = c) (\<lambda>x. c'\<lparr>command_id := command_id x\<rparr>) t"
    by (rule update_where_cong) (use assms(3) in \<open>auto simp: same_command_def\<close>)
  then have eq: "put_command c' t = update_where (\<lambda>x. x = c) (\<lambda>x. c'\<lparr>command_id := command_id x\<rparr>) t"
    using assms(1-3) by (simp add: put_command_of_row commands_ok_def)
  show ?thesis
    unfolding eq by (rule commands_ok_update [OF assms(1)]) (use assms(4,5) in \<open>auto simp: node_command_row_ok_def\<close>)
qed

lemma linked_put_command:
  "linked rs t \<Longrightarrow> keys_ok command_id t \<Longrightarrow> c \<in> set (rows t) \<Longrightarrow> same_command c c' \<Longrightarrow> linked rs (put_command c' t)"
  by (auto simp: put_command_of_row linked_def all_rows_def same_command_def)

lemma latest_put_command:
  "keys_ok command_id t \<Longrightarrow> c \<in> set (rows t) \<Longrightarrow> same_command c c' \<Longrightarrow>
     latest_of i (put_command c' t) = map_option (\<lambda>x. if x = c then c' else x) (latest_of i t)"
  by (simp only: put_command_of_row) (rule latest_update, simp add: same_command_def)

lemma agree_put_going:
  assumes "agree rs t" "keys_ok command_id t" "c \<in> set (rows t)" "same_command c c'" "going c \<Longrightarrow> going c'"
  shows "agree rs (put_command c' t)"
proof -
  have "in_step st (latest_of i (put_command c' t))" if "in_step st (latest_of i t)" for st i
    using that assms(2-5)
    by (cases "latest_of i t") (auto simp: latest_put_command same_command_def intro: in_step_mono [of st c c'])
  with assms(1) show ?thesis by (simp add: agree_def all_rows_def)
qed
text \<open>The run of a command that ended without success is brought back in step with its commands.\<close>

definition move_back :: "node_command \<Rightarrow> datetime \<Rightarrow> system \<Rightarrow> node_error + system" where
  "move_back c now s = (if command_setup_run_id c \<noteq> None then fall_back_after_unsuccessful_command c now s else Inr s)"

lemma agree_unless_latest:
  assumes "agree rs t" "keys_ok command_id t" "c \<in> set (rows t)" "same_command c c'"
    and "\<And>i. command_setup_run_id c = Some i \<Longrightarrow> latest_of i t \<noteq> Some c"
  shows "agree rs (put_command c' t)"
proof -
  have "latest_of i (put_command c' t) = latest_of i t" for i
    using assms(2-5) latest_in [of i t]
    by (cases "latest_of i t") (auto simp: latest_put_command)
  with assms(1) show ?thesis by (simp add: agree_def)
qed

lemma agree_except_run:
  assumes "agree rs t" "keys_ok command_id t" "c \<in> set (rows t)" "same_command c c'" "r \<in> set (rows rs)"
    and "command_setup_run_id c = Some (run_id r)" "run_id r' = run_id r"
    and "in_step (run_state r') (latest_of (run_id r) (put_command c' t))"
  shows "agree (put_run r' rs) (put_command c' t)"
proof -
  have "latest_of i (put_command c' t) = latest_of i t" if "i \<noteq> run_id r" for i
    using assms(2-6) latest_in [of i t] that
    by (cases "latest_of i t") (auto simp: latest_put_command)
  with assms(1,7,8) show ?thesis by (auto simp: agree_def all_rows_def put_run_def)
qed

lemma setup_ok_put_latest:
  assumes s: "setup_ok s" and c: "c \<in> set (rows (node_commands s))"
    and c': "same_command c c'" "node_command_row_ok c'" "command_state c' \<noteq> COMMAND_RUNNING"
    and r: "r \<in> set (rows (setup_runs s))" "latest_of (run_id r) (node_commands s) = Some c"
    and r': "run_id r' = run_id r" "setup_run_row_ok r'" "run_is_active r' \<Longrightarrow> run_is_active r" "in_step (run_state r') (Some c')"
    and u: "setup_runs u = put_run r' (setup_runs s)" "node_commands u = put_command c' (node_commands s)"
  shows "setup_ok u"
proof (rule setup_okI)
  note parts = s [unfolded setup_ok_def]
  have keys: "keys_ok command_id (node_commands s)" using parts by (simp add: commands_ok_def)
  have latest: "latest_of (run_id r) (put_command c' (node_commands s)) = Some c'"
    by (simp add: latest_put_command [OF keys c c'(1)] r(2))
  show "runs_ok (setup_runs u)"
    unfolding u using parts by (intro runs_ok_put [OF _ r(1) r'(1-3)]) simp_all
  show "commands_ok (node_commands u)"
    unfolding u using parts c c' by (intro commands_ok_put) auto
  show "linked (setup_runs u) (node_commands u)"
    unfolding u using parts by (intro linked_put linked_put_command [OF _ keys c c'(1)]) simp
  show "agree (setup_runs u) (node_commands u)"
    unfolding u using parts latest_in [OF r(2)] r' latest
    by (intro agree_except_run [OF _ keys c c'(1) r(1)]) simp_all
qed

lemma fall_back_latest_ok:
  assumes s: "setup_ok s" and c: "c \<in> set (rows (node_commands s))"
    and c': "same_command c c'" "node_command_row_ok c'" "command_state c' \<noteq> COMMAND_RUNNING"
    and r: "r \<in> set (rows (setup_runs s))" "latest_of (run_id r) (node_commands s) = Some c"
    and outcome: "s2 =
      (let last_error = describe_unsuccessful_setup_command c'; s1 = save_node_command c' s
       in if command_kind c = KIND_READ_NODE_INFORMATION \<and> run_state r = SETUP_READING_NODE
          then notify_relay_worker CHANNEL_SETUP_CHANGED (notified_row (run_id r)) (save_setup_run (r\<lparr>run_last_error := last_error\<rparr>) s1)
          else if command_kind c = KIND_FACTORY_RESET \<and> run_state r = SETUP_RESETTING
          then fall_back_after_unsuccessful_factory_reset r c' last_error now s1
          else if command_kind c = KIND_CONFIGURE_NODE \<and> run_state r = SETUP_CONFIGURING
          then move_setup_run r SETUP_AWAITING_CONFIGURATION now (Some last_error) s1
          else s1)"
  shows "setup_ok s2"
proof -
  let ?s = "save_node_command c' s"
  let ?e = "describe_unsuccessful_setup_command c'"
  note put_latest = setup_ok_put_latest [OF s c c' r]
  have row: "setup_run_row_ok r" and step: "in_step (run_state r) (Some c)"
    using s r by (auto simp: setup_ok_def runs_ok_def agree_def all_rows_def dest: bspec)
  note active = active_unless_final [OF row]
  have moved: "setup_ok (move_setup_run r st now e ?s)"
    if "run_state r \<notin> set FINAL_STATES" "in_step st (Some c')" for st e
    using that active by (intro put_latest [of "moved_run r st now e"]) auto
  have note_kept: "setup_ok u" if "setup_runs u = put_run r1 (setup_runs s)" "node_commands u = put_command c' (node_commands s)"
      "run_id r1 = run_id r" "run_state r1 = run_state r" "run_is_active r1 = run_is_active r" "in_step (run_state r) (Some c')" for u r1
    using that row by (intro put_latest [of r1]) (auto simp: setup_run_row_ok_def)
  have unmoved: "setup_ok ?s" if "in_step (run_state r) (Some c')"
    using that r(1) s by (intro note_kept [of ?s r]) (auto simp: put_run_self setup_ok_def runs_ok_def)
  have read_again: "setup_ok (snd (create_node_command KIND_READ_NODE_INFORMATION [] now (Some (run_id r))
      (move_setup_run r SETUP_READING_NODE now e ?s)))" if "run_state r \<notin> set FINAL_STATES" for e
  proof -
    let ?r = "moved_run r SETUP_AWAITING_RESET_CONFIRMATION now e"
    let ?u = "move_setup_run r SETUP_AWAITING_RESET_CONFIRMATION now e ?s"
    have "setup_ok ?u" using moved that by simp
    moreover have "?r \<in> set (rows (setup_runs ?u))" using r by (auto simp: put_run_def)
    ultimately show ?thesis
      by (rule setup_ok_move_create [where r' = "moved_run r SETUP_READING_NODE now e" and arguments = "[]" and now = now])
        (auto simp: FINAL_STATES_def)
  qed
  have kind: "command_kind c' = command_kind c" using c'(1) by (simp add: same_command_def)
  show ?thesis
  proof (cases "run_state r")
    case SETUP_RESETTING
    with step have "command_kind c = KIND_FACTORY_RESET" by simp
    with SETUP_RESETTING moved read_again show ?thesis
      unfolding outcome by (simp add: fall_back_after_unsuccessful_factory_reset_def Let_def FINAL_STATES_def)
  next
    case SETUP_READING_NODE
    with step have "command_kind c = KIND_READ_NODE_INFORMATION" by simp
    with SETUP_READING_NODE kind show ?thesis
      unfolding outcome by (intro note_kept [of _ "r\<lparr>run_last_error := ?e\<rparr>"]) (auto simp: Let_def)
  next
    case SETUP_CONFIGURING
    with step have "command_kind c = KIND_CONFIGURE_NODE" by simp
    with SETUP_CONFIGURING moved show ?thesis
      unfolding outcome by (simp add: Let_def FINAL_STATES_def)
  qed (use unmoved in \<open>simp_all add: outcome\<close>)
qed

lemma move_back_ok:
  assumes s: "setup_ok s" and c: "c \<in> set (rows (node_commands s))"
    and c': "same_command c c'" "node_command_row_ok c'" "command_state c' \<noteq> COMMAND_RUNNING"
  shows "\<exists>s2. move_back c' now (save_node_command c' s) = Inr s2 \<and> setup_ok s2"
proof -
  let ?t = "put_command c' (node_commands s)"
  let ?s = "save_node_command c' s"
  note parts = s [unfolded setup_ok_def]
  have keys: "keys_ok command_id (node_commands s)" using parts by (simp add: commands_ok_def)
  have kept: "setup_ok ?s" if "\<And>i. command_setup_run_id c = Some i \<Longrightarrow> latest_of i (node_commands s) \<noteq> Some c"
    using parts c' agree_unless_latest [OF _ keys c c'(1) that] linked_put_command [OF _ keys c c'(1)]
      commands_ok_put [OF _ c c'(1,2)]
    by (simp add: setup_ok_def)
  show ?thesis
  proof (cases "command_setup_run_id c'")
    case None
    with kept c'(1) show ?thesis by (simp add: move_back_def same_command_def)
  next
    case (Some i)
    then have run: "command_setup_run_id c = Some i" using c'(1) by (simp add: same_command_def)
    then have "i \<in> run_id ` set (rows (setup_runs s))"
      using parts c by (auto simp: linked_def all_rows_def split: option.splits)
    then obtain r where lock: "lock_setup_run i ?s = Inr r" using lock_linked_run [of i ?s] by auto
    then have r: "r \<in> set (rows (setup_runs s))" "run_id r = i" using lock_setup_runD [OF lock] by auto
    have newer: "exists_where (\<lambda>x. command_setup_run_id x = Some i \<and> command_id x > command_id c') ?t \<longleftrightarrow>
        (\<exists>x \<in> set (rows (node_commands s)). command_setup_run_id x = Some i \<and> command_id x > command_id c)"
      using c'(1) by (auto simp: exists_where_def list_ex_iff put_command_def same_command_def)
    show ?thesis
    proof (cases "exists_where (\<lambda>x. command_setup_run_id x = Some i \<and> command_id x > command_id c') ?t")
      case True
      then have "latest_of i (node_commands s) \<noteq> Some c"
        using latest_greatest [OF keys] newer by fastforce
      with kept run True lock r(2) Some show ?thesis
        by (auto simp: move_back_def fall_back_after_unsuccessful_command_def)
    next
      case newest: False
      have "latest_of (run_id r) (node_commands s) = Some c"
        using newest newer r(2) run by (intro latest_iff [OF keys c]) (auto simp: not_less)
      from fall_back_latest_ok [OF s c c' r(1) this refl, of now] show ?thesis
        using Some lock newest r(2) c'(1)
        by (auto simp: move_back_def fall_back_after_unsuccessful_command_def same_command_def Let_def split: if_splits)
    qed
  qed
qed
section \<open>The worker's side of the queue\<close>

text \<open>Moving a run back touches no command that is there; it may create one.\<close>

lemma move_back_commands:
  assumes "move_back c now s = Inr s2" "x \<in> set (rows (node_commands s))"
  shows "x \<in> set (rows (node_commands s2))"
  using assms
  by (auto simp: move_back_def fall_back_after_unsuccessful_command_def fall_back_after_unsuccessful_factory_reset_def
      node_bind_eq_Inr Let_def split: option.splits if_splits)

lemma end_commands_move_back:
  "end_commands new_state message (c # cs) now s =
     (let c1 = c\<lparr>command_state := new_state, command_finished_at := Some now, command_error_message := message\<rparr>
      in node_bind (move_back c1 now (save_node_command c1 s)) (\<lambda>s2.
         node_bind (end_commands new_state message cs now s2) (\<lambda>(ended, s3). Inr (c1 # ended, s3))))"
  by (simp add: move_back_def Let_def)

lemma end_commands_ok:
  assumes "setup_ok s" "distinct (map command_id cs)" "set cs \<subseteq> set (rows (node_commands s))" "new_state \<noteq> COMMAND_RUNNING"
  shows "\<exists>ended s'. end_commands new_state message cs now s = Inr (ended, s') \<and> setup_ok s'"
  using assms
proof (induction cs arbitrary: s)
  case (Cons c cs)
  let ?c = "c\<lparr>command_state := new_state, command_finished_at := Some now, command_error_message := message\<rparr>"
  have c: "c \<in> set (rows (node_commands s))" using Cons.prems by simp
  have "node_command_row_ok c" using Cons.prems c by (simp add: setup_ok_def commands_ok_def all_rows_def)
  then obtain s2 where s2: "move_back ?c now (save_node_command ?c s) = Inr s2" "setup_ok s2"
    using move_back_ok [OF Cons.prems(1) c, of ?c now] Cons.prems(4) by (auto simp: same_command_def node_command_row_ok_def)
  have "x \<in> set (rows (node_commands s2))" if "x \<in> set cs" for x
    using Cons.prems(2,3) that
    by (intro move_back_commands [OF s2(1)]) (auto intro!: put_command_others simp: image_iff)
  then obtain ended s' where "end_commands new_state message cs now s2 = Inr (ended, s')" "setup_ok s'"
    using Cons.IH [OF s2(2)] Cons.prems(2,4) by auto
  with s2(1) show ?case unfolding end_commands_move_back Let_def by simp
qed simp

lemma selected_commands:
  "commands_ok t \<Longrightarrow> distinct (map command_id (select_where P t)) \<and> set (select_where P t) \<subseteq> set (rows t)"
  unfolding commands_ok_def keys_ok_def sorted_wrt_map select_where_def
  by (auto simp: distinct_map strict_sorted_iff inj_on_def sorted_wrt_map [symmetric] dest!: sorted_wrt_filter)

lemma expire_pending_ok:
  "setup_ok s \<Longrightarrow> \<exists>expired s'. expire_pending_node_commands locked now s = Inr (expired, s') \<and> setup_ok s'"
  unfolding expire_pending_node_commands_def
  by (rule end_commands_ok) (use selected_commands in \<open>auto simp: setup_ok_def\<close>)

lemma interrupt_running_ok:
  "setup_ok s \<Longrightarrow> \<exists>interrupted s'. interrupt_running_node_commands now s = Inr (interrupted, s') \<and> setup_ok s'"
  unfolding interrupt_running_node_commands_def
  by (rule end_commands_ok) (use selected_commands in \<open>auto simp: setup_ok_def\<close>)
text \<open>A change of one command that leaves it as far as it was.\<close>

lemma setup_ok_put_going:
  assumes "setup_ok s" "c \<in> set (rows (node_commands s))" "same_command c c'" "node_command_row_ok c'"
    and "going c \<Longrightarrow> going c'" "command_state c' = COMMAND_RUNNING \<Longrightarrow> command_state c = COMMAND_RUNNING"
    and "setup_runs s' = setup_runs s" "node_commands s' = put_command c' (node_commands s)"
  shows "setup_ok s'"
  using assms by (auto simp: setup_ok_def commands_ok_def [of "node_commands s"] intro!: linked_put_command agree_put_going
      intro: commands_ok_put)

text \<open>A command is claimed only while no other runs.\<close>

lemma commands_ok_claim:
  assumes "commands_ok t" "c \<in> set (rows t)" "same_command c c'" "node_command_row_ok c'"
    and "\<not> exists_where (\<lambda>x. command_state x = COMMAND_RUNNING) t"
  shows "commands_ok (put_command c' t)"
proof -
  have keys: "keys_ok command_id t" using assms(1) by (simp add: commands_ok_def)
  have new: "length (filter (\<lambda>x. command_state x = COMMAND_RUNNING) (map (\<lambda>x. if command_id x = k then c' else x) xs)) \<le>
      length (filter (\<lambda>x. command_id x = k) xs)"
    if "\<forall>x \<in> set xs. command_state x \<noteq> COMMAND_RUNNING" for xs k
    using that by (induction xs) auto
  have single: "length (filter (\<lambda>x. command_id x = k) xs) \<le> 1" if "sorted_wrt (<) (map command_id xs)" for xs k
    using that
  proof (induction xs)
    case (Cons x xs)
    then have "filter (\<lambda>y. command_id y = command_id x) xs = []" by (auto simp: filter_empty_conv)
    with Cons show ?case by auto
  qed simp
  have "count_where (\<lambda>x. command_state x = COMMAND_RUNNING) (put_command c' t) \<le> 1"
    using new [of "rows t" "command_id c'"] single [of "rows t" "command_id c'"] keys assms(5)
    by (simp add: count_where_def put_command_def exists_where_def list_ex_iff keys_ok_def)
  moreover have "all_rows node_command_row_ok (put_command c' t)"
    using assms(1,4) by (auto simp: commands_ok_def all_rows_def put_command_def)
  ultimately show ?thesis
    using keys by (simp add: commands_ok_def keys_ok_put_command)
qed

lemma claim_next_ok:
  assumes "setup_ok s"
  shows "\<exists>claimed s'. claim_next_node_command locked worker now s = Inr (claimed, s') \<and> setup_ok s'"
proof -
  obtain expired s1 where s1: "expire_pending_node_commands locked now s = Inr (expired, s1)" "setup_ok s1"
    using expire_pending_ok [OF assms] by blast
  have "setup_ok (save_node_command (c\<lparr>command_state := COMMAND_RUNNING, claimed_at := Some now,
      claimed_by_worker_instance := Some worker\<rparr>) s1)"
    if "c \<in> set (rows (node_commands s1))" "command_state c = COMMAND_PENDING"
      "\<not> exists_where (\<lambda>x. command_state x = COMMAND_RUNNING) (node_commands s1)" for c
    using s1(2) that commands_ok_claim [OF _ that(1) _ _ that(3)]
    by (auto simp: setup_ok_def going_def same_command_def node_command_row_ok_def commands_ok_def [of "node_commands s1"]
        TERMINAL_STATES_def all_rows_def [of node_command_row_ok] intro!: linked_put_command [OF _ _ that(1)] agree_put_going [OF _ _ that(1)])
  then show ?thesis
    using s1 by (auto simp: claim_next_node_command_def Let_def split: option.splits dest!: first_where_SomeD)
qed

lemma record_progress_ok:
  assumes "setup_ok s" "record_node_command_progress i p s = Inr s'"
  shows "setup_ok s'"
proof -
  from assms(2) obtain c where c: "c \<in> set (rows (node_commands s))"
    and s': "s' = save_node_command (c\<lparr>command_progress := replace_or_append_progress_step (command_progress c) p\<rparr>) s"
    by (auto simp: record_node_command_progress_def split: option.splits dest: first_where_SomeD)
  have "node_command_row_ok c" using assms(1) c by (simp add: setup_ok_def commands_ok_def all_rows_def)
  with c show ?thesis
    unfolding s' by (intro setup_ok_put_going [OF assms(1) c]) (auto simp: same_command_def node_command_row_ok_def going_def)
qed
lemma finish_node_commandE:
  assumes "finish_node_command i new_state now result message s = Inr (b, s')" "keys_ok command_id (node_commands s)"
  obtains (not_running) "\<not> b" "s' = s"
  | (finished) c c' where "b" "c \<in> set (rows (node_commands s))" "command_state c = COMMAND_RUNNING" "same_command c c'"
      "c' = c\<lparr>command_state := new_state, command_finished_at := Some now, command_result := result, command_error_message := message\<rparr>"
      "(if new_state \<in> set UNSUCCESSFUL_STATES then move_back c' now (save_node_command c' s)
        else Inr (save_node_command c' s)) = Inr s'"
proof -
  let ?running = "\<lambda>c. command_id c = i \<and> command_state c = COMMAND_RUNNING"
  let ?f = "\<lambda>c. c\<lparr>command_state := new_state, command_finished_at := Some now, command_result := result, command_error_message := message\<rparr>"
  show thesis
  proof (cases "count_where ?running (node_commands s) = 0")
    case True
    with assms(1) show thesis by (intro not_running) (auto simp: finish_node_command_def Let_def split: if_splits)
  next
    case False
    then obtain c where c: "c \<in> set (rows (node_commands s))" "command_id c = i" "command_state c = COMMAND_RUNNING"
      by (auto simp: count_where_def filter_empty_conv)
    let ?c = "?f c"
    have same: "same_command c ?c" by (simp add: same_command_def)
    have "update_where ?running ?f (node_commands s) = update_where (\<lambda>x. x = c) (\<lambda>_. ?c) (node_commands s)"
    proof (rule update_where_cong)
      fix x assume "x \<in> set (rows (node_commands s))"
      then show "?running x \<longleftrightarrow> x = c"
        using c node_command_table.key_unique [OF assms(2), of x c] by (cases "x = c") auto
    qed simp
    then have saved: "s\<lparr>node_commands := update_where ?running ?f (node_commands s)\<rparr> = save_node_command ?c s"
      using put_command_of_row [OF assms(2) c(1) same] by (simp add: save_node_command_def put_command_def)
    have "?c \<in> set (rows (node_commands (save_node_command ?c s)))"
      using c by (auto simp: put_command_def image_iff)
    then have "first_where (\<lambda>x. command_id x = i) (node_commands (save_node_command ?c s)) = Some ?c"
      using node_command_table.first_by_key [of "node_commands (save_node_command ?c s)" ?c] assms(2) c(2)
      by (simp add: keys_ok_put_command)
    moreover have "new_state \<in> set TERMINAL_STATES"
      using assms(1) by (simp add: finish_node_command_def split: if_splits)
    ultimately have "finish_node_command i new_state now result message s =
        (if new_state \<in> set UNSUCCESSFUL_STATES then node_bind (move_back ?c now (save_node_command ?c s)) (\<lambda>s2. Inr (True, s2))
         else Inr (True, save_node_command ?c s))"
      unfolding finish_node_command_def Let_def saved move_back_def using False by simp
    with assms(1) have "b" "(if new_state \<in> set UNSUCCESSFUL_STATES then move_back ?c now (save_node_command ?c s)
        else Inr (save_node_command ?c s)) = Inr s'"
      by (auto simp: node_bind_eq_Inr split: if_splits)
    with c same show thesis by (intro finished [of c ?c]) simp_all
  qed
qed

lemma finish_node_command_ok:
  assumes "setup_ok s" "finish_node_command i new_state now result message s = Inr (b, s')"
    and "new_state \<in> set TERMINAL_STATES" "new_state \<noteq> COMMAND_CANCELLED"
  shows "setup_ok s'"
proof -
  have "keys_ok command_id (node_commands s)" using assms(1) by (simp add: setup_ok_def commands_ok_def)
  with assms(2) show ?thesis
  proof (cases rule: finish_node_commandE)
    case (finished c c')
    have row: "node_command_row_ok c'"
      using assms(1) finished(2,5) by (auto simp: setup_ok_def commands_ok_def all_rows_def node_command_row_ok_def)
    show ?thesis
    proof (cases "new_state \<in> set UNSUCCESSFUL_STATES")
      case True
      with move_back_ok [OF assms(1) finished(2,4) row, of now] finished(5,6) show ?thesis
        by (auto simp: UNSUCCESSFUL_STATES_def)
    next
      case False
      with assms(3,4) finished show ?thesis
        by (intro setup_ok_put_going [OF assms(1) finished(2,4) row])
          (auto simp: UNSUCCESSFUL_STATES_def TERMINAL_STATES_def going_def)
    qed
  qed (use assms(1) in simp)
qed

end
