(* ===== verification/Node_Settings.thy ===== *)
theory Node_Settings
  imports Setup_Steps
begin

text \<open>
  Typed access to the settings of the configured node (\<^verbatim>\<open>node/node_settings.py\<close>). The table holds none or all
  of the required keys; writing a configuration and reading it back gives the same configuration.
\<close>

section \<open>The keys\<close>

datatype node_setting_key =
    NODE_PUBLIC_KEY
  | NODE_NAME
  | NODE_FIRMWARE_VERSION
  | NODE_FIRMWARE_BUILD
  | NODE_MODEL
  | NODE_PROTOCOL_VERSION
  | NODE_MAXIMUM_CONTACTS
  | NODE_CONTACT_CARD_URI
  | RADIO_PRESET_TITLE
  | RADIO_FREQUENCY_KILOHERTZ
  | RADIO_BANDWIDTH_HERTZ
  | RADIO_SPREADING_FACTOR
  | RADIO_CODING_RATE
  | RADIO_TRANSMIT_POWER_DBM
  | RADIO_CLIENT_REPEAT
  | ROUTING_PATH_HASH_SIZE
  | MESSAGING_MULTI_ACKS
  | CONTACTS_MANUAL_ADD
  | CONTACTS_AUTO_ADD_CONFIGURATION
  | CONTACTS_AUTO_ADD_MAXIMUM_HOPS
  | PRIVACY_ADVERT_LOCATION_POLICY
  | PRIVACY_TELEMETRY_MODES
  | CHANNELS_PUBLIC_CHANNEL_REPLACED
  | SETUP_COMPLETED_AT
  | SETUP_RUN_ID

fun setting_key_value :: "node_setting_key \<Rightarrow> pystr" where
  "setting_key_value NODE_PUBLIC_KEY = str ''node.public_key''"
| "setting_key_value NODE_NAME = str ''node.name''"
| "setting_key_value NODE_FIRMWARE_VERSION = str ''node.firmware_version''"
| "setting_key_value NODE_FIRMWARE_BUILD = str ''node.firmware_build''"
| "setting_key_value NODE_MODEL = str ''node.model''"
| "setting_key_value NODE_PROTOCOL_VERSION = str ''node.protocol_version''"
| "setting_key_value NODE_MAXIMUM_CONTACTS = str ''node.maximum_contacts''"
| "setting_key_value NODE_CONTACT_CARD_URI = str ''node.contact_card_uri''"
| "setting_key_value RADIO_PRESET_TITLE = str ''radio.preset_title''"
| "setting_key_value RADIO_FREQUENCY_KILOHERTZ = str ''radio.frequency_kilohertz''"
| "setting_key_value RADIO_BANDWIDTH_HERTZ = str ''radio.bandwidth_hertz''"
| "setting_key_value RADIO_SPREADING_FACTOR = str ''radio.spreading_factor''"
| "setting_key_value RADIO_CODING_RATE = str ''radio.coding_rate''"
| "setting_key_value RADIO_TRANSMIT_POWER_DBM = str ''radio.transmit_power_dbm''"
| "setting_key_value RADIO_CLIENT_REPEAT = str ''radio.client_repeat''"
| "setting_key_value ROUTING_PATH_HASH_SIZE = str ''routing.path_hash_size''"
| "setting_key_value MESSAGING_MULTI_ACKS = str ''messaging.multi_acks''"
| "setting_key_value CONTACTS_MANUAL_ADD = str ''contacts.manual_add''"
| "setting_key_value CONTACTS_AUTO_ADD_CONFIGURATION = str ''contacts.auto_add_configuration''"
| "setting_key_value CONTACTS_AUTO_ADD_MAXIMUM_HOPS = str ''contacts.auto_add_maximum_hops''"
| "setting_key_value PRIVACY_ADVERT_LOCATION_POLICY = str ''privacy.advert_location_policy''"
| "setting_key_value PRIVACY_TELEMETRY_MODES = str ''privacy.telemetry_modes''"
| "setting_key_value CHANNELS_PUBLIC_CHANNEL_REPLACED = str ''channels.public_channel_replaced''"
| "setting_key_value SETUP_COMPLETED_AT = str ''setup.completed_at''"
| "setting_key_value SETUP_RUN_ID = str ''setup.run_id''"

definition NODE_SETTING_KEYS :: "node_setting_key list" where
  "NODE_SETTING_KEYS = [
     NODE_PUBLIC_KEY,
     NODE_NAME,
     NODE_FIRMWARE_VERSION,
     NODE_FIRMWARE_BUILD,
     NODE_MODEL,
     NODE_PROTOCOL_VERSION,
     NODE_MAXIMUM_CONTACTS,
     NODE_CONTACT_CARD_URI,
     RADIO_PRESET_TITLE,
     RADIO_FREQUENCY_KILOHERTZ,
     RADIO_BANDWIDTH_HERTZ,
     RADIO_SPREADING_FACTOR,
     RADIO_CODING_RATE,
     RADIO_TRANSMIT_POWER_DBM,
     RADIO_CLIENT_REPEAT,
     ROUTING_PATH_HASH_SIZE,
     MESSAGING_MULTI_ACKS,
     CONTACTS_MANUAL_ADD,
     CONTACTS_AUTO_ADD_CONFIGURATION,
     CONTACTS_AUTO_ADD_MAXIMUM_HOPS,
     PRIVACY_ADVERT_LOCATION_POLICY,
     PRIVACY_TELEMETRY_MODES,
     CHANNELS_PUBLIC_CHANNEL_REPLACED,
     SETUP_COMPLETED_AT,
     SETUP_RUN_ID]"

definition REQUIRED_NODE_SETTING_KEY_VALUES :: "pystr list" where
  "REQUIRED_NODE_SETTING_KEY_VALUES = map setting_key_value NODE_SETTING_KEYS"

definition OPTIONAL_NODE_SETTING_KEY_VALUES :: "pystr list" where
  "OPTIONAL_NODE_SETTING_KEY_VALUES = [NODE_IDENTITY_BACKUP_KEY]"

definition KEYS_UPDATABLE_AFTER_SETUP :: "node_setting_key list" where
  "KEYS_UPDATABLE_AFTER_SETUP =
     [NODE_FIRMWARE_VERSION, NODE_FIRMWARE_BUILD, NODE_MODEL, NODE_PROTOCOL_VERSION, NODE_CONTACT_CARD_URI]"

section \<open>Values and their texts\<close>

text \<open>
  What Python's conversions need to know: the decimal digit a code point stands for in Unicode, and the ISO
  text of a time with its reader.
\<close>

record text_conversions =
  decimal_digit :: "codepoint \<Rightarrow> nat option"
  isoformat :: "datetime \<Rightarrow> pystr"
  fromisoformat :: "pystr \<Rightarrow> datetime option"

text \<open>
  \<^verbatim>\<open>int(text)\<close>: spaces around it, a sign, decimal digits with single underscores between them, at most 4300 of
  them.
\<close>

fun read_decimal_digits :: "(codepoint \<Rightarrow> nat option) \<Rightarrow> pystr \<Rightarrow> nat list option" where
  "read_decimal_digits digit_of [] = None"
| "read_decimal_digits digit_of [c] = map_option (\<lambda>d. [d]) (digit_of c)"
| "read_decimal_digits digit_of (c # d # cs) =
     (case (digit_of c, read_decimal_digits digit_of (if d = 95 then cs else d # cs)) of
        (Some n, Some ns) \<Rightarrow> Some (n # ns) | _ \<Rightarrow> None)"

definition MAXIMUM_INTEGER_DIGITS :: nat where
  "MAXIMUM_INTEGER_DIGITS = 4300"

definition python_int :: "text_conversions \<Rightarrow> pystr \<Rightarrow> int option" where
  "python_int CV written =
     (let stripped = strip written;
          is_negative = (stripped \<noteq> [] \<and> hd stripped = 45);
          unsigned = (if stripped \<noteq> [] \<and> hd stripped \<in> {43, 45} then tl stripped else stripped)
      in case read_decimal_digits (decimal_digit CV) unsigned of
           None \<Rightarrow> None
         | Some ns \<Rightarrow> if length ns > MAXIMUM_INTEGER_DIGITS then None
                     else let n = foldl (\<lambda>m d. 10 * m + int d) 0 ns in Some (if is_negative then - n else n))"

definition BOOLEAN_TRUE_TEXT :: pystr where
  "BOOLEAN_TRUE_TEXT = str ''1''"

definition BOOLEAN_FALSE_TEXT :: pystr where
  "BOOLEAN_FALSE_TEXT = str ''0''"

definition serialize_boolean :: "bool \<Rightarrow> pystr" where
  "serialize_boolean b = (if b then BOOLEAN_TRUE_TEXT else BOOLEAN_FALSE_TEXT)"

section \<open>The configuration\<close>

record node_configuration =
  configured_node_public_key :: pystr
  configured_node_name :: pystr
  configured_node_firmware_version :: pystr
  configured_node_firmware_build :: pystr
  configured_node_model :: pystr
  configured_node_protocol_version :: int
  configured_node_maximum_contacts :: int
  configured_node_contact_card_uri :: pystr
  configured_radio_preset_title :: pystr
  configured_radio_frequency_kilohertz :: int
  configured_radio_bandwidth_hertz :: int
  configured_radio_spreading_factor :: int
  configured_radio_coding_rate :: int
  configured_radio_transmit_power_dbm :: int
  configured_radio_client_repeat :: bool
  configured_routing_path_hash_size :: int
  configured_messaging_multi_acks :: int
  configured_contacts_manual_add :: bool
  configured_contacts_auto_add_configuration :: int
  configured_contacts_auto_add_maximum_hops :: int
  configured_privacy_advert_location_policy :: int
  configured_privacy_telemetry_modes :: int
  configured_channels_public_channel_replaced :: bool
  configured_setup_completed_at :: datetime
  configured_setup_run_id :: int

definition serialize_node_configuration :: "text_conversions \<Rightarrow> node_configuration \<Rightarrow> (node_setting_key \<times> pystr) list" where
  "serialize_node_configuration CV c = [
     (NODE_PUBLIC_KEY, configured_node_public_key c),
     (NODE_NAME, configured_node_name c),
     (NODE_FIRMWARE_VERSION, configured_node_firmware_version c),
     (NODE_FIRMWARE_BUILD, configured_node_firmware_build c),
     (NODE_MODEL, configured_node_model c),
     (NODE_PROTOCOL_VERSION, str_of_int (configured_node_protocol_version c)),
     (NODE_MAXIMUM_CONTACTS, str_of_int (configured_node_maximum_contacts c)),
     (NODE_CONTACT_CARD_URI, configured_node_contact_card_uri c),
     (RADIO_PRESET_TITLE, configured_radio_preset_title c),
     (RADIO_FREQUENCY_KILOHERTZ, str_of_int (configured_radio_frequency_kilohertz c)),
     (RADIO_BANDWIDTH_HERTZ, str_of_int (configured_radio_bandwidth_hertz c)),
     (RADIO_SPREADING_FACTOR, str_of_int (configured_radio_spreading_factor c)),
     (RADIO_CODING_RATE, str_of_int (configured_radio_coding_rate c)),
     (RADIO_TRANSMIT_POWER_DBM, str_of_int (configured_radio_transmit_power_dbm c)),
     (RADIO_CLIENT_REPEAT, serialize_boolean (configured_radio_client_repeat c)),
     (ROUTING_PATH_HASH_SIZE, str_of_int (configured_routing_path_hash_size c)),
     (MESSAGING_MULTI_ACKS, str_of_int (configured_messaging_multi_acks c)),
     (CONTACTS_MANUAL_ADD, serialize_boolean (configured_contacts_manual_add c)),
     (CONTACTS_AUTO_ADD_CONFIGURATION, str_of_int (configured_contacts_auto_add_configuration c)),
     (CONTACTS_AUTO_ADD_MAXIMUM_HOPS, str_of_int (configured_contacts_auto_add_maximum_hops c)),
     (PRIVACY_ADVERT_LOCATION_POLICY, str_of_int (configured_privacy_advert_location_policy c)),
     (PRIVACY_TELEMETRY_MODES, str_of_int (configured_privacy_telemetry_modes c)),
     (CHANNELS_PUBLIC_CHANNEL_REPLACED, serialize_boolean (configured_channels_public_channel_replaced c)),
     (SETUP_COMPLETED_AT, isoformat CV (configured_setup_completed_at c)),
     (SETUP_RUN_ID, str_of_int (configured_setup_run_id c))]"

text \<open>
  \<^verbatim>\<open>StoredValueReader\<close>. A value that does not convert makes the configuration unusable; the text of the error names
  the key and the expectation, and Python's \<^verbatim>\<open>repr\<close> of the value, which is left out here.
\<close>

definition read_text :: "(pystr \<times> pystr) list \<Rightarrow> node_setting_key \<Rightarrow> node_error + pystr" where
  "read_text stored key =
     (case map_of stored (setting_key_value key) of None \<Rightarrow> Inl NodeRowDoesNotExist | Some v \<Rightarrow> Inr v)"

definition unreadable_setting :: "node_setting_key \<Rightarrow> pystr \<Rightarrow> node_error" where
  "unreadable_setting key expectation =
     IncompleteNodeConfigurationError (str ''node_setting '' @ setting_key_value key @ str '' must be '' @ expectation)"

definition read_integer :: "text_conversions \<Rightarrow> (pystr \<times> pystr) list \<Rightarrow> node_setting_key \<Rightarrow> node_error + int" where
  "read_integer CV stored key =
     node_bind (read_text stored key) (\<lambda>v.
       case python_int CV v of None \<Rightarrow> Inl (unreadable_setting key (str ''a whole number'')) | Some n \<Rightarrow> Inr n)"

definition read_boolean :: "(pystr \<times> pystr) list \<Rightarrow> node_setting_key \<Rightarrow> node_error + bool" where
  "read_boolean stored key =
     node_bind (read_text stored key) (\<lambda>v.
       if v \<noteq> BOOLEAN_TRUE_TEXT \<and> v \<noteq> BOOLEAN_FALSE_TEXT then Inl (unreadable_setting key (str ''0 or 1''))
       else Inr (v = BOOLEAN_TRUE_TEXT))"

definition read_datetime :: "text_conversions \<Rightarrow> (pystr \<times> pystr) list \<Rightarrow> node_setting_key \<Rightarrow> node_error + datetime" where
  "read_datetime CV stored key =
     node_bind (read_text stored key) (\<lambda>v.
       case fromisoformat CV v of None \<Rightarrow> Inl (unreadable_setting key (str ''an ISO timestamp'')) | Some t \<Rightarrow> Inr t)"

definition parse_node_configuration :: "text_conversions \<Rightarrow> (pystr \<times> pystr) list \<Rightarrow> node_error + node_configuration" where
  "parse_node_configuration CV stored =
     node_bind (read_text stored NODE_PUBLIC_KEY) (\<lambda>v1.
     node_bind (read_text stored NODE_NAME) (\<lambda>v2.
     node_bind (read_text stored NODE_FIRMWARE_VERSION) (\<lambda>v3.
     node_bind (read_text stored NODE_FIRMWARE_BUILD) (\<lambda>v4.
     node_bind (read_text stored NODE_MODEL) (\<lambda>v5.
     node_bind (read_integer CV stored NODE_PROTOCOL_VERSION) (\<lambda>v6.
     node_bind (read_integer CV stored NODE_MAXIMUM_CONTACTS) (\<lambda>v7.
     node_bind (read_text stored NODE_CONTACT_CARD_URI) (\<lambda>v8.
     node_bind (read_text stored RADIO_PRESET_TITLE) (\<lambda>v9.
     node_bind (read_integer CV stored RADIO_FREQUENCY_KILOHERTZ) (\<lambda>v10.
     node_bind (read_integer CV stored RADIO_BANDWIDTH_HERTZ) (\<lambda>v11.
     node_bind (read_integer CV stored RADIO_SPREADING_FACTOR) (\<lambda>v12.
     node_bind (read_integer CV stored RADIO_CODING_RATE) (\<lambda>v13.
     node_bind (read_integer CV stored RADIO_TRANSMIT_POWER_DBM) (\<lambda>v14.
     node_bind (read_boolean stored RADIO_CLIENT_REPEAT) (\<lambda>v15.
     node_bind (read_integer CV stored ROUTING_PATH_HASH_SIZE) (\<lambda>v16.
     node_bind (read_integer CV stored MESSAGING_MULTI_ACKS) (\<lambda>v17.
     node_bind (read_boolean stored CONTACTS_MANUAL_ADD) (\<lambda>v18.
     node_bind (read_integer CV stored CONTACTS_AUTO_ADD_CONFIGURATION) (\<lambda>v19.
     node_bind (read_integer CV stored CONTACTS_AUTO_ADD_MAXIMUM_HOPS) (\<lambda>v20.
     node_bind (read_integer CV stored PRIVACY_ADVERT_LOCATION_POLICY) (\<lambda>v21.
     node_bind (read_integer CV stored PRIVACY_TELEMETRY_MODES) (\<lambda>v22.
     node_bind (read_boolean stored CHANNELS_PUBLIC_CHANNEL_REPLACED) (\<lambda>v23.
     node_bind (read_datetime CV stored SETUP_COMPLETED_AT) (\<lambda>v24.
     node_bind (read_integer CV stored SETUP_RUN_ID) (\<lambda>v25.
     Inr \<lparr>configured_node_public_key = v1,
       configured_node_name = v2,
       configured_node_firmware_version = v3,
       configured_node_firmware_build = v4,
       configured_node_model = v5,
       configured_node_protocol_version = v6,
       configured_node_maximum_contacts = v7,
       configured_node_contact_card_uri = v8,
       configured_radio_preset_title = v9,
       configured_radio_frequency_kilohertz = v10,
       configured_radio_bandwidth_hertz = v11,
       configured_radio_spreading_factor = v12,
       configured_radio_coding_rate = v13,
       configured_radio_transmit_power_dbm = v14,
       configured_radio_client_repeat = v15,
       configured_routing_path_hash_size = v16,
       configured_messaging_multi_acks = v17,
       configured_contacts_manual_add = v18,
       configured_contacts_auto_add_configuration = v19,
       configured_contacts_auto_add_maximum_hops = v20,
       configured_privacy_advert_location_policy = v21,
       configured_privacy_telemetry_modes = v22,
       configured_channels_public_channel_replaced = v23,
       configured_setup_completed_at = v24,
       configured_setup_run_id = v25\<rparr>)))))))))))))))))))))))))"

section \<open>The table\<close>

fun join_with_comma :: "pystr list \<Rightarrow> pystr" where
  "join_with_comma [] = []"
| "join_with_comma [t] = t"
| "join_with_comma (t # u # ts) = t @ str '', '' @ join_with_comma (u # ts)"

definition load_node_configuration :: "text_conversions \<Rightarrow> system \<Rightarrow> node_error + node_configuration option" where
  "load_node_configuration CV s =
     (let stored = filter (\<lambda>(key, _). key \<in> set REQUIRED_NODE_SETTING_KEY_VALUES) (node_settings s);
          missing = filter (\<lambda>key. map_of stored key = None) REQUIRED_NODE_SETTING_KEY_VALUES
      in if stored = [] then Inr None
         else if missing \<noteq> []
         then Inl (IncompleteNodeConfigurationError
           (str ''node_setting is incomplete: '' @ join_with_comma missing @ str '' missing. Run the setup wizard again.''))
         else node_bind (parse_node_configuration CV stored) (\<lambda>c. Inr (Some c)))"

definition read_node_setting_value :: "pystr \<Rightarrow> system \<Rightarrow> pystr" where
  "read_node_setting_value key s = (case map_of (node_settings s) key of None \<Rightarrow> [] | Some v \<Rightarrow> v)"

definition replace_node_configuration :: "text_conversions \<Rightarrow> node_configuration \<Rightarrow> system \<Rightarrow> system" where
  "replace_node_configuration CV c s =
     s\<lparr>node_settings := filter (\<lambda>(key, _). key \<in> set OPTIONAL_NODE_SETTING_KEY_VALUES) (node_settings s) @
         map (\<lambda>(key, v). (setting_key_value key, v)) (serialize_node_configuration CV c)\<rparr>"

definition update_node_setting :: "node_setting_key \<Rightarrow> pystr \<Rightarrow> system \<Rightarrow> node_error + system" where
  "update_node_setting key v s =
     (if key \<notin> set KEYS_UPDATABLE_AFTER_SETUP
      then Inl (NodeValueError (setting_key_value key @ str '' changes only through a new setup run.''))
      else if map_of (node_settings s) (setting_key_value key) = None
      then Inl (NodeValueError (setting_key_value key @ str '' cannot be updated before the node has been set up.''))
      else Inr (s\<lparr>node_settings := map (\<lambda>(k, old). if k = setting_key_value key then (k, v) else (k, old)) (node_settings s)\<rparr>))"
section \<open>A written configuration is read back\<close>

text \<open>
  What is relied on of Python's conversions: the ASCII digits stand for themselves, and the ISO text of a time
  reads back as that time.
\<close>

definition conversions_ok :: "text_conversions \<Rightarrow> bool" where
  "conversions_ok CV \<longleftrightarrow>
     (\<forall>c. is_digit c \<longrightarrow> decimal_digit CV c = Some (c - 48)) \<and> (\<forall>t. fromisoformat CV (isoformat CV t) = Some t)"

definition integer_fits :: "int \<Rightarrow> bool" where
  "integer_fits i \<longleftrightarrow> nat \<bar>i\<bar> < 10 ^ MAXIMUM_INTEGER_DIGITS"

lemma read_ascii_digits:
  assumes "\<forall>c. is_digit c \<longrightarrow> digit_of c = Some (c - 48)" "ds \<noteq> []" "\<forall>c \<in> set ds. is_digit c"
  shows "read_decimal_digits digit_of ds = Some (map (\<lambda>c. c - 48) ds)"
  using assms(2,3)
proof (induction ds rule: induct_list012)
  case (3 c d cs)
  then have "d \<noteq> 95" "is_digit c" by (auto simp: is_digit_def in_range_def)
  moreover from this assms(1) have "digit_of c = Some (c - 48)" by blast
  ultimately show ?case using 3(2,4) by simp
qed (use assms(1) in auto)

lemma foldl_digits: "foldl (\<lambda>m d. 10 * m + int d) (int n) (map (\<lambda>c. c - 48) ds) = int (foldl (\<lambda>n c. 10 * n + (c - 48)) n ds)"
proof (induction ds arbitrary: n)
  case (Cons d ds)
  from Cons.IH [of "10 * n + (d - 48)"] show ?case by simp
qed simp

lemma strip_without_spaces:
  assumes "ds \<noteq> []" "\<not> is_python_space (hd ds)" "\<not> is_python_space (last ds)"
  shows "strip ds = ds"
proof -
  have "dropWhile is_python_space ds = ds" using assms(1,2) by (cases ds) auto
  moreover have "dropWhile is_python_space (rev ds) = rev ds" using assms(1,3) by (cases ds rule: rev_cases) auto
  ultimately show ?thesis by (simp add: strip_def)
qed

lemma digit_no_space: "is_digit c \<Longrightarrow> \<not> is_python_space c"
  by (auto simp: is_digit_def is_python_space_def in_range_def)

lemma minus_no_space: "\<not> is_python_space 45"
  by (simp add: is_python_space_def in_range_def)

lemma python_int_str_of_int:
  assumes "conversions_ok CV" "integer_fits i"
  shows "python_int CV (str_of_int i) = Some i"
proof -
  let ?ds = "digits_of_nat (nat \<bar>i\<bar>)"
  have digits: "\<forall>c \<in> set ?ds. is_digit c" using digits_of_nat_digits by blast
  have hd_last: "is_digit (hd ?ds)" "is_digit (last ?ds)"
    using digits by (meson digits_of_nat_not_Nil hd_in_set last_in_set)+
  have written: "str_of_int i = (if i < 0 then 45 # ?ds else ?ds)"
    by (simp add: str_of_int_def)
  have stripped: "strip (str_of_int i) = str_of_int i"
    unfolding written by (rule strip_without_spaces)
      (use hd_last digit_no_space minus_no_space in \<open>auto split: if_splits\<close>)
  have sign: "hd ?ds \<noteq> 45" "hd ?ds \<noteq> 43" using hd_last by (auto simp: is_digit_def in_range_def)
  have len: "length ?ds \<le> MAXIMUM_INTEGER_DIGITS"
  proof (rule length_digits_of_nat_le)
    show "nat \<bar>i\<bar> < 10 ^ MAXIMUM_INTEGER_DIGITS" using assms(2) unfolding integer_fits_def .
    show "0 < MAXIMUM_INTEGER_DIGITS" by (simp add: MAXIMUM_INTEGER_DIGITS_def)
  qed
  have read: "read_decimal_digits (decimal_digit CV) ?ds = Some (map (\<lambda>c. c - 48) ?ds)"
    using assms(1) digits by (intro read_ascii_digits) (auto simp: conversions_ok_def)
  have val: "foldl (\<lambda>m d. 10 * m + int d) 0 (map (\<lambda>c. c - 48) ?ds) = \<bar>i\<bar>"
    using foldl_digits [of 0 ?ds] nat_of_digits_digits_of_nat [of "nat \<bar>i\<bar>"] by (simp add: nat_of_digits_def)
  show ?thesis
    unfolding python_int_def Let_def stripped using sign len read val by (auto simp: written)
qed
definition configuration_fits :: "node_configuration \<Rightarrow> bool" where
  "configuration_fits c \<longleftrightarrow> list_all integer_fits [
     configured_node_protocol_version c,
     configured_node_maximum_contacts c,
     configured_radio_frequency_kilohertz c,
     configured_radio_bandwidth_hertz c,
     configured_radio_spreading_factor c,
     configured_radio_coding_rate c,
     configured_radio_transmit_power_dbm c,
     configured_routing_path_hash_size c,
     configured_messaging_multi_acks c,
     configured_contacts_auto_add_configuration c,
     configured_contacts_auto_add_maximum_hops c,
     configured_privacy_advert_location_policy c,
     configured_privacy_telemetry_modes c,
     configured_setup_run_id c]"

lemma setting_key_value_inject: "setting_key_value a = setting_key_value b \<longleftrightarrow> a = b"
proof -
  have "distinct (map setting_key_value NODE_SETTING_KEYS)" by code_simp
  moreover have "a \<in> set NODE_SETTING_KEYS" for a by (cases a) (simp_all add: NODE_SETTING_KEYS_def)
  ultimately show ?thesis by (auto simp: distinct_map dest: inj_onD)
qed

definition stored_configuration :: "text_conversions \<Rightarrow> node_configuration \<Rightarrow> (pystr \<times> pystr) list" where
  "stored_configuration CV c = map (\<lambda>(key, v). (setting_key_value key, v)) (serialize_node_configuration CV c)"

lemma read_text_stored:
  "map_of (serialize_node_configuration CV c) key = Some v \<Longrightarrow> read_text (stored_configuration CV c) key = Inr v"
proof -
  have "map_of (map (\<lambda>(key, v). (setting_key_value key, v)) xs) (setting_key_value key) = map_of xs key"
    for xs :: "(node_setting_key \<times> pystr) list"
    by (induction xs) (auto simp: setting_key_value_inject)
  then show "map_of (serialize_node_configuration CV c) key = Some v \<Longrightarrow> read_text (stored_configuration CV c) key = Inr v"
    by (simp add: read_text_def stored_configuration_def)
qed

lemma read_boolean_stored:
  "map_of (serialize_node_configuration CV c) key = Some (serialize_boolean b) \<Longrightarrow>
     read_boolean (stored_configuration CV c) key = Inr b"
  by (simp add: read_boolean_def read_text_stored serialize_boolean_def BOOLEAN_TRUE_TEXT_def BOOLEAN_FALSE_TEXT_def str_eq_iff)

lemma read_integer_stored:
  "map_of (serialize_node_configuration CV c) key = Some (str_of_int i) \<Longrightarrow> conversions_ok CV \<Longrightarrow> integer_fits i \<Longrightarrow>
     read_integer CV (stored_configuration CV c) key = Inr i"
  by (simp add: read_integer_def read_text_stored python_int_str_of_int)

lemma read_datetime_stored:
  "map_of (serialize_node_configuration CV c) key = Some (isoformat CV time) \<Longrightarrow> conversions_ok CV \<Longrightarrow>
     read_datetime CV (stored_configuration CV c) key = Inr time"
  by (simp add: read_datetime_def read_text_stored conversions_ok_def)

lemma serialized_values:
  "map_of (serialize_node_configuration CV c) NODE_PUBLIC_KEY = Some (configured_node_public_key c)"
  "map_of (serialize_node_configuration CV c) NODE_NAME = Some (configured_node_name c)"
  "map_of (serialize_node_configuration CV c) NODE_FIRMWARE_VERSION = Some (configured_node_firmware_version c)"
  "map_of (serialize_node_configuration CV c) NODE_FIRMWARE_BUILD = Some (configured_node_firmware_build c)"
  "map_of (serialize_node_configuration CV c) NODE_MODEL = Some (configured_node_model c)"
  "map_of (serialize_node_configuration CV c) NODE_PROTOCOL_VERSION = Some (str_of_int (configured_node_protocol_version c))"
  "map_of (serialize_node_configuration CV c) NODE_MAXIMUM_CONTACTS = Some (str_of_int (configured_node_maximum_contacts c))"
  "map_of (serialize_node_configuration CV c) NODE_CONTACT_CARD_URI = Some (configured_node_contact_card_uri c)"
  "map_of (serialize_node_configuration CV c) RADIO_PRESET_TITLE = Some (configured_radio_preset_title c)"
  "map_of (serialize_node_configuration CV c) RADIO_FREQUENCY_KILOHERTZ = Some (str_of_int (configured_radio_frequency_kilohertz c))"
  "map_of (serialize_node_configuration CV c) RADIO_BANDWIDTH_HERTZ = Some (str_of_int (configured_radio_bandwidth_hertz c))"
  "map_of (serialize_node_configuration CV c) RADIO_SPREADING_FACTOR = Some (str_of_int (configured_radio_spreading_factor c))"
  "map_of (serialize_node_configuration CV c) RADIO_CODING_RATE = Some (str_of_int (configured_radio_coding_rate c))"
  "map_of (serialize_node_configuration CV c) RADIO_TRANSMIT_POWER_DBM = Some (str_of_int (configured_radio_transmit_power_dbm c))"
  "map_of (serialize_node_configuration CV c) RADIO_CLIENT_REPEAT = Some (serialize_boolean (configured_radio_client_repeat c))"
  "map_of (serialize_node_configuration CV c) ROUTING_PATH_HASH_SIZE = Some (str_of_int (configured_routing_path_hash_size c))"
  "map_of (serialize_node_configuration CV c) MESSAGING_MULTI_ACKS = Some (str_of_int (configured_messaging_multi_acks c))"
  "map_of (serialize_node_configuration CV c) CONTACTS_MANUAL_ADD = Some (serialize_boolean (configured_contacts_manual_add c))"
  "map_of (serialize_node_configuration CV c) CONTACTS_AUTO_ADD_CONFIGURATION = Some (str_of_int (configured_contacts_auto_add_configuration c))"
  "map_of (serialize_node_configuration CV c) CONTACTS_AUTO_ADD_MAXIMUM_HOPS = Some (str_of_int (configured_contacts_auto_add_maximum_hops c))"
  "map_of (serialize_node_configuration CV c) PRIVACY_ADVERT_LOCATION_POLICY = Some (str_of_int (configured_privacy_advert_location_policy c))"
  "map_of (serialize_node_configuration CV c) PRIVACY_TELEMETRY_MODES = Some (str_of_int (configured_privacy_telemetry_modes c))"
  "map_of (serialize_node_configuration CV c) CHANNELS_PUBLIC_CHANNEL_REPLACED = Some (serialize_boolean (configured_channels_public_channel_replaced c))"
  "map_of (serialize_node_configuration CV c) SETUP_COMPLETED_AT = Some (isoformat CV (configured_setup_completed_at c))"
  "map_of (serialize_node_configuration CV c) SETUP_RUN_ID = Some (str_of_int (configured_setup_run_id c))"
  by (simp_all add: serialize_node_configuration_def)

lemma parse_stored_configuration:
  assumes "conversions_ok CV" "configuration_fits c"
  shows "parse_node_configuration CV (stored_configuration CV c) = Inr c"
proof -
  note [simp] = read_text_stored [OF serialized_values(1)]
  show ?thesis
    unfolding parse_node_configuration_def
    using assms
    by (simp add: configuration_fits_def
        read_text_stored [OF serialized_values(1)]
        read_text_stored [OF serialized_values(2)]
        read_text_stored [OF serialized_values(3)]
        read_text_stored [OF serialized_values(4)]
        read_text_stored [OF serialized_values(5)]
        read_integer_stored [OF serialized_values(6)]
        read_integer_stored [OF serialized_values(7)]
        read_text_stored [OF serialized_values(8)]
        read_text_stored [OF serialized_values(9)]
        read_integer_stored [OF serialized_values(10)]
        read_integer_stored [OF serialized_values(11)]
        read_integer_stored [OF serialized_values(12)]
        read_integer_stored [OF serialized_values(13)]
        read_integer_stored [OF serialized_values(14)]
        read_boolean_stored [OF serialized_values(15)]
        read_integer_stored [OF serialized_values(16)]
        read_integer_stored [OF serialized_values(17)]
        read_boolean_stored [OF serialized_values(18)]
        read_integer_stored [OF serialized_values(19)]
        read_integer_stored [OF serialized_values(20)]
        read_integer_stored [OF serialized_values(21)]
        read_integer_stored [OF serialized_values(22)]
        read_boolean_stored [OF serialized_values(23)]
        read_datetime_stored [OF serialized_values(24)]
        read_integer_stored [OF serialized_values(25)])
qed

lemma stored_keys: "map fst (stored_configuration CV c) = REQUIRED_NODE_SETTING_KEY_VALUES"
  by (simp add: stored_configuration_def REQUIRED_NODE_SETTING_KEY_VALUES_def serialize_node_configuration_def
      NODE_SETTING_KEYS_def)

lemma backup_key_not_required: "NODE_IDENTITY_BACKUP_KEY \<notin> set REQUIRED_NODE_SETTING_KEY_VALUES"
  by code_simp

lemma required_rows_after_replace:
  "filter (\<lambda>(key, _). key \<in> set REQUIRED_NODE_SETTING_KEY_VALUES) (node_settings (replace_node_configuration CV c s)) =
     stored_configuration CV c"
proof -
  let ?required = "\<lambda>(key, _). key \<in> set REQUIRED_NODE_SETTING_KEY_VALUES"
  have "filter ?required (stored_configuration CV c) = stored_configuration CV c"
    using arg_cong [OF stored_keys, of set CV c] by (intro filter_True) force
  moreover have "filter ?required (filter (\<lambda>(key, _). key \<in> set OPTIONAL_NODE_SETTING_KEY_VALUES) rs) = []" for rs :: "(pystr \<times> pystr) list"
    using backup_key_not_required by (auto simp: filter_empty_conv OPTIONAL_NODE_SETTING_KEY_VALUES_def)
  ultimately show ?thesis
    by (simp add: replace_node_configuration_def stored_configuration_def)
qed

lemma written_configuration_is_loaded:
  assumes "conversions_ok CV" "configuration_fits c"
  shows "load_node_configuration CV (replace_node_configuration CV c s) = Inr (Some c)"
proof -
  have "stored_configuration CV c \<noteq> []"
    using arg_cong [OF stored_keys, of length CV c] by (auto simp: REQUIRED_NODE_SETTING_KEY_VALUES_def NODE_SETTING_KEYS_def)
  moreover have "filter (\<lambda>key. map_of (stored_configuration CV c) key = None) REQUIRED_NODE_SETTING_KEY_VALUES = []"
    unfolding filter_empty_conv map_of_eq_None_iff using arg_cong [OF stored_keys, of set CV c] by force
  ultimately show ?thesis
    unfolding load_node_configuration_def Let_def required_rows_after_replace
    by (simp add: parse_stored_configuration [OF assms])
qed

text \<open>The optional rows stay, in their order, and no other old row does.\<close>

lemma replace_keeps_optional_rows:
  "filter (\<lambda>(key, _). key \<in> set OPTIONAL_NODE_SETTING_KEY_VALUES) (node_settings (replace_node_configuration CV c s)) =
     filter (\<lambda>(key, _). key \<in> set OPTIONAL_NODE_SETTING_KEY_VALUES) (node_settings s)"
proof -
  have "key \<notin> set OPTIONAL_NODE_SETTING_KEY_VALUES" if "(key, v) \<in> set (stored_configuration CV c)" for key v
    using that arg_cong [OF stored_keys, of set CV c] backup_key_not_required
    by (auto simp: OPTIONAL_NODE_SETTING_KEY_VALUES_def)
      (metis backup_key_not_required fst_conv image_eqI list.set_map stored_keys)
  then have "filter (\<lambda>(key, _). key \<in> set OPTIONAL_NODE_SETTING_KEY_VALUES) (stored_configuration CV c) = []"
    by (auto simp: filter_empty_conv)
  then show ?thesis
    by (simp add: replace_node_configuration_def stored_configuration_def)
qed

end
