(* ===== verification/Byte_Strings.thy ===== *)
theory Byte_Strings
  imports Node_Model
begin

text \<open>
  Python's \<^verbatim>\<open>bytes\<close> as the node package uses them: a list of numbers below 256, with its hexadecimal text, its
  little-endian integers and its UTF-8 text. Every conversion is proved to be undone by its inverse.
\<close>

unbundle bit_operations_syntax

definition bytes_ok :: "nat list \<Rightarrow> bool" where
  "bytes_ok bs \<longleftrightarrow> (\<forall>b \<in> set bs. b < 256)"

lemma bytes_ok_simps [simp]:
  "bytes_ok []" "bytes_ok (b # bs) \<longleftrightarrow> b < 256 \<and> bytes_ok bs" "bytes_ok (bs @ cs) \<longleftrightarrow> bytes_ok bs \<and> bytes_ok cs"
  by (auto simp: bytes_ok_def)

section \<open>Hexadecimal text\<close>

text \<open>\<^verbatim>\<open>bytes.hex()\<close> and \<^verbatim>\<open>bytes.fromhex(text)\<close>, which skips ASCII spaces between bytes and takes digits of any case.\<close>

definition hex_digit :: "nat \<Rightarrow> codepoint" where
  "hex_digit n = (if n < 10 then 48 + n else 87 + n)"

definition hex_value :: "codepoint \<Rightarrow> nat option" where
  "hex_value c =
     (if is_digit c then Some (c - 48) else if in_range 97 102 c then Some (c - 87)
      else if in_range 65 70 c then Some (c - 55) else None)"

fun bytes_hex :: "nat list \<Rightarrow> pystr" where
  "bytes_hex [] = []"
| "bytes_hex (b # bs) = hex_digit (b div 16) # hex_digit (b mod 16) # bytes_hex bs"

definition is_ascii_space :: "codepoint \<Rightarrow> bool" where
  "is_ascii_space c \<longleftrightarrow> in_range 9 13 c \<or> c = 32"

fun bytes_fromhex :: "pystr \<Rightarrow> nat list option" where
  "bytes_fromhex [] = Some []"
| "bytes_fromhex [c] = (if is_ascii_space c then Some [] else None)"
| "bytes_fromhex (c # d # cs) =
     (if is_ascii_space c then bytes_fromhex (d # cs)
      else case (hex_value c, hex_value d) of
             (Some high, Some low) \<Rightarrow> map_option (\<lambda>bs. (16 * high + low) # bs) (bytes_fromhex cs)
           | _ \<Rightarrow> None)"

lemma hex_value_digit [simp]: "n < 16 \<Longrightarrow> hex_value (hex_digit n) = Some n"
  by (auto simp: hex_value_def hex_digit_def is_digit_def in_range_def)

lemma hex_digit_no_space [simp]: "n < 16 \<Longrightarrow> \<not> is_ascii_space (hex_digit n)" "n < 16 \<Longrightarrow> \<not> is_python_space (hex_digit n)"
  by (auto simp: hex_digit_def is_ascii_space_def is_python_space_def in_range_def)

lemma fromhex_hex [simp]: "bytes_ok bs \<Longrightarrow> bytes_fromhex (bytes_hex bs) = Some bs"
  by (induction bs) (auto simp: less_mult_imp_div_less)

lemma length_bytes_hex [simp]: "length (bytes_hex bs) = 2 * length bs"
  by (induction bs) auto

lemma bytes_hex_no_space: "bytes_ok bs \<Longrightarrow> c \<in> set (bytes_hex bs) \<Longrightarrow> \<not> is_python_space c"
  by (induction bs) (auto simp: less_mult_imp_div_less)

lemma hex_digit_lower_hex: "n < 16 \<Longrightarrow> is_lower_hex (hex_digit n)"
  by (auto simp: is_lower_hex_def hex_digit_def is_digit_def in_range_def)

lemma bytes_hex_lower_hex: "bytes_ok bs \<Longrightarrow> c \<in> set (bytes_hex bs) \<Longrightarrow> is_lower_hex c"
  by (induction bs) (auto simp: less_mult_imp_div_less intro: hex_digit_lower_hex)

lemma bytes_hex_inject: "bytes_ok bs \<Longrightarrow> bytes_ok cs \<Longrightarrow> bytes_hex bs = bytes_hex cs \<Longrightarrow> bs = cs"
  by (metis fromhex_hex option.inject)

section \<open>Little-endian integers\<close>

fun int_from_bytes_little :: "nat list \<Rightarrow> int" where
  "int_from_bytes_little [] = 0"
| "int_from_bytes_little (b # bs) = int b + 256 * int_from_bytes_little bs"

definition signed_int_from_bytes_little :: "nat list \<Rightarrow> int" where
  "signed_int_from_bytes_little bs =
     (let n = int_from_bytes_little bs; width = 2 ^ (8 * length bs) in if 2 * n < width then n else n - width)"

fun int_to_bytes_little :: "nat \<Rightarrow> int \<Rightarrow> nat list" where
  "int_to_bytes_little 0 n = []"
| "int_to_bytes_little (Suc k) n = nat (n mod 256) # int_to_bytes_little k (n div 256)"

lemma length_int_to_bytes [simp]: "length (int_to_bytes_little k n) = k"
  by (induction k arbitrary: n) auto

lemma int_to_bytes_ok [simp]: "bytes_ok (int_to_bytes_little k n)"
  by (induction k arbitrary: n) (auto simp: nat_less_iff)

lemma int_from_to_bytes: "int_from_bytes_little (int_to_bytes_little k n) = n mod 256 ^ k"
proof (induction k arbitrary: n)
  case (Suc k)
  have "n mod (256 * 256 ^ k) = 256 * (n div 256 mod 256 ^ k) + n mod 256"
    by (rule zmod_zmult2_eq) simp
  with Suc.IH [of "n div 256"] show ?case by simp
qed simp

lemma int_from_to_bytes_unsigned: "0 \<le> n \<Longrightarrow> n < 256 ^ k \<Longrightarrow> int_from_bytes_little (int_to_bytes_little k n) = n"
  by (simp add: int_from_to_bytes)

lemma signed_from_to_bytes:
  assumes "- (2 ^ 31) \<le> n" "n < 2 ^ 31"
  shows "signed_int_from_bytes_little (int_to_bytes_little 4 n) = n"
proof -
  have "n mod 256 ^ 4 = (if 0 \<le> n then n else n + 256 ^ 4)"
  proof (cases "0 \<le> n")
    case False
    have "n mod 256 ^ 4 = (n + 256 ^ 4) mod 256 ^ 4" by simp
    also have "\<dots> = n + 256 ^ 4" using assms False by (intro mod_pos_pos_trivial) auto
    finally show ?thesis using False by simp
  qed (use assms in simp)
  then show ?thesis
    using assms by (simp add: signed_int_from_bytes_little_def int_from_to_bytes Let_def split: if_splits)
qed

lemma int_from_bytes_bounds: "bytes_ok bs \<Longrightarrow> 0 \<le> int_from_bytes_little bs \<and> int_from_bytes_little bs < 256 ^ length bs"
  by (induction bs) auto
section \<open>UTF-8\<close>

text \<open>
  \<^verbatim>\<open>bytes.decode("utf-8", errors="ignore")\<close>: a byte that cannot start a sequence is dropped, and so is the longest
  part of a sequence that could still have become one.
\<close>

definition continuation :: "nat \<Rightarrow> bool" where
  "continuation b \<longleftrightarrow> 128 \<le> b \<and> b < 192"

text \<open>The second bytes that may follow a leading byte, which exclude surrogates, overlong forms and values above Unicode.\<close>

definition second_byte_ok :: "nat \<Rightarrow> nat \<Rightarrow> bool" where
  "second_byte_ok b c \<longleftrightarrow>
     (if b = 224 then 160 \<le> c \<and> c < 192 else if b = 237 then 128 \<le> c \<and> c < 160
      else if b = 240 then 144 \<le> c \<and> c < 192 else if b = 244 then 128 \<le> c \<and> c < 144 else continuation c)"

function decode_utf8_ignore :: "nat list \<Rightarrow> pystr" where
  "decode_utf8_ignore [] = []"
| "decode_utf8_ignore (b # bs) =
     (if b < 128 then b # decode_utf8_ignore bs
      else if 194 \<le> b \<and> b < 224 then
        (case bs of c # cs \<Rightarrow> if continuation c then ((b - 192) * 64 + (c - 128)) # decode_utf8_ignore cs
                              else decode_utf8_ignore bs
         | [] \<Rightarrow> [])
      else if 224 \<le> b \<and> b < 240 then
        (case bs of c # cs \<Rightarrow>
           if second_byte_ok b c then
             (case cs of d # ds \<Rightarrow>
                if continuation d then ((b - 224) * 4096 + (c - 128) * 64 + (d - 128)) # decode_utf8_ignore ds
                else decode_utf8_ignore cs
              | [] \<Rightarrow> [])
           else decode_utf8_ignore bs
         | [] \<Rightarrow> [])
      else if 240 \<le> b \<and> b < 245 then
        (case bs of c # cs \<Rightarrow>
           if second_byte_ok b c then
             (case cs of d # ds \<Rightarrow>
                if continuation d then
                  (case ds of e # es \<Rightarrow>
                     if continuation e
                     then ((b - 240) * 262144 + (c - 128) * 4096 + (d - 128) * 64 + (e - 128)) # decode_utf8_ignore es
                     else decode_utf8_ignore ds
                   | [] \<Rightarrow> [])
                else decode_utf8_ignore cs
              | [] \<Rightarrow> [])
           else decode_utf8_ignore bs
         | [] \<Rightarrow> [])
      else decode_utf8_ignore bs)"
  by pat_completeness auto
termination
  by (relation "measure length") auto

declare decode_utf8_ignore.simps(2) [simp del]

definition scalar_value :: "codepoint \<Rightarrow> bool" where
  "scalar_value c \<longleftrightarrow> c < 0x110000 \<and> \<not> is_surrogate c"

text \<open>The bytes of a scalar value by the digits of its number to the base 64.\<close>

lemma digits_base_64: "(c :: nat) = c div 4096 * 4096 + c div 64 mod 64 * 64 + c mod 64"
proof -
  have "c = 64 * (c div 64) + c mod 64" "c div 64 = 64 * (c div 64 div 64) + c div 64 mod 64" by simp_all
  moreover have "c div 64 div 64 = c div 4096" by (simp add: div_mult2_eq [symmetric])
  ultimately show ?thesis by linarith
qed

lemma utf8_three_bytes:
  assumes "scalar_value c" "2048 \<le> c" "c < 65536"
  obtains a b d where "a < 16" "b < 64" "d < 64" "utf8_bytes c = [224 + a, 128 + b, 128 + d]" "c = a * 4096 + b * 64 + d"
    "second_byte_ok (224 + a) (128 + b)"
proof -
  define a b d where abd: "a = c div 4096" "b = c div 64 mod 64" "d = c mod 64"
  have c: "c = a * 4096 + b * 64 + d" "a < 16" "b < 64" "d < 64"
    using assms(3) digits_base_64 [of c] unfolding abd by (simp_all add: less_mult_imp_div_less)
  have bytes: "utf8_bytes c = [224 + a, 128 + b, 128 + d]"
    using assms(2,3) by (simp add: utf8_bytes_def abd)
  have no_surrogate: "\<not> (55296 \<le> c \<and> c \<le> 57343)" using assms(1) by (simp add: scalar_value_def is_surrogate_iff)
  have "a = 0 \<Longrightarrow> 32 \<le> b" using assms(2) c by simp
  moreover have "a = 13 \<Longrightarrow> b < 32" using no_surrogate c by simp
  ultimately have "second_byte_ok (224 + a) (128 + b)"
    using c(2,3) by (simp add: second_byte_ok_def continuation_def)
  from that [OF c(2-4) bytes c(1) this] show thesis .
qed

lemma utf8_four_bytes:
  assumes "scalar_value c" "65536 \<le> c"
  obtains a b d e where "a < 5" "b < 64" "d < 64" "e < 64" "utf8_bytes c = [240 + a, 128 + b, 128 + d, 128 + e]"
    "c = a * 262144 + b * 4096 + d * 64 + e" "second_byte_ok (240 + a) (128 + b)"
proof -
  define a b d e where abde: "a = c div 262144" "b = c div 4096 mod 64" "d = c div 64 mod 64" "e = c mod 64"
  have small: "c < 1114112" using assms(1) by (simp add: scalar_value_def)
  have "c = a * 262144 + b * 4096 + d * 64 + e"
  proof -
    have "c div 64 = a * 4096 + b * 64 + d"
      using digits_base_64 [of "c div 64"] unfolding abde by (simp add: div_mult2_eq [symmetric])
    moreover have "c = 64 * (c div 64) + e" unfolding abde by simp
    ultimately show ?thesis by linarith
  qed
  moreover have "b < 64" "d < 64" "e < 64" by (simp_all add: abde)
  moreover have "a < 5" using small unfolding abde by (simp add: less_mult_imp_div_less)
  ultimately have c: "c = a * 262144 + b * 4096 + d * 64 + e" "a < 5" "b < 64" "d < 64" "e < 64" by blast+
  have bytes: "utf8_bytes c = [240 + a, 128 + b, 128 + d, 128 + e]"
    using assms(2) by (simp add: utf8_bytes_def abde)
  have "a = 0 \<Longrightarrow> 16 \<le> b" using assms(2) c by simp
  moreover have "a = 4 \<Longrightarrow> b < 16" using small c by simp
  ultimately have "second_byte_ok (240 + a) (128 + b)"
    using c(2,3) by (simp add: second_byte_ok_def continuation_def)
  from that [OF c(2-5) bytes c(1) this] show thesis .
qed

lemma utf8_two_bytes:
  assumes "128 \<le> c" "c < 2048"
  obtains a b where "2 \<le> a" "a < 32" "b < 64" "utf8_bytes c = [192 + a, 128 + b]" "c = a * 64 + b"
  using assms by (intro that [of "c div 64" "c mod 64"]) (auto simp: utf8_bytes_def)

lemma utf8_bytes_cases:
  assumes "scalar_value c"
  obtains (one) "c < 128" "utf8_bytes c = [c]"
  | (two) a b where "2 \<le> a" "a < 32" "b < 64" "utf8_bytes c = [192 + a, 128 + b]" "c = a * 64 + b"
  | (three) a b d where "a < 16" "b < 64" "d < 64" "utf8_bytes c = [224 + a, 128 + b, 128 + d]"
      "c = a * 4096 + b * 64 + d" "second_byte_ok (224 + a) (128 + b)"
  | (four) a b d e where "a < 5" "b < 64" "d < 64" "e < 64" "utf8_bytes c = [240 + a, 128 + b, 128 + d, 128 + e]"
      "c = a * 262144 + b * 4096 + d * 64 + e" "second_byte_ok (240 + a) (128 + b)"
proof -
  consider "c < 128" | "128 \<le> c" "c < 2048" | "2048 \<le> c" "c < 65536" | "65536 \<le> c" by linarith
  then show thesis
  proof cases
    case 1
    then show thesis by (intro one) (simp_all add: utf8_bytes_def)
  next
    case 2
    then show thesis using two utf8_two_bytes by metis
  next
    case 3
    then show thesis using three utf8_three_bytes [OF assms] by metis
  next
    case 4
    then show thesis using four utf8_four_bytes [OF assms] by metis
  qed
qed

lemma decode_encoded_char:
  assumes "scalar_value c"
  shows "decode_utf8_ignore (utf8_bytes c @ bs) = c # decode_utf8_ignore bs"
  using assms by (cases rule: utf8_bytes_cases) (simp_all add: decode_utf8_ignore.simps(2) continuation_def)

text \<open>The beginning of a character's bytes alone is dropped.\<close>

lemma decode_cut_char:
  assumes "scalar_value c" "k < length (utf8_bytes c)"
  shows "decode_utf8_ignore (take k (utf8_bytes c)) = []"
  using assms
proof (cases rule: utf8_bytes_cases)
  case (four a b d e)
  with assms(2) have "k = 0 \<or> k = 1 \<or> k = 2 \<or> k = 3" by auto
  with four show ?thesis
    by (elim disjE) (simp_all add: decode_utf8_ignore.simps(2) continuation_def numeral_2_eq_2 numeral_3_eq_3)
next
  case (three a b d)
  with assms(2) have "k = 0 \<or> k = 1 \<or> k = 2" by auto
  with three show ?thesis
    by (elim disjE) (simp_all add: decode_utf8_ignore.simps(2) numeral_2_eq_2)
next
  case (two a b)
  with assms(2) have "k = 0 \<or> k = 1" by auto
  with two show ?thesis by (elim disjE) (simp_all add: decode_utf8_ignore.simps(2))
qed simp

lemma decode_encoded_text: "list_all scalar_value s \<Longrightarrow> decode_utf8_ignore (concat (map utf8_bytes s)) = s"
  by (induction s) (simp_all add: decode_encoded_char)

text \<open>Cutting the bytes of a text anywhere leaves the longest prefix of the text that fits.\<close>

lemma decode_cut_text:
  assumes "list_all scalar_value s" "decode_utf8_ignore (take n (concat (map utf8_bytes s))) = r"
  shows "r = take (length r) s \<and> utf8_length r \<le> n \<and> (length r < length s \<longrightarrow> n < utf8_length (take (Suc (length r)) s))"
  using assms
proof (induction s arbitrary: n r)
  case (Cons c s)
  show ?case
  proof (cases "n < length (utf8_bytes c)")
    case True
    with Cons.prems decode_cut_char [of c n] show ?thesis by simp
  next
    case False
    then have "r = c # decode_utf8_ignore (take (n - length (utf8_bytes c)) (concat (map utf8_bytes s)))"
      using Cons.prems by (simp add: decode_encoded_char)
    with Cons.IH [of "n - length (utf8_bytes c)"] Cons.prems(1) False show ?thesis by auto
  qed
qed simp

end
