(* ===== verification/Identity_Backups.thy ===== *)
theory Identity_Backups
  imports Node_Settings Byte_Strings
begin

text \<open>
  The encrypted backup of the node's private key (\<^verbatim>\<open>node/node_identity_backups.py\<close>). The cipher, the key
  derivation and the curve are third-party code (pycryptodome) and the text codecs JSON, base64 and ISO times come
  with Python; all are parameters. The lemmas show that a stored backup gives back exactly the key it was taken
  of, that no other identity's key is ever stored or given back, and that an unreadable document is refused.
\<close>

definition BACKUP_FORMAT_VERSION :: int where
  "BACKUP_FORMAT_VERSION = 1"

definition PRIVATE_KEY_BYTES :: nat where
  "PRIVATE_KEY_BYTES = 64"

definition PUBLIC_KEY_HEX_LENGTH :: nat where
  "PUBLIC_KEY_HEX_LENGTH = 64"

definition NONCE_BYTES :: nat where
  "NONCE_BYTES = 12"

definition TAG_BYTES :: nat where
  "TAG_BYTES = 16"

definition SCALAR_BYTES :: nat where
  "SCALAR_BYTES = 32"

definition ED25519_GROUP_ORDER :: int where
  "ED25519_GROUP_ORDER = 2 ^ 252 + 27742317777372353535851937790883648493"

text \<open>
  \<open>encrypt nonce associated plain\<close> gives the ciphertext and the tag under the key derived from Django's secret key;
  \<open>decrypt_and_verify\<close> gives the plain bytes unless the tag does not verify. \<open>public_point\<close> is the 32-byte
  encoding of a scalar times the base point. A time is read with whether its text has a time zone.
\<close>

record backup_services =
  encrypt :: "nat list \<Rightarrow> nat list \<Rightarrow> nat list \<Rightarrow> nat list \<times> nat list"
  decrypt_and_verify :: "nat list \<Rightarrow> nat list \<Rightarrow> nat list \<Rightarrow> nat list \<Rightarrow> nat list option"
  public_point :: "int \<Rightarrow> nat list"
  json_dumps :: "json \<Rightarrow> pystr"
  json_loads :: "pystr \<Rightarrow> json option"
  base64_encode :: "nat list \<Rightarrow> pystr"
  base64_decode :: "pystr \<Rightarrow> nat list option"
  utc_isoformat :: "datetime \<Rightarrow> pystr"
  iso_time_and_zone :: "pystr \<Rightarrow> (datetime \<times> bool) option"

datatype backup_error =
    BackupMissing pystr
  | BackupUnreadable pystr
  | BackupValueError pystr

definition backup_bind :: "backup_error + 'a \<Rightarrow> ('a \<Rightarrow> backup_error + 'b) \<Rightarrow> backup_error + 'b" where
  "backup_bind m f = (case m of Inl e \<Rightarrow> Inl e | Inr x \<Rightarrow> f x)"

lemma backup_bind_simps [simp]: "backup_bind (Inl e) f = Inl e" "backup_bind (Inr x) f = f x"
  by (simp_all add: backup_bind_def)

lemma backup_bind_eq_Inr: "backup_bind m f = Inr y \<longleftrightarrow> (\<exists>x. m = Inr x \<and> f x = Inr y)"
  by (cases m) auto

definition DAMAGED_BACKUP_REASON :: pystr where
  "DAMAGED_BACKUP_REASON = str ''The stored identity backup is damaged.''"

definition UNDECRYPTABLE_BACKUP_REASON :: pystr where
  "UNDECRYPTABLE_BACKUP_REASON =
     str ''The stored identity backup cannot be decrypted: SECRET_KEY in src/.env changed since it was taken, or the backup was altered.''"

definition MISSING_BACKUP_REASON :: pystr where
  "MISSING_BACKUP_REASON = str ''No identity backup is stored.''"

definition MISMATCHED_KEY_PAIR_REASON :: pystr where
  "MISMATCHED_KEY_PAIR_REASON =
     str ''The stored identity backup is damaged: the private key in it does not belong to the public key it names.''"

section \<open>Private keys\<close>

text \<open>A \<^verbatim>\<open>NodePrivateKey\<close> is its 64 bytes.\<close>

definition node_private_key :: "nat list \<Rightarrow> backup_error + nat list" where
  "node_private_key key_bytes =
     (if length key_bytes \<noteq> PRIVATE_KEY_BYTES
      then Inl (BackupValueError (str ''A node's private key has 64 bytes, not '' @ str_of_int (int (length key_bytes)) @ str ''.''))
      else Inr key_bytes)"

definition has_clamped_scalar :: "nat list \<Rightarrow> bool" where
  "has_clamped_scalar key \<longleftrightarrow>
     key ! 0 AND 7 = 0 \<and> key ! (SCALAR_BYTES - 1) AND 128 = 0 \<and> key ! (SCALAR_BYTES - 1) AND 64 \<noteq> 0"

definition derive_public_key_hex :: "backup_services \<Rightarrow> nat list \<Rightarrow> pystr" where
  "derive_public_key_hex BS key =
     bytes_hex (public_point BS (int_from_bytes_little (take SCALAR_BYTES key) mod ED25519_GROUP_ORDER))"

definition belongs_to :: "backup_services \<Rightarrow> nat list \<Rightarrow> pystr \<Rightarrow> bool" where
  "belongs_to BS key public \<longleftrightarrow> has_clamped_scalar key \<and> derive_public_key_hex BS key = public"

section \<open>The document\<close>

record identity_backup =
  backup_version :: int
  backup_public_key :: pystr
  backup_nonce :: "nat list"
  backup_ciphertext :: "nat list"
  backup_tag :: "nat list"
  backup_created_at :: datetime
  backup_has_zone :: bool

text \<open>A backup that is written has a time with a zone.\<close>

definition backup_to_json :: "backup_services \<Rightarrow> identity_backup \<Rightarrow> json" where
  "backup_to_json BS b = JObject [
     (str ''version'', JInt (backup_version b)),
     (str ''public_key'', JString (backup_public_key b)),
     (str ''nonce'', JString (base64_encode BS (backup_nonce b))),
     (str ''ciphertext'', JString (base64_encode BS (backup_ciphertext b))),
     (str ''tag'', JString (base64_encode BS (backup_tag b))),
     (str ''created_at'', JString (utc_isoformat BS (backup_created_at b)))]"

definition read_string_field :: "json \<Rightarrow> pystr \<Rightarrow> pystr option" where
  "read_string_field stored field =
     (case stored of JObject fs \<Rightarrow> (case map_of fs field of Some (JString t) \<Rightarrow> Some t | _ \<Rightarrow> None) | _ \<Rightarrow> None)"

definition read_integer_field :: "json \<Rightarrow> pystr \<Rightarrow> int option" where
  "read_integer_field stored field =
     (case stored of JObject fs \<Rightarrow> (case map_of fs field of Some (JInt n) \<Rightarrow> Some n | _ \<Rightarrow> None) | _ \<Rightarrow> None)"

definition is_public_key_hex :: "pystr \<Rightarrow> bool" where
  "is_public_key_hex key \<longleftrightarrow>
     length key = PUBLIC_KEY_HEX_LENGTH \<and> key = lower key \<and> bytes_fromhex key \<noteq> None"

definition has_valid_layout :: "identity_backup \<Rightarrow> bool" where
  "has_valid_layout b \<longleftrightarrow>
     backup_version b = BACKUP_FORMAT_VERSION \<and> is_public_key_hex (backup_public_key b) \<and>
     length (backup_nonce b) = NONCE_BYTES \<and> length (backup_ciphertext b) = PRIVATE_KEY_BYTES \<and>
     length (backup_tag b) = TAG_BYTES \<and> backup_has_zone b"

definition backup_from_json :: "backup_services \<Rightarrow> json \<Rightarrow> backup_error + identity_backup" where
  "backup_from_json BS stored =
     (let read_bytes = (\<lambda>field. Option.bind (read_string_field stored field) (base64_decode BS))
      in case (read_integer_field stored (str ''version''), read_string_field stored (str ''public_key''),
               read_bytes (str ''nonce''), read_bytes (str ''ciphertext''), read_bytes (str ''tag''),
               Option.bind (read_string_field stored (str ''created_at'')) (iso_time_and_zone BS)) of
           (Some version, Some key, Some nonce, Some ciphertext, Some tag, Some (created, zone)) \<Rightarrow>
             let b = \<lparr>backup_version = version, backup_public_key = key, backup_nonce = nonce,
                      backup_ciphertext = ciphertext, backup_tag = tag, backup_created_at = created, backup_has_zone = zone\<rparr>
             in if has_valid_layout b then Inr b else Inl (BackupUnreadable DAMAGED_BACKUP_REASON)
         | _ \<Rightarrow> Inl (BackupUnreadable DAMAGED_BACKUP_REASON))"

text \<open>The nonce is drawn at random for every backup, so it is an argument.\<close>

definition encrypt_node_identity_backup ::
  "backup_services \<Rightarrow> nat list \<Rightarrow> pystr \<Rightarrow> nat list \<Rightarrow> datetime \<Rightarrow> backup_error + identity_backup" where
  "encrypt_node_identity_backup BS nonce public private now =
     (if \<not> is_public_key_hex public
      then Inl (BackupValueError (str ''A backup needs the identity's public key as 64 lower-case hex digits.''))
      else if \<not> belongs_to BS private public
      then Inl (BackupValueError (str ''The private key does not belong to key '' @ take PUBLIC_KEY_PREFIX_LENGTH public @
             str '', so it is not backed up.''))
      else let (ciphertext, tag) = encrypt BS nonce (the (bytes_fromhex public)) private
           in Inr \<lparr>backup_version = BACKUP_FORMAT_VERSION, backup_public_key = public, backup_nonce = nonce,
                   backup_ciphertext = ciphertext, backup_tag = tag, backup_created_at = now, backup_has_zone = True\<rparr>)"

definition decrypt_node_identity_backup :: "backup_services \<Rightarrow> identity_backup \<Rightarrow> backup_error + nat list" where
  "decrypt_node_identity_backup BS b =
     (case decrypt_and_verify BS (backup_nonce b) (the (bytes_fromhex (backup_public_key b))) (backup_ciphertext b) (backup_tag b) of
        None \<Rightarrow> Inl (BackupUnreadable UNDECRYPTABLE_BACKUP_REASON)
      | Some key_bytes \<Rightarrow>
          backup_bind (node_private_key key_bytes) (\<lambda>private.
            if \<not> belongs_to BS private (backup_public_key b) then Inl (BackupUnreadable MISMATCHED_KEY_PAIR_REASON)
            else Inr private))"

definition serialize_node_identity_backup :: "backup_services \<Rightarrow> identity_backup \<Rightarrow> pystr" where
  "serialize_node_identity_backup BS b = json_dumps BS (backup_to_json BS b)"

definition parse_node_identity_backup :: "backup_services \<Rightarrow> pystr \<Rightarrow> backup_error + identity_backup" where
  "parse_node_identity_backup BS stored =
     (case json_loads BS stored of
        None \<Rightarrow> Inl (BackupUnreadable DAMAGED_BACKUP_REASON) | Some document \<Rightarrow> backup_from_json BS document)"

section \<open>The stored value\<close>

definition read_stored_backup_value :: "system \<Rightarrow> pystr option" where
  "read_stored_backup_value s = map_of (node_settings s) NODE_IDENTITY_BACKUP_KEY"

datatype backup_status = BACKUP_ABSENT | BACKUP_STORED | BACKUP_UNREADABLE

record backup_state =
  backup_status :: backup_status
  state_public_key :: pystr
  state_created_at :: "datetime option"
  unreadable_reason :: pystr

definition is_stored_for :: "backup_state \<Rightarrow> pystr \<Rightarrow> bool" where
  "is_stored_for st key \<longleftrightarrow> backup_status st = BACKUP_STORED \<and> key \<noteq> [] \<and> state_public_key st = key"

fun backup_error_text :: "backup_error \<Rightarrow> pystr" where
  "backup_error_text (BackupMissing reason) = reason"
| "backup_error_text (BackupUnreadable reason) = reason"
| "backup_error_text (BackupValueError reason) = reason"

text \<open>Decrypting 64 bytes of ciphertext gives 64 bytes, so the length check of the key does not raise here.\<close>

definition read_node_identity_backup_state :: "backup_services \<Rightarrow> system \<Rightarrow> backup_state" where
  "read_node_identity_backup_state BS s =
     (case read_stored_backup_value s of
        None \<Rightarrow> \<lparr>backup_status = BACKUP_ABSENT, state_public_key = [], state_created_at = None, unreadable_reason = []\<rparr>
      | Some stored \<Rightarrow>
          (case parse_node_identity_backup BS stored of
             Inl e \<Rightarrow> \<lparr>backup_status = BACKUP_UNREADABLE, state_public_key = [], state_created_at = None,
                       unreadable_reason = backup_error_text e\<rparr>
           | Inr b \<Rightarrow>
               (case decrypt_node_identity_backup BS b of
                  Inl e \<Rightarrow> \<lparr>backup_status = BACKUP_UNREADABLE, state_public_key = backup_public_key b,
                            state_created_at = Some (backup_created_at b), unreadable_reason = backup_error_text e\<rparr>
                | Inr _ \<Rightarrow> \<lparr>backup_status = BACKUP_STORED, state_public_key = backup_public_key b,
                            state_created_at = Some (backup_created_at b), unreadable_reason = []\<rparr>)))"

definition is_restorable :: "backup_services \<Rightarrow> system \<Rightarrow> bool" where
  "is_restorable BS s =
     is_stored_for (read_node_identity_backup_state BS s) (read_node_setting_value (setting_key_value NODE_PUBLIC_KEY) s)"

definition load_private_key_for_restore :: "backup_services \<Rightarrow> pystr \<Rightarrow> system \<Rightarrow> backup_error + nat list" where
  "load_private_key_for_restore BS expected s =
     (case read_stored_backup_value s of
        None \<Rightarrow> Inl (BackupMissing MISSING_BACKUP_REASON)
      | Some stored \<Rightarrow>
          backup_bind (parse_node_identity_backup BS stored) (\<lambda>b.
            if backup_public_key b \<noteq> expected
            then Inl (BackupMissing (str ''The stored identity backup belongs to key '' @
                   take PUBLIC_KEY_PREFIX_LENGTH (backup_public_key b) @ str '', not to the relay's key '' @
                   take PUBLIC_KEY_PREFIX_LENGTH expected @ str ''.''))
            else decrypt_node_identity_backup BS b))"

text \<open>\<^verbatim>\<open>update_or_create\<close>\<close>

definition write_node_identity_backup :: "backup_services \<Rightarrow> identity_backup \<Rightarrow> system \<Rightarrow> system" where
  "write_node_identity_backup BS b s =
     s\<lparr>node_settings := AList.update NODE_IDENTITY_BACKUP_KEY (serialize_node_identity_backup BS b) (node_settings s)\<rparr>"

definition store_node_identity_backup ::
  "backup_services \<Rightarrow> nat list \<Rightarrow> pystr \<Rightarrow> nat list \<Rightarrow> datetime \<Rightarrow> system \<Rightarrow> backup_error + bool \<times> system" where
  "store_node_identity_backup BS nonce public private now s =
     (let configured = read_node_setting_value (setting_key_value NODE_PUBLIC_KEY) s
      in if configured = [] \<or> configured \<noteq> public then Inr (False, s)
         else backup_bind (encrypt_node_identity_backup BS nonce public private now) (\<lambda>b.
                Inr (True, write_node_identity_backup BS b s)))"

definition discard_node_identity_backup_of_other_identities :: "backup_services \<Rightarrow> pystr \<Rightarrow> system \<Rightarrow> system" where
  "discard_node_identity_backup_of_other_identities BS key s =
     (case read_stored_backup_value s of
        None \<Rightarrow> s
      | Some stored \<Rightarrow>
          let backed_up_key = (case parse_node_identity_backup BS stored of Inl _ \<Rightarrow> [] | Inr b \<Rightarrow> backup_public_key b)
          in if backed_up_key \<noteq> key
             then s\<lparr>node_settings := filter (\<lambda>(k, _). k \<noteq> NODE_IDENTITY_BACKUP_KEY) (node_settings s)\<rparr>
             else s)"

section \<open>The end of a setup run\<close>

definition record_configuration_completed ::
  "text_conversions \<Rightarrow> backup_services \<Rightarrow> nat \<Rightarrow> node_configuration \<Rightarrow> datetime \<Rightarrow> identity_backup option \<Rightarrow> system \<Rightarrow>
     node_error + system" where
  "record_configuration_completed CV BS i configuration now new_backup s =
     (if (case new_backup of None \<Rightarrow> False | Some b \<Rightarrow> backup_public_key b \<noteq> configured_node_public_key configuration)
      then Inl (NodeValueError (str ''The identity backup written with a configuration must be the configured key's.''))
      else
        node_bind (lock_setup_run i s) (\<lambda>r.
        node_bind (require_setup_run_state r SETUP_CONFIGURING) (\<lambda>_.
          let s1 = replace_node_configuration CV configuration s;
              s2 = (case new_backup of
                      Some b \<Rightarrow> write_node_identity_backup BS b s1
                    | None \<Rightarrow> discard_node_identity_backup_of_other_identities BS (configured_node_public_key configuration) s1)
          in Inr (move_setup_run r SETUP_COMPLETED now (Some []) s2))))"
section \<open>What is stored can be restored\<close>

text \<open>
  What is relied on of the codecs and the cipher: what was encoded is decoded, and what was encrypted decrypts
  with the same nonce and associated data; AES-GCM keeps the length and its tag has 16 bytes.
\<close>

definition backup_services_ok :: "backup_services \<Rightarrow> bool" where
  "backup_services_ok BS \<longleftrightarrow>
     (\<forall>d. json_loads BS (json_dumps BS d) = Some d) \<and> (\<forall>b. base64_decode BS (base64_encode BS b) = Some b) \<and>
     (\<forall>t. iso_time_and_zone BS (utc_isoformat BS t) = Some (t, True)) \<and>
     (\<forall>n a p. let (c, t) = encrypt BS n a p in length c = length p \<and> length t = TAG_BYTES \<and>
        decrypt_and_verify BS n a c t = Some p)"

lemma backup_fields:
  "read_integer_field (backup_to_json BS b) (str ''version'') = Some (backup_version b)"
  "read_string_field (backup_to_json BS b) (str ''public_key'') = Some (backup_public_key b)"
  "read_string_field (backup_to_json BS b) (str ''nonce'') = Some (base64_encode BS (backup_nonce b))"
  "read_string_field (backup_to_json BS b) (str ''ciphertext'') = Some (base64_encode BS (backup_ciphertext b))"
  "read_string_field (backup_to_json BS b) (str ''tag'') = Some (base64_encode BS (backup_tag b))"
  "read_string_field (backup_to_json BS b) (str ''created_at'') = Some (utc_isoformat BS (backup_created_at b))"
  by (simp_all add: backup_to_json_def read_string_field_def read_integer_field_def str_eq_iff)

lemma backup_read_back:
  assumes "backup_services_ok BS" "has_valid_layout b"
  shows "parse_node_identity_backup BS (serialize_node_identity_backup BS b) = Inr b"
proof -
  have codecs: "json_loads BS (json_dumps BS d) = Some d" "base64_decode BS (base64_encode BS bs) = Some bs"
    "iso_time_and_zone BS (utc_isoformat BS t) = Some (t, True)" for d bs t
    using assms(1) by (simp_all add: backup_services_ok_def)
  have zone: "backup_has_zone b" using assms(2) by (simp add: has_valid_layout_def)
  have "backup_from_json BS (backup_to_json BS b) = (if has_valid_layout b then Inr b else Inl (BackupUnreadable DAMAGED_BACKUP_REASON))"
    unfolding backup_from_json_def Let_def backup_fields Option.bind.bind_lunit codecs option.case prod.case using zone
    by (cases b) (simp only: identity_backup.select_convs)
  with assms(2) show ?thesis
    by (simp only: parse_node_identity_backup_def serialize_node_identity_backup_def codecs(1) option.case if_True)
qed

lemma encrypted_backup:
  assumes "backup_services_ok BS" "encrypt_node_identity_backup BS nonce public private now = Inr b"
    and "length nonce = NONCE_BYTES" "length private = PRIVATE_KEY_BYTES"
  shows "has_valid_layout b" "backup_public_key b = public" "decrypt_node_identity_backup BS b = Inr private"
proof -
  obtain c tag where enc: "encrypt BS nonce (the (bytes_fromhex public)) private = (c, tag)"
    by (cases "encrypt BS nonce (the (bytes_fromhex public)) private")
  have "let (c, t) = encrypt BS nonce (the (bytes_fromhex public)) private in length c = length private \<and>
      length t = TAG_BYTES \<and> decrypt_and_verify BS nonce (the (bytes_fromhex public)) c t = Some private"
    using assms(1) unfolding backup_services_ok_def by blast
  with enc have c: "length c = length private" "length tag = TAG_BYTES"
    "decrypt_and_verify BS nonce (the (bytes_fromhex public)) c tag = Some private"
    by simp_all
  from assms(2) enc have valid: "is_public_key_hex public" "belongs_to BS private public"
    and b: "b = \<lparr>backup_version = BACKUP_FORMAT_VERSION, backup_public_key = public, backup_nonce = nonce,
      backup_ciphertext = c, backup_tag = tag, backup_created_at = now, backup_has_zone = True\<rparr>"
    by (auto simp: encrypt_node_identity_backup_def split: if_splits)
  from valid c assms(3,4) show "has_valid_layout b" "backup_public_key b = public" "decrypt_node_identity_backup BS b = Inr private"
    by (simp_all add: b has_valid_layout_def decrypt_node_identity_backup_def node_private_key_def)
qed

lemma written_backup_is_read: "read_stored_backup_value (write_node_identity_backup BS b s) = Some (serialize_node_identity_backup BS b)"
  by (simp add: read_stored_backup_value_def write_node_identity_backup_def update_conv')

lemma stored_backup_restores:
  assumes "backup_services_ok BS" "store_node_identity_backup BS nonce public private now s = Inr (True, s')"
    and "length nonce = NONCE_BYTES" "length private = PRIVATE_KEY_BYTES"
  shows "load_private_key_for_restore BS public s' = Inr private"
proof -
  from assms(2) obtain b where b: "encrypt_node_identity_backup BS nonce public private now = Inr b"
    and s': "s' = write_node_identity_backup BS b s"
    by (auto simp: store_node_identity_backup_def backup_bind_eq_Inr Let_def split: if_splits)
  note enc = encrypted_backup [OF assms(1) b assms(3,4)]
  show ?thesis
    unfolding load_private_key_for_restore_def s' written_backup_is_read
    by (simp add: backup_read_back [OF assms(1) enc(1)] enc)
qed

text \<open>Only the key of the identity that was asked for is ever given back, or ever stored.\<close>

lemma restored_key_belongs: "load_private_key_for_restore BS expected s = Inr key \<Longrightarrow> belongs_to BS key expected"
  by (auto simp: load_private_key_for_restore_def decrypt_node_identity_backup_def backup_bind_eq_Inr
      split: option.splits if_splits)

lemma stored_key_belongs:
  "store_node_identity_backup BS nonce public private now s = Inr (True, s') \<Longrightarrow>
     belongs_to BS private public \<and> read_node_setting_value (setting_key_value NODE_PUBLIC_KEY) s = public"
  by (auto simp: store_node_identity_backup_def encrypt_node_identity_backup_def backup_bind_eq_Inr Let_def split: if_splits)

text \<open>A backup that names another identity, or none that can be read, does not outlive the end of a setup run.\<close>

lemma discard_leaves_own_backup:
  assumes "read_stored_backup_value (discard_node_identity_backup_of_other_identities BS key s) = Some stored" "key \<noteq> []"
  shows "\<exists>b. parse_node_identity_backup BS stored = Inr b \<and> backup_public_key b = key"
proof -
  have none: "map_of (filter (\<lambda>(k, _). k \<noteq> NODE_IDENTITY_BACKUP_KEY) rs) NODE_IDENTITY_BACKUP_KEY = None" for rs :: "(pystr \<times> pystr) list"
    by (induction rs) auto
  with assms show ?thesis
    by (auto simp: discard_node_identity_backup_of_other_identities_def read_stored_backup_value_def Let_def
        split: option.splits sum.splits if_splits)
qed

lemma configuration_completed_settings:
  assumes "record_configuration_completed CV BS i configuration now new_backup s = Inr s'"
    and "conversions_ok CV" "configuration_fits configuration"
  shows "load_node_configuration CV s' = Inr (Some configuration)"
proof -
  let ?required = "\<lambda>(key, _). key \<in> set REQUIRED_NODE_SETTING_KEY_VALUES"
  have update: "filter ?required (AList.update NODE_IDENTITY_BACKUP_KEY v rs) = filter ?required rs" for v rs
    using backup_key_not_required by (induction rs) auto
  have remove: "filter ?required (filter (\<lambda>(k, _). k \<noteq> NODE_IDENTITY_BACKUP_KEY) rs) = filter ?required rs"
    for rs :: "(pystr \<times> pystr) list"
    using backup_key_not_required by (induction rs) auto
  have "filter ?required (node_settings s') = filter ?required (node_settings (replace_node_configuration CV configuration s))"
    using assms(1) update remove
    by (auto simp: record_configuration_completed_def node_bind_eq_Inr Let_def write_node_identity_backup_def
        discard_node_identity_backup_of_other_identities_def move_setup_run_def save_setup_run_def notify_relay_worker_def
        split: option.splits if_splits)
  with written_configuration_is_loaded [OF assms(2,3), of s] show ?thesis
    by (simp add: load_node_configuration_def)
qed

end
