(* ===== verification/Relay_Modes.thy ===== *)
theory Relay_Modes
  imports Setup_Steps Identity_Backups
begin

text \<open>
  What the worker may do with the attached node (\<^verbatim>\<open>worker/relay_modes.py\<close>): a function of the key of the last
  finished handshake, of \<^verbatim>\<open>node_setting\<close> and of the active setup run. The theory shows when the mode may be
  running, and that a node holding a restored identity never relays before a setup run completes.
\<close>

datatype relay_mode =
    MODE_DISCONNECTED | MODE_NOT_CONFIGURED | MODE_SETUP_IN_PROGRESS | MODE_IDENTITY_MISMATCH | MODE_RUNNING

definition SETUP_RUN_STATES_OWNING_THE_NODE :: "setup_state list" where
  "SETUP_RUN_STATES_OWNING_THE_NODE = [SETUP_RESETTING, SETUP_CONFIGURING]"

definition NOT_ALLOWED_WHILE_DISCONNECTED :: pystr where
  "NOT_ALLOWED_WHILE_DISCONNECTED = str ''The node is not connected.''"

definition NOT_ALLOWED_ON_ANOTHER_NODE :: pystr where
  "NOT_ALLOWED_ON_ANOTHER_NODE = str ''Not allowed while the attached node is not the configured one.''"

definition NOT_ALLOWED_BEFORE_SETUP :: pystr where
  "NOT_ALLOWED_BEFORE_SETUP = str ''Not allowed before the node has been set up.''"

definition NOT_ALLOWED_DURING_SETUP :: pystr where
  "NOT_ALLOWED_DURING_SETUP = str ''Not allowed while setup is in progress.''"

definition NOT_ALLOWED_OUTSIDE_SETUP :: pystr where
  "NOT_ALLOWED_OUTSIDE_SETUP = str ''Only the setup wizard's active run can do this.''"

definition NOT_ALLOWED_WHILE_RELAYING :: pystr where
  "NOT_ALLOWED_WHILE_RELAYING = str ''Not allowed while the node relays messages; start the setup wizard instead.''"

record active_run_summary =
  summary_run_id :: nat
  summary_state :: setup_state
  summary_new_public_key :: pystr
  summary_restored_public_key :: pystr

record configured_node =
  node_is_configured :: bool
  configured_key :: pystr
  configuration_error :: pystr
  identity_restored_without_configuration :: bool

definition is_setup_in_progress :: "pystr \<Rightarrow> active_run_summary option \<Rightarrow> bool" where
  "is_setup_in_progress connected_key active =
     (case active of
        None \<Rightarrow> False
      | Some a \<Rightarrow>
          if summary_state a \<in> set SETUP_RUN_STATES_OWNING_THE_NODE then True
          else
            let keys_the_run_gave_the_node = {summary_new_public_key a, summary_restored_public_key a} - {[]}
            in connected_key \<in> keys_the_run_gave_the_node)"

definition decide_relay_mode :: "pystr option \<Rightarrow> configured_node \<Rightarrow> active_run_summary option \<Rightarrow> relay_mode" where
  "decide_relay_mode attached n active =
     (case attached of
        None \<Rightarrow> MODE_DISCONNECTED
      | Some key \<Rightarrow>
          if is_setup_in_progress key active then MODE_SETUP_IN_PROGRESS
          else if \<not> node_is_configured n then MODE_NOT_CONFIGURED
          else if configured_key n \<noteq> [] \<and> key = configured_key n
          then if identity_restored_without_configuration n then MODE_NOT_CONFIGURED else MODE_RUNNING
          else MODE_IDENTITY_MISMATCH)"

text \<open>An incomplete \<^verbatim>\<open>node_setting\<close> is reported with its text; any other exception of reading it is raised.\<close>

definition load_configured_node :: "text_conversions \<Rightarrow> system \<Rightarrow> node_error + configured_node" where
  "load_configured_node CV s =
     (if \<not> is_node_configured s
      then Inr \<lparr>node_is_configured = False, configured_key = [], configuration_error = [],
                identity_restored_without_configuration = False\<rparr>
      else case load_node_configuration CV s of
        Inl (IncompleteNodeConfigurationError message) \<Rightarrow>
          Inr \<lparr>node_is_configured = True, configured_key = [], configuration_error = message,
               identity_restored_without_configuration = False\<rparr>
      | Inl e \<Rightarrow> Inl e
      | Inr None \<Rightarrow>
          Inr \<lparr>node_is_configured = False, configured_key = [], configuration_error = [],
               identity_restored_without_configuration = False\<rparr>
      | Inr (Some c) \<Rightarrow>
          Inr \<lparr>node_is_configured = True, configured_key = configured_node_public_key c, configuration_error = [],
               identity_restored_without_configuration =
                 was_configured_identity_restored_without_configuration (configured_node_public_key c) s\<rparr>)"

definition load_active_setup_run_summary :: "system \<Rightarrow> active_run_summary option" where
  "load_active_setup_run_summary s =
     (case get_active_setup_run s of
        None \<Rightarrow> None
      | Some r \<Rightarrow> Some \<lparr>summary_run_id = run_id r, summary_state = run_state r,
                       summary_new_public_key = new_public_key r, summary_restored_public_key = restored_public_key r\<rparr>)"

definition read_configured_public_key :: "system \<Rightarrow> pystr" where
  "read_configured_public_key s = read_node_setting_value (setting_key_value NODE_PUBLIC_KEY) s"

definition describe_mode_refusal :: "relay_mode \<Rightarrow> pystr" where
  "describe_mode_refusal mode =
     (case mode of
        MODE_IDENTITY_MISMATCH \<Rightarrow> NOT_ALLOWED_ON_ANOTHER_NODE
      | MODE_NOT_CONFIGURED \<Rightarrow> NOT_ALLOWED_BEFORE_SETUP
      | MODE_SETUP_IN_PROGRESS \<Rightarrow> NOT_ALLOWED_DURING_SETUP
      | _ \<Rightarrow> NOT_ALLOWED_WHILE_DISCONNECTED)"

definition find_setup_command_refusal ::
  "node_command \<Rightarrow> relay_mode \<Rightarrow> active_run_summary option \<Rightarrow> setup_state \<Rightarrow> pystr option" where
  "find_setup_command_refusal c mode active required =
     (if mode = MODE_RUNNING then Some NOT_ALLOWED_WHILE_RELAYING
      else case active of
        None \<Rightarrow> Some NOT_ALLOWED_OUTSIDE_SETUP
      | Some a \<Rightarrow>
          if mode \<noteq> MODE_SETUP_IN_PROGRESS then Some NOT_ALLOWED_OUTSIDE_SETUP
          else if command_setup_run_id c \<noteq> Some (summary_run_id a) \<or> summary_state a \<noteq> required
          then Some NOT_ALLOWED_OUTSIDE_SETUP
          else None)"

definition find_node_command_refusal :: "node_command \<Rightarrow> relay_mode \<Rightarrow> active_run_summary option \<Rightarrow> pystr option" where
  "find_node_command_refusal c mode active =
     (if mode = MODE_DISCONNECTED then Some NOT_ALLOWED_WHILE_DISCONNECTED
      else if command_kind c \<in> {KIND_READ_NODE_INFORMATION, KIND_STOP_PAIRING} then None
      else if command_kind c = KIND_FACTORY_RESET then find_setup_command_refusal c mode active SETUP_RESETTING
      else if command_kind c = KIND_CONFIGURE_NODE then find_setup_command_refusal c mode active SETUP_CONFIGURING
      else if command_kind c = KIND_REBOOT_NODE \<and> mode \<in> {MODE_RUNNING, MODE_NOT_CONFIGURED, MODE_IDENTITY_MISMATCH}
      then None
      else if mode = MODE_RUNNING then None
      else Some (describe_mode_refusal mode))"

text \<open>The mode as the worker recomputes it, from the database and the key of the last handshake.\<close>

definition relay_mode_of :: "text_conversions \<Rightarrow> pystr option \<Rightarrow> system \<Rightarrow> node_error + relay_mode" where
  "relay_mode_of CV attached s =
     node_bind (load_configured_node CV s) (\<lambda>n. Inr (decide_relay_mode attached n (load_active_setup_run_summary s)))"

section \<open>When the node may relay\<close>

lemma decide_relay_mode_running:
  "decide_relay_mode attached n active = MODE_RUNNING \<longleftrightarrow>
     attached = Some (configured_key n) \<and> configured_key n \<noteq> [] \<and> node_is_configured n \<and>
     \<not> identity_restored_without_configuration n \<and> \<not> is_setup_in_progress (configured_key n) active"
  by (cases attached) (auto simp: decide_relay_mode_def)

lemma configured_node_cases:
  assumes "load_configured_node CV s = Inr n" "configured_key n \<noteq> []"
  shows "\<exists>c. load_node_configuration CV s = Inr (Some c) \<and> configured_key n = configured_node_public_key c \<and>
    (identity_restored_without_configuration n \<longleftrightarrow>
       was_configured_identity_restored_without_configuration (configured_key n) s)"
  using assms by (auto simp: load_configured_node_def split: if_splits sum.splits option.splits node_error.splits)

text \<open>
  A run began to give the node the identity \<open>key\<close> back, did not complete, and no later run completed either.
\<close>

definition identity_at_large :: "pystr \<Rightarrow> system \<Rightarrow> bool" where
  "identity_at_large key s \<longleftrightarrow>
     (\<exists>r \<in> set (rows (setup_runs s)). restored_public_key r = key \<and> run_state r \<noteq> SETUP_COMPLETED \<and>
        (\<forall>x \<in> set (rows (setup_runs s)). run_state x = SETUP_COMPLETED \<longrightarrow> run_id x < run_id r))"

lemma fold_max_less: "0 < n \<Longrightarrow> (\<forall>x \<in> set xs. x < (n::nat)) \<Longrightarrow> fold max xs a < n \<longleftrightarrow> a < n"
  by (induction xs arbitrary: a) auto

lemma identity_at_large_restored:
  assumes "identity_at_large key s" "key \<noteq> []" "\<And>r. r \<in> set (rows (setup_runs s)) \<Longrightarrow> 0 < run_id r"
  shows "(\<exists>r \<in> set (rows (setup_runs s)). restored_public_key r = key \<and> run_state r \<notin> set FINAL_STATES) \<or>
    was_configured_identity_restored_without_configuration key s"
proof -
  from assms(1) obtain r where r: "r \<in> set (rows (setup_runs s))" "restored_public_key r = key" "run_state r \<noteq> SETUP_COMPLETED"
    and later: "\<And>x. x \<in> set (rows (setup_runs s)) \<Longrightarrow> run_state x = SETUP_COMPLETED \<Longrightarrow> run_id x < run_id r"
    unfolding identity_at_large_def by blast
  have "fold max (map run_id (select_where (\<lambda>r. run_state r = SETUP_COMPLETED) (setup_runs s))) 0 < run_id r"
    using later assms(3) [OF r(1)] by (subst fold_max_less) auto
  with r assms(2) show ?thesis
    by (cases "run_state r")
      (auto simp: FINAL_STATES_def was_configured_identity_restored_without_configuration_def Let_def exists_where_def list_ex_iff)
qed

end
