(* ===== verification/Setup_Properties.thy ===== *)
theory Setup_Properties
  imports Relay_Modes
begin

text \<open>
  What the setup wizard guarantees, over every interleaving of the operator's and the worker's steps: a run and
  its commands stay in step, and a node that may hold the relay's restored identity does not relay before a setup
  run has completed.
\<close>

section \<open>Every step\<close>

text \<open>
  The steps of the operator, of the worker and of the rest of the program, which leaves the runs, the commands and the settings
  alone. Only a configuration that completed replaces the settings, so that step is apart. Restoring an identity names the configured key
  (\<^verbatim>\<open>_import_backed_up_private_key\<close>). Deleting commands older than 90 days is left out: it would forget the
  latest command of a run that waited as long.
\<close>

inductive open_step :: "system \<Rightarrow> system \<Rightarrow> bool" where
  run_started: "start_setup_run now s = Inr (r, s') \<Longrightarrow> open_step s s'"
| reading_retried: "retry_reading_node i now s = Inr (c, s') \<Longrightarrow> open_step s s'"
| reset_confirmed: "confirm_factory_reset i typed now s = Inr (c, s') \<Longrightarrow> open_step s s'"
| configuration_submitted: "submit_node_configuration i requested now s = Inr (c, s') \<Longrightarrow> open_step s s'"
| run_cancelled: "cancel_setup_run i now s = Inr s' \<Longrightarrow> open_step s s'"
| information_read: "record_node_information_read i reported now s = Inr s' \<Longrightarrow> open_step s s'"
| reset_succeeded: "record_factory_reset_succeeded i key now s = Inr s' \<Longrightarrow> open_step s s'"
| restore_started: "record_identity_restore_started i (read_configured_public_key s) s = Inr s' \<Longrightarrow> open_step s s'"
| command_created: "open_step s (snd (create_node_command kind arguments now None s))"
| commands_expired: "expire_pending_node_commands locked now s = Inr (expired, s') \<Longrightarrow> open_step s s'"
| commands_interrupted: "interrupt_running_node_commands now s = Inr (interrupted, s') \<Longrightarrow> open_step s s'"
| command_claimed: "claim_next_node_command locked worker now s = Inr (claimed, s') \<Longrightarrow> open_step s s'"
| progress_recorded: "record_node_command_progress i p s = Inr s' \<Longrightarrow> open_step s s'"
| command_finished: "new_state \<in> set TERMINAL_STATES \<Longrightarrow> new_state \<noteq> COMMAND_CANCELLED \<Longrightarrow>
    finish_node_command i new_state now result message s = Inr (b, s') \<Longrightarrow> open_step s s'"
| setting_updated: "update_node_setting key v s = Inr s' \<Longrightarrow> open_step s s'"
| backup_stored: "store_node_identity_backup BS nonce public private now s = Inr (b, s') \<Longrightarrow> open_step s s'"
| elsewhere: "setup_runs s' = setup_runs s \<Longrightarrow> node_commands s' = node_commands s \<Longrightarrow>
    node_settings s' = node_settings s \<Longrightarrow> open_step s s'"

inductive setup_step :: "system \<Rightarrow> system \<Rightarrow> bool" where
  not_completed: "open_step s s' \<Longrightarrow> setup_step s s'"
| completed: "record_configuration_completed CV BS i configuration now new_backup s = Inr s' \<Longrightarrow> setup_step s s'"

text \<open>The settings change only where the step says so.\<close>

lemma setting_change_frame:
  "update_node_setting key v s = Inr s' \<Longrightarrow> setup_runs s' = setup_runs s \<and> node_commands s' = node_commands s"
  by (auto simp: update_node_setting_def split: if_splits)

lemma backup_store_frame:
  "store_node_identity_backup BS nonce public private now s = Inr (b, s') \<Longrightarrow>
     setup_runs s' = setup_runs s \<and> node_commands s' = node_commands s"
  by (auto simp: store_node_identity_backup_def Let_def backup_bind_def write_node_identity_backup_def
      split: if_splits sum.splits)

lemma configuration_completedE:
  assumes "record_configuration_completed CV BS i configuration now new_backup s = Inr s'"
  obtains r where "r \<in> set (rows (setup_runs s))" "run_id r = i" "run_state r = SETUP_CONFIGURING"
    "setup_runs s' = put_run (moved_run r SETUP_COMPLETED now (Some [])) (setup_runs s)" "node_commands s' = node_commands s"
proof -
  obtain r s2 where r: "lock_setup_run i s = Inr r" "run_state r = SETUP_CONFIGURING"
    and s': "s' = move_setup_run r SETUP_COMPLETED now (Some []) s2"
    and s2: "setup_runs s2 = setup_runs s" "node_commands s2 = node_commands s"
    using assms
    by (auto simp: record_configuration_completed_def node_bind_eq_Inr Let_def require_setup_run_state_def
        replace_node_configuration_def write_node_identity_backup_def discard_node_identity_backup_of_other_identities_def
        split: if_splits option.splits)
  show thesis
    using r s2 lock_setup_runD [OF r(1)] by (intro that [of r]) (auto simp: s')
qed

lemma open_step_ok: "open_step s s' \<Longrightarrow> setup_ok s \<Longrightarrow> setup_ok s'"
proof (induction rule: open_step.induct)
  case (command_created s kind arguments now)
  then show ?case
    by (auto simp: setup_ok_def intro!: commands_ok_create linked_create agree_create_other)
next
  case (commands_expired locked now s expired s')
  then show ?case using expire_pending_ok [of s locked now] by auto
next
  case (commands_interrupted now s interrupted s')
  then show ?case using interrupt_running_ok [of s now] by auto
next
  case (command_claimed locked worker now s claimed s')
  then show ?case using claim_next_ok [of s locked worker now] by auto
qed (blast intro: start_setup_run_ok retry_reading_node_ok confirm_factory_reset_ok submit_node_configuration_ok
    cancel_setup_run_ok record_node_information_read_ok record_factory_reset_succeeded_ok record_identity_restore_started_ok
    record_progress_ok finish_node_command_ok setup_ok_frame dest: setting_change_frame backup_store_frame)+

lemma setup_step_ok: "setup_step s s' \<Longrightarrow> setup_ok s \<Longrightarrow> setup_ok s'"
proof (induction rule: setup_step.induct)
  case (completed CV BS i configuration now new_backup s s')
  from completed.hyps show ?case
  proof (cases rule: configuration_completedE)
    case (1 r)
    then show ?thesis
      by (intro setup_ok_move [OF completed.prems 1(1) refl _ _ 1(4,5)]) (simp_all add: FINAL_STATES_def)
  qed
qed (rule open_step_ok)

definition setup_reachable :: "system \<Rightarrow> bool" where
  "setup_reachable s \<longleftrightarrow> setup_step\<^sup>*\<^sup>* empty_system s"

lemma setup_reachable_ok: "setup_reachable s \<Longrightarrow> setup_ok s"
  unfolding setup_reachable_def
  by (induction rule: rtranclp_induct) (auto simp: setup_ok_empty intro: setup_step_ok)

section \<open>What a step keeps of the restored identities\<close>

definition identities_kept :: "pystr \<Rightarrow> setup_run table \<Rightarrow> setup_run table \<Rightarrow> bool" where
  "identities_kept k rs rs' \<longleftrightarrow>
     (\<forall>r \<in> set (rows rs). \<exists>r' \<in> set (rows rs'). run_id r' = run_id r \<and>
        (restored_public_key r = k \<longrightarrow> restored_public_key r' = k) \<and>
        (run_state r' = SETUP_COMPLETED \<longleftrightarrow> run_state r = SETUP_COMPLETED)) \<and>
     (\<forall>x \<in> set (rows rs'). run_state x = SETUP_COMPLETED \<longrightarrow>
        (\<exists>y \<in> set (rows rs). run_id y = run_id x \<and> run_state y = SETUP_COMPLETED))"

definition ids_grow :: "setup_run table \<Rightarrow> setup_run table \<Rightarrow> bool" where
  "ids_grow rs rs' \<longleftrightarrow> next_id rs \<le> next_id rs' \<and>
     (\<forall>x \<in> set (rows rs'). run_id x \<in> run_id ` set (rows rs) \<or> next_id rs \<le> run_id x)"

text \<open>An unfinished run was unfinished before, and no run has come since, or it is the newest.\<close>

definition newest_stays :: "setup_run table \<Rightarrow> setup_run table \<Rightarrow> bool" where
  "newest_stays rs rs' \<longleftrightarrow>
     (\<forall>x \<in> set (rows rs'). run_state x \<notin> set FINAL_STATES \<longrightarrow>
        (\<exists>y \<in> set (rows rs). run_id y = run_id x \<and> run_state y \<notin> set FINAL_STATES) \<and>
        run_id ` set (rows rs') \<subseteq> run_id ` set (rows rs) \<or>
        (\<forall>z \<in> set (rows rs'). run_id z \<le> run_id x))"

definition runs_kept :: "pystr \<Rightarrow> setup_run table \<Rightarrow> setup_run table \<Rightarrow> bool" where
  "runs_kept k rs rs' \<longleftrightarrow> identities_kept k rs rs' \<and> ids_grow rs rs' \<and> newest_stays rs rs'"

lemma runs_kept_refl [simp]: "runs_kept k rs rs"
  by (auto simp: runs_kept_def identities_kept_def ids_grow_def newest_stays_def)

lemma identities_kept_trans: "identities_kept k rs rs' \<Longrightarrow> identities_kept k rs' rs'' \<Longrightarrow> identities_kept k rs rs''"
  unfolding identities_kept_def by (intro conjI ballI impI; metis)

lemma ids_grow_trans:
  assumes "ids_grow rs rs'" "ids_grow rs' rs''"
  shows "ids_grow rs rs''"
  unfolding ids_grow_def
proof (intro conjI ballI)
  fix x assume "x \<in> set (rows rs'')"
  then consider y where "y \<in> set (rows rs')" "run_id x = run_id y" | "next_id rs' \<le> run_id x"
    using assms(2) by (auto simp: ids_grow_def)
  then show "run_id x \<in> run_id ` set (rows rs) \<or> next_id rs \<le> run_id x"
    using assms(1) by cases (auto simp: ids_grow_def)
qed (use assms in \<open>simp add: ids_grow_def\<close>)

lemma newest_stays_trans:
  assumes "newest_stays rs rs'" "newest_stays rs' rs''"
  shows "newest_stays rs rs''"
  unfolding newest_stays_def
proof (intro ballI impI)
  fix x assume x: "x \<in> set (rows rs'')" "run_state x \<notin> set FINAL_STATES"
  show "(\<exists>y \<in> set (rows rs). run_id y = run_id x \<and> run_state y \<notin> set FINAL_STATES) \<and>
        run_id ` set (rows rs'') \<subseteq> run_id ` set (rows rs) \<or> (\<forall>z \<in> set (rows rs''). run_id z \<le> run_id x)"
  proof (cases "\<forall>z \<in> set (rows rs''). run_id z \<le> run_id x")
    case False
    with x assms(2) obtain y where y: "y \<in> set (rows rs')" "run_id y = run_id x" "run_state y \<notin> set FINAL_STATES"
      and sub: "run_id ` set (rows rs'') \<subseteq> run_id ` set (rows rs')" unfolding newest_stays_def by blast
    with False have "\<not> (\<forall>z \<in> set (rows rs'). run_id z \<le> run_id y)" by (metis imageE image_subset_iff)
    with y assms(1) obtain z where "z \<in> set (rows rs)" "run_id z = run_id y" "run_state z \<notin> set FINAL_STATES"
      "run_id ` set (rows rs') \<subseteq> run_id ` set (rows rs)" unfolding newest_stays_def by blast
    with y sub show ?thesis by (intro disjI1 conjI bexI [of _ z]) auto
  qed simp
qed

lemma newest_stays_put:
  assumes "r \<in> set (rows rs)" "run_id r' = run_id r" "run_state r' \<notin> set FINAL_STATES \<Longrightarrow> run_state r \<notin> set FINAL_STATES"
  shows "newest_stays rs (put_run r' rs)"
proof -
  have "\<exists>y \<in> set (rows rs). run_id y = run_id x \<and> run_state y \<notin> set FINAL_STATES"
    if "x \<in> set (rows (put_run r' rs))" "run_state x \<notin> set FINAL_STATES" for x
    using that assms by (cases "x = r'") (auto simp: put_run_def split: if_splits)
  then show ?thesis unfolding newest_stays_def by simp
qed

lemma runs_kept_trans: "runs_kept k rs rs' \<Longrightarrow> runs_kept k rs' rs'' \<Longrightarrow> runs_kept k rs rs''"
  unfolding runs_kept_def by (blast intro: identities_kept_trans ids_grow_trans newest_stays_trans)

lemma ids_grow_put: "ids_grow rs (put_run r rs)"
proof -
  have "next_id (put_run r rs) = next_id rs" by (simp add: put_run_def)
  moreover have "run_id x \<in> run_id ` set (rows rs)" if "x \<in> set (rows (put_run r rs))" for x
    using imageI [OF that, of run_id] by simp
  ultimately show ?thesis by (simp add: ids_grow_def)
qed

lemma runs_kept_put:
  assumes "keys_ok run_id rs" "r \<in> set (rows rs)" "run_id r' = run_id r"
    and "restored_public_key r' \<in> {restored_public_key r, k}" "run_state r \<notin> set FINAL_STATES" "run_state r' \<noteq> SETUP_COMPLETED"
  shows "runs_kept k rs (put_run r' rs)"
proof -
  have same: "x = r" if "x \<in> set (rows rs)" "run_id x = run_id r'" for x
    using assms(1,2,3) that setup_run_table.key_unique by metis
  have new: "\<exists>y \<in> set (rows (put_run r' rs)). run_id y = run_id x \<and> (restored_public_key x = k \<longrightarrow> restored_public_key y = k) \<and>
      (run_state y = SETUP_COMPLETED \<longleftrightarrow> run_state x = SETUP_COMPLETED)" if x: "x \<in> set (rows rs)" for x
  proof (cases "run_id x = run_id r'")
    case True
    with same x have "x = r" by blast
    moreover have "r' \<in> set (rows (put_run r' rs))" using x True by (auto simp: put_run_def image_iff)
    ultimately show ?thesis using assms(3-6) by (intro bexI [of _ r']) (auto simp: FINAL_STATES_def)
  next
    case False
    then have "x \<in> set (rows (put_run r' rs))" using x by (auto simp: put_run_def image_iff)
    then show ?thesis by blast
  qed
  have old: "\<exists>y \<in> set (rows rs). run_id y = run_id x \<and> run_state y = SETUP_COMPLETED"
    if "x \<in> set (rows (put_run r' rs))" "run_state x = SETUP_COMPLETED" for x
    using that assms(6) by (auto simp: put_run_def split: if_splits)
  from new old show ?thesis unfolding runs_kept_def identities_kept_def using ids_grow_put newest_stays_put [OF assms(2,3)] assms(5) by blast
qed

lemma runs_kept_move_back:
  assumes "move_back c now s = Inr s2" "keys_ok run_id (setup_runs s)"
  shows "runs_kept k (setup_runs s) (setup_runs s2) \<and> keys_ok run_id (setup_runs s2) \<and> node_settings s2 = node_settings s"
  using assms
  by (auto simp: move_back_def fall_back_after_unsuccessful_command_def fall_back_after_unsuccessful_factory_reset_def
      node_bind_eq_Inr Let_def keys_ok_put FINAL_STATES_def split: option.splits if_splits dest!: lock_setup_runD intro!: runs_kept_put)

lemma runs_kept_end_commands:
  "end_commands new_state message cs now s = Inr (ended, s') \<Longrightarrow> keys_ok run_id (setup_runs s) \<Longrightarrow>
     runs_kept k (setup_runs s) (setup_runs s') \<and> keys_ok run_id (setup_runs s') \<and> node_settings s' = node_settings s"
proof (induction cs arbitrary: s ended)
  case (Cons c cs)
  let ?c = "c\<lparr>command_state := new_state, command_finished_at := Some now, command_error_message := message\<rparr>"
  from Cons.prems(1) obtain s2 ended' where step: "move_back ?c now (save_node_command ?c s) = Inr s2"
    and rest: "end_commands new_state message cs now s2 = Inr (ended', s')"
    by (auto simp: end_commands_move_back Let_def node_bind_eq_Inr simp del: end_commands.simps)
  from runs_kept_move_back [OF step] Cons.prems(2)
  have "runs_kept k (setup_runs s) (setup_runs s2)" "keys_ok run_id (setup_runs s2)"
    "node_settings s2 = node_settings s" by auto
  with Cons.IH [OF rest] show ?case by (auto intro: runs_kept_trans)
qed simp

lemma identity_at_large_kept:
  "identity_at_large k s \<Longrightarrow> runs_kept k (setup_runs s) (setup_runs s') \<Longrightarrow> identity_at_large k s'"
  unfolding identity_at_large_def runs_kept_def identities_kept_def by (metis (no_types, lifting))

lemma runs_kept_insert:
  assumes "run_state (mk (next_id rs)) \<noteq> SETUP_COMPLETED" "run_id (mk (next_id rs)) = next_id rs"
    and "keys_ok run_id rs" "\<And>r. r \<in> set (rows rs) \<Longrightarrow> run_state r \<in> set FINAL_STATES"
  shows "runs_kept k rs (insert_row mk rs)"
proof -
  have "identities_kept k rs (insert_row mk rs)" "ids_grow rs (insert_row mk rs)"
    using assms(1,2) by (auto simp: identities_kept_def ids_grow_def)
  moreover have "newest_stays rs (insert_row mk rs)"
    using assms(2-4) by (fastforce simp: newest_stays_def keys_ok_def)
  ultimately show ?thesis by (simp add: runs_kept_def)
qed

text \<open>A setting other than the key of the node is updated, and the backup has a key of its own.\<close>

lemma setting_update_keeps_key:
  assumes "update_node_setting key v s = Inr s'"
  shows "read_configured_public_key s' = read_configured_public_key s"
proof -
  have others: "map_of (map (\<lambda>(k, old). if k = K then (k, v) else (k, old)) rs) k' = map_of rs k'" if "k' \<noteq> K"
    for K k' :: pystr and rs
    using that by (induction rs) auto
  from assms have "key \<in> set KEYS_UPDATABLE_AFTER_SETUP"
    by (auto simp: update_node_setting_def split: if_splits)
  then have "setting_key_value NODE_PUBLIC_KEY \<noteq> setting_key_value key"
    by (auto simp: KEYS_UPDATABLE_AFTER_SETUP_def str_eq_iff)
  with assms others [of "setting_key_value NODE_PUBLIC_KEY" "setting_key_value key"] show ?thesis
    by (auto simp: update_node_setting_def read_configured_public_key_def read_node_setting_value_def
        simp del: setting_key_value.simps split: if_splits)
qed

lemma backup_store_keeps_key:
  assumes "store_node_identity_backup BS nonce public private now s = Inr (b, s')"
  shows "read_configured_public_key s' = read_configured_public_key s"
proof -
  have "NODE_IDENTITY_BACKUP_KEY \<noteq> setting_key_value NODE_PUBLIC_KEY"
    by (simp add: NODE_IDENTITY_BACKUP_KEY_def str_eq_iff)
  with assms show ?thesis
    by (auto simp: store_node_identity_backup_def Let_def backup_bind_def write_node_identity_backup_def
        read_configured_public_key_def read_node_setting_value_def update_conv
        simp del: setting_key_value.simps split: if_splits sum.splits)
qed

definition step_keeps :: "system \<Rightarrow> system \<Rightarrow> bool" where
  "step_keeps s s' \<longleftrightarrow> runs_kept (read_configured_public_key s) (setup_runs s) (setup_runs s') \<and>
     read_configured_public_key s' = read_configured_public_key s"

text \<open>A step that writes one unfinished run, and no setting.\<close>

lemma kept_by_put:
  assumes "setup_ok s" "lock_setup_run i s = Inr r" "setup_runs s' = put_run r' (setup_runs s)"
    and "run_id r' = run_id r" "restored_public_key r' \<in> {restored_public_key r, read_configured_public_key s}"
    and "run_state r \<notin> set FINAL_STATES" "run_state r' \<noteq> SETUP_COMPLETED" "node_settings s' = node_settings s"
  shows "step_keeps s s'"
  using assms lock_setup_runD [OF assms(2)] runs_kept_put [of "setup_runs s" r r']
  by (simp add: setup_ok_def runs_ok_def read_configured_public_key_def read_node_setting_value_def step_keeps_def)

lemma open_step_kept:
  "open_step s s' \<Longrightarrow> setup_ok s \<Longrightarrow>
     step_keeps s s'"
proof (induction rule: open_step.induct)
  case (run_started now s r s')
  have "run_state x \<in> set FINAL_STATES" if "x \<in> set (rows (setup_runs s))" for x
    using run_started that active_unless_final [of x]
    by (auto simp: start_setup_run_def Let_def exists_where_def list_ex_iff setup_ok_def runs_ok_def all_rows_def split: if_splits)
  moreover have "keys_ok run_id (setup_runs s)" using run_started(2) by (simp add: setup_ok_def runs_ok_def)
  ultimately show ?case
    using run_started(1)
    by (auto simp: start_setup_run_def Let_def split_beta read_configured_public_key_def read_node_setting_value_def step_keeps_def
        new_setup_run_def intro!: runs_kept_insert split: if_splits)
next
  case (reading_retried i now s c s')
  then show ?case
    by (auto simp: retry_reading_node_def node_bind_eq_Inr require_setup_run_state_def FINAL_STATES_def Let_def split_beta
        cancel_pending_setup_run_commands_def cancel_commands_changes intro!: kept_by_put split: if_splits)
next
  case (reset_confirmed i typed now s c s')
  then obtain r where r: "lock_setup_run i s = Inr r" "run_state r = SETUP_AWAITING_RESET_CONFIRMATION"
    and "s' = snd (create_node_command KIND_FACTORY_RESET (setup_run_argument r) now (Some (run_id r))
                  (move_setup_run r SETUP_RESETTING now (Some []) s))"
    by (auto simp: confirm_factory_reset_def node_bind_eq_Inr require_setup_run_state_def FINAL_STATES_def split: if_splits)
  then show ?case by (intro kept_by_put [OF reset_confirmed(2) r(1), of _ "moved_run r SETUP_RESETTING now (Some [])"]) (auto simp: FINAL_STATES_def)
next
  case (configuration_submitted i requested now s c s')
  then obtain r where r: "lock_setup_run i s = Inr r" "run_state r = SETUP_AWAITING_CONFIGURATION"
    and "s' = snd (create_node_command KIND_CONFIGURE_NODE (setup_run_argument r) now (Some (run_id r))
                (move_setup_run (r\<lparr>requested_configuration := Some requested\<rparr>) SETUP_CONFIGURING now (Some [])
                  (save_setup_run (r\<lparr>requested_configuration := Some requested\<rparr>) s)))"
    by (auto simp: submit_node_configuration_def node_bind_eq_Inr require_setup_run_state_def FINAL_STATES_def Let_def split: if_splits)
  then show ?case by (intro kept_by_put [OF configuration_submitted(2) r(1), of _
        "moved_run (r\<lparr>requested_configuration := Some requested\<rparr>) SETUP_CONFIGURING now (Some [])"]) (auto simp: FINAL_STATES_def)
next
  case (run_cancelled i now s s')
  then show ?case
    by (auto simp: cancel_setup_run_def node_bind_eq_Inr CANCELLABLE_STATES_def FINAL_STATES_def cancel_pending_setup_run_commands_def
        cancel_commands_changes intro!: kept_by_put split: if_splits)
next
  case (information_read i reported now s s')
  from information_read(1) show ?case
  proof (cases rule: record_node_information_readE)
    case left_alone
    then show ?thesis by (simp add: step_keeps_def)
  next
    case (was_reset r key)
    then show ?thesis by (intro kept_by_put [OF information_read(2) was_reset(1), of _
          "moved_run (r\<lparr>new_public_key := key\<rparr>) SETUP_AWAITING_CONFIGURATION now (Some [])"]) (auto simp: FINAL_STATES_def)
  next
    case (was_read r r')
    then show ?thesis by (intro kept_by_put [OF information_read(2) was_read(1), of _
          "moved_run r' SETUP_AWAITING_RESET_CONFIRMATION now (Some [])"]) (auto simp: FINAL_STATES_def)
  qed
next
  case (reset_succeeded i key now s s')
  then show ?case
    by (auto simp: record_factory_reset_succeeded_def node_bind_eq_Inr require_setup_run_state_def FINAL_STATES_def
        intro!: kept_by_put split: if_splits)
next
  case (restore_started i s s')
  then show ?case
    by (auto simp: record_identity_restore_started_def node_bind_eq_Inr require_setup_run_state_def FINAL_STATES_def
        intro!: kept_by_put split: if_splits)
next
  case (command_created s kind arguments now)
  then show ?case by (simp add: read_configured_public_key_def read_node_setting_value_def step_keeps_def)
next
  case (commands_expired locked now s expired s')
  then show ?case
    using runs_kept_end_commands
    by (auto simp: expire_pending_node_commands_def setup_ok_def runs_ok_def read_configured_public_key_def read_node_setting_value_def step_keeps_def)
next
  case (commands_interrupted now s interrupted s')
  then show ?case
    using runs_kept_end_commands
    by (auto simp: interrupt_running_node_commands_def setup_ok_def runs_ok_def read_configured_public_key_def read_node_setting_value_def step_keeps_def)
next
  case (command_claimed locked worker now s claimed s')
  then obtain expired s1 where s1: "expire_pending_node_commands locked now s = Inr (expired, s1)"
    "setup_runs s' = setup_runs s1" "node_settings s' = node_settings s1"
    by (auto simp: claim_next_node_command_def node_bind_eq_Inr Let_def split: option.splits if_splits)
  with command_claimed(2) runs_kept_end_commands [OF s1(1) [unfolded expire_pending_node_commands_def]] show ?case
    by (auto simp: setup_ok_def runs_ok_def read_configured_public_key_def read_node_setting_value_def step_keeps_def)
next
  case (progress_recorded i p s s')
  then show ?case
    by (auto simp: record_node_command_progress_def read_configured_public_key_def read_node_setting_value_def step_keeps_def split: option.splits)
next
  case (command_finished new_state i now result message s b s')
  have "keys_ok command_id (node_commands s)" "keys_ok run_id (setup_runs s)"
    using command_finished(4) by (simp_all add: setup_ok_def commands_ok_def runs_ok_def)
  with command_finished(3) show ?case
  proof (cases rule: finish_node_commandE)
    case (finished c c')
    with \<open>keys_ok run_id (setup_runs s)\<close> runs_kept_move_back [of c' now "save_node_command c' s" s'] show ?thesis
      by (auto simp: read_configured_public_key_def read_node_setting_value_def step_keeps_def split: if_splits)
  qed (simp add: step_keeps_def)
next
  case (setting_updated key v s s')
  then show ?case using setting_change_frame [of key v s s'] setting_update_keeps_key [of key v s s'] by (simp add: step_keeps_def)
next
  case (backup_stored BS nonce public secret now s b s')
  then show ?case
    using backup_store_frame [OF backup_stored(1)] backup_store_keeps_key [OF backup_stored(1)] by (simp add: step_keeps_def)
qed (simp add: read_configured_public_key_def read_node_setting_value_def step_keeps_def)

lemma open_steps_kept:
  "open_step\<^sup>*\<^sup>* s s' \<Longrightarrow> setup_ok s \<Longrightarrow> setup_ok s' \<and> step_keeps s s'"
proof (induction rule: rtranclp_induct)
  case (step t u)
  then show ?case
    using open_step_ok [of t u] open_step_kept [of t u]
    by (auto simp: step_keeps_def intro: runs_kept_trans)
qed (simp add: step_keeps_def)

section \<open>A restored identity that no configuration completed\<close>

lemma load_gives_stored_key:
  assumes "load_node_configuration CV s = Inr (Some c)"
  shows "configured_node_public_key c = read_configured_public_key s"
proof -
  let ?stored = "filter (\<lambda>(key, _). key \<in> set REQUIRED_NODE_SETTING_KEY_VALUES) (node_settings s)"
  have "parse_node_configuration CV ?stored = Inr c"
    using assms by (auto simp: load_node_configuration_def Let_def node_bind_eq_Inr split: if_splits)
  then have "read_text ?stored NODE_PUBLIC_KEY = Inr (configured_node_public_key c)"
    unfolding parse_node_configuration_def node_bind_eq_Inr by force
  moreover have "map_of (filter (\<lambda>(key, _). key \<in> K) rs) k = map_of rs k" if "k \<in> K" for K k and rs :: "(pystr \<times> pystr) list"
    using that by (induction rs) auto
  moreover have "setting_key_value NODE_PUBLIC_KEY \<in> set REQUIRED_NODE_SETTING_KEY_VALUES"
    by (simp add: REQUIRED_NODE_SETTING_KEY_VALUES_def NODE_SETTING_KEYS_def)
  ultimately show ?thesis
    by (auto simp: read_text_def read_configured_public_key_def read_node_setting_value_def
        simp del: setting_key_value.simps split: option.splits)
qed

text \<open>Primary keys start at 1.\<close>

definition ids_positive :: "setup_run table \<Rightarrow> bool" where
  "ids_positive rs \<longleftrightarrow> 0 < next_id rs \<and> (\<forall>r \<in> set (rows rs). 0 < run_id r)"

lemma ids_positive_grow:
  assumes "ids_positive rs" "ids_grow rs rs'"
  shows "ids_positive rs'"
proof -
  have "0 < run_id x" if x: "x \<in> set (rows rs')" for x
  proof -
    from assms(2) x consider y where "y \<in> set (rows rs)" "run_id x = run_id y" | "next_id rs \<le> run_id x"
      by (auto simp: ids_grow_def)
    then show ?thesis using assms(1) by cases (auto simp: ids_positive_def)
  qed
  then show ?thesis using assms by (auto simp: ids_positive_def ids_grow_def)
qed

text \<open>An unfinished run is the newest one.\<close>

definition open_is_newest :: "setup_run table \<Rightarrow> bool" where
  "open_is_newest rs \<longleftrightarrow>
     (\<forall>r \<in> set (rows rs). run_state r \<notin> set FINAL_STATES \<longrightarrow> (\<forall>x \<in> set (rows rs). run_id x \<le> run_id r))"

lemma open_is_newest_stays:
  assumes "open_is_newest rs" "newest_stays rs rs'"
  shows "open_is_newest rs'"
  unfolding open_is_newest_def
proof (intro ballI impI)
  fix r x assume r: "r \<in> set (rows rs')" "run_state r \<notin> set FINAL_STATES" and x: "x \<in> set (rows rs')"
  show "run_id x \<le> run_id r"
  proof (cases "\<forall>z \<in> set (rows rs'). run_id z \<le> run_id r")
    case False
    with assms(2) r obtain y where y: "y \<in> set (rows rs)" "run_id y = run_id r" "run_state y \<notin> set FINAL_STATES"
      and "run_id ` set (rows rs') \<subseteq> run_id ` set (rows rs)" unfolding newest_stays_def by blast
    then obtain z where "z \<in> set (rows rs)" "run_id z = run_id x" using x by (metis imageE image_subset_iff)
    with y assms(1) show ?thesis unfolding open_is_newest_def by fastforce
  qed (use x in blast)
qed

lemma setup_step_grows:
  "setup_step s s' \<Longrightarrow> setup_ok s \<Longrightarrow> ids_grow (setup_runs s) (setup_runs s') \<and> newest_stays (setup_runs s) (setup_runs s')"
proof (induction rule: setup_step.induct)
  case (not_completed s s')
  then show ?case using open_step_kept by (auto simp: step_keeps_def runs_kept_def)
next
  case (completed CV BS i configuration now new_backup s s')
  from completed.hyps show ?case
  proof (cases rule: configuration_completedE)
    case (1 r)
    then show ?thesis by (simp add: ids_grow_put newest_stays_put [of r] FINAL_STATES_def)
  qed
qed

definition ids_ok :: "system \<Rightarrow> bool" where
  "ids_ok s \<longleftrightarrow> setup_ok s \<and> ids_positive (setup_runs s) \<and> open_is_newest (setup_runs s)"

lemma setup_reachable_ids:
  assumes "setup_reachable s"
  shows "ids_ok s"
  using assms unfolding setup_reachable_def
proof (induction rule: rtranclp_induct)
  case base
  show ?case
    by (simp add: ids_ok_def setup_ok_empty) (simp add: ids_positive_def open_is_newest_def empty_system_def empty_table_def)
next
  case (step t u)
  then show ?case
    using setup_step_ok [of t u] setup_step_grows [of t u] ids_positive_grow open_is_newest_stays
    by (auto simp: ids_ok_def)
qed

lemma short_list_unique: "length xs \<le> 1 \<Longrightarrow> x \<in> set xs \<Longrightarrow> y \<in> set xs \<Longrightarrow> x = y"
  by (cases xs) auto

lemma active_run_found:
  assumes "setup_ok s" "r \<in> set (rows (setup_runs s))" "run_is_active r"
  shows "get_active_setup_run s = Some r"
proof -
  have "length (filter run_is_active (rows (setup_runs s))) \<le> 1"
    using assms(1) by (simp add: setup_ok_def runs_ok_def count_where_def)
  then have only: "x = r" if "x \<in> set (rows (setup_runs s))" "run_is_active x" for x
    by (rule short_list_unique) (use assms(2,3) that in auto)
  show ?thesis
  proof (cases "get_active_setup_run s")
    case None
    with first_where_NoneD [of run_is_active "setup_runs s" r] assms(2,3) show ?thesis
      by (simp add: get_active_setup_run_def)
  next
    case (Some x)
    with first_where_SomeD [of run_is_active "setup_runs s" x] only show ?thesis
      by (simp add: get_active_setup_run_def)
  qed
qed

lemma identity_at_large_never_runs:
  assumes "setup_ok s" "ids_positive (setup_runs s)" "identity_at_large (read_configured_public_key s) s"
  shows "relay_mode_of CV attached s \<noteq> Inr MODE_RUNNING"
proof
  assume "relay_mode_of CV attached s = Inr MODE_RUNNING"
  then obtain n where n: "load_configured_node CV s = Inr n"
    and running: "decide_relay_mode attached n (load_active_setup_run_summary s) = MODE_RUNNING"
    by (auto simp: relay_mode_of_def node_bind_eq_Inr)
  note mode = running [unfolded decide_relay_mode_running]
  from configured_node_cases [OF n] mode obtain c where c: "load_node_configuration CV s = Inr (Some c)"
    "configured_key n = configured_node_public_key c"
    and known: "\<not> was_configured_identity_restored_without_configuration (configured_key n) s" by auto
  have key: "configured_key n = read_configured_public_key s"
    using load_gives_stored_key [OF c(1)] c(2) by simp
  have "read_configured_public_key s \<noteq> []" "0 < run_id r" if "r \<in> set (rows (setup_runs s))" for r
    using mode key assms(2) that by (auto simp: ids_positive_def)
  with identity_at_large_restored [OF assms(3)] known key mode obtain r
    where r: "r \<in> set (rows (setup_runs s))" "restored_public_key r = configured_key n" "run_state r \<notin> set FINAL_STATES"
    by metis
  with assms(1) have "run_is_active r"
    by (intro active_unless_final) (auto simp: setup_ok_def runs_ok_def all_rows_def)
  with active_run_found [OF assms(1) r(1)] r mode show False
    by (auto simp: is_setup_in_progress_def load_active_setup_run_summary_def split: if_splits)
qed

lemma restore_started_at_large:
  assumes "ids_ok s" "record_identity_restore_started i (read_configured_public_key s) s = Inr s1"
  shows "identity_at_large (read_configured_public_key s1) s1"
proof -
  let ?key = "read_configured_public_key s"
  from assms(2) obtain r where r: "lock_setup_run i s = Inr r" "run_state r = SETUP_CONFIGURING"
    and s1: "s1 = save_setup_run (r\<lparr>restored_public_key := ?key\<rparr>) s"
    by (auto simp: record_identity_restore_started_def node_bind_eq_Inr require_setup_run_state_def split: if_splits)
  from lock_setup_runD [OF r(1)] have row: "r \<in> set (rows (setup_runs s))" by simp
  have newest: "run_id x \<le> run_id r" if "x \<in> set (rows (setup_runs s))" for x
    using assms(1) row r(2) that by (auto simp: ids_ok_def open_is_newest_def FINAL_STATES_def)
  have single: "x = r" if "x \<in> set (rows (setup_runs s))" "run_id x = run_id r" for x
    using assms(1) that row setup_run_table.key_unique [of "setup_runs s" x r] by (auto simp: ids_ok_def setup_ok_def runs_ok_def)
  have "r\<lparr>restored_public_key := ?key\<rparr> \<in> set (rows (setup_runs s1))"
    using row by (force simp: s1 put_run_def image_iff)
  moreover have "run_id x < run_id r" if x: "x \<in> set (rows (setup_runs s1))" "run_state x = SETUP_COMPLETED" for x
  proof -
    from x r(2) have "x \<in> set (rows (setup_runs s))" "run_id x \<noteq> run_id r"
      using single by (auto simp: s1 put_run_def split: if_splits)
    with newest show ?thesis by (simp add: le_neq_implies_less)
  qed
  moreover have "read_configured_public_key s1 = ?key"
    by (simp add: s1 read_configured_public_key_def read_node_setting_value_def)
  ultimately show ?thesis
    using r(2) unfolding identity_at_large_def by (intro bexI [of _ "r\<lparr>restored_public_key := ?key\<rparr>"]) auto
qed

end
