(* ===== verification/Contact_Cards.thy ===== *)
theory Contact_Cards
  imports Byte_Strings
begin

text \<open>
  Contact cards (\<^verbatim>\<open>node/contact_cards.py\<close>): \<^verbatim>\<open>meshcore://\<close> and a signed advert packet in hexadecimal digits. The
  verifier of Ed25519 signatures (pycryptodome) is a parameter: \<open>verify key message signature\<close>. A reference
  encoder writes the layout the module documents; what it writes is read back, whatever the transport codes and
  the path in front of the advert.
\<close>

definition CONTACT_CARD_URI_PREFIX :: pystr where
  "CONTACT_CARD_URI_PREFIX = str ''meshcore://''"

definition CONTACT_NAME_MAXIMUM_BYTES :: nat where
  "CONTACT_NAME_MAXIMUM_BYTES = 31"

definition PAYLOAD_TYPE_ADVERT :: nat where
  "PAYLOAD_TYPE_ADVERT = 4"

definition SUPPORTED_PAYLOAD_VERSION :: nat where
  "SUPPORTED_PAYLOAD_VERSION = 0"

definition ROUTE_TYPES_WITH_TRANSPORT_CODES :: "nat list" where
  "ROUTE_TYPES_WITH_TRANSPORT_CODES = [0, 3]"

definition TRANSPORT_CODES_SIZE :: nat where
  "TRANSPORT_CODES_SIZE = 4"

definition MAXIMUM_PATH_SIZE :: nat where
  "MAXIMUM_PATH_SIZE = 64"

definition RESERVED_PATH_HASH_SIZE :: nat where
  "RESERVED_PATH_HASH_SIZE = 4"

definition PUBLIC_KEY_SIZE :: nat where
  "PUBLIC_KEY_SIZE = 32"

definition TIMESTAMP_SIZE :: nat where
  "TIMESTAMP_SIZE = 4"

definition SIGNATURE_SIZE :: nat where
  "SIGNATURE_SIZE = 64"

definition MAXIMUM_APP_DATA_SIZE :: nat where
  "MAXIMUM_APP_DATA_SIZE = 32"

definition SIGNATURE_OFFSET :: nat where
  "SIGNATURE_OFFSET = PUBLIC_KEY_SIZE + TIMESTAMP_SIZE"

definition APP_DATA_OFFSET :: nat where
  "APP_DATA_OFFSET = SIGNATURE_OFFSET + SIGNATURE_SIZE"

definition FLAG_HAS_LOCATION :: nat where
  "FLAG_HAS_LOCATION = 0x10"

definition FLAG_HAS_FEATURE_1 :: nat where
  "FLAG_HAS_FEATURE_1 = 0x20"

definition FLAG_HAS_FEATURE_2 :: nat where
  "FLAG_HAS_FEATURE_2 = 0x40"

definition FLAG_HAS_NAME :: nat where
  "FLAG_HAS_NAME = 0x80"

definition NODE_TYPE_MASK :: nat where
  "NODE_TYPE_MASK = 0x0F"

definition LOCATION_SIZE :: nat where
  "LOCATION_SIZE = 8"

definition FEATURE_SIZE :: nat where
  "FEATURE_SIZE = 2"

lemmas card_constants =
  PAYLOAD_TYPE_ADVERT_def SUPPORTED_PAYLOAD_VERSION_def ROUTE_TYPES_WITH_TRANSPORT_CODES_def TRANSPORT_CODES_SIZE_def
  MAXIMUM_PATH_SIZE_def RESERVED_PATH_HASH_SIZE_def PUBLIC_KEY_SIZE_def TIMESTAMP_SIZE_def SIGNATURE_SIZE_def
  MAXIMUM_APP_DATA_SIZE_def SIGNATURE_OFFSET_def APP_DATA_OFFSET_def FLAG_HAS_LOCATION_def FLAG_HAS_FEATURE_1_def
  FLAG_HAS_FEATURE_2_def FLAG_HAS_NAME_def NODE_TYPE_MASK_def LOCATION_SIZE_def FEATURE_SIZE_def

text \<open>\<^verbatim>\<open>MeshCoreNodeType\<close> is an integer in the source: the numbers 0 to 4 have a name.\<close>

definition NODE_TYPE_CHAT :: int where
  "NODE_TYPE_CHAT = 1"

definition describe_node_type :: "int \<Rightarrow> pystr" where
  "describe_node_type t =
     (if t = 0 then str ''node without a type'' else if t = 1 then str ''chat node'' else if t = 2 then str ''repeater''
      else if t = 3 then str ''room server'' else if t = 4 then str ''sensor''
      else str ''node of unknown type '' @ str_of_int t)"

section \<open>Parsing\<close>

text \<open>\<^verbatim>\<open>InvalidContactCardError\<close> with its text; a name that cannot be encoded raises \<^verbatim>\<open>UnicodeEncodeError\<close>.\<close>

datatype card_error = InvalidContactCardError pystr | CardUnicodeEncodeError

definition card_bind :: "card_error + 'a \<Rightarrow> ('a \<Rightarrow> card_error + 'b) \<Rightarrow> card_error + 'b" where
  "card_bind m f = (case m of Inl e \<Rightarrow> Inl e | Inr x \<Rightarrow> f x)"

lemma card_bind_simps [simp]: "card_bind (Inl e) f = Inl e" "card_bind (Inr x) f = f x"
  by (simp_all add: card_bind_def)

lemma card_bind_eq_Inr: "card_bind m f = Inr y \<longleftrightarrow> (\<exists>x. m = Inr x \<and> f x = Inr y)"
  by (cases m) auto

record contact_card =
  card_public_key :: pystr
  card_advert_timestamp :: int
  card_node_type :: int
  card_name :: pystr
  card_latitude_microdegrees :: int
  card_longitude_microdegrees :: int
  contact_card_uri :: pystr

record advert_details =
  details_node_type :: int
  details_name :: pystr
  details_latitude :: int
  details_longitude :: int

definition truncate_contact_name :: "pystr \<Rightarrow> card_error + pystr" where
  "truncate_contact_name name =
     (case encode_utf8 name of
        Inl _ \<Rightarrow> Inl CardUnicodeEncodeError
      | Inr encoded \<Rightarrow> Inr (decode_utf8_ignore (take CONTACT_NAME_MAXIMUM_BYTES encoded)))"

definition decode_card_bytes :: "pystr \<Rightarrow> card_error + nat list" where
  "decode_card_bytes normalized =
     (if take (length CONTACT_CARD_URI_PREFIX) (lower normalized) \<noteq> CONTACT_CARD_URI_PREFIX
      then Inl (InvalidContactCardError (str ''A contact card starts with '' @ CONTACT_CARD_URI_PREFIX @ str ''.''))
      else case bytes_fromhex (drop (length CONTACT_CARD_URI_PREFIX) normalized) of
             None \<Rightarrow> Inl (InvalidContactCardError
               (str ''The text after '' @ CONTACT_CARD_URI_PREFIX @ str '' must be hexadecimal digits.''))
           | Some [] \<Rightarrow> Inl (InvalidContactCardError (str ''The card is empty.''))
           | Some card_bytes \<Rightarrow> Inr card_bytes)"

text \<open>The first byte is there: the caller decoded at least one.\<close>

definition extract_advert_payload :: "nat list \<Rightarrow> card_error + nat list" where
  "extract_advert_payload card_bytes =
     (let header = hd card_bytes;
          route_type = header AND 3;
          payload_type = drop_bit 2 header AND 0x0F;
          payload_version = drop_bit 6 header;
          offset = 1 + (if route_type \<in> set ROUTE_TYPES_WITH_TRANSPORT_CODES then TRANSPORT_CODES_SIZE else 0)
      in if payload_type \<noteq> PAYLOAD_TYPE_ADVERT
         then Inl (InvalidContactCardError
           (str ''This is a MeshCore packet of type '' @ str_of_int (int payload_type) @ str '', not an advert.''))
         else if payload_version \<noteq> SUPPORTED_PAYLOAD_VERSION
         then Inl (InvalidContactCardError
           (str ''Adverts of payload version '' @ str_of_int (int payload_version) @ str '' are not supported.''))
         else if length card_bytes \<le> offset
         then Inl (InvalidContactCardError (str ''The card ends before its path length.''))
         else
           let encoded_path_length = card_bytes ! offset;
               path_hash_size = drop_bit 6 encoded_path_length + 1;
               path_hash_count = encoded_path_length AND 0x3F;
               path_size = path_hash_size * path_hash_count
           in if path_hash_size = RESERVED_PATH_HASH_SIZE \<or> path_size > MAXIMUM_PATH_SIZE
              then Inl (InvalidContactCardError (str ''The card's path length is not valid.''))
              else
                let advert_payload = drop (offset + 1 + path_size) card_bytes
                in if length advert_payload < APP_DATA_OFFSET + 1
                   then Inl (InvalidContactCardError (str ''The card is too short to hold a signed advert.''))
                   else Inr advert_payload)"

definition verify_advert_signature ::
  "(nat list \<Rightarrow> nat list \<Rightarrow> nat list \<Rightarrow> bool) \<Rightarrow> nat list \<Rightarrow> nat list \<Rightarrow> nat list \<Rightarrow> card_error + unit" where
  "verify_advert_signature verify key signed_fields signature =
     (if verify key (key @ signed_fields) signature then Inr ()
      else Inl (InvalidContactCardError
        (str ''The card's signature does not verify: it was changed or copied incompletely.'')))"

definition parse_app_data :: "nat list \<Rightarrow> card_error + advert_details" where
  "parse_app_data app_data =
     (let flags = hd app_data;
          has_location = flags AND FLAG_HAS_LOCATION \<noteq> 0
      in if has_location \<and> length app_data < 1 + LOCATION_SIZE
         then Inl (InvalidContactCardError (str ''The card announces a location but does not hold one.''))
         else
           let latitude = (if has_location then signed_int_from_bytes_little (take 4 (drop 1 app_data)) else 0);
               longitude = (if has_location then signed_int_from_bytes_little (take 4 (drop 5 app_data)) else 0);
               offset = 1 + (if has_location then LOCATION_SIZE else 0)
                          + (if flags AND FLAG_HAS_FEATURE_1 \<noteq> 0 then FEATURE_SIZE else 0)
                          + (if flags AND FLAG_HAS_FEATURE_2 \<noteq> 0 then FEATURE_SIZE else 0);
               name = (if flags AND FLAG_HAS_NAME \<noteq> 0
                       then decode_utf8_ignore (takeWhile (\<lambda>b. b \<noteq> 0) (drop offset app_data)) else [])
           in card_bind (truncate_contact_name name) (\<lambda>truncated.
                Inr \<lparr>details_node_type = int (flags AND NODE_TYPE_MASK), details_name = truncated,
                     details_latitude = latitude, details_longitude = longitude\<rparr>))"

definition parse_contact_card_uri ::
  "(nat list \<Rightarrow> nat list \<Rightarrow> nat list \<Rightarrow> bool) \<Rightarrow> pystr \<Rightarrow> card_error + contact_card" where
  "parse_contact_card_uri verify uri =
     (let normalized = filter (\<lambda>c. \<not> is_python_space c) uri
      in card_bind (decode_card_bytes normalized) (\<lambda>card_bytes.
         card_bind (extract_advert_payload card_bytes) (\<lambda>advert_payload.
           let key = take PUBLIC_KEY_SIZE advert_payload;
               timestamp_bytes = take TIMESTAMP_SIZE (drop PUBLIC_KEY_SIZE advert_payload);
               signature = take SIGNATURE_SIZE (drop SIGNATURE_OFFSET advert_payload);
               app_data = take MAXIMUM_APP_DATA_SIZE (drop APP_DATA_OFFSET advert_payload)
           in card_bind (verify_advert_signature verify key (timestamp_bytes @ app_data) signature) (\<lambda>_.
              card_bind (parse_app_data app_data) (\<lambda>details.
                Inr \<lparr>card_public_key = bytes_hex key, card_advert_timestamp = int_from_bytes_little timestamp_bytes,
                     card_node_type = details_node_type details, card_name = details_name details,
                     card_latitude_microdegrees = details_latitude details,
                     card_longitude_microdegrees = details_longitude details, contact_card_uri = normalized\<rparr>)))))"

section \<open>Names\<close>

text \<open>A truncated name is the longest prefix of the name that fits in 31 bytes.\<close>

lemma truncate_contact_name_longest:
  assumes "truncate_contact_name name = Inr truncated" "\<forall>c \<in> set name. c < 0x110000"
  shows "truncated = take (length truncated) name \<and> utf8_length truncated \<le> CONTACT_NAME_MAXIMUM_BYTES \<and>
    (truncated \<noteq> name \<longrightarrow> CONTACT_NAME_MAXIMUM_BYTES < utf8_length (take (Suc (length truncated)) name))"
proof -
  from assms(1) have clean: "\<not> contains_surrogate name"
    and r: "decode_utf8_ignore (take CONTACT_NAME_MAXIMUM_BYTES (concat (map utf8_bytes name))) = truncated"
    by (auto simp: truncate_contact_name_def encode_utf8_def split: if_splits sum.splits)
  have "list_all scalar_value name"
    using assms(2) clean by (induction name) (auto simp: scalar_value_def)
  from decode_cut_text [OF this r] show ?thesis
    by (metis nat_less_le take_all_iff le_less_linear length_take min.absorb2 not_less)
qed

text \<open>What was decoded from bytes has no surrogates, so its truncation never raises.\<close>

lemma truncate_short_name:
  assumes "list_all scalar_value name" "utf8_length name \<le> CONTACT_NAME_MAXIMUM_BYTES"
  shows "truncate_contact_name name = Inr name"
proof -
  have "\<not> contains_surrogate name" using assms(1) by (induction name) (auto simp: scalar_value_def)
  moreover have "length (concat (map utf8_bytes name)) \<le> CONTACT_NAME_MAXIMUM_BYTES"
    using assms(2) by (simp add: utf8_length_def length_concat comp_def)
  ultimately show ?thesis
    using decode_encoded_text [OF assms(1)] by (simp add: truncate_contact_name_def encode_utf8_def)
qed
lemma empty_name: "truncate_contact_name [] = Inr []"
  by (rule truncate_short_name) simp_all

section \<open>A written card is read\<close>

text \<open>
  The layout of the module's description. \<open>advert_location\<close>, \<open>advert_feature_1\<close> and \<open>advert_feature_2\<close> are there or
  not, as the flags say, and an empty name is an advert without one.
\<close>

record advert =
  advert_key :: "nat list"
  advert_time :: int
  advert_type :: nat
  advert_location :: "(int \<times> int) option"
  advert_feature_1 :: "nat list option"
  advert_feature_2 :: "nat list option"
  advert_label :: pystr

definition encode_app_data :: "advert \<Rightarrow> nat list" where
  "encode_app_data a =
     [advert_type a + (if advert_location a = None then 0 else 16) + (if advert_feature_1 a = None then 0 else 32) +
        (if advert_feature_2 a = None then 0 else 64) + (if advert_label a = [] then 0 else 128)] @
     (case advert_location a of None \<Rightarrow> [] | Some (lat, lon) \<Rightarrow> int_to_bytes_little 4 lat @ int_to_bytes_little 4 lon) @
     (case advert_feature_1 a of None \<Rightarrow> [] | Some w \<Rightarrow> w) @ (case advert_feature_2 a of None \<Rightarrow> [] | Some w \<Rightarrow> w) @
     concat (map utf8_bytes (advert_label a))"

definition encode_advert :: "advert \<Rightarrow> nat list \<Rightarrow> nat list" where
  "encode_advert a signature = advert_key a @ int_to_bytes_little 4 (advert_time a) @ signature @ encode_app_data a"

text \<open>The packet around the advert: the route type, its transport codes, and the path with its encoded length.\<close>

definition encode_packet :: "nat \<Rightarrow> nat list \<Rightarrow> nat \<Rightarrow> nat \<Rightarrow> nat list \<Rightarrow> nat list \<Rightarrow> nat list" where
  "encode_packet route codes hash_size hash_count path payload =
     [16 + route] @ codes @ [64 * (hash_size - 1) + hash_count] @ path @ payload"

definition packet_frame_ok :: "nat \<Rightarrow> nat list \<Rightarrow> nat \<Rightarrow> nat \<Rightarrow> nat list \<Rightarrow> bool" where
  "packet_frame_ok route codes hash_size hash_count path \<longleftrightarrow>
     route < 4 \<and> length codes = (if route \<in> {0, 3} then 4 else 0) \<and> 1 \<le> hash_size \<and> hash_size < 4 \<and> hash_count < 64 \<and>
     length path = hash_size * hash_count \<and> hash_size * hash_count \<le> 64 \<and> bytes_ok codes \<and> bytes_ok path"

definition advert_ok :: "advert \<Rightarrow> bool" where
  "advert_ok a \<longleftrightarrow>
     length (advert_key a) = 32 \<and> bytes_ok (advert_key a) \<and> 0 \<le> advert_time a \<and> advert_time a < 2 ^ 32 \<and>
     advert_type a < 16 \<and>
     (case advert_location a of None \<Rightarrow> True
      | Some (lat, lon) \<Rightarrow> - (2 ^ 31) \<le> lat \<and> lat < 2 ^ 31 \<and> - (2 ^ 31) \<le> lon \<and> lon < 2 ^ 31) \<and>
     (case advert_feature_1 a of None \<Rightarrow> True | Some w \<Rightarrow> length w = 2 \<and> bytes_ok w) \<and>
     (case advert_feature_2 a of None \<Rightarrow> True | Some w \<Rightarrow> length w = 2 \<and> bytes_ok w) \<and>
     list_all (\<lambda>c. scalar_value c \<and> c \<noteq> 0) (advert_label a) \<and> length (encode_app_data a) \<le> 32"

definition card_of_advert :: "advert \<Rightarrow> pystr \<Rightarrow> contact_card" where
  "card_of_advert a uri =
     \<lparr>card_public_key = bytes_hex (advert_key a), card_advert_timestamp = advert_time a,
      card_node_type = int (advert_type a), card_name = advert_label a,
      card_latitude_microdegrees = (case advert_location a of None \<Rightarrow> 0 | Some (lat, lon) \<Rightarrow> lat),
      card_longitude_microdegrees = (case advert_location a of None \<Rightarrow> 0 | Some (lat, lon) \<Rightarrow> lon),
      contact_card_uri = uri\<rparr>"

lemma and_flag_iff: "(n :: nat) AND 2 ^ k \<noteq> 0 \<longleftrightarrow> odd (n div 2 ^ k)"
  by (simp add: and_exp_eq_0_iff_not_bit bit_iff_odd)

lemma flag_bits:
  fixes t flags :: nat
  assumes "t < 16" and flags_def: "flags = t + (if b1 then 0 else 16) + (if b2 then 0 else 32) + (if b3 then 0 else 64) + (if b4 then 0 else 128)"
  shows "flags AND FLAG_HAS_LOCATION \<noteq> 0 \<longleftrightarrow> \<not> b1" "flags AND FLAG_HAS_FEATURE_1 \<noteq> 0 \<longleftrightarrow> \<not> b2"
    "flags AND FLAG_HAS_FEATURE_2 \<noteq> 0 \<longleftrightarrow> \<not> b3" "flags AND FLAG_HAS_NAME \<noteq> 0 \<longleftrightarrow> \<not> b4" "flags AND NODE_TYPE_MASK = t"
proof -
  define m where "m = (if b1 then 0 else 1) + (if b2 then 0 else 2) + (if b3 then 0 else 4) + (if b4 then 0 else (8 :: nat))"
  have flags: "flags = t + 16 * m" unfolding flags_def m_def by simp
  have div_flags: "flags div 16 = m" "flags div 32 = m div 2" "flags div 64 = m div 4" "flags div 128 = m div 8"
    using assms(1) unfolding flags by simp_all
  have odd_m: "odd m \<longleftrightarrow> \<not> b1" "odd (m div 2) \<longleftrightarrow> \<not> b2" "odd (m div 4) \<longleftrightarrow> \<not> b3" "odd (m div 8) \<longleftrightarrow> \<not> b4"
    unfolding m_def by (cases b1; cases b2; cases b3; cases b4; simp)+
  show "flags AND FLAG_HAS_LOCATION \<noteq> 0 \<longleftrightarrow> \<not> b1" "flags AND FLAG_HAS_FEATURE_1 \<noteq> 0 \<longleftrightarrow> \<not> b2"
    "flags AND FLAG_HAS_FEATURE_2 \<noteq> 0 \<longleftrightarrow> \<not> b3" "flags AND FLAG_HAS_NAME \<noteq> 0 \<longleftrightarrow> \<not> b4"
    using and_flag_iff [of flags 4] and_flag_iff [of flags 5] and_flag_iff [of flags 6] and_flag_iff [of flags 7]
    by (simp_all add: card_constants div_flags odd_m)
  have "flags AND NODE_TYPE_MASK = flags mod 16"
    using take_bit_eq_mask [of 4 flags] by (simp add: NODE_TYPE_MASK_def take_bit_eq_mod mask_eq_exp_minus_1)
  then show "flags AND NODE_TYPE_MASK = t"
    using assms(1) unfolding flags by simp
qed

lemma utf8_bytes_nonzero: "scalar_value c \<Longrightarrow> c \<noteq> 0 \<Longrightarrow> b \<in> set (utf8_bytes c) \<Longrightarrow> b \<noteq> 0"
  by (auto simp: utf8_bytes_def split: if_splits)

lemma parse_encoded_app_data:
  assumes "advert_ok a"
  shows "parse_app_data (encode_app_data a) = Inr \<lparr>details_node_type = int (advert_type a), details_name = advert_label a,
    details_latitude = (case advert_location a of None \<Rightarrow> 0 | Some (lat, lon) \<Rightarrow> lat),
    details_longitude = (case advert_location a of None \<Rightarrow> 0 | Some (lat, lon) \<Rightarrow> lon)\<rparr>"
proof -
  have a: "advert_type a < 16" "list_all (\<lambda>c. scalar_value c \<and> c \<noteq> 0) (advert_label a)" "length (encode_app_data a) \<le> 32"
    using assms by (simp_all add: advert_ok_def)
  have scalar: "list_all scalar_value (advert_label a)" using a(2) by (simp add: list_all_iff)
  note flags = flag_bits [OF a(1) refl, of "advert_location a = None" "advert_feature_1 a = None" "advert_feature_2 a = None"
      "advert_label a = []"]
  have bytes: "takeWhile ((<) 0) (concat (map utf8_bytes (advert_label a))) = concat (map utf8_bytes (advert_label a))"
    using a(2) utf8_bytes_nonzero unfolding takeWhile_eq_all_conv list_all_iff by fastforce
  have "utf8_length (advert_label a) \<le> CONTACT_NAME_MAXIMUM_BYTES"
    using a(3) by (simp add: encode_app_data_def utf8_length_def length_concat comp_def CONTACT_NAME_MAXIMUM_BYTES_def)
  then have name: "truncate_contact_name (advert_label a) = Inr (advert_label a)"
    using truncate_short_name [OF scalar] by simp
  show ?thesis
    using assms
    unfolding parse_app_data_def encode_app_data_def Let_def append_Cons append_Nil list.sel flags
    by (cases "advert_location a"; cases "advert_feature_1 a"; cases "advert_feature_2 a"; cases "advert_label a = []")
      (simp_all add: bytes name empty_name decode_encoded_text [OF scalar] signed_from_to_bytes advert_ok_def LOCATION_SIZE_def
        FEATURE_SIZE_def case_prod_beta)
qed
lemma nat_masks: "(m :: nat) AND 3 = m mod 4" "m AND 15 = m mod 16" "m AND 63 = m mod 64"
  using take_bit_eq_mask [of 2 m] take_bit_eq_mask [of 4 m] take_bit_eq_mask [of 6 m]
  by (simp_all add: take_bit_eq_mod mask_eq_exp_minus_1)

lemma extract_encoded_packet:
  assumes "packet_frame_ok route codes hash_size hash_count path" "APP_DATA_OFFSET < length payload"
  shows "extract_advert_payload (encode_packet route codes hash_size hash_count path payload) = Inr payload"
proof -
  have frame: "route < 4" "hash_count < 64" "length codes = (if route \<in> {0, 3} then 4 else 0)"
    using assms(1) by (simp_all add: packet_frame_ok_def)
  obtain h where h: "hash_size = Suc h" "h < 3" "Suc h * hash_count \<le> 64" "length path = Suc h * hash_count"
    using assms(1) by (cases hash_size) (auto simp: packet_frame_ok_def)
  define n header where nh: "n = 64 * h + hash_count" "header = 16 + route"
  have packet: "encode_packet route codes hash_size hash_count path payload = header # codes @ n # path @ payload"
    by (simp add: encode_packet_def h(1) nh)
  have "(16 + route) mod 4 = route" "(16 + route) div 4 mod 16 = 4" using frame(1) by presburger+
  then have header: "header AND 3 = route" "drop_bit 2 header AND 15 = 4" "drop_bit 6 header = 0"
    using frame(1) by (simp_all add: nat_masks drop_bit_eq_div nh)
  have path: "drop_bit 6 n = h" "n AND 63 = hash_count"
    using frame(2) by (simp_all add: nat_masks drop_bit_eq_div nh)
  have "drop (6 + k) (header # xs) = drop (5 + k) xs" for k xs
  proof -
    have "6 + k = Suc (5 + k)" by simp
    then show ?thesis by (simp only: drop_Suc_Cons)
  qed
  then show ?thesis
    unfolding packet using frame(3) assms(2) h(2-4)
    by (cases "route \<in> {0, 3}") (auto simp: extract_advert_payload_def Let_def card_constants nth_append header path)
qed

lemma advert_sizes:
  assumes "advert_ok a"
  shows "length (advert_key a) = 32" "encode_app_data a \<noteq> []" "length (encode_app_data a) \<le> 32"
  using assms by (simp_all add: advert_ok_def encode_app_data_def)

lemma advert_bytes_ok: "advert_ok a \<Longrightarrow> bytes_ok (encode_app_data a)"
proof -
  have utf8: "bytes_ok (utf8_bytes c)" if "scalar_value c" for c
    using that by (cases rule: utf8_bytes_cases) auto
  assume a: "advert_ok a"
  then have "bytes_ok (concat (map utf8_bytes (advert_label a)))"
    using utf8 by (auto simp: advert_ok_def list_all_iff bytes_ok_def)
  with a show ?thesis
    by (auto simp: encode_app_data_def advert_ok_def case_prod_beta split: option.splits)
qed

lemma decode_written_card:
  assumes "bytes_ok bs" "bs \<noteq> []"
  shows "decode_card_bytes (CONTACT_CARD_URI_PREFIX @ bytes_hex bs) = Inr bs"
proof -
  have "lower CONTACT_CARD_URI_PREFIX = CONTACT_CARD_URI_PREFIX" by code_simp
  then show ?thesis
    using assms by (simp add: decode_card_bytes_def lower_def split: list.split)
qed

lemma written_card_no_space:
  assumes "bytes_ok bs"
  shows "filter (\<lambda>c. \<not> is_python_space c) (CONTACT_CARD_URI_PREFIX @ bytes_hex bs) = CONTACT_CARD_URI_PREFIX @ bytes_hex bs"
proof -
  have "list_all (\<lambda>c. \<not> is_python_space c) CONTACT_CARD_URI_PREFIX"
    by (simp add: CONTACT_CARD_URI_PREFIX_def str_def is_python_space_def in_range_def)
  with bytes_hex_no_space [OF assms] show ?thesis unfolding list_all_iff by (subst filter_id_conv) auto
qed

lemma parse_written_card:
  assumes frame: "packet_frame_ok route codes hash_size hash_count path" and a: "advert_ok a"
    and signature: "length signature = 64" "bytes_ok signature"
    and uri: "filter (\<lambda>c. \<not> is_python_space c) uri =
      CONTACT_CARD_URI_PREFIX @ bytes_hex (encode_packet route codes hash_size hash_count path (encode_advert a signature))"
  shows "parse_contact_card_uri verify uri =
    (if verify (advert_key a) (advert_key a @ int_to_bytes_little 4 (advert_time a) @ encode_app_data a) signature
     then Inr (card_of_advert a (filter (\<lambda>c. \<not> is_python_space c) uri))
     else Inl (InvalidContactCardError (str ''The card's signature does not verify: it was changed or copied incompletely.'')))"
proof -
  let ?packet = "encode_packet route codes hash_size hash_count path (encode_advert a signature)"
  have "bytes_ok ?packet"
    using frame a signature advert_bytes_ok [OF a]
    by (auto simp: encode_packet_def packet_frame_ok_def encode_advert_def advert_ok_def)
  then have card: "decode_card_bytes (filter (\<lambda>c. \<not> is_python_space c) uri) = Inr ?packet"
    unfolding uri by (rule decode_written_card) (simp add: encode_packet_def)
  have payload: "extract_advert_payload ?packet = Inr (encode_advert a signature)"
    using advert_sizes [OF a] signature(1)
    by (intro extract_encoded_packet [OF frame]) (simp add: encode_advert_def card_constants Suc_le_eq)
  have fields: "take PUBLIC_KEY_SIZE (encode_advert a signature) = advert_key a"
    "take TIMESTAMP_SIZE (drop PUBLIC_KEY_SIZE (encode_advert a signature)) = int_to_bytes_little 4 (advert_time a)"
    "take SIGNATURE_SIZE (drop SIGNATURE_OFFSET (encode_advert a signature)) = signature"
    "take MAXIMUM_APP_DATA_SIZE (drop APP_DATA_OFFSET (encode_advert a signature)) = encode_app_data a"
    using advert_sizes [OF a] signature(1) by (simp_all add: encode_advert_def card_constants)
  have time: "int_from_bytes_little (int_to_bytes_little 4 (advert_time a)) = advert_time a"
    using a by (intro int_from_to_bytes_unsigned) (simp_all add: advert_ok_def)
  show ?thesis
    unfolding parse_contact_card_uri_def Let_def card card_bind_simps payload fields
    by (simp add: verify_advert_signature_def parse_encoded_app_data [OF a] time card_of_advert_def)
qed

text \<open>Whatever text is accepted, its signature was verified over the key, the time and the data the card was read from.\<close>

lemma accepted_card_is_signed:
  assumes "parse_contact_card_uri verify uri = Inr read_card"
  shows "\<exists>key time_bytes app_data signature. verify key (key @ time_bytes @ app_data) signature \<and>
    length key = 32 \<and> length time_bytes = 4 \<and> length signature = 64 \<and> app_data \<noteq> [] \<and> length app_data \<le> 32 \<and>
    card_public_key read_card = bytes_hex key \<and> card_advert_timestamp read_card = int_from_bytes_little time_bytes \<and>
    (\<exists>details. parse_app_data app_data = Inr details \<and> card_node_type read_card = details_node_type details \<and>
       card_name read_card = details_name details \<and> card_latitude_microdegrees read_card = details_latitude details \<and>
       card_longitude_microdegrees read_card = details_longitude details)"
proof -
  from assms obtain card_bytes payload details where payload: "extract_advert_payload card_bytes = Inr payload"
    and signed: "verify (take PUBLIC_KEY_SIZE payload) (take PUBLIC_KEY_SIZE payload @
       take TIMESTAMP_SIZE (drop PUBLIC_KEY_SIZE payload) @ take MAXIMUM_APP_DATA_SIZE (drop APP_DATA_OFFSET payload))
       (take SIGNATURE_SIZE (drop SIGNATURE_OFFSET payload))"
    and details: "parse_app_data (take MAXIMUM_APP_DATA_SIZE (drop APP_DATA_OFFSET payload)) = Inr details"
    and read_card: "read_card = \<lparr>card_public_key = bytes_hex (take PUBLIC_KEY_SIZE payload),
        card_advert_timestamp = int_from_bytes_little (take TIMESTAMP_SIZE (drop PUBLIC_KEY_SIZE payload)),
        card_node_type = details_node_type details, card_name = details_name details,
        card_latitude_microdegrees = details_latitude details, card_longitude_microdegrees = details_longitude details,
        contact_card_uri = filter (\<lambda>c. \<not> is_python_space c) uri\<rparr>"
    by (auto simp: parse_contact_card_uri_def Let_def card_bind_eq_Inr verify_advert_signature_def split: if_splits)
  have "APP_DATA_OFFSET < length payload"
    using payload by (auto simp: extract_advert_payload_def Let_def split: if_splits)
  with signed details read_card show ?thesis
    by (intro exI [of _ "take PUBLIC_KEY_SIZE payload"] exI [of _ "take TIMESTAMP_SIZE (drop PUBLIC_KEY_SIZE payload)"]
        exI [of _ "take MAXIMUM_APP_DATA_SIZE (drop APP_DATA_OFFSET payload)"]
        exI [of _ "take SIGNATURE_SIZE (drop SIGNATURE_OFFSET payload)"]) (auto simp: card_constants)
qed

end
