(* ===== verification/Pairing_Sessions.thy ===== *)
theory Pairing_Sessions
  imports Setup_Steps "HOL-Library.Product_Lexorder"
begin

text \<open>
  Pairing mode (\<^verbatim>\<open>node/pairing_sessions.py\<close>): at most one session is active, every session ends once, and the
  adverts heard meanwhile are counted per key.
\<close>

definition ADDING_ALLOWED_AFTER_SESSION_END_MINUTES :: int where
  "ADDING_ALLOWED_AFTER_SESSION_END_MINUTES = 15"

definition HEARD_ADVERT_RETENTION_DAYS :: int where
  "HEARD_ADVERT_RETENTION_DAYS = 7"

definition MICRODEGREES_PER_DEGREE :: rat where
  "MICRODEGREES_PER_DEGREE = 1000000"

definition get_active_pairing_session :: "system \<Rightarrow> pairing_session option" where
  "get_active_pairing_session s = first_where (\<lambda>p. pairing_state p = PAIRING_ACTIVE) (pairing_sessions s)"

definition get_latest_pairing_session :: "system \<Rightarrow> pairing_session option" where
  "get_latest_pairing_session s =
     (case rev (sort_key (\<lambda>p. (pairing_started_at p, pairing_id p)) (rows (pairing_sessions s))) of
        [] \<Rightarrow> None | p # _ \<Rightarrow> Some p)"

definition is_adding_allowed :: "pairing_session \<Rightarrow> datetime \<Rightarrow> bool" where
  "is_adding_allowed p now =
     (if pairing_state p = PAIRING_ACTIVE then True
      else
        let session_end = (case pairing_finished_at p of Some t \<Rightarrow> t | None \<Rightarrow> pairing_ends_at p)
        in now \<le> session_end + timedelta_of_seconds (60 * ADDING_ALLOWED_AFTER_SESSION_END_MINUTES))"

definition new_pairing_session :: "int \<Rightarrow> int \<Rightarrow> bool \<Rightarrow> nat option \<Rightarrow> datetime \<Rightarrow> nat \<Rightarrow> pairing_session" where
  "new_pairing_session duration_seconds interval_seconds flood command now key =
     \<lparr>pairing_id = key, pairing_state = PAIRING_ACTIVE, pairing_started_at = now,
      pairing_ends_at = now + timedelta_of_seconds duration_seconds, advert_interval_seconds = interval_seconds,
      adverts_sent = 0, advert_flood = flood, last_advert_at = None, pairing_finished_at = None, start_command_id = command\<rparr>"

text \<open>The unique constraint \<^verbatim>\<open>pairing_single_active_session\<close> refuses a second active session.\<close>

definition start_pairing_session ::
  "int \<Rightarrow> int \<Rightarrow> bool \<Rightarrow> nat option \<Rightarrow> datetime \<Rightarrow> system \<Rightarrow> node_error + pairing_session \<times> system" where
  "start_pairing_session duration_seconds interval_seconds flood command now s =
     (if exists_where (\<lambda>p. pairing_state p = PAIRING_ACTIVE) (pairing_sessions s)
      then Inl (NodeValueError (str ''A pairing session is already active.''))
      else
        let mk = new_pairing_session duration_seconds interval_seconds flood command now
        in Inr (mk (next_id (pairing_sessions s)), s\<lparr>pairing_sessions := insert_row mk (pairing_sessions s)\<rparr>))"

definition record_pairing_advert_sent :: "nat \<Rightarrow> datetime \<Rightarrow> system \<Rightarrow> system" where
  "record_pairing_advert_sent i now s =
     s\<lparr>pairing_sessions := update_where (\<lambda>p. pairing_id p = i)
         (\<lambda>p. p\<lparr>adverts_sent := adverts_sent p + 1, last_advert_at := Some now\<rparr>) (pairing_sessions s)\<rparr>"

definition stop_pairing_session :: "nat \<Rightarrow> datetime \<Rightarrow> system \<Rightarrow> bool \<times> system" where
  "stop_pairing_session i now s =
     (let active = (\<lambda>p. pairing_id p = i \<and> pairing_state p = PAIRING_ACTIVE)
      in (count_where active (pairing_sessions s) = 1,
          s\<lparr>pairing_sessions := update_where active
              (\<lambda>p. p\<lparr>pairing_state := PAIRING_STOPPED, pairing_finished_at := Some now\<rparr>) (pairing_sessions s)\<rparr>))"

definition end_expired_pairing_sessions :: "datetime \<Rightarrow> system \<Rightarrow> pairing_session list \<times> system" where
  "end_expired_pairing_sessions now s =
     (let expired = (\<lambda>p. pairing_state p = PAIRING_ACTIVE \<and> pairing_ends_at p \<le> now);
          finish = (\<lambda>p. p\<lparr>pairing_state := PAIRING_ENDED, pairing_finished_at := Some now\<rparr>)
      in (map finish (select_where expired (pairing_sessions s)),
          s\<lparr>pairing_sessions := update_where expired finish (pairing_sessions s)\<rparr>))"

text \<open>
  The library's payload of a heard advert. A field it leaves out has the default of the source; degrees are exact
  numbers here, while the source rounds a binary float.
\<close>

record heard_contact =
  heard_public_key :: pystr
  heard_type :: int
  heard_name :: "pystr option"
  heard_last_advert :: "int option"
  heard_latitude_degrees :: "rat option"
  heard_longitude_degrees :: "rat option"
  heard_payload :: json

definition convert_degrees_to_microdegrees :: "rat option \<Rightarrow> int" where
  "convert_degrees_to_microdegrees degrees =
     round_half_even ((case degrees of None \<Rightarrow> 0 | Some d \<Rightarrow> d) * MICRODEGREES_PER_DEGREE)"

definition with_heard_fields :: "heard_contact \<Rightarrow> heard_advert \<Rightarrow> heard_advert" where
  "with_heard_fields h a =
     a\<lparr>advert_name := (case heard_name h of None \<Rightarrow> [] | Some n \<Rightarrow> n), advert_node_type := heard_type h,
        advert_clock := (case heard_last_advert h of None \<Rightarrow> 0 | Some t \<Rightarrow> t),
        advert_latitude := convert_degrees_to_microdegrees (heard_latitude_degrees h),
        advert_longitude := convert_degrees_to_microdegrees (heard_longitude_degrees h),
        contact_record := heard_payload h\<rparr>"

definition new_heard_advert :: "nat \<Rightarrow> heard_contact \<Rightarrow> datetime \<Rightarrow> nat \<Rightarrow> heard_advert" where
  "new_heard_advert session h now key =
     with_heard_fields h
       \<lparr>advert_id = key, advert_session_id = session, advert_public_key = lower (heard_public_key h), advert_name = [],
        advert_node_type = 0, advert_clock = 0, advert_latitude = 0, advert_longitude = 0, contact_record = JNull,
        first_heard_at = now, last_heard_advert_at = now, heard_count = 1, added_contact_id = None\<rparr>"

definition record_heard_advert :: "nat \<Rightarrow> heard_contact \<Rightarrow> datetime \<Rightarrow> system \<Rightarrow> heard_advert \<times> system" where
  "record_heard_advert session h now s =
     (case first_where (\<lambda>a. advert_session_id a = session \<and> advert_public_key a = lower (heard_public_key h)) (heard_adverts s) of
        None \<Rightarrow>
          (new_heard_advert session h now (next_id (heard_adverts s)),
           s\<lparr>heard_adverts := insert_row (new_heard_advert session h now) (heard_adverts s)\<rparr>)
      | Some a \<Rightarrow>
          let change = (\<lambda>x. with_heard_fields h (x\<lparr>last_heard_advert_at := now, heard_count := heard_count x + 1\<rparr>))
          in (change a, s\<lparr>heard_adverts := update_where (\<lambda>x. advert_id x = advert_id a) change (heard_adverts s)\<rparr>))"

definition delete_old_heard_adverts :: "datetime \<Rightarrow> system \<Rightarrow> nat \<times> system" where
  "delete_old_heard_adverts now s =
     (let old = (\<lambda>a. exists_where (\<lambda>p. pairing_id p = advert_session_id a \<and>
                      (case pairing_finished_at p of None \<Rightarrow> False
                       | Some t \<Rightarrow> t < now - timedelta_of_seconds (HEARD_ADVERT_RETENTION_DAYS * 86400))) (pairing_sessions s))
      in (count_where old (heard_adverts s), s\<lparr>heard_adverts := delete_where old (heard_adverts s)\<rparr>))"

section \<open>One active session, and a count per key\<close>

definition pairing_ok :: "system \<Rightarrow> bool" where
  "pairing_ok s \<longleftrightarrow>
     keys_ok pairing_id (pairing_sessions s) \<and> count_where (\<lambda>p. pairing_state p = PAIRING_ACTIVE) (pairing_sessions s) \<le> 1 \<and>
     keys_ok advert_id (heard_adverts s) \<and>
     distinct (map (\<lambda>a. (advert_session_id a, advert_public_key a)) (rows (heard_adverts s)))"

inductive pairing_step :: "system \<Rightarrow> system \<Rightarrow> bool" where
  started: "start_pairing_session duration interval flood command now s = Inr (p, s') \<Longrightarrow> pairing_step s s'"
| advert_sent: "pairing_step s (record_pairing_advert_sent i now s)"
| stopped: "pairing_step s (snd (stop_pairing_session i now s))"
| ended: "pairing_step s (snd (end_expired_pairing_sessions now s))"
| heard: "pairing_step s (snd (record_heard_advert session h now s))"
| deleted: "pairing_step s (snd (delete_old_heard_adverts now s))"

lemma active_count_update:
  assumes "\<And>p. pairing_state (f p) = PAIRING_ACTIVE \<Longrightarrow> pairing_state p = PAIRING_ACTIVE"
  shows "count_where (\<lambda>p. pairing_state p = PAIRING_ACTIVE) (update_where P f t) \<le> count_where (\<lambda>p. pairing_state p = PAIRING_ACTIVE) t"
  by (rule count_where_update_mono) (use assms in blast)

lemma map_rows_update: "(\<And>r. key (f r) = key r) \<Longrightarrow> map key (rows (update_where P f t)) = map key (rows t)"
  by simp

lemma heard_fields_keep [simp]:
  "advert_id (with_heard_fields h a) = advert_id a" "advert_session_id (with_heard_fields h a) = advert_session_id a"
  "advert_public_key (with_heard_fields h a) = advert_public_key a"
  "heard_count (with_heard_fields h a) = heard_count a"
  by (simp_all add: with_heard_fields_def)

lemma pairing_sessions_step_ok:
  assumes "pairing_ok s" "\<And>p. pairing_state (f p) = PAIRING_ACTIVE \<Longrightarrow> pairing_state p = PAIRING_ACTIVE"
    "\<And>p. pairing_id (f p) = pairing_id p"
  shows "pairing_ok (s\<lparr>pairing_sessions := update_where P f (pairing_sessions s)\<rparr>)"
  using assms active_count_update [of f P "pairing_sessions s"] pairing_table.keys_update [of "pairing_sessions s" f P]
  by (auto simp: pairing_ok_def)

lemma pairing_step_ok: "pairing_step s s' \<Longrightarrow> pairing_ok s \<Longrightarrow> pairing_ok s'"
proof (induction rule: pairing_step.induct)
  case (started duration interval flood command now s p s')
  then show ?case
    by (auto simp: start_pairing_session_def pairing_ok_def Let_def count_where_def exists_where_def list_ex_iff
        filter_empty_conv new_pairing_session_def keys_ok_def sorted_wrt_append less_Suc_eq split: if_splits)
next
  case (heard s session h now)
  let ?key = "\<lambda>a. (advert_session_id a, advert_public_key a)"
  let ?same = "\<lambda>a. advert_session_id a = session \<and> advert_public_key a = lower (heard_public_key h)"
  show ?case
  proof (cases "first_where ?same (heard_adverts s)")
    case None
    then have fresh: "(session, lower (heard_public_key h)) \<notin> set (map ?key (rows (heard_adverts s)))"
      by (auto dest!: first_where_NoneD)
    have step: "snd (record_heard_advert session h now s) =
        s\<lparr>heard_adverts := insert_row (new_heard_advert session h now) (heard_adverts s)\<rparr>"
      using None by (simp add: record_heard_advert_def)
    have keys: "keys_ok advert_id (insert_row (new_heard_advert session h now) (heard_adverts s))"
      using heard by (simp add: pairing_ok_def keys_ok_def new_heard_advert_def sorted_wrt_append less_Suc_eq)
    from heard fresh keys show ?thesis
      unfolding step pairing_ok_def by (simp add: new_heard_advert_def)
  next
    case (Some a)
    let ?f = "\<lambda>x. with_heard_fields h (x\<lparr>last_heard_advert_at := now, heard_count := heard_count x + 1\<rparr>)"
    have step: "snd (record_heard_advert session h now s) =
        s\<lparr>heard_adverts := update_where (\<lambda>x. advert_id x = advert_id a) ?f (heard_adverts s)\<rparr>"
      using Some by (simp add: record_heard_advert_def Let_def)
    from heard advert_table.keys_update [of "heard_adverts s" ?f] show ?thesis
      unfolding step pairing_ok_def by (simp add: map_rows_update del: rows_update map_map)
  qed
next
  case (deleted s now)
  then show ?case
    using advert_table.keys_delete
    by (auto simp: delete_old_heard_adverts_def pairing_ok_def Let_def distinct_map_filter)
qed (auto simp: record_pairing_advert_sent_def stop_pairing_session_def end_expired_pairing_sessions_def Let_def
    intro!: pairing_sessions_step_ok)

text \<open>A session that was stopped or ended never becomes active again, and no session outlives its end.\<close>

lemma ended_sessions_leave_none_overdue:
  "p \<in> set (rows (pairing_sessions (snd (end_expired_pairing_sessions now s)))) \<Longrightarrow> pairing_state p = PAIRING_ACTIVE \<Longrightarrow>
     now < pairing_ends_at p"
  by (auto simp: end_expired_pairing_sessions_def Let_def split: if_splits)

text \<open>Hearing an advert counts it on its row: the counts of all rows grow by one in total.\<close>

lemma sum_update_where:
  "(\<And>r. (g (f r) :: nat) = Suc (g r)) \<Longrightarrow>
     sum_list (map g (rows (update_where P f t))) = sum_list (map g (rows t)) + count_where P t"
proof -
  assume "\<And>r. g (f r) = Suc (g r)"
  then have "sum_list (map g (map (\<lambda>r. if P r then f r else r) rs)) = sum_list (map g rs) + length (filter P rs)" for rs
    by (induction rs) auto
  then show ?thesis by (simp add: count_where_def update_where_def)
qed

lemma heard_advert_is_counted:
  assumes "pairing_ok s" "record_heard_advert session h now s = (a, s')"
  shows "sum_list (map heard_count (rows (heard_adverts s'))) = sum_list (map heard_count (rows (heard_adverts s))) + 1 \<and>
    a \<in> set (rows (heard_adverts s')) \<and> advert_session_id a = session \<and> advert_public_key a = lower (heard_public_key h)"
proof (cases "first_where (\<lambda>a. advert_session_id a = session \<and> advert_public_key a = lower (heard_public_key h)) (heard_adverts s)")
  case None
  with assms show ?thesis by (auto simp: record_heard_advert_def new_heard_advert_def)
next
  case (Some b)
  let ?f = "\<lambda>x. with_heard_fields h (x\<lparr>last_heard_advert_at := now, heard_count := heard_count x + 1\<rparr>)"
  from first_where_SomeD [OF Some] have b: "b \<in> set (rows (heard_adverts s))" "advert_session_id b = session"
    "advert_public_key b = lower (heard_public_key h)" by auto
  have "filter (\<lambda>x. advert_id x = advert_id b) xs = [b]"
    if "b \<in> set xs" "sorted_wrt (<) (map advert_id xs)" for xs
    using that by (induction xs) (auto simp: filter_empty_conv)
  with assms(1) b have "length (filter (\<lambda>x. advert_id x = advert_id b) (rows (heard_adverts s))) = 1"
    by (simp add: pairing_ok_def keys_ok_def)
  then have count: "sum_list (map heard_count (rows (update_where (\<lambda>x. advert_id x = advert_id b) ?f (heard_adverts s)))) =
      sum_list (map heard_count (rows (heard_adverts s))) + 1"
    by (simp add: sum_update_where count_where_def del: rows_update)
  from Some assms(2) have a: "a = ?f b" "s' = s\<lparr>heard_adverts := update_where (\<lambda>x. advert_id x = advert_id b) ?f (heard_adverts s)\<rparr>"
    by (auto simp: record_heard_advert_def Let_def)
  from b have "a \<in> set (rows (heard_adverts s'))"
    by (force simp: a)
  with count b show ?thesis
    by (simp add: a)
qed

end
