(* ===== verification/Contacts.thy ===== *)
theory Contacts
  imports Contact_Cards Pairing_Sessions Identity_Backups Incoming_Messages
begin

text \<open>
  The relay node's contacts: adding them (\<^verbatim>\<open>directory/contacts.py\<close>), what the worker's reconciler writes about them
  (\<^verbatim>\<open>directory/node_sync.py\<close>), deleting them and users with everything that hangs on them
  (\<^verbatim>\<open>directory/users.py\<close>), and the pruning of the traffic log (\<^verbatim>\<open>messaging/maintenance.py\<close>).
\<close>

definition CONTACT_CAPACITY :: nat where
  "CONTACT_CAPACITY = 350"

definition CHAT :: int where
  "CHAT = 1"

section \<open>Adding\<close>

datatype contact_addition_problem =
    NOT_A_CHAT_NODE | ALREADY_A_CONTACT | PREFIX_COLLISION | RELAY_NODE_ITSELF | CAPACITY_REACHED | PAIRING_WINDOW_CLOSED

record contact_addition_check =
  problems :: "contact_addition_problem list"
  conflicting_contact :: "contact option"
  check_node_type :: int

definition is_allowed :: "contact_addition_check \<Rightarrow> bool" where
  "is_allowed check \<longleftrightarrow> problems check = []"

definition contact_or_none_label :: "contact option \<Rightarrow> pystr" where
  "contact_or_none_label found = (case found of None \<Rightarrow> str ''None'' | Some c \<Rightarrow> contact_label_of c)"

fun describe_contact_addition_problem :: "contact_addition_problem \<Rightarrow> contact_addition_check \<Rightarrow> pystr" where
  "describe_contact_addition_problem NOT_A_CHAT_NODE check =
     str ''This is a '' @ describe_node_type (check_node_type check) @ str '', and only a chat node can be a contact.''"
| "describe_contact_addition_problem ALREADY_A_CONTACT check =
     str ''This node is already a contact ('' @ contact_or_none_label (conflicting_contact check) @ str '').''"
| "describe_contact_addition_problem PREFIX_COLLISION check =
     str ''The first six bytes of this key equal those of contact '' @ contact_or_none_label (conflicting_contact check) @
     str '', so the node could not tell their messages apart.''"
| "describe_contact_addition_problem RELAY_NODE_ITSELF check = str ''This is the relay's own node.''"
| "describe_contact_addition_problem CAPACITY_REACHED check =
     str ''The node already holds '' @ str_of_int (int CONTACT_CAPACITY) @ str '' contacts, its maximum.''"
| "describe_contact_addition_problem PAIRING_WINDOW_CLOSED check =
     str ''The pairing session ended more than '' @ str_of_int ADDING_ALLOWED_AFTER_SESSION_END_MINUTES @
     str '' minutes ago. Start a new one.''"

definition describe_problems :: "contact_addition_check \<Rightarrow> pystr list" where
  "describe_problems check = map (\<lambda>p. describe_contact_addition_problem p check) (problems check)"

datatype contact_error = ContactAdditionRefusedError contact_addition_check | ContactRowDoesNotExist | ContactNameUnencodable

text \<open>The configured node, the node the worker is attached to, and the identity the active setup run created.\<close>

definition find_relay_node_public_keys :: "system \<Rightarrow> pystr list" where
  "find_relay_node_public_keys s =
     filter (\<lambda>key. key \<noteq> [])
       (read_node_setting_value (setting_key_value NODE_PUBLIC_KEY) s #
        (case worker_node_public_key s of None \<Rightarrow> [] | Some key \<Rightarrow> [key]) @
        map new_public_key (select_where run_is_active (setup_runs s)))"

definition check_contact_addition :: "pystr \<Rightarrow> int \<Rightarrow> system \<Rightarrow> contact_addition_check" where
  "check_contact_addition key type s =
     (let type_problems = (if type \<noteq> CHAT then [NOT_A_CHAT_NODE] else []);
          existing = first_where (\<lambda>c. public_key c = key) (contacts (relay s));
          colliding = first_where (\<lambda>c. public_key_prefix c = take PUBLIC_KEY_PREFIX_LENGTH key) (contacts (relay s));
          (key_problems, conflicting) =
            (case existing of
               Some c \<Rightarrow> ([ALREADY_A_CONTACT], Some c)
             | None \<Rightarrow> (case colliding of Some c \<Rightarrow> ([PREFIX_COLLISION], Some c) | None \<Rightarrow> ([], None)));
          relay_problems = (if key \<in> set (find_relay_node_public_keys s) then [RELAY_NODE_ITSELF] else []);
          capacity_problems = (if length (rows (contacts (relay s))) \<ge> CONTACT_CAPACITY then [CAPACITY_REACHED] else [])
      in \<lparr>problems = type_problems @ key_problems @ relay_problems @ capacity_problems,
          conflicting_contact = conflicting, check_node_type = type\<rparr>)"

text \<open>\<^verbatim>\<open>int(now.timestamp())\<close> cuts the fraction off towards zero.\<close>

definition whole_seconds :: "datetime \<Rightarrow> int" where
  "whole_seconds now = (if 0 \<le> now then now div 1000000 else - (- now div 1000000))"

record contact_fields =
  fields_public_key :: pystr
  fields_node_type :: int
  fields_name :: pystr
  fields_advert_timestamp :: int
  fields_latitude :: int
  fields_longitude :: int
  fields_source :: contact_source
  fields_card_uri :: pystr

definition new_contact :: "contact_fields \<Rightarrow> pystr \<Rightarrow> datetime \<Rightarrow> nat \<Rightarrow> contact" where
  "new_contact f name now key =
     \<lparr>contact_id = key, public_key = fields_public_key f, contact_name = name, node_type = fields_node_type f,
      advert_timestamp = min (fields_advert_timestamp f) (whole_seconds now), latitude_microdegrees = fields_latitude f,
      longitude_microdegrees = fields_longitude f, contact_source = fields_source f, card_uri = fields_card_uri f,
      added_at = now, contact_user_id = None, linked_at = None, failed_sign_in_count = 0,
      failed_sign_in_window_started_at = None, node_sync_state = PENDING_ADD, node_sync_error = [], node_synced_at = None,
      node_name = [], node_out_path_length = None, last_heard_at = None, last_path_update_at = None\<rparr>"

text \<open>A row that breaks a constraint of the table is an \<^verbatim>\<open>IntegrityError\<close>, reported as an existing contact.\<close>

definition create_contact :: "contact_fields \<Rightarrow> datetime \<Rightarrow> system \<Rightarrow> contact_error + contact \<times> system" where
  "create_contact f now s =
     (let check = check_contact_addition (fields_public_key f) (fields_node_type f) s
      in if \<not> is_allowed check then Inl (ContactAdditionRefusedError check)
         else case truncate_contact_name (fields_name f) of
           Inl _ \<Rightarrow> Inl ContactNameUnencodable
         | Inr name \<Rightarrow>
             let mk = new_contact f name now;
                 c = mk (next_id (contacts (relay s)))
             in if \<not> contact_row_ok c \<or>
                   exists_where (\<lambda>x. public_key x = public_key c \<or> public_key_prefix x = public_key_prefix c) (contacts (relay s))
                then Inl (ContactAdditionRefusedError
                  \<lparr>problems = [ALREADY_A_CONTACT], conflicting_contact = None, check_node_type = fields_node_type f\<rparr>)
                else Inr (c, notify_relay_worker CHANNEL_CONTACTS_CHANGED (notified_row (contact_id c))
                  (s\<lparr>relay := (relay s)\<lparr>contacts := insert_row mk (contacts (relay s))\<rparr>\<rparr>)))"

definition add_contact_from_card :: "contact_card \<Rightarrow> datetime \<Rightarrow> system \<Rightarrow> contact_error + contact \<times> system" where
  "add_contact_from_card k now s =
     create_contact
       \<lparr>fields_public_key = card_public_key k, fields_node_type = card_node_type k, fields_name = card_name k,
        fields_advert_timestamp = card_advert_timestamp k, fields_latitude = card_latitude_microdegrees k,
        fields_longitude = card_longitude_microdegrees k, fields_source = SOURCE_CARD,
        fields_card_uri = contact_card_uri k\<rparr> now s"

text \<open>An advert's session exists, since deleting a session deletes its adverts.\<close>

definition add_contact_from_heard_advert :: "nat \<Rightarrow> datetime \<Rightarrow> system \<Rightarrow> contact_error + contact \<times> system" where
  "add_contact_from_heard_advert i now s =
     (case first_where (\<lambda>a. advert_id a = i) (heard_adverts s) of
        None \<Rightarrow> Inl ContactRowDoesNotExist
      | Some a \<Rightarrow>
      case Option.bind (added_contact_id a) (\<lambda>j. find_contact j (relay s)) of
        Some c \<Rightarrow> Inl (ContactAdditionRefusedError
          \<lparr>problems = [ALREADY_A_CONTACT], conflicting_contact = Some c, check_node_type = advert_node_type a\<rparr>)
      | None \<Rightarrow>
      case first_where (\<lambda>p. pairing_id p = advert_session_id a) (pairing_sessions s) of
        None \<Rightarrow> Inl ContactRowDoesNotExist
      | Some p \<Rightarrow>
          if \<not> is_adding_allowed p now
          then Inl (ContactAdditionRefusedError
            \<lparr>problems = [PAIRING_WINDOW_CLOSED], conflicting_contact = None, check_node_type = advert_node_type a\<rparr>)
          else
            case create_contact
              \<lparr>fields_public_key = advert_public_key a, fields_node_type = advert_node_type a, fields_name = advert_name a,
               fields_advert_timestamp = advert_clock a, fields_latitude = advert_latitude a,
               fields_longitude = advert_longitude a, fields_source = SOURCE_PAIRING, fields_card_uri = []\<rparr> now s of
              Inl e \<Rightarrow> Inl e
            | Inr (c, s1) \<Rightarrow> Inr (c, s1\<lparr>heard_adverts :=
                update_where (\<lambda>x. advert_id x = advert_id a) (\<lambda>x. x\<lparr>added_contact_id := Some (contact_id c)\<rparr>)
                  (heard_adverts s1)\<rparr>))"

section \<open>What the reconciler writes\<close>

record contact_for_node =
  for_node_contact_id :: nat
  for_node_public_key :: pystr
  for_node_name :: pystr
  for_node_advert_timestamp :: int
  for_node_latitude :: int
  for_node_longitude :: int
  for_node_sync_state :: node_sync_state

definition list_contacts_for_node :: "system \<Rightarrow> contact_for_node list" where
  "list_contacts_for_node s =
     map (\<lambda>c. \<lparr>for_node_contact_id = contact_id c, for_node_public_key = public_key c, for_node_name = contact_name c,
                for_node_advert_timestamp = advert_timestamp c, for_node_latitude = latitude_microdegrees c,
                for_node_longitude = longitude_microdegrees c, for_node_sync_state = node_sync_state c\<rparr>)
       (rows (contacts (relay s)))"

definition update_contacts :: "(contact \<Rightarrow> bool) \<Rightarrow> (contact \<Rightarrow> contact) \<Rightarrow> system \<Rightarrow> nat \<times> system" where
  "update_contacts P f s =
     (count_where P (contacts (relay s)), s\<lparr>relay := (relay s)\<lparr>contacts := update_where P f (contacts (relay s))\<rparr>\<rparr>)"

definition mark_contact_on_node ::
  "nat \<Rightarrow> pystr \<Rightarrow> pystr \<Rightarrow> int option \<Rightarrow> datetime \<Rightarrow> system \<Rightarrow> bool \<times> system" where
  "mark_contact_on_node i key name out_path now s =
     (let named = (\<lambda>c. contact_id c = i \<and> public_key c = key);
          known = (\<lambda>c. node_sync_state c = ON_NODE \<and> node_synced_at c \<noteq> None);
          (_, s1) = update_contacts (\<lambda>c. named c \<and> \<not> known c)
            (\<lambda>c. c\<lparr>node_sync_state := ON_NODE, node_sync_error := [], node_synced_at := Some now\<rparr>) s;
          (updated, s2) = update_contacts named (\<lambda>c. c\<lparr>node_name := name, node_out_path_length := out_path\<rparr>) s1
      in (updated = 1, s2))"

definition mark_contact_add_failed :: "nat \<Rightarrow> pystr \<Rightarrow> pystr \<Rightarrow> datetime \<Rightarrow> system \<Rightarrow> bool \<times> system" where
  "mark_contact_add_failed i key sync_error now s =
     (let (updated, s1) = update_contacts (\<lambda>c. contact_id c = i \<and> public_key c = key)
            (\<lambda>c. c\<lparr>node_sync_state := ADD_FAILED, node_sync_error := sync_error, node_synced_at := Some now\<rparr>) s
      in (updated = 1, s1))"

definition return_contact_to_pending_add :: "pystr \<Rightarrow> pystr \<Rightarrow> system \<Rightarrow> nat option \<times> system" where
  "return_contact_to_pending_add key sync_error s =
     (case first_where (\<lambda>c. public_key c = key) (contacts (relay s)) of
        None \<Rightarrow> (None, s)
      | Some c \<Rightarrow> (Some (contact_id c),
          snd (update_contacts (\<lambda>x. contact_id x = contact_id c \<and> public_key x = key)
            (\<lambda>x. x\<lparr>node_sync_state := PENDING_ADD, node_sync_error := sync_error\<rparr>) s)))"

section \<open>Deleting\<close>

text \<open>
  Django's cascade from a user and from contacts: what \<^verbatim>\<open>on_delete\<close> says of every foreign key. The user's own
  messages, and the refresh sessions that ask for it, go with it.
\<close>

definition message_goes :: "nat option \<Rightarrow> message \<Rightarrow> bool" where
  "message_goes u m \<longleftrightarrow> u \<noteq> None \<and> (u = Some (sender_id m) \<or> u = Some (recipient_id m))"

definition session_goes :: "nat option \<Rightarrow> nat list \<Rightarrow> refresh_session \<Rightarrow> bool" where
  "session_goes u cs r \<longleftrightarrow> session_device_id r \<in> set cs \<or> u = Some (peer_id r)"

definition delivery_goes :: "nat list \<Rightarrow> nat list \<Rightarrow> nat list \<Rightarrow> delivery \<Rightarrow> bool" where
  "delivery_goes cs ms rs d \<longleftrightarrow>
     delivery_device_id d \<in> set cs \<or> delivery_message_id d \<in> set ms \<or>
     (case refresh_session_id d of None \<Rightarrow> False | Some r \<Rightarrow> r \<in> set rs)"

definition receipt_goes :: "nat list \<Rightarrow> nat list \<Rightarrow> receipt \<Rightarrow> bool" where
  "receipt_goes cs ms r \<longleftrightarrow> receipt_device_id r \<in> set cs \<or> receipt_message_id r \<in> set ms"

definition forget :: "nat list \<Rightarrow> nat option \<Rightarrow> nat option" where
  "forget gone key = (case key of None \<Rightarrow> None | Some i \<Rightarrow> if i \<in> set gone then None else Some i)"

definition cascade :: "nat option \<Rightarrow> nat list \<Rightarrow> system \<Rightarrow> system" where
  "cascade u cs s =
     (let db = relay s;
          ms = map message_pk (select_where (message_goes u) (messages db));
          rs = map session_id (select_where (session_goes u cs) (refresh_sessions db));
          ds = map delivery_id (select_where (delivery_goes cs ms rs) (deliveries db));
          ns = map receipt_id (select_where (receipt_goes cs ms) (receipts db))
      in s\<lparr>relay := db\<lparr>users := delete_where (\<lambda>x. u = Some (user_id x)) (users db),
             contacts := delete_where (\<lambda>c. contact_id c \<in> set cs) (contacts db),
             messages := update_where (\<lambda>_. True) (\<lambda>m. m\<lparr>sender_device_id := forget cs (sender_device_id m)\<rparr>)
               (delete_where (message_goes u) (messages db)),
             refresh_sessions := delete_where (session_goes u cs) (refresh_sessions db),
             deliveries := delete_where (delivery_goes cs ms rs) (deliveries db),
             receipts := delete_where (receipt_goes cs ms) (receipts db),
             inbox := update_where (\<lambda>_. True) (\<lambda>i. i\<lparr>inbound_contact_id := forget cs (inbound_contact_id i)\<rparr>) (inbox db),
             packets := update_where (\<lambda>_. True)
               (\<lambda>p. p\<lparr>packet_contact_id := forget cs (packet_contact_id p), packet_delivery_id := forget ds (packet_delivery_id p),
                      packet_receipt_id := forget ns (packet_receipt_id p)\<rparr>) (packets db)\<rparr>,
           heard_adverts := update_where (\<lambda>_. True) (\<lambda>a. a\<lparr>added_contact_id := forget cs (added_contact_id a)\<rparr>) (heard_adverts s)\<rparr>)"

record contact_deletion_summary =
  summary_contact :: contact
  summary_linked_username :: pystr
  summary_pending_delivery_count :: nat
  summary_pending_receipt_count :: nat
  summary_active_refresh_session_count :: nat

definition PENDING_DELIVERY_STATES :: "delivery_state list" where
  "PENDING_DELIVERY_STATES = [DELIVERY_PENDING, DELIVERY_QUEUED_FOR_REFRESH]"

definition summarize_contact_deletion :: "contact \<Rightarrow> system \<Rightarrow> contact_deletion_summary" where
  "summarize_contact_deletion c s =
     (let db = relay s
      in \<lparr>summary_contact = c,
          summary_linked_username =
            (case Option.bind (contact_user_id c) (\<lambda>u. find_user u db) of None \<Rightarrow> [] | Some u \<Rightarrow> user_username u),
          summary_pending_delivery_count =
            count_where (\<lambda>d. delivery_device_id d = contact_id c \<and> delivery_state d \<in> set PENDING_DELIVERY_STATES) (deliveries db),
          summary_pending_receipt_count =
            count_where (\<lambda>r. receipt_device_id r = contact_id c \<and> receipt_state r = RECEIPT_PENDING) (receipts db),
          summary_active_refresh_session_count =
            count_where (\<lambda>r. session_device_id r = contact_id c \<and> session_state r = SESSION_ACTIVE) (refresh_sessions db)\<rparr>)"

text \<open>
  The user of the contact is read before the rows are locked: \<open>seen\<close> is the database of that moment, \<open>s\<close> the one
  under the locks. A contact relinked in between raises, and the transaction is tried again.
\<close>

definition lock_contact_after_its_user :: "nat \<Rightarrow> system \<Rightarrow> system \<Rightarrow> contact option res" where
  "lock_contact_after_its_user i seen s =
     (case find_contact i (relay seen) of
        None \<Rightarrow> Inr None
      | Some expected \<Rightarrow>
          (case find_contact i (relay s) of
             None \<Rightarrow> Inr None
           | Some c \<Rightarrow> if contact_user_id c \<noteq> contact_user_id expected then Inl LockedRowChangedError else Inr (Some c)))"

definition delete_contact_in_one_transaction :: "nat \<Rightarrow> system \<Rightarrow> system \<Rightarrow> system res" where
  "delete_contact_in_one_transaction i seen s =
     (case lock_contact_after_its_user i seen s of
        Inl e \<Rightarrow> Inl e
      | Inr None \<Rightarrow> Inr s
      | Inr (Some c) \<Rightarrow> Inr (notify_relay_worker CHANNEL_CONTACTS_CHANGED (notified_row i) (cascade None [contact_id c] s)))"

text \<open>Each attempt has its own two moments, and may be aborted by the database instead.\<close>

definition delete_contact :: "nat \<Rightarrow> (nat \<Rightarrow> py_error + system \<times> system) \<Rightarrow> system res" where
  "delete_contact i attempts =
     run_with_deadlock_retries False
       (\<lambda>n. case attempts n of Inl e \<Rightarrow> Inl e | Inr (seen, s) \<Rightarrow> delete_contact_in_one_transaction i seen s)"

record user_deletion_summary =
  deleted_user :: user
  deleted_device_count :: nat
  deleted_sent_message_count :: nat
  deleted_received_message_count :: nat

definition summarize_user_deletion :: "user \<Rightarrow> system \<Rightarrow> user_deletion_summary" where
  "summarize_user_deletion u s =
     \<lparr>deleted_user = u,
      deleted_device_count = count_where (\<lambda>c. contact_user_id c = Some (user_id u)) (contacts (relay s)),
      deleted_sent_message_count = count_where (\<lambda>m. sender_id m = user_id u) (messages (relay s)),
      deleted_received_message_count = count_where (\<lambda>m. recipient_id m = user_id u) (messages (relay s))\<rparr>"

definition delete_user_in_one_transaction :: "nat \<Rightarrow> system \<Rightarrow> system" where
  "delete_user_in_one_transaction i s =
     (case find_user i (relay s) of
        None \<Rightarrow> s
      | Some u \<Rightarrow> notify_relay_worker CHANNEL_CONTACTS_CHANGED [] (cascade (Some i) (device_ids_of_user i (relay s)) s))"

definition delete_user :: "nat \<Rightarrow> (nat \<Rightarrow> py_error + system) \<Rightarrow> system res" where
  "delete_user i attempts =
     run_with_deadlock_retries False
       (\<lambda>n. case attempts n of Inl e \<Rightarrow> Inl e | Inr s \<Rightarrow> Inr (delete_user_in_one_transaction i s))"

section \<open>Pruning\<close>

definition prune_traffic_log :: "datetime \<Rightarrow> int \<Rightarrow> db \<Rightarrow> (nat \<times> nat) \<times> db" where
  "prune_traffic_log now retention_days db =
     (let oldest_kept_time = now - timedelta_of_seconds (retention_days * 86400);
          old_row = (\<lambda>i. received_at i < oldest_kept_time \<and> inbound_processing_state i \<noteq> PROCESSING_RECEIVED);
          old_packet = (\<lambda>p. case prepared_at p of None \<Rightarrow> False | Some t \<Rightarrow> t < oldest_kept_time);
          gone = map inbound_id (select_where old_row (inbox db))
      in ((count_where old_row (inbox db), count_where old_packet (packets db)),
          db\<lparr>inbox := delete_where old_row (inbox db), packets := delete_where old_packet (packets db),
             refresh_sessions := update_where (\<lambda>_. True)
               (\<lambda>r. r\<lparr>requested_by_inbound_id := forget gone (requested_by_inbound_id r)\<rparr>) (refresh_sessions db)\<rparr>))"

record maintenance_summary =
  expired_incomplete_messages :: nat
  pruned_inbox_rows :: nat
  pruned_outbound_packets :: nat

definition run_messaging_maintenance :: "datetime \<Rightarrow> int \<Rightarrow> db \<Rightarrow> maintenance_summary \<times> db" where
  "run_messaging_maintenance now retention_days db =
     (let ((inbox_rows, outbound_packets), db1) = prune_traffic_log now retention_days db;
          (expired, db2) = delete_expired_incomplete_messages now db1
      in (\<lparr>expired_incomplete_messages = expired, pruned_inbox_rows = inbox_rows,
           pruned_outbound_packets = outbound_packets\<rparr>, db2))"

end
