(* ===== verification/Sample_Node.thy ===== *)
theory Sample_Node
  imports Contacts Sample_Relay
begin

text \<open>
  A node, its configuration and concrete services: what the witnesses of the node's properties evaluate. The
  conversions agree with Python's on ASCII digits and give a time a text of one code point; the cipher hides
  nothing, and the store holds one document, the backup of the second key.
\<close>

definition sample_conversions :: text_conversions where
  "sample_conversions =
     \<lparr>decimal_digit = (\<lambda>c. if is_digit c then Some (c - 48) else None),
      isoformat = (\<lambda>t. [if 0 \<le> t then 2 * nat t else 2 * nat (- t) + 1]),
      fromisoformat = (\<lambda>s. case s of [n] \<Rightarrow> Some (if even n then int (n div 2) else - int (n div 2)) | _ \<Rightarrow> None)\<rparr>"

lemma sample_conversions_ok: "conversions_ok sample_conversions"
  by (auto simp: conversions_ok_def sample_conversions_def)

definition sample_key :: "nat \<Rightarrow> pystr" where
  "sample_key n = replicate 64 (97 + n)"

definition sample_information :: "pystr \<Rightarrow> node_information" where
  "sample_information key =
     \<lparr>information_public_key = key, information_name = str ''relay'', information_firmware_version = str ''v1'',
      information_firmware_build = str ''1 Jan'', information_model = str ''xiao'', information_protocol_version = 14,
      information_maximum_contacts = 350, information_radio_frequency_kilohertz = 869618,
      information_radio_bandwidth_hertz = 62500, information_radio_spreading_factor = 8, information_radio_coding_rate = 8,
      information_client_repeat = False, information_transmit_power_dbm = 22, information_maximum_transmit_power_dbm = 22,
      information_path_hash_size = 1, information_multi_acks = 2, information_manual_add_contacts = True,
      information_auto_add_configuration = 0, information_auto_add_maximum_hops = 0, information_advert_location_policy = 0,
      information_telemetry_modes = 0, information_contact_count = 0, information_node_clock_timestamp = 5,
      information_server_clock_timestamp = 5, information_channel_zero_name = str ''Public'',
      information_channel_zero_is_public = True\<rparr>"

definition sample_requested :: "bool \<Rightarrow> requested_node_configuration" where
  "sample_requested restore =
     \<lparr>requested_node_name = str ''relay'', requested_radio_preset_title = str ''EU'',
      requested_radio_frequency_kilohertz = 869618, requested_radio_bandwidth_hertz = 62500,
      requested_radio_spreading_factor = 8, requested_radio_coding_rate = 8, requested_path_hash_size = 1,
      requested_transmit_power_dbm = 22, requested_replace_public_channel = True, requested_restore_identity = restore\<rparr>"

definition sample_configuration :: "pystr \<Rightarrow> node_configuration" where
  "sample_configuration key =
     \<lparr>configured_node_public_key = key, configured_node_name = str ''relay'', configured_node_firmware_version = str ''v1'',
      configured_node_firmware_build = str ''1 Jan'', configured_node_model = str ''xiao'',
      configured_node_protocol_version = 14, configured_node_maximum_contacts = 350,
      configured_node_contact_card_uri = str ''meshcore://11'', configured_radio_preset_title = str ''EU'',
      configured_radio_frequency_kilohertz = 869618, configured_radio_bandwidth_hertz = 62500,
      configured_radio_spreading_factor = 8, configured_radio_coding_rate = 8, configured_radio_transmit_power_dbm = 22,
      configured_radio_client_repeat = False, configured_routing_path_hash_size = 1, configured_messaging_multi_acks = 2,
      configured_contacts_manual_add = True, configured_contacts_auto_add_configuration = 0,
      configured_contacts_auto_add_maximum_hops = 0, configured_privacy_advert_location_policy = 0,
      configured_privacy_telemetry_modes = 0, configured_channels_public_channel_replaced = True,
      configured_setup_completed_at = 5, configured_setup_run_id = 1\<rparr>"

lemma sample_key_neq: "sample_key m = sample_key n \<longleftrightarrow> m = n" "sample_key n \<noteq> []"
  by (simp_all add: sample_key_def replicate_eq_replicate)

lemma small_integer_fits: "\<bar>i\<bar> < 1000000 \<Longrightarrow> integer_fits i"
proof -
  assume "\<bar>i\<bar> < 1000000"
  then have "nat \<bar>i\<bar> < 10 ^ 6" by simp
  also have "(10::nat) ^ 6 \<le> 10 ^ MAXIMUM_INTEGER_DIGITS"
    by (rule power_increasing) (simp_all add: MAXIMUM_INTEGER_DIGITS_def)
  finally show ?thesis unfolding integer_fits_def .
qed

lemma sample_configuration_fits: "configuration_fits (sample_configuration key)"
  by (simp add: configuration_fits_def sample_configuration_def small_integer_fits)

definition sample_private_key :: "nat list" where
  "sample_private_key = 64 # replicate 30 0 @ [64] @ replicate 32 7"

definition sample_document :: json where
  "sample_document = JObject [
     (str ''version'', JInt 1), (str ''public_key'', JString (sample_key 1)), (str ''nonce'', JString (replicate 12 3)),
     (str ''ciphertext'', JString sample_private_key), (str ''tag'', JString (replicate 16 9)), (str ''created_at'', JString [10])]"

definition sample_services :: backup_services where
  "sample_services =
     \<lparr>encrypt = (\<lambda>n a p. (p, replicate 16 9)), decrypt_and_verify = (\<lambda>n a c t. Some c),
      public_point = (\<lambda>n. replicate 32 187), json_dumps = (\<lambda>d. str ''document''),
      json_loads = (\<lambda>t. Some sample_document), base64_encode = (\<lambda>b. b), base64_decode = Some,
      utc_isoformat = (\<lambda>t. [nat t]), iso_time_and_zone = (\<lambda>t. case t of [n] \<Rightarrow> Some (int n, True) | _ \<Rightarrow> None)\<rparr>"

end
