(* ===== verification/Setup_Progress.thy ===== *)
theory Setup_Progress
  imports Setup_Properties Sample_Node
begin

text \<open>
  The setup wizard gets through: each step succeeds in the state that waits for it, so a run that meets no failure
  takes a node from being read to being the configured one, and then the relay runs.
\<close>

lemma lock_row: "setup_ok s \<Longrightarrow> r \<in> set (rows (setup_runs s)) \<Longrightarrow> lock_setup_run (run_id r) s = Inr r"
  using setup_run_table.first_by_key [of "setup_runs s" r] by (simp add: setup_ok_def runs_ok_def lock_setup_run_def)

lemma put_run_in: "r \<in> set (rows rs) \<Longrightarrow> run_id r' = run_id r \<Longrightarrow> r' \<in> set (rows (put_run r' rs))"
  by (force simp: put_run_def image_iff)

lemma moved_run_keeps [simp]:
  "original_public_key (moved_run r st now e) = original_public_key r"
  "original_node_information (moved_run r st now e) = original_node_information r"
  by (simp_all add: moved_run_def)

lemma start_succeeds:
  assumes "\<not> exists_where run_is_active (setup_runs s)"
  shows "\<exists>r s'. start_setup_run now s = Inr (r, s') \<and> r \<in> set (rows (setup_runs s')) \<and> run_state r = SETUP_READING_NODE \<and>
    original_public_key r = [] \<and> run_id r = next_id (setup_runs s) \<and> node_settings s' = node_settings s"
  using assms
  by (cases "start_setup_run now s")
    (auto simp: start_setup_run_def Let_def split_beta new_setup_run_def split: if_splits)

lemma read_succeeds:
  assumes "setup_ok s" "r \<in> set (rows (setup_runs s))" "run_state r = SETUP_READING_NODE" "original_public_key r = []"
  shows "\<exists>r' s'. record_node_information_read (run_id r) (node_information_to_json I) now s = Inr s' \<and>
    r' \<in> set (rows (setup_runs s')) \<and> run_id r' = run_id r \<and> run_state r' = SETUP_AWAITING_RESET_CONFIRMATION \<and>
    original_node_information r' = Some (node_information_to_json I) \<and> original_public_key r' = information_public_key I \<and>
    node_settings s' = node_settings s"
  using assms(3,4) put_run_in [OF assms(2)]
  by (auto simp: record_node_information_read_def node_information_read_back lock_row [OF assms(1,2)] Let_def
      intro!: exI [of _ "moved_run (r\<lparr>original_node_information := Some (node_information_to_json I),
        original_public_key := information_public_key I\<rparr>) SETUP_AWAITING_RESET_CONFIRMATION now (Some [])"])

lemma confirm_succeeds:
  assumes "setup_ok s" "r \<in> set (rows (setup_runs s))" "run_state r = SETUP_AWAITING_RESET_CONFIRMATION"
    and "original_node_information r = Some (node_information_to_json I)" "information_name I \<noteq> []"
    and "strip (information_name I) = information_name I"
  shows "\<exists>r' c s'. confirm_factory_reset (run_id r) (information_name I) now s = Inr (c, s') \<and>
    r' \<in> set (rows (setup_runs s')) \<and> run_id r' = run_id r \<and> run_state r' = SETUP_RESETTING \<and>
    original_public_key r' = original_public_key r \<and> node_settings s' = node_settings s"
proof -
  let ?p = "create_node_command KIND_FACTORY_RESET (setup_run_argument r) now (Some (run_id r))
            (move_setup_run r SETUP_RESETTING now (Some []) s)"
  have "confirm_factory_reset (run_id r) (information_name I) now s =
      Inr ?p"
    using assms(3-6)
    by (simp add: confirm_factory_reset_def lock_row [OF assms(1,2)] require_setup_run_state_def
        find_expected_factory_reset_confirmation_def read_original_node_information_def node_information_read_back)
  then show ?thesis
    using put_run_in [OF assms(2), of "moved_run r SETUP_RESETTING now (Some [])"]
    by (intro exI [of _ "moved_run r SETUP_RESETTING now (Some [])"] exI [of _ "fst ?p"] exI [of _ "snd ?p"]) (simp add: prod_eq_iff)
qed

lemma reset_succeeds:
  assumes "setup_ok s" "r \<in> set (rows (setup_runs s))" "run_state r = SETUP_RESETTING" "key \<noteq> original_public_key r"
  shows "\<exists>r' s'. record_factory_reset_succeeded (run_id r) key now s = Inr s' \<and>
    r' \<in> set (rows (setup_runs s')) \<and> run_id r' = run_id r \<and> run_state r' = SETUP_AWAITING_CONFIGURATION \<and>
    node_settings s' = node_settings s"
  using assms(3,4) put_run_in [OF assms(2)]
  by (auto simp: record_factory_reset_succeeded_def lock_row [OF assms(1,2)] require_setup_run_state_def
      intro!: exI [of _ "moved_run (r\<lparr>new_public_key := key\<rparr>) SETUP_AWAITING_CONFIGURATION now (Some [])"])

lemma submit_succeeds:
  assumes "setup_ok s" "r \<in> set (rows (setup_runs s))" "run_state r = SETUP_AWAITING_CONFIGURATION"
  shows "\<exists>r' c s'. submit_node_configuration (run_id r) requested now s = Inr (c, s') \<and>
    r' \<in> set (rows (setup_runs s')) \<and> run_id r' = run_id r \<and> run_state r' = SETUP_CONFIGURING \<and>
    node_settings s' = node_settings s"
proof -
  let ?r = "r\<lparr>requested_configuration := Some requested\<rparr>"
  let ?p = "create_node_command KIND_CONFIGURE_NODE (setup_run_argument r) now (Some (run_id r))
            (move_setup_run ?r SETUP_CONFIGURING now (Some []) (save_setup_run ?r s))"
  have "submit_node_configuration (run_id r) requested now s =
      Inr ?p"
    using assms(3) by (simp add: submit_node_configuration_def lock_row [OF assms(1,2)] require_setup_run_state_def Let_def)
  then show ?thesis
    using put_run_in [OF assms(2), of "moved_run ?r SETUP_CONFIGURING now (Some [])"]
    by (intro exI [of _ "moved_run ?r SETUP_CONFIGURING now (Some [])"] exI [of _ "fst ?p"] exI [of _ "snd ?p"]) (simp add: prod_eq_iff)
qed

lemma restore_succeeds:
  assumes "setup_ok s" "r \<in> set (rows (setup_runs s))" "run_state r = SETUP_CONFIGURING"
  shows "\<exists>s'. record_identity_restore_started (run_id r) key s = Inr s' \<and> node_settings s' = node_settings s"
  using assms(3) by (auto simp: record_identity_restore_started_def lock_row [OF assms(1,2)] require_setup_run_state_def)

lemma completion_succeeds:
  assumes "setup_ok s" "r \<in> set (rows (setup_runs s))" "run_state r = SETUP_CONFIGURING"
  shows "\<exists>r' s'. record_configuration_completed CV BS (run_id r) c now None s = Inr s' \<and>
    r' \<in> set (rows (setup_runs s')) \<and> run_id r' = run_id r \<and> run_state r' = SETUP_COMPLETED \<and>
    setup_runs s' = put_run r' (setup_runs s)"
  using assms(3) put_run_in [OF assms(2), of "moved_run r SETUP_COMPLETED now (Some [])"]
  by (auto simp: record_configuration_completed_def lock_row [OF assms(1,2)] require_setup_run_state_def Let_def
      replace_node_configuration_def discard_node_identity_backup_of_other_identities_def
      split: option.splits intro!: exI [of _ "moved_run r SETUP_COMPLETED now (Some [])"])

lemma wizard_reaches_configuring:
  fixes I :: node_information
  assumes "setup_ok s" "\<not> exists_where run_is_active (setup_runs s)" "information_name I \<noteq> []"
    "strip (information_name I) = information_name I" "key \<noteq> information_public_key I"
  shows "\<exists>r s'. open_step\<^sup>*\<^sup>* s s' \<and> setup_ok s' \<and> r \<in> set (rows (setup_runs s')) \<and> run_state r = SETUP_CONFIGURING \<and>
    node_settings s' = node_settings s"
proof -
  obtain r1 s1 where s1: "start_setup_run now s = Inr (r1, s1)" "r1 \<in> set (rows (setup_runs s1))" "run_state r1 = SETUP_READING_NODE"
    "original_public_key r1 = []" "node_settings s1 = node_settings s"
    using start_succeeds [OF assms(2)] by blast
  have ok1: "setup_ok s1" by (rule start_setup_run_ok [OF assms(1) s1(1)])
  obtain r2 s2 where s2: "record_node_information_read (run_id r1) (node_information_to_json I) now s1 = Inr s2"
    "r2 \<in> set (rows (setup_runs s2))" "run_state r2 = SETUP_AWAITING_RESET_CONFIRMATION"
    "original_node_information r2 = Some (node_information_to_json I)" "original_public_key r2 = information_public_key I"
    "node_settings s2 = node_settings s1"
    using read_succeeds [OF ok1 s1(2-4)] by blast
  have ok2: "setup_ok s2" by (rule record_node_information_read_ok [OF ok1 s2(1)])
  obtain r3 c3 s3 where s3: "confirm_factory_reset (run_id r2) (information_name I) now s2 = Inr (c3, s3)"
    "r3 \<in> set (rows (setup_runs s3))" "run_state r3 = SETUP_RESETTING" "original_public_key r3 = original_public_key r2"
    "node_settings s3 = node_settings s2"
    using confirm_succeeds [OF ok2 s2(2-4) assms(3,4)] by blast
  have ok3: "setup_ok s3" by (rule confirm_factory_reset_ok [OF ok2 s3(1)])
  have "key \<noteq> original_public_key r3" using assms(5) s2(5) s3(4) by simp
  then obtain r4 s4 where s4: "record_factory_reset_succeeded (run_id r3) key now s3 = Inr s4"
    "r4 \<in> set (rows (setup_runs s4))" "run_state r4 = SETUP_AWAITING_CONFIGURATION" "node_settings s4 = node_settings s3"
    using reset_succeeds [OF ok3 s3(2,3)] by blast
  have ok4: "setup_ok s4" by (rule record_factory_reset_succeeded_ok [OF ok3 s4(1)])
  obtain r5 c5 s5 where s5: "submit_node_configuration (run_id r4) requested now s4 = Inr (c5, s5)"
    "r5 \<in> set (rows (setup_runs s5))" "run_state r5 = SETUP_CONFIGURING" "node_settings s5 = node_settings s4"
    using submit_succeeds [OF ok4 s4(2,3)] by blast
  have ok5: "setup_ok s5" by (rule submit_node_configuration_ok [OF ok4 s5(1)])
  have "open_step\<^sup>*\<^sup>* s s5"
    using run_started [OF s1(1)] information_read [OF s2(1)] reset_confirmed [OF s3(1)] reset_succeeded [OF s4(1)]
      configuration_submitted [OF s5(1)]
    by (meson converse_rtranclp_into_rtranclp rtranclp.rtrancl_refl)
  with ok5 s1(5) s2(6) s3(5) s4(4) s5(2-4) show ?thesis by auto
qed

lemma open_steps_are_setup_steps: "open_step\<^sup>*\<^sup>* s s' \<Longrightarrow> setup_step\<^sup>*\<^sup>* s s'"
  by (induction rule: rtranclp_induct) (auto intro: rtranclp.rtrancl_into_rtrancl not_completed)

lemma completed_run_lets_relay:
  assumes "ids_ok s" "r \<in> set (rows (setup_runs s))" "run_state r = SETUP_CONFIGURING"
    and "conversions_ok CV" "configuration_fits c" "configured_node_public_key c \<noteq> []"
  shows "\<exists>s'. setup_step s s' \<and> load_node_configuration CV s' = Inr (Some c) \<and>
    relay_mode_of CV (Some (configured_node_public_key c)) s' = Inr MODE_RUNNING \<and>
    \<not> exists_where run_is_active (setup_runs s')"
proof -
  have ok: "setup_ok s" "ids_positive (setup_runs s)" "open_is_newest (setup_runs s)" using assms(1) by (simp_all add: ids_ok_def)
  obtain r' s' where s': "record_configuration_completed CV undefined (run_id r) c 0 None s = Inr s'"
    "r' \<in> set (rows (setup_runs s'))" "run_id r' = run_id r" "run_state r' = SETUP_COMPLETED"
    "setup_runs s' = put_run r' (setup_runs s)"
    using completion_succeeds [OF ok(1) assms(2,3)] by blast
  have step: "setup_step s s'" by (rule completed [OF s'(1)])
  have load: "load_node_configuration CV s' = Inr (Some c)"
    by (rule configuration_completed_settings [OF s'(1) assms(4,5)])
  have newest: "run_id x \<le> run_id r'" if "x \<in> set (rows (setup_runs s'))" for x
  proof -
    from that have "run_id x \<in> run_id ` set (rows (setup_runs s'))" by simp
    then have "run_id x \<in> run_id ` set (rows (setup_runs s))" unfolding s'(5) by simp
    then obtain y where "y \<in> set (rows (setup_runs s))" "run_id x = run_id y" by blast
    with ok(3) assms(2,3) s'(3) show ?thesis by (auto simp: open_is_newest_def FINAL_STATES_def)
  qed
  have idle: "run_state x \<in> set FINAL_STATES" if "x \<in> set (rows (setup_runs s'))" for x
  proof (rule ccontr)
    assume unfinished: "run_state x \<notin> set FINAL_STATES"
    with that s' have x: "x \<in> set (rows (setup_runs s))" by (auto simp: put_run_def FINAL_STATES_def split: if_splits)
    then have "run_is_active x" "run_is_active r"
      using ok(1) assms(2,3) unfinished by (auto simp: setup_ok_def runs_ok_def all_rows_def setup_run_row_ok_def FINAL_STATES_def)
    then have "x = r" using active_run_found [OF ok(1) x] active_run_found [OF ok(1) assms(2)] by simp
    have "keys_ok run_id (setup_runs s')" using setup_step_ok [OF step ok(1)] by (simp add: setup_ok_def runs_ok_def)
    moreover have "run_id x = run_id r'" using \<open>x = r\<close> s'(3) by simp
    ultimately have "x = r'" by (rule setup_run_table.key_unique [OF _ that s'(2)])
    with s'(4) unfinished show False by (simp add: FINAL_STATES_def)
  qed
  have inactive: "get_active_setup_run s' = None"
  proof (cases "get_active_setup_run s'")
    case (Some x)
    with first_where_SomeD [of run_is_active "setup_runs s'" x] idle setup_step_ok [OF step ok(1)] show ?thesis
      by (auto simp: get_active_setup_run_def setup_ok_def runs_ok_def all_rows_def setup_run_row_ok_def)
  qed
  have "\<not> was_configured_identity_restored_without_configuration (configured_node_public_key c) s'"
  proof -
    let ?ids = "map run_id (select_where (\<lambda>r. run_state r = SETUP_COMPLETED) (setup_runs s'))"
    have "run_id r' \<in> set ?ids" using s'(2,4) by auto
    then have "run_id r' \<le> fold max ?ids 0"
      by (metis List.finite_set Max.set_eq_fold Max_ge list.set_intros(2))
    with newest have "\<not> run_id x > fold max ?ids 0" if "x \<in> set (rows (setup_runs s'))" for x
      using that by fastforce
    then show ?thesis
      by (auto simp: was_configured_identity_restored_without_configuration_def Let_def exists_where_def list_ex_iff)
  qed
  moreover have "is_node_configured s'"
  proof -
    let ?required = "\<lambda>(key, v). key \<in> set REQUIRED_NODE_SETTING_KEY_VALUES"
    have "filter ?required (node_settings s') \<noteq> []"
    proof
      assume "filter ?required (node_settings s') = []"
      then have "load_node_configuration CV s' = Inr None" unfolding load_node_configuration_def by simp
      with load show False by simp
    qed
    then obtain row where row: "row \<in> set (node_settings s')" "?required row"
      unfolding filter_empty_conv by blast
    then have "fst row \<noteq> NODE_IDENTITY_BACKUP_KEY"
      using backup_key_not_required by (metis (no_types, lifting) case_prod_beta)
    with row(1) show ?thesis
      unfolding is_node_configured_def list_ex_iff by (intro bexI [of _ row]) (simp_all add: case_prod_beta)
  qed
  ultimately have node: "load_configured_node CV s' = Inr \<lparr>node_is_configured = True,
      configured_key = configured_node_public_key c, configuration_error = [], identity_restored_without_configuration = False\<rparr>"
    and none: "load_active_setup_run_summary s' = None"
    unfolding load_configured_node_def load_active_setup_run_summary_def load inactive by simp_all
  have "relay_mode_of CV (Some (configured_node_public_key c)) s' = Inr MODE_RUNNING"
    unfolding relay_mode_of_def node none using assms(6)
    by (simp add: decide_relay_mode_def is_setup_in_progress_def)
  with step load show ?thesis
    using inactive first_where_exists [of run_is_active "setup_runs s'"] by (auto simp: get_active_setup_run_def)
qed

section \<open>Getting through\<close>

text \<open>
  C22: From every reachable state with no active run, the wizard can take a named node from being read to being
  configured: after some steps the stored configuration is the one that was confirmed, and the worker attached to
  that node runs. An earlier run that was abandoned in the middle of a restore does not stand in the way.
\<close>

theorem setup_can_complete:
  fixes I :: node_information
  assumes "setup_reachable s" "\<not> exists_where run_is_active (setup_runs s)"
    and "information_name I \<noteq> []" "strip (information_name I) = information_name I"
    and "conversions_ok CV" "configuration_fits c" "configured_node_public_key c \<noteq> []"
  shows "\<exists>s'. setup_step\<^sup>*\<^sup>* s s' \<and> load_node_configuration CV s' = Inr (Some c) \<and>
    relay_mode_of CV (Some (configured_node_public_key c)) s' = Inr MODE_RUNNING"
proof -
  have ok: "setup_ok s" using setup_reachable_ids [OF assms(1)] by (simp add: ids_ok_def)
  have "information_public_key I @ [0] \<noteq> information_public_key I" by simp
  from wizard_reaches_configuring [OF ok assms(2-4) this] obtain r s1
    where s1: "open_step\<^sup>*\<^sup>* s s1" "r \<in> set (rows (setup_runs s1))" "run_state r = SETUP_CONFIGURING" by blast
  note steps = open_steps_are_setup_steps [OF s1(1)]
  have "setup_reachable s1" using assms(1) steps by (simp add: setup_reachable_def)
  from completed_run_lets_relay [OF setup_reachable_ids [OF this] s1(2,3) assms(5-7)] steps show ?thesis
    by (meson rtranclp.rtrancl_into_rtrancl)
qed

lemma sample_name: "information_name (sample_information k) \<noteq> []"
    "strip (information_name (sample_information k)) = information_name (sample_information k)"
  by (simp_all add: sample_information_def) (code_simp)+

lemma no_run_at_first: "setup_reachable empty_system" "\<not> exists_where run_is_active (setup_runs empty_system)"
  by (simp_all add: setup_reachable_def empty_system_def empty_table_def exists_where_def)

theorem setup_can_complete_witness:
  "\<exists>s'. setup_step\<^sup>*\<^sup>* empty_system s' \<and>
     load_node_configuration sample_conversions s' = Inr (Some (sample_configuration (sample_key 1))) \<and>
     relay_mode_of sample_conversions (Some (sample_key 1)) s' = Inr MODE_RUNNING"
proof -
  have "configured_node_public_key (sample_configuration (sample_key 1)) = sample_key 1" by (simp add: sample_configuration_def)
  with setup_can_complete [OF no_run_at_first sample_name sample_conversions_ok sample_configuration_fits, of "sample_key 1"]
    sample_key_neq(2) [of 1] show ?thesis by metis
qed

text \<open>The relay's first setup, and then a second one that began to restore the configured identity.\<close>

lemma configured_system:
  "\<exists>s. setup_reachable s \<and> \<not> exists_where run_is_active (setup_runs s) \<and> read_configured_public_key s = sample_key 1"
proof -
  let ?c = "sample_configuration (sample_key 1)"
  have key: "configured_node_public_key ?c = sample_key 1" by (simp add: sample_configuration_def)
  have ok: "setup_ok empty_system" by (rule setup_ok_empty)
  have "sample_key 2 \<noteq> information_public_key (sample_information (sample_key 0))"
    by (simp add: sample_information_def sample_key_neq)
  from wizard_reaches_configuring [OF ok no_run_at_first(2) sample_name this] obtain r s1
    where s1: "open_step\<^sup>*\<^sup>* empty_system s1" "r \<in> set (rows (setup_runs s1))" "run_state r = SETUP_CONFIGURING" by blast
  have reach: "setup_reachable s1" using open_steps_are_setup_steps [OF s1(1)] by (simp add: setup_reachable_def)
  from completed_run_lets_relay [OF setup_reachable_ids [OF reach] s1(2,3) sample_conversions_ok sample_configuration_fits] key
  obtain s2 where s2: "setup_step s1 s2" "load_node_configuration sample_conversions s2 = Inr (Some ?c)"
    "\<not> exists_where run_is_active (setup_runs s2)"
    using sample_key_neq(2) by metis
  have reach2: "setup_reachable s2" using reach s2(1) unfolding setup_reachable_def by (rule rtranclp.rtrancl_into_rtrancl)
  have "read_configured_public_key s2 = sample_key 1"
    using load_gives_stored_key [OF s2(2)] key by simp
  with reach2 s2(3) show ?thesis by blast
qed

lemma configuring_system:
  "\<exists>s r. setup_reachable s \<and> r \<in> set (rows (setup_runs s)) \<and> run_state r = SETUP_CONFIGURING \<and>
     read_configured_public_key s = sample_key 1"
proof -
  obtain s where s: "setup_reachable s" "\<not> exists_where run_is_active (setup_runs s)" "read_configured_public_key s = sample_key 1"
    using configured_system by blast
  have ok: "setup_ok s" using setup_reachable_ids [OF s(1)] by (simp add: ids_ok_def)
  have "sample_key 3 \<noteq> information_public_key (sample_information (sample_key 1))"
    by (simp add: sample_information_def sample_key_neq)
  from wizard_reaches_configuring [OF ok s(2) sample_name this] obtain r s1
    where s1: "open_step\<^sup>*\<^sup>* s s1" "r \<in> set (rows (setup_runs s1))" "run_state r = SETUP_CONFIGURING"
      "node_settings s1 = node_settings s" by blast
  have "setup_reachable s1" using s(1) open_steps_are_setup_steps [OF s1(1)] by (simp add: setup_reachable_def)
  moreover have "read_configured_public_key s1 = sample_key 1"
    using s(3) s1(4) by (simp add: read_configured_public_key_def read_node_setting_value_def)
  ultimately show ?thesis using s1(2,3) by blast
qed



text \<open>
  C7: From the moment a setup run begins to give the configured identity to the reset node, the relay mode is never running,
  whatever key the attached node reports and whatever the operator and the worker do meanwhile, until a
  configuration completes: cancelling the run, failing, restarting and starting further runs do not make the
  unconfigured node relay.
\<close>

theorem restored_identity_never_relays_unconfigured:
  assumes "setup_reachable s"
    and "record_identity_restore_started i (read_configured_public_key s) s = Inr s1"
    and "open_step\<^sup>*\<^sup>* s1 s'"
  shows "relay_mode_of CV attached s' \<noteq> Inr MODE_RUNNING"
proof -
  have ok: "setup_ok s" "ids_positive (setup_runs s)" "ids_ok s"
    using setup_reachable_ids [OF assms(1)] by (auto simp: ids_ok_def)
  have s1: "setup_ok s1" "identity_at_large (read_configured_public_key s1) s1"
    using record_identity_restore_started_ok [OF ok(1) assms(2)] restore_started_at_large [OF ok(3) assms(2)] by auto
  have kept: "step_keeps s s1" "setup_ok s'" "step_keeps s1 s'"
    using open_step_kept [OF restore_started [OF assms(2)] ok(1)] open_steps_kept [OF assms(3) s1(1)] by auto
  have "ids_positive (setup_runs s')"
    using ok(2) kept(1,3) ids_positive_grow unfolding step_keeps_def runs_kept_def by blast
  moreover have "identity_at_large (read_configured_public_key s') s'"
    using kept(3) identity_at_large_kept [OF s1(2)] by (simp add: step_keeps_def)
  ultimately show ?thesis by (rule identity_at_large_never_runs [OF kept(2)])
qed

text \<open>Every command expires after the restore began, and the relay still does not run.\<close>

theorem restored_identity_never_relays_unconfigured_witness:
  "\<exists>s i s1 expired s2. setup_reachable s \<and> record_identity_restore_started i (read_configured_public_key s) s = Inr s1 \<and>
     read_configured_public_key s = sample_key 1 \<and> expire_pending_node_commands (\<lambda>_. False) 1000000000 s1 = Inr (expired, s2) \<and>
     relay_mode_of sample_conversions (Some (sample_key 1)) s2 \<noteq> Inr MODE_RUNNING"
proof -
  obtain s r where s: "setup_reachable s" "r \<in> set (rows (setup_runs s))" "run_state r = SETUP_CONFIGURING"
    "read_configured_public_key s = sample_key 1"
    using configuring_system by blast
  have ok: "setup_ok s" using setup_reachable_ids [OF s(1)] by (simp add: ids_ok_def)
  obtain s1 where s1: "record_identity_restore_started (run_id r) (read_configured_public_key s) s = Inr s1"
    using restore_succeeds [OF ok s(2,3)] by blast
  have "setup_ok s1" by (rule record_identity_restore_started_ok [OF ok s1])
  then obtain expired s2 where s2: "expire_pending_node_commands (\<lambda>_. False) 1000000000 s1 = Inr (expired, s2)"
    using expire_pending_ok by blast
  have "open_step\<^sup>*\<^sup>* s1 s2" using commands_expired [OF s2] by (rule r_into_rtranclp)
  from restored_identity_never_relays_unconfigured [OF s(1) s1 this] s(1,4) s1 s2 show ?thesis by blast
qed

end
