(* ===== verification/Contact_Properties.thy ===== *)
theory Contact_Properties
  imports Contacts
begin

text \<open>
  What the contact table promises: the node's capacity is never passed, no two contacts share the six bytes a frame
  names its sender by, the reconciler writes only the contact it means, and a deletion takes exactly what hangs on
  the deleted rows and leaves no key without its row.
\<close>

section \<open>Capacity and prefixes\<close>

definition contacts_ok :: "contact table \<Rightarrow> bool" where
  "contacts_ok t \<longleftrightarrow> keys_ok contact_id t \<and> all_rows contact_row_ok t \<and> length (rows t) \<le> CONTACT_CAPACITY \<and>
     distinct (map public_key_prefix (rows t))"

text \<open>Every change of the contact table: the operations above, and changes of other columns by the services of a request.\<close>

inductive contact_step :: "system \<Rightarrow> system \<Rightarrow> bool" where
  card_added: "add_contact_from_card k now s = Inr (c, s') \<Longrightarrow> contact_step s s'"
| advert_added: "add_contact_from_heard_advert i now s = Inr (c, s') \<Longrightarrow> contact_step s s'"
| marked_on_node: "contact_step s (snd (mark_contact_on_node i key name out_path now s))"
| marked_failed: "contact_step s (snd (mark_contact_add_failed i key sync_error now s))"
| returned_to_pending: "contact_step s (snd (return_contact_to_pending_add key sync_error s))"
| contact_deleted: "delete_contact_in_one_transaction i seen s = Inr s' \<Longrightarrow> contact_step s s'"
| user_deleted: "contact_step s (delete_user_in_one_transaction i s)"
| served: "next_id (contacts (relay s)) = next_id (contacts (relay s')) \<Longrightarrow>
    list_all2 contact_evolves (rows (contacts (relay s))) (rows (contacts (relay s'))) \<Longrightarrow> contact_step s s'"

lemma create_contactE:
  assumes "create_contact f now s = Inr (c, s')"
  obtains name where "truncate_contact_name (fields_name f) = Inr name"
    "c = new_contact f name now (next_id (contacts (relay s)))" "contact_row_ok c"
    "contacts (relay s') = insert_row (new_contact f name now) (contacts (relay s))"
    "length (rows (contacts (relay s))) < CONTACT_CAPACITY"
    "\<And>x. x \<in> set (rows (contacts (relay s))) \<Longrightarrow> public_key_prefix x \<noteq> public_key_prefix c"
    "fields_public_key f \<notin> set (find_relay_node_public_keys s)"
proof -
  have "is_allowed (check_contact_addition (fields_public_key f) (fields_node_type f) s)"
    using assms by (auto simp: create_contact_def Let_def split: if_splits)
  then have "length (rows (contacts (relay s))) < CONTACT_CAPACITY"
    "fields_public_key f \<notin> set (find_relay_node_public_keys s)"
    by (auto simp: is_allowed_def check_contact_addition_def Let_def split: if_splits option.splits)
  with assms that show thesis
    by (auto simp: create_contact_def Let_def exists_where_def list_ex_iff notify_relay_worker_def split: if_splits sum.splits)
qed

lemma contacts_ok_create:
  assumes "create_contact f now s = Inr (c, s')" "contacts_ok (contacts (relay s))"
  shows "contacts_ok (contacts (relay s'))"
  using assms(1)
proof (cases rule: create_contactE)
  case (1 name)
  have key: "contact_id c = next_id (contacts (relay s))" using 1(2) by (simp add: new_contact_def)
  have "public_key_prefix c \<notin> public_key_prefix ` set (rows (contacts (relay s)))" using 1(6) by force
  with 1 assms(2) key show ?thesis
    by (auto simp: contacts_ok_def all_rows_insert keys_ok_def sorted_wrt_append less_Suc_eq)
qed

lemma contacts_ok_update:
  assumes "contacts_ok t" "\<And>c. contact_id (f c) = contact_id c" "\<And>c. public_key (f c) = public_key c"
    "\<And>c. contact_row_ok c \<Longrightarrow> contact_row_ok (f c)"
  shows "contacts_ok (update_where P f t)"
proof -
  have "map public_key_prefix (rows (update_where P f t)) = map public_key_prefix (rows t)"
    by (rule map_rows_update) (simp add: public_key_prefix_def assms(3))
  moreover have "keys_ok contact_id (update_where P f t)"
    using assms(1) by (intro contact_table.keys_update assms(2)) (simp add: contacts_ok_def)
  moreover have "all_rows contact_row_ok (update_where P f t)"
    using assms(1,4) by (auto simp: contacts_ok_def intro: all_rows_update)
  ultimately show ?thesis using assms(1) unfolding contacts_ok_def by (simp only: length_map rows_update)
qed

lemma contacts_ok_delete: "contacts_ok t \<Longrightarrow> contacts_ok (delete_where P t)"
  by (auto simp: contacts_ok_def distinct_map_filter intro: contact_table.keys_delete all_rows_delete
      intro!: order.trans [OF length_filter_le])

lemma contacts_ok_evolves:
  assumes "contacts_ok t" "next_id t = next_id t'" "list_all2 contact_evolves (rows t) (rows t')"
  shows "contacts_ok t'"
proof -
  from assms(3) have same: "map contact_id (rows t') = map contact_id (rows t)"
    and prefixes: "map public_key_prefix (rows t') = map public_key_prefix (rows t)"
    and ok: "list_all contact_row_ok (rows t) \<longrightarrow> list_all contact_row_ok (rows t')"
    by (induction rule: list_all2_induct) (auto simp: contact_evolves_def public_key_prefix_def)
  have keys: "keys_ok contact_id u \<longleftrightarrow>
      sorted_wrt (<) (map contact_id (rows u)) \<and> (\<forall>i \<in> set (map contact_id (rows u)). i < next_id u)" for u :: "contact table"
    by (simp add: keys_ok_def)
  from assms(1,2) ok list_all2_lengthD [OF assms(3)] show ?thesis
    unfolding contacts_ok_def keys same prefixes all_rows_def by (simp add: list_all_iff)
qed

lemma contact_step_ok: "contact_step s s' \<Longrightarrow> contacts_ok (contacts (relay s)) \<Longrightarrow> contacts_ok (contacts (relay s'))"
proof (induction rule: contact_step.induct)
  case (card_added k now s c s')
  then show ?case by (auto simp: add_contact_from_card_def intro: contacts_ok_create)
next
  case (advert_added i now s c s')
  then obtain f s1 where "create_contact f now s = Inr (c, s1)" "relay s' = relay s1"
    by (auto simp: add_contact_from_heard_advert_def split: option.splits if_splits sum.splits)
  with advert_added(2) contacts_ok_create show ?case by metis
next
  case (marked_on_node s i key name out_path now)
  then show ?case
    by (auto simp: mark_contact_on_node_def update_contacts_def Let_def contact_row_ok_def intro!: contacts_ok_update)
next
  case (marked_failed s i key sync_error now)
  then show ?case
    by (auto simp: mark_contact_add_failed_def update_contacts_def Let_def contact_row_ok_def intro!: contacts_ok_update)
next
  case (returned_to_pending s key sync_error)
  then show ?case
    by (auto simp: return_contact_to_pending_add_def update_contacts_def contact_row_ok_def intro!: contacts_ok_update split: option.splits)
next
  case (contact_deleted i seen s s')
  then show ?case
    by (auto simp: delete_contact_in_one_transaction_def cascade_def Let_def notify_relay_worker_def intro: contacts_ok_delete
        split: sum.splits option.splits)
next
  case (user_deleted s i)
  then show ?case
    by (auto simp: delete_user_in_one_transaction_def cascade_def Let_def notify_relay_worker_def intro: contacts_ok_delete
        split: option.splits)
next
  case (served s s')
  then show ?case by (blast intro: contacts_ok_evolves)
qed

section \<open>No key without its row\<close>

definition refers :: "nat option \<Rightarrow> nat set \<Rightarrow> bool" where
  "refers key ids \<longleftrightarrow> (case key of None \<Rightarrow> True | Some i \<Rightarrow> i \<in> ids)"

definition ids_of :: "('r \<Rightarrow> nat) \<Rightarrow> 'r table \<Rightarrow> nat set" where
  "ids_of key t = key ` set (rows t)"

definition references_ok :: "system \<Rightarrow> bool" where
  "references_ok s \<longleftrightarrow>
     (let db = relay s; us = ids_of user_id (users db); cs = ids_of contact_id (contacts db);
          ms = ids_of message_pk (messages db); rs = ids_of session_id (refresh_sessions db);
          ds = ids_of delivery_id (deliveries db); ns = ids_of receipt_id (receipts db); bs = ids_of inbound_id (inbox db)
      in all_rows (\<lambda>c. refers (contact_user_id c) us) (contacts db) \<and>
         all_rows (\<lambda>m. sender_id m \<in> us \<and> recipient_id m \<in> us \<and> refers (sender_device_id m) cs) (messages db) \<and>
         all_rows (\<lambda>r. session_device_id r \<in> cs \<and> peer_id r \<in> us \<and> refers (requested_by_inbound_id r) bs) (refresh_sessions db) \<and>
         all_rows (\<lambda>d. delivery_message_id d \<in> ms \<and> delivery_device_id d \<in> cs \<and> refers (refresh_session_id d) rs) (deliveries db) \<and>
         all_rows (\<lambda>n. receipt_message_id n \<in> ms \<and> receipt_device_id n \<in> cs) (receipts db) \<and>
         all_rows (\<lambda>i. refers (inbound_contact_id i) cs) (inbox db) \<and>
         all_rows (\<lambda>p. refers (packet_contact_id p) cs \<and> refers (packet_delivery_id p) ds \<and> refers (packet_receipt_id p) ns) (packets db) \<and>
         all_rows (\<lambda>a. advert_session_id a \<in> ids_of pairing_id (pairing_sessions s) \<and> refers (added_contact_id a) cs) (heard_adverts s))"

lemma refers_forget: "refers key ids \<Longrightarrow> refers (forget gone key) (ids - set gone)"
  by (auto simp: refers_def forget_def split: option.splits)

lemma refers_mono: "refers key ids \<Longrightarrow> ids \<subseteq> ids' \<Longrightarrow> refers key ids'"
  by (auto simp: refers_def split: option.splits)

lemma ids_of_update: "(\<And>r. key (f r) = key r) \<Longrightarrow> ids_of key (update_where P f t) = ids_of key t"
  unfolding ids_of_def using arg_cong [OF map_rows_update [of key f P t], of set] by (simp del: rows_update)

lemma ids_of_delete: "ids_of key t - set (map key (select_where P t)) \<subseteq> ids_of key (delete_where P t)"
  unfolding ids_of_def by auto

lemma ids_of_delete_kept: "i \<in> ids_of key t \<Longrightarrow> i \<notin> set (map key (select_where P t)) \<Longrightarrow> i \<in> ids_of key (delete_where P t)"
  using ids_of_delete by fastforce

text \<open>
  What the cascade needs of its arguments: the devices of the deleted user are among the deleted contacts.
\<close>

lemma cascade_references_ok:
  assumes "references_ok s"
    and devices: "\<And>c i. u = Some i \<Longrightarrow> c \<in> set (rows (contacts (relay s))) \<Longrightarrow> contact_user_id c = Some i \<Longrightarrow> contact_id c \<in> set cs"
  shows "references_ok (cascade u cs s)"
proof -
  let ?db = "relay s" and ?db' = "relay (cascade u cs s)"
  let ?ms = "map message_pk (select_where (message_goes u) (messages ?db))"
  let ?rs = "map session_id (select_where (session_goes u cs) (refresh_sessions ?db))"
  let ?ds = "map delivery_id (select_where (delivery_goes cs ?ms ?rs) (deliveries ?db))"
  let ?ns = "map receipt_id (select_where (receipt_goes cs ?ms) (receipts ?db))"
  note refs = assms(1) [unfolded references_ok_def Let_def all_rows_def]
  note contact_refs = refs [THEN conjunct1] and refs2 = refs [THEN conjunct2]
  note message_refs = refs2 [THEN conjunct1] and refs3 = refs2 [THEN conjunct2]
  note session_refs = refs3 [THEN conjunct1] and refs4 = refs3 [THEN conjunct2]
  note delivery_refs = refs4 [THEN conjunct1] and refs5 = refs4 [THEN conjunct2]
  note receipt_refs = refs5 [THEN conjunct1] and refs6 = refs5 [THEN conjunct2]
  note inbox_refs = refs6 [THEN conjunct1] and refs7 = refs6 [THEN conjunct2]
  note packet_refs = refs7 [THEN conjunct1] and advert_refs = refs7 [THEN conjunct2]
  have tables: "users ?db' = delete_where (\<lambda>x. u = Some (user_id x)) (users ?db)"
    "contacts ?db' = delete_where (\<lambda>c. contact_id c \<in> set cs) (contacts ?db)"
    "messages ?db' = update_where (\<lambda>_. True) (\<lambda>m. m\<lparr>sender_device_id := forget cs (sender_device_id m)\<rparr>)
       (delete_where (message_goes u) (messages ?db))"
    "refresh_sessions ?db' = delete_where (session_goes u cs) (refresh_sessions ?db)"
    "deliveries ?db' = delete_where (delivery_goes cs ?ms ?rs) (deliveries ?db)"
    "receipts ?db' = delete_where (receipt_goes cs ?ms) (receipts ?db)"
    "inbox ?db' = update_where (\<lambda>_. True) (\<lambda>i. i\<lparr>inbound_contact_id := forget cs (inbound_contact_id i)\<rparr>) (inbox ?db)"
    "packets ?db' = update_where (\<lambda>_. True)
       (\<lambda>p. p\<lparr>packet_contact_id := forget cs (packet_contact_id p), packet_delivery_id := forget ?ds (packet_delivery_id p),
              packet_receipt_id := forget ?ns (packet_receipt_id p)\<rparr>) (packets ?db)"
    "heard_adverts (cascade u cs s) =
       update_where (\<lambda>_. True) (\<lambda>a. a\<lparr>added_contact_id := forget cs (added_contact_id a)\<rparr>) (heard_adverts s)"
    "pairing_sessions (cascade u cs s) = pairing_sessions s"
    by (simp_all add: cascade_def Let_def)
  have user: "i \<in> ids_of user_id (users ?db')" if "i \<in> ids_of user_id (users ?db)" "u \<noteq> Some i" for i
    using that by (auto simp: tables ids_of_def)
  have contact: "ids_of contact_id (contacts ?db) - set cs \<subseteq> ids_of contact_id (contacts ?db')"
    by (auto simp: tables ids_of_def)
  have message: "i \<in> ids_of message_pk (messages ?db')" if "i \<in> ids_of message_pk (messages ?db)" "i \<notin> set ?ms" for i
    using ids_of_delete_kept [OF that] by (simp add: tables ids_of_update del: rows_update rows_delete)
  have session: "ids_of session_id (refresh_sessions ?db) - set ?rs \<subseteq> ids_of session_id (refresh_sessions ?db')"
    unfolding tables by (rule ids_of_delete)
  have delivery: "ids_of delivery_id (deliveries ?db) - set ?ds \<subseteq> ids_of delivery_id (deliveries ?db')"
    unfolding tables by (rule ids_of_delete)
  have receipt: "ids_of receipt_id (receipts ?db) - set ?ns \<subseteq> ids_of receipt_id (receipts ?db')"
    unfolding tables by (rule ids_of_delete)
  have inbox: "ids_of inbound_id (inbox ?db') = ids_of inbound_id (inbox ?db)"
    unfolding tables by (rule ids_of_update) simp
  note forget = refers_mono [OF refers_forget]
  have "all_rows (\<lambda>c. refers (contact_user_id c) (ids_of user_id (users ?db'))) (contacts ?db')"
  proof -
    have "refers (contact_user_id c) (ids_of user_id (users ?db'))"
      if c: "c \<in> set (rows (contacts ?db))" "contact_id c \<notin> set cs" for c
      using bspec [OF contact_refs c(1)] devices [OF _ c(1)] c(2) user
      by (cases "contact_user_id c") (auto simp: refers_def)
    then show ?thesis by (auto simp: all_rows_def tables(2))
  qed
  moreover have "all_rows (\<lambda>m. sender_id m \<in> ids_of user_id (users ?db') \<and> recipient_id m \<in> ids_of user_id (users ?db') \<and>
      refers (sender_device_id m) (ids_of contact_id (contacts ?db'))) (messages ?db')"
    using message_refs user forget [OF _ contact] by (auto simp: all_rows_def tables(3) message_goes_def)
  moreover have "all_rows (\<lambda>r. session_device_id r \<in> ids_of contact_id (contacts ?db') \<and> peer_id r \<in> ids_of user_id (users ?db') \<and>
      refers (requested_by_inbound_id r) (ids_of inbound_id (inbox ?db'))) (refresh_sessions ?db')"
    using session_refs user contact by (auto simp: all_rows_def tables(4) session_goes_def inbox)
  moreover have "all_rows (\<lambda>d. delivery_message_id d \<in> ids_of message_pk (messages ?db') \<and>
      delivery_device_id d \<in> ids_of contact_id (contacts ?db') \<and>
      refers (refresh_session_id d) (ids_of session_id (refresh_sessions ?db'))) (deliveries ?db')"
    using delivery_refs message contact session
    by (auto simp: all_rows_def tables(5) delivery_goes_def refers_def split: option.splits)
  moreover have "all_rows (\<lambda>n. receipt_message_id n \<in> ids_of message_pk (messages ?db') \<and>
      receipt_device_id n \<in> ids_of contact_id (contacts ?db')) (receipts ?db')"
    using receipt_refs message contact by (auto simp: all_rows_def tables(6) receipt_goes_def)
  moreover have "all_rows (\<lambda>i. refers (inbound_contact_id i) (ids_of contact_id (contacts ?db'))) (inbox ?db')"
    using inbox_refs forget [OF _ contact] by (auto simp: all_rows_def tables(7))
  moreover have "all_rows (\<lambda>p. refers (packet_contact_id p) (ids_of contact_id (contacts ?db')) \<and>
      refers (packet_delivery_id p) (ids_of delivery_id (deliveries ?db')) \<and>
      refers (packet_receipt_id p) (ids_of receipt_id (receipts ?db'))) (packets ?db')"
    using packet_refs forget [OF _ contact] forget [OF _ delivery] forget [OF _ receipt] by (auto simp: all_rows_def tables(8))
  moreover have "all_rows (\<lambda>a. advert_session_id a \<in> ids_of pairing_id (pairing_sessions (cascade u cs s)) \<and>
      refers (added_contact_id a) (ids_of contact_id (contacts ?db'))) (heard_adverts (cascade u cs s))"
    using advert_refs forget [OF _ contact] by (auto simp: all_rows_def tables(9,10))
  ultimately show ?thesis unfolding references_ok_def Let_def by blast
qed

end
