(* ===== verification/Node_Properties.thy ===== *)
theory Node_Properties
  imports Setup_Progress Contact_Properties
begin

text \<open>
  What the node's settings, its identity backup, contact cards, contacts, pairing sessions and the pruning of the log
  guarantee.
\<close>

section \<open>Settings and identity\<close>



text \<open>
  C30: A private key is restored only from the backup of the key that is expected, and only when it belongs to that
  public key.
\<close>

theorem restored_key_is_the_expected_one:
  assumes "load_private_key_for_restore BS expected s = Inr key"
  shows "belongs_to BS key expected \<and>
    (\<exists>stored b. read_stored_backup_value s = Some stored \<and> parse_node_identity_backup BS stored = Inr b \<and>
       backup_public_key b = expected)"
  using assms restored_key_belongs [OF assms]
  by (auto simp: load_private_key_for_restore_def backup_bind_eq_Inr split: option.splits if_splits)

definition backed_up_system :: system where
  "backed_up_system = empty_system\<lparr>node_settings := [(NODE_IDENTITY_BACKUP_KEY, str ''document'')]\<rparr>"

theorem restored_key_is_the_expected_one_witness:
  "load_private_key_for_restore sample_services (sample_key 1) backed_up_system = Inr sample_private_key \<and>
     belongs_to sample_services sample_private_key (sample_key 1)"
proof -
  have "load_private_key_for_restore sample_services (sample_key 1) backed_up_system = Inr sample_private_key" by code_simp
  with restored_key_is_the_expected_one [OF this] show ?thesis by blast
qed


section \<open>Contact cards\<close>

text \<open>
  C31: A contact card written in the firmware's format, with any route and path bytes and any spaces in the text, is read as
  the contact it describes exactly when the signature over its key, time and data verifies, and is refused as
  changed otherwise.
\<close>

theorem written_card_is_read:
  assumes "packet_frame_ok route codes hash_size hash_count path" "advert_ok a" "length signature = 64" "bytes_ok signature"
    and "filter (\<lambda>c. \<not> is_python_space c) uri =
      CONTACT_CARD_URI_PREFIX @ bytes_hex (encode_packet route codes hash_size hash_count path (encode_advert a signature))"
  shows "parse_contact_card_uri verify uri =
    (if verify (advert_key a) (advert_key a @ int_to_bytes_little 4 (advert_time a) @ encode_app_data a) signature
     then Inr (card_of_advert a (filter (\<lambda>c. \<not> is_python_space c) uri))
     else Inl (InvalidContactCardError (str ''The card's signature does not verify: it was changed or copied incompletely.'')))"
  by (rule parse_written_card [OF assms])

text \<open>
  Every card the parser accepts, whatever its bytes, is signed: the verifier accepted the signature over exactly the key,
  the time and the data the contact was read from.
\<close>

lemma accepted_cards_are_signed:
  assumes "parse_contact_card_uri verify uri = Inr read_card"
  shows "\<exists>key time_bytes app_data signature. verify key (key @ time_bytes @ app_data) signature \<and>
    length key = 32 \<and> length time_bytes = 4 \<and> length signature = 64 \<and> app_data \<noteq> [] \<and> length app_data \<le> 32 \<and>
    card_public_key read_card = bytes_hex key \<and> card_advert_timestamp read_card = int_from_bytes_little time_bytes \<and>
    (\<exists>details. parse_app_data app_data = Inr details \<and> card_node_type read_card = details_node_type details \<and>
       card_name read_card = details_name details \<and> card_latitude_microdegrees read_card = details_latitude details \<and>
       card_longitude_microdegrees read_card = details_longitude details)"
  by (rule accepted_card_is_signed [OF assms])

definition sample_advert :: advert where
  "sample_advert =
     \<lparr>advert_key = replicate 32 171, advert_time = 1700000000, advert_type = 1, advert_location = Some (1000000, -2000000),
      advert_feature_1 = None, advert_feature_2 = None, advert_label = str ''bob''\<rparr>"

definition sample_uri :: pystr where
  "sample_uri = CONTACT_CARD_URI_PREFIX @
     bytes_hex (encode_packet 1 [] 1 2 [7, 8] (encode_advert sample_advert (replicate 64 5)))"

lemma sample_card_facts:
  "packet_frame_ok 1 [] 1 2 [7, 8]" "advert_ok sample_advert"
  "filter (\<lambda>c. \<not> is_python_space c) sample_uri = sample_uri"
  by code_simp+

theorem written_card_is_read_witness:
  "parse_contact_card_uri (\<lambda>_ _ _. True) sample_uri = Inr (card_of_advert sample_advert sample_uri) \<and>
   parse_contact_card_uri (\<lambda>_ _ _. False) sample_uri \<noteq> Inr (card_of_advert sample_advert sample_uri)"
proof -
  have "length (replicate 64 (5::nat)) = 64" "bytes_ok (replicate 64 5)" by code_simp+
  note read = written_card_is_read [OF sample_card_facts(1,2) this, of sample_uri] sample_card_facts(3)
  have uri: "filter (\<lambda>c. \<not> is_python_space c) sample_uri = CONTACT_CARD_URI_PREFIX @
     bytes_hex (encode_packet 1 [] 1 2 [7, 8] (encode_advert sample_advert (replicate 64 5)))"
    unfolding sample_card_facts(3) by (simp only: sample_uri_def)
  show ?thesis
    unfolding read(1) [OF uri] sample_card_facts(3) by simp
qed

lemma accepted_cards_are_signed_witness:
  "parse_contact_card_uri (\<lambda>_ _ _. True) sample_uri = Inr (card_of_advert sample_advert sample_uri) \<and>
   (\<exists>key. length key = 32 \<and> card_public_key (card_of_advert sample_advert sample_uri) = bytes_hex key)"
proof -
  have parsed: "parse_contact_card_uri (\<lambda>_ _ _. True) sample_uri = Inr (card_of_advert sample_advert sample_uri)" by code_simp
  from accepted_cards_are_signed [OF parsed] parsed show ?thesis by blast
qed

section \<open>Contacts\<close>

text \<open>
  C28: However contacts are added, deleted, synchronised and used, the table never holds more contacts than the node
  has places for, no two of them share the six bytes a frame names its sender by, and each is a chat node with a
  key of 64 lower-case hexadecimal digits.
\<close>

theorem contact_table_fits_the_node:
  assumes "contact_step\<^sup>*\<^sup>* empty_system s"
  shows "length (rows (contacts (relay s))) \<le> 350 \<and>
    (\<forall>c \<in> set (rows (contacts (relay s))). \<forall>d \<in> set (rows (contacts (relay s))).
       public_key_prefix c = public_key_prefix d \<longrightarrow> c = d) \<and>
    (\<forall>c \<in> set (rows (contacts (relay s))). length (public_key c) = 64 \<and> list_all is_lower_hex (public_key c) \<and> node_type c = 1)"
proof -
  have "contacts_ok (contacts (relay empty_system))"
    by (simp add: contacts_ok_def empty_system_def empty_db_def) (simp add: empty_table_def)
  with assms have ok: "contacts_ok (contacts (relay s))"
    by (induction rule: rtranclp_induct) (auto intro: contact_step_ok)
  then have "inj_on public_key_prefix (set (rows (contacts (relay s))))"
    by (simp add: contacts_ok_def distinct_map)
  with ok show ?thesis
    by (auto simp: contacts_ok_def CONTACT_CAPACITY_def all_rows_def contact_row_ok_def dest: inj_onD)
qed

definition sample_card :: contact_card where
  "sample_card = card_of_advert sample_advert sample_uri"

definition one_contact :: system where
  "one_contact = (case add_contact_from_card sample_card 1800000000000000 empty_system of Inr (_, s) \<Rightarrow> s | Inl _ \<Rightarrow> empty_system)"

lemma one_contact_added: "\<exists>c. add_contact_from_card sample_card 1800000000000000 empty_system = Inr (c, one_contact)"
proof -
  have "\<not> isl (add_contact_from_card sample_card 1800000000000000 empty_system)" by code_simp
  then show ?thesis unfolding one_contact_def
    by (cases "add_contact_from_card sample_card 1800000000000000 empty_system") auto
qed

theorem contact_table_fits_the_node_witness:
  "length (rows (contacts (relay one_contact))) = 1 \<and> length (rows (contacts (relay one_contact))) \<le> 350"
proof -
  have "contact_step\<^sup>*\<^sup>* empty_system one_contact" using one_contact_added card_added by blast
  moreover have "length (rows (contacts (relay one_contact))) = 1" by code_simp
  ultimately show ?thesis using contact_table_fits_the_node by blast
qed

section \<open>Deletions\<close>




definition sample_system :: system where
  "sample_system = empty_system\<lparr>relay := sample_db\<rparr>"

lemma sample_references_ok: "references_ok sample_system"
  by (simp add: references_ok_def Let_def all_rows_def refers_def ids_of_def sample_system_def empty_system_def empty_db_def
      sample_db_def sample_message_def sample_contact_def sample_receipt_def sample_delivery_def new_delivery_def
      sample_user_def empty_table_def)


text \<open>
  C24: Deleting a user leaves no key without its row: its devices, every message it sent or received with their
  deliveries and receipts, and every refresh session for it are gone, and the messages between other users and the
  contacts of other users stay.
\<close>

theorem deleted_user_leaves_no_trace:
  assumes "references_ok s" "find_user u (relay s) \<noteq> None" "keys_ok contact_id (contacts (relay s))"
  defines "s' \<equiv> delete_user_in_one_transaction u s"
  shows "references_ok s' \<and> find_user u (relay s') = None \<and>
    (\<forall>c \<in> set (rows (contacts (relay s'))). contact_user_id c \<noteq> Some u) \<and>
    (\<forall>m \<in> set (rows (messages (relay s'))). sender_id m \<noteq> u \<and> recipient_id m \<noteq> u) \<and>
    (\<forall>r \<in> set (rows (refresh_sessions (relay s'))). peer_id r \<noteq> u) \<and>
    ids_of message_pk (messages (relay s')) =
      message_pk ` {m \<in> set (rows (messages (relay s))). sender_id m \<noteq> u \<and> recipient_id m \<noteq> u} \<and>
    (\<forall>c \<in> set (rows (contacts (relay s))). contact_user_id c \<noteq> Some u \<longrightarrow> c \<in> set (rows (contacts (relay s'))))"
proof -
  let ?cs = "device_ids_of_user u (relay s)"
  have s': "s' = notify_relay_worker CHANNEL_CONTACTS_CHANGED [] (cascade (Some u) ?cs s)"
    using assms(2) by (auto simp: s'_def delete_user_in_one_transaction_def)
  have devices: "i \<in> set ?cs \<longleftrightarrow> (\<exists>c \<in> set (rows (contacts (relay s))). contact_user_id c = Some u \<and> contact_id c = i)" for i
    by (auto simp: device_ids_of_user_def)
  have "references_ok (cascade (Some u) ?cs s)"
    by (rule cascade_references_ok [OF assms(1)]) (auto simp: devices)
  then have "references_ok s'" by (simp add: s' references_ok_def)
  moreover have "find_user u (relay s') = None"
    by (auto simp: s' cascade_def Let_def find_user_def first_where_def find_None_iff)
  moreover have "contact_id c \<notin> set ?cs" if "c \<in> set (rows (contacts (relay s)))" "contact_user_id c \<noteq> Some u" for c
    using that contact_table.key_unique [OF assms(3)] by (auto simp: devices)
  ultimately show ?thesis
    by (auto simp: s' cascade_def Let_def ids_of_def message_goes_def session_goes_def devices image_iff)
qed

theorem deleted_user_leaves_no_trace_witness:
  "references_ok (delete_user_in_one_transaction 2 sample_system) \<and>
     find_user 2 (relay (delete_user_in_one_transaction 2 sample_system)) = None"
proof -
  have "find_user 2 (relay sample_system) \<noteq> None"
    by (simp add: find_user_def first_where_def sample_system_def sample_db_def sample_user_def)
  moreover have "keys_ok contact_id (contacts (relay sample_system))"
    using sample_tables_ok by (simp add: tables_ok_def sample_system_def)
  ultimately show ?thesis using deleted_user_leaves_no_trace [OF sample_references_ok] by blast
qed

section \<open>Synchronisation, pruning and pairing\<close>

lemma two_updates:
  assumes "\<And>c. named (f c) = named c"
  shows "(if named (if named c \<and> \<not> known c then f c else c) then g (if named c \<and> \<not> known c then f c else c)
    else if named c \<and> \<not> known c then f c else c) = (if named c then g (if known c then c else f c) else c)"
  using assms by auto

text \<open>
  What the reconciler writes after it found a contact on the node is a compare-and-set on id and key: no other contact
  changes, and a contact that was deleted, or deleted and added again under the same id with another key, is left
  alone and reported so. The time at which the contact was first found stays.
\<close>

lemma found_contact_is_marked_alone:
  assumes "mark_contact_on_node i key name out_path now s = (b, s')" "keys_ok contact_id (contacts (relay s))"
  shows "(b \<longleftrightarrow> (\<exists>c \<in> set (rows (contacts (relay s))). contact_id c = i \<and> public_key c = key)) \<and>
    (\<not> b \<longrightarrow> s' = s) \<and>
    (\<forall>c \<in> set (rows (contacts (relay s))). contact_id c \<noteq> i \<or> public_key c \<noteq> key \<longrightarrow> c \<in> set (rows (contacts (relay s')))) \<and>
    (\<forall>c \<in> set (rows (contacts (relay s'))). contact_id c = i \<and> public_key c = key \<longrightarrow>
       node_sync_state c = ON_NODE \<and> node_name c = name \<and> node_out_path_length c = out_path \<and> node_synced_at c \<noteq> None) \<and>
    (\<forall>c \<in> set (rows (contacts (relay s))). contact_id c = i \<and> public_key c = key \<and> node_sync_state c = ON_NODE \<and> node_synced_at c \<noteq> None \<longrightarrow>
       c\<lparr>node_name := name, node_out_path_length := out_path\<rparr> \<in> set (rows (contacts (relay s'))))"
proof -
  let ?t = "contacts (relay s)" and ?named = "\<lambda>c. contact_id c = i \<and> public_key c = key"
  let ?f = "\<lambda>c. c\<lparr>node_sync_state := ON_NODE, node_sync_error := [], node_synced_at := Some now\<rparr>"
  let ?g = "\<lambda>c. c\<lparr>node_name := name, node_out_path_length := out_path\<rparr>"
  let ?t1 = "update_where (\<lambda>c. ?named c \<and> \<not> (node_sync_state c = ON_NODE \<and> node_synced_at c \<noteq> None)) ?f ?t"
  have "count_where ?named ?t1 = count_where ?named ?t"
  proof -
    have "length (filter ?named (map (\<lambda>c. if P c then ?f c else c) cs)) = length (filter ?named cs)" for P cs
      by (induction cs) auto
    then show ?thesis unfolding count_where_def by simp
  qed
  with assms(1) have b: "b \<longleftrightarrow> count_where ?named ?t = 1"
    and s': "s' = s\<lparr>relay := (relay s)\<lparr>contacts := update_where ?named ?g ?t1\<rparr>\<rparr>"
    by (auto simp: mark_contact_on_node_def update_contacts_def Let_def)
  have "count_where ?named ?t \<le> 1"
  proof -
    have "length (filter ?named cs) \<le> 1" if "sorted_wrt (<) (map contact_id cs)" for cs :: "contact list"
      using that
    proof (induction cs)
      case (Cons c cs)
      then have "filter ?named cs = []" if "?named c" using that by (auto simp: filter_empty_conv)
      with Cons show ?case by auto
    qed simp
    with assms(2) show ?thesis by (simp add: keys_ok_def count_where_def)
  qed
  moreover have "count_where ?named ?t = 0 \<longleftrightarrow> \<not> (\<exists>c \<in> set (rows ?t). ?named c)"
    by (simp add: count_where_def filter_empty_conv)
  ultimately have exists: "b \<longleftrightarrow> (\<exists>c \<in> set (rows ?t). ?named c)"
    unfolding b by linarith
  have unchanged: "s' = s" if "\<not> b"
  proof -
    from that exists have "\<forall>c \<in> set (rows ?t). \<not> ?named c" by blast
    then have "?t1 = ?t" "update_where ?named ?g ?t = ?t" by (auto intro!: update_where_id)
    then show ?thesis by (simp add: s')
  qed
  define h :: "contact \<Rightarrow> contact" where "h = (\<lambda>c. ?g (if node_sync_state c = ON_NODE \<and> node_synced_at c \<noteq> None then c else ?f c))"
  have "rows (contacts (relay s')) = map (\<lambda>c. if ?named c then ?g c else c) (rows ?t1)"
    by (simp add: s' del: map_map)
  also have "\<dots> = map (\<lambda>c. if ?named c then h c else c) (rows ?t)"
    unfolding rows_update map_map h_def comp_def by (rule map_cong [OF refl], rule two_updates) simp
  finally have rows: "set (rows (contacts (relay s'))) = (\<lambda>c. if ?named c then h c else c) ` set (rows ?t)"
    by (simp only: set_map)
  have h: "node_sync_state (h c) = ON_NODE \<and> node_name (h c) = name \<and> node_out_path_length (h c) = out_path \<and> node_synced_at (h c) \<noteq> None"
    "node_sync_state c = ON_NODE \<Longrightarrow> node_synced_at c \<noteq> None \<Longrightarrow> h c = ?g c" for c
    by (simp_all add: h_def)
  have others: "c \<in> set (rows (contacts (relay s')))" if "c \<in> set (rows ?t)" "\<not> ?named c" for c
    using that unfolding rows by (intro image_eqI [of _ _ c]) auto
  have marked: "node_sync_state c = ON_NODE \<and> node_name c = name \<and> node_out_path_length c = out_path \<and> node_synced_at c \<noteq> None"
    if "c \<in> set (rows (contacts (relay s')))" "?named c" for c
  proof -
    from that(1) obtain d where "c = (if ?named d then h d else d)" unfolding rows by blast
    with that(2) h(1) [of d] show ?thesis by (cases "?named d") auto
  qed
  have known: "?g c \<in> set (rows (contacts (relay s')))"
    if "c \<in> set (rows ?t)" "?named c" "node_sync_state c = ON_NODE" "node_synced_at c \<noteq> None" for c
    using that h(2) [of c] unfolding rows by (intro image_eqI [of _ _ c]) auto
  show ?thesis
    using exists unchanged others marked known by blast
qed

lemma found_contact_is_marked_alone_witness:
  "fst (mark_contact_on_node 2 (replicate 64 50) (str ''dev'') (Some 2) 77 sample_system) \<and>
   \<not> fst (mark_contact_on_node 2 (replicate 64 51) (str ''dev'') (Some 2) 77 sample_system)"
proof -
  have keys: "keys_ok contact_id (contacts (relay sample_system))"
    using sample_tables_ok by (simp add: tables_ok_def sample_system_def)
  have one: "(\<exists>c \<in> set (rows (contacts (relay sample_system))). contact_id c = 2 \<and> public_key c = key) \<longleftrightarrow> key = replicate 64 50" for key
    by (auto simp: sample_system_def sample_db_def sample_contact_def)
  show ?thesis
    using found_contact_is_marked_alone [OF surjective_pairing keys, of 2 _ "str ''dev''" "Some 2" 77] unfolding one by (simp add: replicate_eq_replicate)
qed

text \<open>
  Pruning the traffic log keeps every inbox row that still waits to be processed, whatever its age, and every row and packet
  younger than the retention; what it deletes it counts, and no refresh session keeps the key of a deleted row.
\<close>

lemma pruning_keeps_what_waits:
  assumes "prune_traffic_log now days db = ((inbox_count, packet_count), db')"
  shows "(\<forall>i \<in> set (rows (inbox db)). inbound_processing_state i = PROCESSING_RECEIVED \<or> now - days * 86400000000 \<le> received_at i \<longrightarrow>
       i \<in> set (rows (inbox db'))) \<and>
    (\<forall>i \<in> set (rows (inbox db')). i \<in> set (rows (inbox db)) \<and>
       (inbound_processing_state i = PROCESSING_RECEIVED \<or> now - days * 86400000000 \<le> received_at i)) \<and>
    length (rows (inbox db')) + inbox_count = length (rows (inbox db)) \<and>
    length (rows (packets db')) + packet_count = length (rows (packets db)) \<and>
    (all_rows (\<lambda>r. refers (requested_by_inbound_id r) (ids_of inbound_id (inbox db))) (refresh_sessions db) \<longrightarrow>
     all_rows (\<lambda>r. refers (requested_by_inbound_id r) (ids_of inbound_id (inbox db'))) (refresh_sessions db'))"
proof -
  let ?oldest = "now - timedelta_of_seconds (days * 86400)"
  let ?old = "\<lambda>i. received_at i < ?oldest \<and> inbound_processing_state i \<noteq> PROCESSING_RECEIVED"
  let ?gone = "map inbound_id (select_where ?old (inbox db))"
  have eqs: "inbox db' = delete_where ?old (inbox db)" "inbox_count = count_where ?old (inbox db)"
    "packets db' = delete_where (\<lambda>p. case prepared_at p of None \<Rightarrow> False | Some t \<Rightarrow> t < ?oldest) (packets db)"
    "packet_count = count_where (\<lambda>p. case prepared_at p of None \<Rightarrow> False | Some t \<Rightarrow> t < ?oldest) (packets db)"
    "refresh_sessions db' = update_where (\<lambda>_. True) (\<lambda>r. r\<lparr>requested_by_inbound_id := forget ?gone (requested_by_inbound_id r)\<rparr>)
       (refresh_sessions db)"
    using assms by (auto simp: prune_traffic_log_def Let_def)
  have count: "length (rows (delete_where P t)) + count_where P t = length (rows t)" for P and t :: "'r table"
    using sum_length_filter_compl [of P "rows t"] by (simp add: count_where_def)
  have "all_rows (\<lambda>r. refers (requested_by_inbound_id r) (ids_of inbound_id (inbox db'))) (refresh_sessions db')"
    if "all_rows (\<lambda>r. refers (requested_by_inbound_id r) (ids_of inbound_id (inbox db))) (refresh_sessions db)"
    using that refers_mono [OF refers_forget ids_of_delete, of _ inbound_id "inbox db" ?old] by (auto simp: eqs all_rows_def)
  moreover have "length (rows (inbox db')) + inbox_count = length (rows (inbox db))"
    "length (rows (packets db')) + packet_count = length (rows (packets db))"
    unfolding eqs by (rule count)+
  ultimately show ?thesis
    by (auto simp: eqs(1) timedelta_of_seconds_def)
qed

definition old_row_waiting :: db where
  "old_row_waiting = sample_received (str ''HT1 Q Bob'')"

lemma pruning_keeps_what_waits_witness:
  "\<exists>n p db'. prune_traffic_log 9000000000000000 30 old_row_waiting = ((n, p), db') \<and> sample_row (str ''HT1 Q Bob'') \<in> set (rows (inbox db'))"
proof -
  obtain n p db' where run: "prune_traffic_log 9000000000000000 30 old_row_waiting = ((n, p), db')" by (metis surj_pair)
  have "sample_row (str ''HT1 Q Bob'') \<in> set (rows (inbox old_row_waiting))"
    "inbound_processing_state (sample_row (str ''HT1 Q Bob'')) = PROCESSING_RECEIVED"
    by (simp_all add: old_row_waiting_def sample_received_def sample_row_def)
  with pruning_keeps_what_waits [OF run] run show ?thesis by blast
qed

text \<open>
  At most one pairing session is active at any time, and every key heard in a session has one row; each advert
  heard adds one to the counts of the rows.
\<close>

lemma pairing_hears_each_key_once:
  assumes "pairing_step\<^sup>*\<^sup>* empty_system s"
  shows "count_where (\<lambda>p. pairing_state p = PAIRING_ACTIVE) (pairing_sessions s) \<le> 1 \<and>
    distinct (map (\<lambda>a. (advert_session_id a, advert_public_key a)) (rows (heard_adverts s))) \<and>
    sum_list (map heard_count (rows (heard_adverts (snd (record_heard_advert session h now s))))) =
      sum_list (map heard_count (rows (heard_adverts s))) + 1"
proof -
  have "pairing_ok empty_system"
    by (simp add: pairing_ok_def empty_system_def count_where_def) (simp add: empty_table_def)
  with assms have ok: "pairing_ok s"
    by (induction rule: rtranclp_induct) (auto intro: pairing_step_ok)
  with heard_advert_is_counted [OF ok surjective_pairing] show ?thesis
    by (simp add: pairing_ok_def)
qed

definition sample_heard :: heard_contact where
  "sample_heard = \<lparr>heard_public_key = sample_key 1, heard_type = 1, heard_name = Some (str ''bob''), heard_last_advert = Some 5,
     heard_latitude_degrees = Some (1 / 2), heard_longitude_degrees = None, heard_payload = JNull\<rparr>"

lemma pairing_hears_each_key_once_witness:
  "\<exists>p s. start_pairing_session 60 5 True None 0 empty_system = Inr (p, s) \<and>
     sum_list (map heard_count (rows (heard_adverts (snd (record_heard_advert 1 sample_heard 7 s))))) = 1"
proof -
  have "\<not> isl (start_pairing_session 60 5 True None 0 empty_system)" by code_simp
  then obtain p s where s: "start_pairing_session 60 5 True None 0 empty_system = Inr (p, s)"
    by (cases "start_pairing_session 60 5 True None 0 empty_system") auto
  then have "heard_adverts s = empty_table"
    by (auto simp: start_pairing_session_def empty_system_def Let_def split: if_splits)
  moreover have "pairing_step\<^sup>*\<^sup>* empty_system s" using started [OF s] by (rule r_into_rtranclp)
  note pairing_hears_each_key_once [OF this, of 1 sample_heard 7]
  ultimately show ?thesis using s by (auto simp: empty_table_def)
qed

end
