(* ===== verification/Worker_State.thy ===== *)
theory Worker_State
  imports Relay_Modes Contacts Request_Processing
begin

text \<open>
  What the tasks of the worker share in memory (\<^verbatim>\<open>worker/worker_state.py\<close>, \<^verbatim>\<open>worker/worker_timing.py\<close>,
  \<^verbatim>\<open>worker/clock.py\<close>): the wake-up calls, the live status, the pause of sending, and beside them the memory of
  the acknowledgement tracker and of the sender loop. The whole is the record \<open>worker\<close>, with the database it
  works on. An operation that may raise is a function from a worker to an error or a value, and the worker it
  leaves behind: what a task did to the memory before a raise stays done.
\<close>

section \<open>Timing\<close>

text \<open>The three delays of the reply queue are in \<^verbatim>\<open>Reply_Queue\<close>.\<close>

record worker_timing =
  node_command_timeout_seconds :: rat
  late_reply_grace_seconds :: rat
  lost_replies_before_reconnect :: nat
  get_next_message_timeout_seconds :: rat
  contact_listing_activity_seconds :: rat
  contact_listing_overall_seconds :: rat
  contact_listing_busy_retry_seconds :: rat
  factory_reset_reply_seconds :: rat
  tcp_connect_timeout_seconds :: rat
  connect_backoff_initial_seconds :: rat
  connect_backoff_maximum_seconds :: rat
  stable_connection_seconds :: rat
  watchdog_interval_seconds :: rat
  idle_health_check_seconds :: rat
  failed_watchdog_checks_before_reconnect :: nat
  client_disconnect_timeout_seconds :: rat
  node_clock_behind_tolerance_seconds :: int
  node_clock_ahead_warning_seconds :: int
  single_instance_keepalive_seconds :: rat
  database_sweep_seconds :: rat
  drain_poll_seconds :: rat
  maximum_unrecorded_frames :: nat
  lost_drain_replies_before_stop :: nat
  inbound_recording_attempts :: nat
  inbound_recording_retry_seconds :: rat
  minimum_sender_sleep_seconds :: rat
  maximum_sender_sleep_seconds :: rat
  table_full_backoff_initial_seconds :: rat
  table_full_backoff_maximum_seconds :: rat
  table_full_streak_before_error :: nat
  unmatched_acknowledgement_lifetime_seconds :: rat
  minimum_removal_quiet_wait_seconds :: rat
  node_restart_quiet_wait_seconds :: rat
  quiet_poll_seconds :: rat
  reconciliation_interval_seconds :: rat
  postponed_removal_retry_seconds :: rat
  node_command_shutdown_wait_seconds :: rat
  reboot_disconnect_wait_seconds :: rat
  reconnect_after_restart_wait_seconds :: rat
  advert_retry_seconds :: rat
  status_interval_seconds :: rat
  maintenance_interval_seconds :: rat
  task_restart_initial_seconds :: rat
  task_restart_maximum_seconds :: rat
  task_healthy_after_seconds :: rat
  shutdown_step_timeout_seconds :: rat

definition default_worker_timing :: worker_timing where
  "default_worker_timing =
     \<lparr>node_command_timeout_seconds = 10, late_reply_grace_seconds = 3 / 2, lost_replies_before_reconnect = 3,
      get_next_message_timeout_seconds = 5, contact_listing_activity_seconds = 5, contact_listing_overall_seconds = 60,
      contact_listing_busy_retry_seconds = 2, factory_reset_reply_seconds = 3, tcp_connect_timeout_seconds = 15,
      connect_backoff_initial_seconds = 1, connect_backoff_maximum_seconds = 30, stable_connection_seconds = 60,
      watchdog_interval_seconds = 5, idle_health_check_seconds = 60, failed_watchdog_checks_before_reconnect = 2,
      client_disconnect_timeout_seconds = 5, node_clock_behind_tolerance_seconds = 5,
      node_clock_ahead_warning_seconds = 60, single_instance_keepalive_seconds = 10, database_sweep_seconds = 5,
      drain_poll_seconds = 30, maximum_unrecorded_frames = 10, lost_drain_replies_before_stop = 3,
      inbound_recording_attempts = 3, inbound_recording_retry_seconds = 1, minimum_sender_sleep_seconds = 1,
      maximum_sender_sleep_seconds = 30, table_full_backoff_initial_seconds = 5, table_full_backoff_maximum_seconds = 60,
      table_full_streak_before_error = 10, unmatched_acknowledgement_lifetime_seconds = 60,
      minimum_removal_quiet_wait_seconds = 30, node_restart_quiet_wait_seconds = 10, quiet_poll_seconds = 1 / 2,
      reconciliation_interval_seconds = 600, postponed_removal_retry_seconds = 60,
      node_command_shutdown_wait_seconds = 10, reboot_disconnect_wait_seconds = 15,
      reconnect_after_restart_wait_seconds = 90, advert_retry_seconds = 3, status_interval_seconds = 5,
      maintenance_interval_seconds = 600, task_restart_initial_seconds = 1, task_restart_maximum_seconds = 30,
      task_healthy_after_seconds = 60, shutdown_step_timeout_seconds = 5\<rparr>"

text \<open>One reading of the clock: the wall time in microseconds and the monotonic time in seconds.\<close>

record reading =
  wall_time :: datetime
  monotonic :: rat

text \<open>\<^verbatim>\<open>convert_wall_time_to_deadline\<close>\<close>

definition convert_wall_time_to_deadline :: "reading \<Rightarrow> datetime \<Rightarrow> rat" where
  "convert_wall_time_to_deadline clk t = monotonic clk + of_int (t - wall_time clk) / 1000000"

section \<open>Signals and status\<close>

record worker_signals =
  sender_wakeup :: bool
  drain_requested :: bool
  reconcile_requested :: bool
  commands_available :: bool
  relay_mode_changed :: bool
  pairing_changed :: bool
  status_changed :: bool
  inbox_rows_recorded :: bool
  inbound_frame_recorded :: bool
  acknowledgement_deadlines_changed :: bool
  shutdown_requested :: bool
  inbound_frames_finished :: bool
  link_close_requested :: bool

datatype connection_state = LINK_DISCONNECTED | LINK_CONNECTING | LINK_HANDSHAKING | LINK_CONNECTED

datatype worker_backup_state =
    WORKER_BACKUP_NOT_CHECKED | WORKER_BACKUP_STORED | WORKER_BACKUP_MISSING | WORKER_BACKUP_UNREADABLE
  | WORKER_BACKUP_EXPORT_DISABLED | WORKER_BACKUP_FAILED

record connected_node_description =
  attached_public_key :: pystr
  attached_name :: pystr
  attached_firmware_version :: pystr
  attached_model :: pystr
  attached_protocol_version :: int
  attached_radio_summary :: pystr

record worker_runtime_status =
  worker_instance_id :: pystr
  process_started_at :: datetime
  transport_description :: pystr
  effective_configuration :: json
  relay_mode_now :: relay_mode
  connection_state :: connection_state
  connection_generation :: int
  connected_since :: "datetime option"
  attached_node :: "connected_node_description option"
  node_contact_count :: "int option"
  node_clock_offset_seconds :: "int option"
  node_clock_was_set_forward :: bool
  settings_drift_report :: "json list"
  node_identity_backup_now :: worker_backup_state
  consecutive_connect_failures :: nat
  last_error_message :: pystr
  last_error_at :: "datetime option"

section \<open>The memory of the worker\<close>

text \<open>A packet whose firmware acknowledgement is awaited, and an acknowledgement that matched nothing
  (\<^verbatim>\<open>worker/acknowledgement_tracker.py\<close>).\<close>

record awaited_packet =
  awaited_packet_id :: nat
  awaited_contact_id :: "nat option"
  awaited_purpose :: packet_purpose
  awaited_code :: pystr
  deadline :: datetime

record unmatched_acknowledgement =
  unmatched_round_trip :: "int option"
  unmatched_received_at :: rat

record worker =
  signals :: worker_signals
  runtime_status :: worker_runtime_status
  pause_reasons :: "pystr list"
  replies :: reply_queue
  awaited_packets :: "(nat \<times> awaited_packet) list"
  unmatched_acknowledgements :: "(pystr \<times> unmatched_acknowledgement) list"
  last_send_completed_at :: "rat option"
  packet_pool_back_off_until :: "rat option"
  consecutive_full_packet_pools :: nat
  store :: system

definition no_signals :: worker_signals where
  "no_signals = \<lparr>sender_wakeup = False, drain_requested = False, reconcile_requested = False, commands_available = False,
     relay_mode_changed = False, pairing_changed = False, status_changed = False, inbox_rows_recorded = False,
     inbound_frame_recorded = False, acknowledgement_deadlines_changed = False, shutdown_requested = False,
     inbound_frames_finished = False, link_close_requested = False\<rparr>"

definition new_runtime_status :: "pystr \<Rightarrow> datetime \<Rightarrow> pystr \<Rightarrow> json \<Rightarrow> worker_runtime_status" where
  "new_runtime_status instance_id started_at transport configuration =
     \<lparr>worker_instance_id = instance_id, process_started_at = started_at, transport_description = transport,
      effective_configuration = configuration, relay_mode_now = MODE_DISCONNECTED, connection_state = LINK_DISCONNECTED,
      connection_generation = 0, connected_since = None, attached_node = None, node_contact_count = None,
      node_clock_offset_seconds = None, node_clock_was_set_forward = False, settings_drift_report = [],
      node_identity_backup_now = WORKER_BACKUP_NOT_CHECKED, consecutive_connect_failures = 0, last_error_message = [],
      last_error_at = None\<rparr>"

definition new_worker :: "worker_runtime_status \<Rightarrow> system \<Rightarrow> worker" where
  "new_worker status s = \<lparr>signals = no_signals, runtime_status = status, pause_reasons = [],
     replies = new_reply_queue default_reply_timing, awaited_packets = [], unmatched_acknowledgements = [],
     last_send_completed_at = None, packet_pool_back_off_until = None, consecutive_full_packet_pools = 0, store = s\<rparr>"

definition is_shutting_down :: "worker \<Rightarrow> bool" where
  "is_shutting_down w \<longleftrightarrow> shutdown_requested (signals w)"

definition is_running :: "worker \<Rightarrow> bool" where
  "is_running w \<longleftrightarrow> relay_mode_now (runtime_status w) = MODE_RUNNING"

definition is_node_connected :: "worker \<Rightarrow> bool" where
  "is_node_connected w \<longleftrightarrow> connection_state (runtime_status w) = LINK_CONNECTED"

definition report_status_change :: "worker \<Rightarrow> worker" where
  "report_status_change w = w\<lparr>signals := (signals w)\<lparr>status_changed := True\<rparr>\<rparr>"

definition wake_sender :: "worker \<Rightarrow> worker" where
  "wake_sender w = w\<lparr>signals := (signals w)\<lparr>sender_wakeup := True\<rparr>\<rparr>"

definition wake_tracker :: "worker \<Rightarrow> worker" where
  "wake_tracker w = w\<lparr>signals := (signals w)\<lparr>acknowledgement_deadlines_changed := True\<rparr>\<rparr>"

definition record_error :: "pystr \<Rightarrow> datetime \<Rightarrow> worker \<Rightarrow> worker" where
  "record_error message now w =
     report_status_change (w\<lparr>runtime_status := (runtime_status w)\<lparr>last_error_message := message, last_error_at := Some now\<rparr>\<rparr>)"

definition record_node_identity_backup_state :: "worker_backup_state \<Rightarrow> worker \<Rightarrow> worker" where
  "record_node_identity_backup_state backup_state w =
     (if node_identity_backup_now (runtime_status w) \<noteq> backup_state
      then report_status_change (w\<lparr>runtime_status := (runtime_status w)\<lparr>node_identity_backup_now := backup_state\<rparr>\<rparr>)
      else w)"

text \<open>\<^verbatim>\<open>ContactReconciler.request_reconciliation\<close>\<close>

definition request_reconciliation :: "worker \<Rightarrow> worker" where
  "request_reconciliation w = w\<lparr>signals := (signals w)\<lparr>reconcile_requested := True\<rparr>\<rparr>"

section \<open>The gate of sending\<close>

text \<open>The two halves of \<^verbatim>\<open>pause_sending\<close>: entering the block, once the sender holds no step, and leaving it.\<close>

definition is_paused :: "worker \<Rightarrow> bool" where
  "is_paused w \<longleftrightarrow> pause_reasons w \<noteq> []"

definition begin_pause :: "pystr \<Rightarrow> worker \<Rightarrow> worker" where
  "begin_pause reason w = w\<lparr>pause_reasons := pause_reasons w @ [reason]\<rparr>"

definition end_pause :: "pystr \<Rightarrow> worker \<Rightarrow> worker" where
  "end_pause reason w = wake_sender (w\<lparr>pause_reasons := remove1 reason (pause_reasons w)\<rparr>)"

section \<open>Operations that may raise\<close>

type_synonym 'a act = "worker \<Rightarrow> (py_error + 'a) \<times> worker"

definition act_return :: "'a \<Rightarrow> 'a act" where
  "act_return x w = (Inr x, w)"

definition act_bind :: "'a act \<Rightarrow> ('a \<Rightarrow> 'b act) \<Rightarrow> 'b act" where
  "act_bind m f w = (case m w of (Inl e, w1) \<Rightarrow> (Inl e, w1) | (Inr x, w1) \<Rightarrow> f x w1)"

lemma act_bind_eq_Inr:
  "act_bind m f w = (Inr y, w') \<longleftrightarrow> (\<exists>x w1. m w = (Inr x, w1) \<and> f x w1 = (Inr y, w'))"
  by (auto simp: act_bind_def split: prod.splits sum.splits)

text \<open>A call of a service in the database thread: a service that raises leaves the database as it was.\<close>

definition in_database :: "(db \<Rightarrow> 'a \<times> db) \<Rightarrow> worker \<Rightarrow> 'a \<times> worker" where
  "in_database f w =
     (let (x, db') = f (relay (store w)) in (x, w\<lparr>store := (store w)\<lparr>relay := db'\<rparr>\<rparr>))"

definition try_in_database :: "(db \<Rightarrow> ('a \<times> db) res) \<Rightarrow> 'a act" where
  "try_in_database f w =
     (case f (relay (store w)) of
        Inl e \<Rightarrow> (Inl e, w)
      | Inr (x, db') \<Rightarrow> (Inr x, w\<lparr>store := (store w)\<lparr>relay := db'\<rparr>\<rparr>))"

lemma in_database_eq:
  "in_database f w = (fst (f (relay (store w))), w\<lparr>store := (store w)\<lparr>relay := snd (f (relay (store w)))\<rparr>\<rparr>)"
  by (simp add: in_database_def case_prod_beta Let_def)

end
