(* ===== verification/Acknowledgement_Tracker.thy ===== *)
theory Acknowledgement_Tracker
  imports Worker_State
begin

text \<open>
  Firmware acknowledgements (\<^verbatim>\<open>worker/acknowledgement_tracker.py\<close>): the packets whose acknowledgement is awaited,
  the acknowledgements that came before their packet was recorded, the deadlines, and the settlement of route
  resets. A dictionary is an association list in insertion order. The answer of the node to a route reset is an
  argument: \<open>True\<close> when the command succeeded.
\<close>

section \<open>Pacing\<close>

definition count_packets_awaiting_acknowledgement :: "worker \<Rightarrow> nat" where
  "count_packets_awaiting_acknowledgement w = length (awaited_packets w)"

definition count_unmatched_acknowledgements :: "worker \<Rightarrow> nat" where
  "count_unmatched_acknowledgements w = length (unmatched_acknowledgements w)"

definition forget_packets_awaiting_acknowledgement :: "worker \<Rightarrow> worker" where
  "forget_packets_awaiting_acknowledgement w = wake_tracker (w\<lparr>awaited_packets := []\<rparr>)"

section \<open>Sends and acknowledgements\<close>

definition forget_old_unmatched_acknowledgements :: "worker_timing \<Rightarrow> reading \<Rightarrow> worker \<Rightarrow> worker" where
  "forget_old_unmatched_acknowledgements T clk w =
     w\<lparr>unmatched_acknowledgements :=
         filter (\<lambda>(_, u). \<not> monotonic clk - unmatched_received_at u \<ge> unmatched_acknowledgement_lifetime_seconds T)
           (unmatched_acknowledgements w)\<rparr>"

definition take_unmatched_acknowledgement ::
  "worker_timing \<Rightarrow> reading \<Rightarrow> pystr \<Rightarrow> worker \<Rightarrow> unmatched_acknowledgement option \<times> worker" where
  "take_unmatched_acknowledgement T clk code w =
     (let w1 = forget_old_unmatched_acknowledgements T clk w
      in (map_of (unmatched_acknowledgements w1) code,
          w1\<lparr>unmatched_acknowledgements := AList.delete code (unmatched_acknowledgements w1)\<rparr>))"

definition pop_awaited :: "nat \<Rightarrow> worker \<Rightarrow> worker" where
  "pop_awaited i w = w\<lparr>awaited_packets := AList.delete i (awaited_packets w)\<rparr>"

definition handle_node_acknowledgement ::
  "worker_timing \<Rightarrow> reading \<Rightarrow> pystr \<Rightarrow> int option \<Rightarrow> worker \<Rightarrow> worker" where
  "handle_node_acknowledgement T clk code round_trip w =
     (let (acknowledged, w1) = in_database (record_node_acknowledgement code round_trip (wall_time clk)) w
      in if acknowledged = [] then
           let w2 = forget_old_unmatched_acknowledgements T clk w1
           in w2\<lparr>unmatched_acknowledgements :=
                AList.update code \<lparr>unmatched_round_trip = round_trip, unmatched_received_at = monotonic clk\<rparr>
                  (unmatched_acknowledgements w2)\<rparr>
         else
           wake_tracker (wake_sender (fold (pop_awaited \<circ> acknowledged_packet_id) acknowledged w1)))"

definition register_sent_packet :: "worker_timing \<Rightarrow> reading \<Rightarrow> recorded_send_outcome \<Rightarrow> worker \<Rightarrow> worker" where
  "register_sent_packet T clk outcome w =
     (case recorded_deadline_at outcome of
        None \<Rightarrow> w
      | Some t \<Rightarrow>
          if \<not> awaits_acknowledgement outcome then w
          else
            let code = recorded_acknowledgement_code outcome;
                w1 = wake_tracker (w\<lparr>awaited_packets := AList.update (recorded_packet_id outcome)
                       \<lparr>awaited_packet_id = recorded_packet_id outcome, awaited_contact_id = outcome_contact_id outcome,
                        awaited_purpose = recorded_purpose outcome, awaited_code = code, deadline = t\<rparr>
                       (awaited_packets w)\<rparr>);
                (early, w2) = take_unmatched_acknowledgement T clk code w1
            in case early of
                 None \<Rightarrow> w2
               | Some u \<Rightarrow> handle_node_acknowledgement T clk code (unmatched_round_trip u) w2)"

section \<open>Route resets\<close>

fun add_flood_resends :: "reading \<Rightarrow> reply_resend_candidate list \<Rightarrow> worker \<Rightarrow> worker" where
  "add_flood_resends clk [] w = w"
| "add_flood_resends clk (r # rs) w =
     (if has_reply_for (resend_contact_id r) (resend_reply_key r) (replies w) then add_flood_resends clk rs w
      else
        let (_, q) = add_flood_resend (resend_contact_id r) (resend_reply_key r) (resend_text r) (monotonic clk) (replies w)
        in add_flood_resends clk rs (wake_sender (w\<lparr>replies := q\<rparr>)))"

definition read_contact_public_key :: "nat \<Rightarrow> worker \<Rightarrow> pystr option" where
  "read_contact_public_key i w = map_option public_key (find_contact i (relay (store w)))"

text \<open>The value is the key of the contact whose route the node was told to reset, if it was.\<close>

definition settle_route_resets ::
  "relay_settings \<Rightarrow> reading \<Rightarrow> bool \<Rightarrow> nat \<Rightarrow> pystr option \<Rightarrow> pystr option act" where
  "settle_route_resets S clk reset_works contact_key key =
     act_bind (try_in_database (settle_pending_route_resets_in_transaction S contact_key (wall_time clk))) (\<lambda>settlement w.
       if \<not> needs_reset settlement then act_return None w
       else
         let contact_public_key = (case key of Some k \<Rightarrow> if k = [] then read_contact_public_key contact_key w else Some k
                                   | None \<Rightarrow> read_contact_public_key contact_key w)
         in case contact_public_key of
              None \<Rightarrow> act_return None w
            | Some k \<Rightarrow>
                if \<not> reset_works then act_return (Some k) w
                else
                  let (_, w1) = in_database
                        (record_route_reset_performed (packet_ids_needing_reset settlement) (wall_time clk)) w
                  in act_return (Some k) (add_flood_resends clk (replies_to_resend settlement) w1))"

section \<open>Deadlines\<close>

definition handle_passed_deadline ::
  "relay_settings \<Rightarrow> reading \<Rightarrow> bool \<Rightarrow> awaited_packet \<Rightarrow> unit act" where
  "handle_passed_deadline S clk reset_works p w =
     (let (timed_out, w1) = in_database
            (record_acknowledgement_deadline_passed_in_transaction (awaited_packet_id p) (wall_time clk)) w;
          w2 = wake_sender (pop_awaited (awaited_packet_id p) w1)
      in case timed_out of
           None \<Rightarrow> act_return () w2
         | Some t \<Rightarrow>
             (case timeout_contact_id t of
                None \<Rightarrow> act_return () w2
              | Some contact_key \<Rightarrow>
                  if \<not> route_reset_pending t then act_return () w2
                  else if timeout_purpose t = PURPOSE_REPLY \<and> is_running w2
                  then act_bind (settle_route_resets S clk reset_works contact_key None) (\<lambda>_. act_return ()) w2
                  else act_return () w2))"

fun handle_deadlines_of :: "relay_settings \<Rightarrow> reading \<Rightarrow> bool \<Rightarrow> awaited_packet list \<Rightarrow> unit act" where
  "handle_deadlines_of S clk reset_works [] w = act_return () w"
| "handle_deadlines_of S clk reset_works (p # ps) w =
     act_bind (handle_passed_deadline S clk reset_works p) (\<lambda>_. handle_deadlines_of S clk reset_works ps) w"

definition handle_passed_deadlines :: "relay_settings \<Rightarrow> reading \<Rightarrow> bool \<Rightarrow> unit act" where
  "handle_passed_deadlines S clk reset_works w =
     handle_deadlines_of S clk reset_works
       (sort_key deadline (filter (\<lambda>p. deadline p \<le> wall_time clk) (map snd (awaited_packets w)))) w"

definition find_next_deadline :: "reading \<Rightarrow> worker \<Rightarrow> rat option" where
  "find_next_deadline clk w =
     (case map (deadline \<circ> snd) (awaited_packets w) of
        [] \<Rightarrow> None
      | t # ts \<Rightarrow> Some (convert_wall_time_to_deadline clk (fold min ts t)))"

end
