(* ===== verification/Sender_Loop.thy ===== *)
theory Sender_Loop
  imports Acknowledgement_Tracker
begin

text \<open>
  The loop that sends every outbound direct message (\<^verbatim>\<open>worker/sender_loop.py\<close>). One pass is cut where the loop
  waits for the node: \<open>begin_send\<close> checks the pacing and the gate and prepares a packet, the pending route resets
  of its contact are settled, the node answers, and \<open>complete_send\<close> records the answer. Other tasks run between
  these pieces; \<open>send_next_packet\<close> is a pass in which none does. The answer of the node is an argument: \<open>None\<close> is a
  gateway error.
\<close>

record send_attempt =
  packet_was_sent :: bool
  next_look_at :: "rat option"

definition PACKET_SENT :: send_attempt where
  "PACKET_SENT = \<lparr>packet_was_sent = True, next_look_at = None\<rparr>"

definition look_again_at :: "rat \<Rightarrow> send_attempt" where
  "look_again_at t = \<lparr>packet_was_sent = False, next_look_at = Some t\<rparr>"

section \<open>Pacing\<close>

definition may_send_now :: "worker \<Rightarrow> bool" where
  "may_send_now w \<longleftrightarrow> is_running w \<and> is_node_connected w"

definition wait_for_wakeup :: "worker_timing \<Rightarrow> reading \<Rightarrow> send_attempt" where
  "wait_for_wakeup T clk = look_again_at (monotonic clk + maximum_sender_sleep_seconds T)"

definition find_pacing_wait :: "relay_settings \<Rightarrow> worker_timing \<Rightarrow> reading \<Rightarrow> worker \<Rightarrow> send_attempt option" where
  "find_pacing_wait S T clk w =
     (if \<not> may_send_now w \<or> is_paused w then Some (wait_for_wakeup T clk)
      else if case packet_pool_back_off_until w of None \<Rightarrow> False | Some t \<Rightarrow> monotonic clk < t
      then Some (look_again_at (the (packet_pool_back_off_until w)))
      else if case last_send_completed_at w of None \<Rightarrow> False
              | Some t \<Rightarrow> t + minimum_seconds_between_sends (pacing S) > monotonic clk
      then Some (look_again_at (the (last_send_completed_at w) + minimum_seconds_between_sends (pacing S)))
      else if count_packets_awaiting_acknowledgement w \<ge> maximum_packets_awaiting_node_acknowledgement (pacing S)
      then Some (wait_for_wakeup T clk)
      else None)"

definition may_send_other_than_replies :: "relay_settings \<Rightarrow> worker \<Rightarrow> bool" where
  "may_send_other_than_replies S w \<longleftrightarrow>
     int (count_packets_awaiting_acknowledgement w) < int (maximum_packets_awaiting_node_acknowledgement (pacing S)) - 1"

section \<open>Waiting\<close>

definition calculate_idle_wait ::
  "worker_timing \<Rightarrow> reading \<Rightarrow> bool \<Rightarrow> rat option \<Rightarrow> worker \<Rightarrow> send_attempt \<times> worker" where
  "calculate_idle_wait T clk others next_eligible_at w =
     (let now = monotonic clk;
          (next_reply_ready_at, q) = next_ready_time now (replies w);
          candidate_deadlines =
            [now + maximum_sender_sleep_seconds T] @
            (case next_reply_ready_at of None \<Rightarrow> [] | Some t \<Rightarrow> [t]) @
            (case next_eligible_at of None \<Rightarrow> [] | Some t \<Rightarrow> if others then [t] else [])
      in (look_again_at (max (fold min (tl candidate_deadlines) (hd candidate_deadlines))
                             (now + minimum_sender_sleep_seconds T)),
          w\<lparr>replies := q\<rparr>))"

definition calculate_idle_wait_with_due_work ::
  "relay_settings \<Rightarrow> worker_timing \<Rightarrow> reading \<Rightarrow> worker \<Rightarrow> send_attempt \<times> worker" where
  "calculate_idle_wait_with_due_work S T clk w =
     calculate_idle_wait T clk True
       (map_option (convert_wall_time_to_deadline clk) (calculate_next_eligible_time S (relay (store w)))) w"

section \<open>Preparing\<close>

text \<open>What a pass came to before the node is involved: nothing to send, or a packet and the reply it carries.\<close>

datatype begun_send = Nothing_Sent send_attempt | Packet_Prepared packet_descriptor "pending_reply option"

definition prepare_to_send ::
  "relay_settings \<Rightarrow> worker_timing \<Rightarrow> (nat \<Rightarrow> bool) \<Rightarrow> (nat \<Rightarrow> bool) \<Rightarrow> reading \<Rightarrow> begun_send act" where
  "prepare_to_send S T skip_delivery skip_receipt clk w =
     (let generation = connection_generation (runtime_status w);
          (reply, q) = take_next_ready_reply (monotonic clk) (replies w);
          w1 = w\<lparr>replies := q\<rparr>
      in case reply of
           Some r \<Rightarrow>
             act_bind (try_in_database (prepare_reply_packet (pending_contact_id r) (pending_reply_key r) (pending_text r)
                 (wall_time clk) generation)) (\<lambda>prepared. act_return
               (case prepared of None \<Rightarrow> Nothing_Sent (look_again_at (monotonic clk)) | Some d \<Rightarrow> Packet_Prepared d (Some r))) w1
         | None \<Rightarrow>
             if \<not> may_send_other_than_replies S w1
             then let (attempt, w2) = calculate_idle_wait T clk False None w1 in act_return (Nothing_Sent attempt) w2
             else
               act_bind (try_in_database (prepare_next_packet_in_transaction S skip_delivery skip_receipt (wall_time clk) generation))
                 (\<lambda>prepared w2. case prepared of
                     None \<Rightarrow> (let (attempt, w3) = calculate_idle_wait_with_due_work S T clk w2
                              in act_return (Nothing_Sent attempt) w3)
                   | Some d \<Rightarrow> act_return (Packet_Prepared d None) w2) w1)"

definition begin_send ::
  "relay_settings \<Rightarrow> worker_timing \<Rightarrow> (nat \<Rightarrow> bool) \<Rightarrow> (nat \<Rightarrow> bool) \<Rightarrow> reading \<Rightarrow> begun_send act" where
  "begin_send S T skip_delivery skip_receipt clk w =
     (case find_pacing_wait S T clk w of
        Some attempt \<Rightarrow> act_return (Nothing_Sent attempt) w
      | None \<Rightarrow>
          if is_paused w \<or> \<not> may_send_now w then act_return (Nothing_Sent (wait_for_wakeup T clk)) w
          else prepare_to_send S T skip_delivery skip_receipt clk w)"

section \<open>Recording the node's answer\<close>

definition back_off_after_full_packet_pool :: "worker_timing \<Rightarrow> reading \<Rightarrow> worker \<Rightarrow> worker" where
  "back_off_after_full_packet_pool T clk w =
     (let streak = consecutive_full_packet_pools w + 1;
          back_off_seconds = min (table_full_backoff_initial_seconds T * 2 ^ (streak - 1)) (table_full_backoff_maximum_seconds T);
          w1 = w\<lparr>consecutive_full_packet_pools := streak,
                 packet_pool_back_off_until := Some (monotonic clk + back_off_seconds)\<rparr>
      in if streak = table_full_streak_before_error T
         then record_error (str ''The node refused '' @ str_of_int (int streak) @
                str '' sends in a row because its packet pool was full; the mesh around it may be congested.'')
                (wall_time clk) w1
         else w1)"

definition handle_recorded_outcome ::
  "worker_timing \<Rightarrow> reading \<Rightarrow> recorded_send_outcome \<Rightarrow> pending_reply option \<Rightarrow> worker \<Rightarrow> worker" where
  "handle_recorded_outcome T clk outcome reply w =
     (let w1 = (if node_packet_pool_full outcome then
                  let w0 = back_off_after_full_packet_pool T clk w
                  in case (reply, packet_pool_back_off_until w0) of
                       (Some r, Some t) \<Rightarrow> w0\<lparr>replies := snd (put_back r t (replies w0))\<rparr>
                     | _ \<Rightarrow> w0
                else w\<lparr>consecutive_full_packet_pools := 0\<rparr>)
      in if contact_needs_reconciliation outcome then request_reconciliation w1 else w1)"

fun is_rejection :: "node_send_outcome \<Rightarrow> bool" where
  "is_rejection (PacketRejectedByNode _) \<longleftrightarrow> True"
| "is_rejection _ \<longleftrightarrow> False"

text \<open>\<^verbatim>\<open>_send_to_node\<close>: a gateway error is an unknown outcome.\<close>

definition send_to_node :: "node_send_outcome option \<Rightarrow> node_send_outcome" where
  "send_to_node answer = (case answer of None \<Rightarrow> PacketOutcomeUnknown | Some outcome \<Rightarrow> outcome)"

definition complete_send ::
  "relay_settings \<Rightarrow> worker_timing \<Rightarrow> reading \<Rightarrow> node_send_outcome option \<Rightarrow> packet_descriptor \<Rightarrow> pending_reply option \<Rightarrow>
     worker \<Rightarrow> worker" where
  "complete_send S T clk answer d reply w =
     (let outcome = send_to_node answer;
          (recorded, w1) = in_database (record_send_outcome_in_transaction S (descriptor_packet_id d) outcome (wall_time clk)) w;
          w2 = w1\<lparr>last_send_completed_at := Some (monotonic clk)\<rparr>;
          w3 = (case reply of
                  Some r \<Rightarrow> if \<not> is_rejection outcome then w2\<lparr>replies := record_reply_sent r (monotonic clk) (replies w2)\<rparr> else w2
                | None \<Rightarrow> w2)
      in case recorded of
           None \<Rightarrow> w3
         | Some r \<Rightarrow> register_sent_packet T clk r (handle_recorded_outcome T clk r reply w3))"

section \<open>One pass\<close>

definition send_next_packet ::
  "relay_settings \<Rightarrow> worker_timing \<Rightarrow> (nat \<Rightarrow> bool) \<Rightarrow> (nat \<Rightarrow> bool) \<Rightarrow> reading \<Rightarrow> bool \<Rightarrow> reading \<Rightarrow> node_send_outcome option \<Rightarrow>
     send_attempt act" where
  "send_next_packet S T skip_delivery skip_receipt clk reset_works clk' answer =
     act_bind (begin_send S T skip_delivery skip_receipt clk) (\<lambda>begun.
       case begun of
         Nothing_Sent attempt \<Rightarrow> act_return attempt
       | Packet_Prepared d reply \<Rightarrow>
           act_bind (settle_route_resets S clk reset_works (descriptor_contact_id d) (Some (contact_public_key d))) (\<lambda>_ w.
             act_return PACKET_SENT (complete_send S T clk' answer d reply w)))"

end
