(* ===== verification/Sender_Properties.thy ===== *)
theory Sender_Properties
  imports Sender_Loop
begin

text \<open>
  The tracker and the sender loop together. \<open>worker_step\<close> lets the pieces of a pass of the sender interleave with
  acknowledgements, passed deadlines, lost links and every other transaction, in any order. The invariant says that
  the tracker knows every packet the database has on the node, so the pacing the sender keeps in its memory holds
  for the node.
\<close>

section \<open>Packets on the node\<close>

definition on_node :: "packet \<Rightarrow> bool" where
  "on_node p \<longleftrightarrow> packet_state p = PACKET_QUEUED_ON_NODE"

text \<open>No packet is on the node that was not before.\<close>

definition nothing_new_on_node :: "db \<Rightarrow> db \<Rightarrow> bool" where
  "nothing_new_on_node db db' \<longleftrightarrow>
     (\<forall>p' \<in> set (rows (packets db')). on_node p' \<longrightarrow> (\<exists>p \<in> set (rows (packets db)). packet_id p = packet_id p' \<and> on_node p))"

lemma nothing_new_refl [simp]: "nothing_new_on_node db db"
  by (auto simp: nothing_new_on_node_def)

lemma nothing_new_trans: "nothing_new_on_node a b \<Longrightarrow> nothing_new_on_node b c \<Longrightarrow> nothing_new_on_node a c"
  unfolding nothing_new_on_node_def by fastforce

lemma nothing_new_same_packets: "packets db' = packets db \<Longrightarrow> nothing_new_on_node db db'"
  by (auto simp: nothing_new_on_node_def)

lemma nothing_new_update:
  assumes "\<And>p. p \<in> set (rows (packets db)) \<Longrightarrow> P p \<Longrightarrow> packet_id (f p) = packet_id p \<and> (on_node (f p) \<longrightarrow> on_node p)"
    and "packets db' = update_where P f (packets db)"
  shows "nothing_new_on_node db db'"
  using assms by (fastforce simp: nothing_new_on_node_def split: if_splits)

lemma nothing_new_prepared: "packet_prepared db q db' \<Longrightarrow> nothing_new_on_node db db'"
  by (auto simp: nothing_new_on_node_def packet_prepared_def on_node_def)

section \<open>What the services put on the node\<close>

lemma settle_loop_nothing_new:
  "settle_loop path_update now ps needing db = Inr (needing', db') \<Longrightarrow> nothing_new_on_node db db'"
proof (induction ps arbitrary: needing db)
  case (Cons p ps)
  have one: "nothing_new_on_node db (snd (settle_route_reset i new_state now db))" for i new_state
    by (rule nothing_new_update) (auto simp: settle_route_reset_def Let_def on_node_def)
  show ?case
    using Cons.prems by (auto simp: res_bind_eq_Inr split: if_splits intro: Cons.IH nothing_new_trans [OF one Cons.IH])
qed simp

lemma settle_pending_nothing_new:
  "settle_pending_route_resets_in_transaction S contact_key now db = Inr (settlement, db') \<Longrightarrow>
     nothing_new_on_node db db' \<and> (tables_ok db \<longrightarrow> tables_ok db')"
  using settle_loop_nothing_new settle_pending_moves db_moves_ok
  by (fastforce simp: settle_pending_route_resets_in_transaction_def Let_def res_bind_eq_Inr)

lemma reset_performed_nothing_new: "nothing_new_on_node db (snd (record_route_reset_performed ids now db))"
  by (rule nothing_new_update) (auto simp: record_route_reset_performed_def Let_def on_node_def)

lemma acknowledge_loop_on_node:
  "acknowledge_loop round_trip now ps db = (acknowledged, db') \<Longrightarrow>
     map acknowledged_packet_id acknowledged = map packet_id ps \<and>
     (\<forall>q \<in> set (rows (packets db')). on_node q \<longrightarrow> q \<in> set (rows (packets db)) \<and>
        (\<forall>p \<in> set ps. \<not> (packet_id q = packet_id p \<and> packet_state q = packet_state p)))"
proof (induction ps arbitrary: db acknowledged)
  case (Cons p ps)
  let ?change = "\<lambda>q. let q1 = q\<lparr>packet_state := PACKET_NODE_ACKNOWLEDGED, acknowledged_at := Some now,
                                    round_trip_milliseconds := round_trip\<rparr>
                        in if route_reset_state p = RESET_PENDING
                           then q1\<lparr>route_reset_state := RESET_SKIPPED_LATE_ACKNOWLEDGEMENT,
                                   route_reset_decided_at := Some now\<rparr> else q1"
  let ?named = "\<lambda>q. packet_id q = packet_id p \<and> packet_state q = packet_state p"
  let ?db1 = "db\<lparr>packets := update_where ?named ?change (packets db)\<rparr>"
  obtain rest where rest: "acknowledge_loop round_trip now ps ?db1 = (rest, db')"
    and a: "map acknowledged_packet_id acknowledged = packet_id p # map acknowledged_packet_id rest"
    using Cons.prems by (auto simp: Let_def split: prod.splits)
  note IH = Cons.IH [OF rest]
  have changed: "\<not> on_node (?change q)" for q by (simp add: on_node_def Let_def)
  have kept: "q \<in> set (rows (packets db)) \<and> \<not> ?named q" if "q \<in> set (rows (packets ?db1))" "on_node q" for q
  proof -
    from that(1) obtain x where "x \<in> set (rows (packets db))" "q = (if ?named x then ?change x else x)" by auto
    with that(2) changed [of x] show ?thesis by (cases "?named x") simp_all
  qed
  have "map acknowledged_packet_id acknowledged = map packet_id (p # ps)" using IH a by simp
  moreover have "q \<in> set (rows (packets db)) \<and> (\<forall>x \<in> set (p # ps). \<not> (packet_id q = packet_id x \<and> packet_state q = packet_state x))"
    if "q \<in> set (rows (packets db'))" "on_node q" for q
    using IH that kept [of q] by simp
  ultimately show ?case by blast
qed simp

lemma acknowledgement_on_node:
  assumes "record_node_acknowledgement code round_trip now db = (acknowledged, db')" "tables_ok db"
    and "q \<in> set (rows (packets db'))" "on_node q"
  shows "q \<in> set (rows (packets db)) \<and> packet_id q \<notin> acknowledged_packet_id ` set acknowledged"
proof -
  define ps where "ps = select_where (\<lambda>p. expected_acknowledgement_code p = lower code \<and>
      packet_state p \<in> set PACKET_STATES_AWAITING_ACKNOWLEDGEMENT \<and>
      (case queued_at p of None \<Rightarrow> False | Some t \<Rightarrow> t \<ge> now - timedelta_minutes LATE_ACKNOWLEDGEMENT_MATCH_MINUTES)) (packets db)"
  have loop: "acknowledge_loop round_trip now ps db = (acknowledged, db')"
    using assms(1) by (simp add: record_node_acknowledgement_def ps_def)
  note spec = acknowledge_loop_on_node [OF loop]
  have q: "q \<in> set (rows (packets db))" using spec assms(3,4) by blast
  have keys: "keys_ok packet_id (packets db)" using assms(2) by (simp add: tables_ok_def)
  have "packet_id q \<notin> packet_id ` set ps"
  proof
    assume "packet_id q \<in> packet_id ` set ps"
    then obtain p where p: "p \<in> set ps" "packet_id q = packet_id p" by auto
    then have "p \<in> set (rows (packets db))" by (simp add: ps_def)
    from packet_table.key_unique [OF keys q this p(2)] have "q = p" .
    with spec assms(3,4) p show False by blast
  qed
  moreover have "acknowledged_packet_id ` set acknowledged = packet_id ` set ps"
    using spec by (metis set_map)
  ultimately show ?thesis using q by simp
qed

lemma deadline_on_node:
  assumes "q \<in> set (rows (packets (snd (record_acknowledgement_deadline_passed_in_transaction i now db))))" "on_node q"
  shows "q \<in> set (rows (packets db)) \<and> packet_id q \<noteq> i"
proof (cases "first_where (\<lambda>p. packet_id p = i \<and> packet_state p = PACKET_QUEUED_ON_NODE) (packets db)")
  case None
  then have "\<forall>p \<in> set (rows (packets db)). \<not> (packet_id p = i \<and> packet_state p = PACKET_QUEUED_ON_NODE)"
    by (auto simp: first_where_def find_None_iff)
  with None assms show ?thesis
    by (auto simp: record_acknowledgement_deadline_passed_in_transaction_def on_node_def)
next
  case (Some p)
  with assms show ?thesis
    by (auto simp: record_acknowledgement_deadline_passed_in_transaction_def Let_def on_node_def split: if_splits)
qed

lemma dropped_on_node: "p \<in> set (rows (packets (snd (drop_packets_awaiting_acknowledgement now db)))) \<Longrightarrow> \<not> on_node p"
  by (auto simp: drop_packets_awaiting_acknowledgement_def Let_def on_node_def split: if_splits)

text \<open>The only service that puts a packet on the node says so to the tracker.\<close>

lemma outcome_on_node:
  assumes "record_send_outcome_in_transaction S i outcome now db = (recorded, db')" "tables_ok db"
    and "q \<in> set (rows (packets db'))" "on_node q"
  shows "(\<exists>p \<in> set (rows (packets db)). packet_id p = packet_id q \<and> on_node p) \<or>
    (packet_id q = i \<and> (\<exists>r. recorded = Some r \<and> recorded_packet_id r = i \<and> awaits_acknowledgement r \<and>
       recorded_deadline_at r \<noteq> None))"
proof (cases "find_packet i db")
  case None
  with assms show ?thesis by (auto simp: record_send_outcome_in_transaction_def)
next
  case (Some p)
  show ?thesis
  proof (cases "packet_state p = PACKET_PREPARED")
    case False
    with assms Some show ?thesis by (auto simp: record_send_outcome_in_transaction_def)
  next
    case True
    have keys: "keys_ok packet_id (packets db)" using assms(2) by (simp add: tables_ok_def)
    have db': "db' = snd (record_send_outcome_in_transaction S i outcome now db)" using assms(1) by simp
    have found: "find_packet i db' = Some (build_packet_outcome_changes S outcome now p)"
      unfolding db' by (rule recorded_packet_is_not_prepared [OF keys Some True])
    have recorded: "\<exists>r. recorded = Some r \<and> recorded_packet_id r = packet_id p \<and>
        recorded_packet_state r = packet_state (build_packet_outcome_changes S outcome now p) \<and>
        recorded_deadline_at r = (if packet_state (build_packet_outcome_changes S outcome now p) = PACKET_QUEUED_ON_NODE
          then acknowledgement_deadline_at (build_packet_outcome_changes S outcome now p) else None)"
      using assms(1) Some True found
      by (auto simp: record_send_outcome_in_transaction_def Let_def describe_recorded_outcome_def outcome_changes_id)
    have p: "packet_id p = i" using Some unfolding find_packet_def by (auto dest!: first_where_SomeD)
    from assms(3) obtain x where x: "x \<in> set (rows (packets db))"
      "q = (if packet_id x = i \<and> packet_state x = PACKET_PREPARED then build_packet_outcome_changes S outcome now x else x)"
      unfolding db' record_outcome_eq using Some True by auto
    show ?thesis
    proof (cases "packet_id x = i \<and> packet_state x = PACKET_PREPARED")
      case False
      with x assms(4) show ?thesis by auto
    next
      case changed: True
      then have "x = p"
        using packet_table.key_unique [OF keys x(1)] Some p unfolding find_packet_def by (auto dest!: first_where_SomeD)
      with changed x assms(4) recorded p show ?thesis
        by (cases outcome) (auto simp: on_node_def awaits_acknowledgement_def outcome_changes_id)
    qed
  qed
qed
section \<open>The tracker knows every packet on the node\<close>

definition tracked :: "db \<Rightarrow> (nat \<times> awaited_packet) list \<Rightarrow> bool" where
  "tracked db aw \<longleftrightarrow>
     distinct (map fst aw) \<and> (\<forall>(i, a) \<in> set aw. awaited_packet_id a = i) \<and>
     (\<forall>p \<in> set (rows (packets db)). on_node p \<longrightarrow> packet_id p \<in> fst ` set aw)"

lemma tracked_mono: "tracked db aw \<Longrightarrow> nothing_new_on_node db db' \<Longrightarrow> tracked db' aw"
  unfolding tracked_def nothing_new_on_node_def by metis

lemma tracked_counts:
  assumes "tracked db aw" "tables_ok db"
  shows "count_where on_node (packets db) \<le> length aw"
proof -
  have "distinct (map packet_id (filter on_node (rows (packets db))))"
    using assms(2) by (auto simp: tables_ok_def keys_ok_def strict_sorted_iff intro: distinct_map_filter)
  then have "count_where on_node (packets db) = card (packet_id ` set (filter on_node (rows (packets db))))"
    by (metis count_where_def distinct_card length_map set_map)
  also have "\<dots> \<le> card (fst ` set aw)"
    using assms(1) by (intro card_mono) (auto simp: tracked_def)
  also have "\<dots> \<le> length aw" by (metis card_length length_map set_map)
  finally show ?thesis .
qed

lemma pop_awaited_eq: "pop_awaited i w = w\<lparr>awaited_packets := filter (\<lambda>(j, _). j \<noteq> i) (awaited_packets w)\<rparr>"
  by (simp add: pop_awaited_def AList.delete_eq case_prod_unfold eq_commute [of i])

lemma fold_pop_awaited:
  "fold (pop_awaited \<circ> f) xs w = w\<lparr>awaited_packets := filter (\<lambda>(i, _). i \<notin> f ` set xs) (awaited_packets w)\<rparr>"
proof (induction xs arbitrary: w)
  case (Cons x xs)
  have "fold (pop_awaited \<circ> f) (x # xs) w = fold (pop_awaited \<circ> f) xs (pop_awaited (f x) w)" by simp
  also have "\<dots> = w\<lparr>awaited_packets := filter (\<lambda>(i, _). i \<notin> f ` set (x # xs)) (awaited_packets w)\<rparr>"
    unfolding Cons.IH pop_awaited_eq by (simp add: case_prod_unfold conj_commute)
  finally show ?case .
qed simp

lemma signal_simps [simp]:
  "awaited_packets (wake_sender w) = awaited_packets w" "store (wake_sender w) = store w"
  "awaited_packets (wake_tracker w) = awaited_packets w" "store (wake_tracker w) = store w"
  "awaited_packets (forget_old_unmatched_acknowledgements T clk w) = awaited_packets w"
  "store (forget_old_unmatched_acknowledgements T clk w) = store w"
  by (simp_all add: wake_sender_def wake_tracker_def forget_old_unmatched_acknowledgements_def)

text \<open>
  What the tracker may do at any time: slots are only freed, and what the database has on the node stays tracked.
\<close>

definition slots_kept :: "worker \<Rightarrow> worker \<Rightarrow> bool" where
  "slots_kept w w' \<longleftrightarrow>
     (tables_ok (relay (store w)) \<and> tracked (relay (store w)) (awaited_packets w) \<longrightarrow>
        tables_ok (relay (store w')) \<and> tracked (relay (store w')) (awaited_packets w')) \<and>
     length (awaited_packets w') \<le> length (awaited_packets w)"

lemma slots_kept_refl [simp]: "slots_kept w w"
  by (simp add: slots_kept_def)

lemma slots_kept_trans: "slots_kept a b \<Longrightarrow> slots_kept b c \<Longrightarrow> slots_kept a c"
  by (auto simp: slots_kept_def)

lemma slots_keptI:
  assumes "awaited_packets w' = awaited_packets w"
    and "tables_ok (relay (store w)) \<Longrightarrow> tables_ok (relay (store w'))"
    and "nothing_new_on_node (relay (store w)) (relay (store w'))"
  shows "slots_kept w w'"
  using assms tracked_mono by (auto simp: slots_kept_def)

lemma tables_ok_moves: "only_packets_move db db' \<Longrightarrow> tables_ok db \<Longrightarrow> tables_ok db'"
  by (auto simp: only_packets_move_def intro: db_moves_ok)

lemma tracked_filter:
  assumes "tracked db aw"
    and "\<And>q. q \<in> set (rows (packets db')) \<Longrightarrow> on_node q \<Longrightarrow> q \<in> set (rows (packets db)) \<and> packet_id q \<notin> I"
  shows "tracked db' (filter (\<lambda>(i, _). i \<notin> I) aw)"
proof -
  have "distinct (map fst (filter (\<lambda>(i, _). i \<notin> I) aw))"
    using assms(1) by (simp add: tracked_def distinct_map_filter)
  moreover have "packet_id q \<in> fst ` set (filter (\<lambda>(i, _). i \<notin> I) aw)" if "q \<in> set (rows (packets db'))" "on_node q" for q
  proof -
    from assms(2) [OF that] assms(1) that(2) obtain x where "(packet_id q, x) \<in> set aw" "packet_id q \<notin> I"
      by (fastforce simp: tracked_def)
    then show ?thesis by force
  qed
  ultimately show ?thesis using assms(1) by (auto simp: tracked_def)
qed

lemma handle_acknowledgement_slots: "slots_kept w (handle_node_acknowledgement T clk code round_trip w)"
proof -
  obtain acknowledged db' where r: "record_node_acknowledgement code round_trip (wall_time clk) (relay (store w)) = (acknowledged, db')"
    by fastforce
  have moves: "only_packets_move (relay (store w)) db'"
    using record_node_acknowledgement_moves [of "relay (store w)" code round_trip "wall_time clk"] r by simp
  show ?thesis
  proof (cases "acknowledged = []")
    case True
    then have "nothing_new_on_node (relay (store w)) db'" if "tables_ok (relay (store w))"
      unfolding nothing_new_on_node_def using acknowledgement_on_node [OF r that] by blast
    then show ?thesis
      using True r tables_ok_moves [OF moves] tracked_mono
      by (auto simp: slots_kept_def handle_node_acknowledgement_def in_database_def Let_def)
  next
    case False
    then show ?thesis
      using r tables_ok_moves [OF moves]
        tracked_filter [of "relay (store w)" "awaited_packets w" db' "acknowledged_packet_id ` set acknowledged"]
        acknowledgement_on_node [OF r]
      by (auto simp: slots_kept_def handle_node_acknowledgement_def in_database_def Let_def fold_pop_awaited)
  qed
qed

lemma add_flood_resends_slots:
  "awaited_packets (add_flood_resends clk rs w) = awaited_packets w \<and> store (add_flood_resends clk rs w) = store w"
  by (induction rs arbitrary: w) (simp_all add: case_prod_beta Let_def)

lemma settle_resets_slots: "settle_route_resets S clk reset_works contact_key key w = (r, w') \<Longrightarrow> slots_kept w w'"
proof -
  assume r: "settle_route_resets S clk reset_works contact_key key w = (r, w')"
  show ?thesis
  proof (cases "settle_pending_route_resets_in_transaction S contact_key (wall_time clk) (relay (store w))")
    case (Inl e)
    with r show ?thesis by (simp add: settle_route_resets_def act_bind_def try_in_database_def)
  next
    case (Inr x)
    obtain settlement db1 where x: "x = (settlement, db1)" by fastforce
    let ?w1 = "w\<lparr>store := (store w)\<lparr>relay := db1\<rparr>\<rparr>"
    have one: "slots_kept w ?w1"
      using settle_pending_nothing_new [OF Inr [unfolded x]] by (intro slots_keptI) auto
    have "slots_kept ?w1 (?w1\<lparr>store := (store ?w1)\<lparr>relay := snd (record_route_reset_performed ids (wall_time clk) db1)\<rparr>\<rparr>)" for ids
      using reset_performed_nothing_new db_moves_ok [OF record_route_reset_performed_moves]
      by (intro slots_keptI) auto
    then have "slots_kept ?w1 w'"
      using r Inr x
      by (auto simp: settle_route_resets_def act_bind_def try_in_database_def act_return_def in_database_eq Let_def
          slots_kept_def add_flood_resends_slots split: if_splits option.splits)
    with one show ?thesis by (rule slots_kept_trans)
  qed
qed

lemma handle_deadline_slots: "handle_passed_deadline S clk reset_works p w = (r, w') \<Longrightarrow> slots_kept w w'"
proof -
  assume r: "handle_passed_deadline S clk reset_works p w = (r, w')"
  let ?i = "awaited_packet_id p"
  let ?f = "record_acknowledgement_deadline_passed_in_transaction ?i (wall_time clk) (relay (store w))"
  let ?w1 = "wake_sender (pop_awaited ?i (w\<lparr>store := (store w)\<lparr>relay := snd ?f\<rparr>\<rparr>))"
  have "tracked (snd ?f) (filter (\<lambda>(i, _). i \<notin> {?i}) (awaited_packets w))" if "tracked (relay (store w)) (awaited_packets w)"
    by (rule tracked_filter [OF that]) (use deadline_on_node in auto)
  then have one: "slots_kept w ?w1"
    using tables_ok_moves [OF deadline_passed_moves]
    by (auto simp: slots_kept_def pop_awaited_eq)
  have "slots_kept ?w1 w'"
    using r settle_resets_slots
    by (auto simp: handle_passed_deadline_def in_database_eq Let_def act_return_def act_bind_def
        split: option.splits if_splits sum.splits prod.splits)
  with one show ?thesis by (rule slots_kept_trans)
qed
section \<open>The pieces of a pass\<close>

lemma prepared_keeps:
  assumes "try_in_database f w = (r, w')"
    and "\<And>result db'. f (relay (store w)) = Inr (result, db') \<Longrightarrow> tables_ok (relay (store w)) \<Longrightarrow>
      tables_ok db' \<and> nothing_new_on_node (relay (store w)) db'"
  shows "slots_kept w w' \<and> awaited_packets w' = awaited_packets w"
proof (cases "f (relay (store w))")
  case (Inl e)
  with assms(1) show ?thesis by (simp add: try_in_database_def)
next
  case (Inr x)
  obtain result db' where x: "x = (result, db')" by fastforce
  from assms(2) [OF Inr [unfolded x]] show ?thesis
    using assms(1) Inr x tracked_mono by (auto simp: try_in_database_def slots_kept_def)
qed

lemma prepare_reply_keeps:
  "prepare_reply_packet contact_key key line now generation db = Inr (result, db') \<Longrightarrow> tables_ok db \<Longrightarrow>
     tables_ok db' \<and> nothing_new_on_node db db'"
  using prepare_reply_packet_moves [of contact_key key line now generation db result db'] db_moves_ok nothing_new_prepared
  by (cases result) auto

lemma prepare_next_keeps:
  "prepare_next_packet_in_transaction S skip_delivery skip_receipt now generation db = Inr (result, db') \<Longrightarrow> tables_ok db \<Longrightarrow>
     tables_ok db' \<and> nothing_new_on_node db db'"
  using prepare_next_packet_spec [of S skip_delivery skip_receipt now generation db result db'] db_moves_ok nothing_new_prepared
    nothing_new_same_packets
  by (cases result) (auto simp: walk_result_def)

lemma idle_wait_memory:
  "calculate_idle_wait T clk others eligible w = (a, w') \<Longrightarrow>
     awaited_packets w' = awaited_packets w \<and> store w' = store w \<and> runtime_status w' = runtime_status w \<and>
     pause_reasons w' = pause_reasons w"
  by (auto simp: calculate_idle_wait_def Let_def split: prod.splits)

lemma same_memory_slots: "awaited_packets w' = awaited_packets w \<Longrightarrow> store w' = store w \<Longrightarrow> slots_kept w w'"
  by (simp add: slots_kept_def)

lemma prepare_to_send_slots:
  assumes "prepare_to_send S T skip_delivery skip_receipt clk w = (r, w')"
  shows "slots_kept w w' \<and> awaited_packets w' = awaited_packets w \<and>
    (\<forall>d. r = Inr (Packet_Prepared d None) \<longrightarrow> may_send_other_than_replies S w)"
proof -
  obtain reply q where taken: "take_next_ready_reply (monotonic clk) (replies w) = (reply, q)" by fastforce
  let ?w1 = "w\<lparr>replies := q\<rparr>"
  have w1: "slots_kept w ?w1" "awaited_packets ?w1 = awaited_packets w"
    "may_send_other_than_replies S ?w1 = may_send_other_than_replies S w"
    by (simp_all add: slots_kept_def may_send_other_than_replies_def count_packets_awaiting_acknowledgement_def)
  let ?generation = "connection_generation (runtime_status w)"
  show ?thesis
  proof (cases reply)
    case (Some p)
    let ?m = "try_in_database (prepare_reply_packet (pending_contact_id p) (pending_reply_key p) (pending_text p) (wall_time clk) ?generation)"
    obtain x w2 where m: "?m ?w1 = (x, w2)" by fastforce
    have "slots_kept ?w1 w2 \<and> awaited_packets w2 = awaited_packets ?w1"
      by (rule prepared_keeps [OF m]) (rule prepare_reply_keeps)
    moreover have "w' = w2" "r \<noteq> Inr (Packet_Prepared d None)" for d
      using assms taken Some m
      by (auto simp: prepare_to_send_def act_bind_def act_return_def split: sum.splits option.splits)
    ultimately show ?thesis using w1 slots_kept_trans by auto
  next
    case None
    show ?thesis
    proof (cases "may_send_other_than_replies S w")
      case False
      then obtain a where a: "calculate_idle_wait T clk False None ?w1 = (a, w')" "r = Inr (Nothing_Sent a)"
        using assms taken None w1(3)
        by (auto simp: prepare_to_send_def act_return_def split: prod.splits)
      from idle_wait_memory [OF a(1)] a(2) show ?thesis by (auto intro: same_memory_slots)
    next
      case True
      let ?m = "try_in_database (prepare_next_packet_in_transaction S skip_delivery skip_receipt (wall_time clk) ?generation)"
      obtain x w2 where m: "?m ?w1 = (x, w2)" by fastforce
      have kept: "slots_kept ?w1 w2 \<and> awaited_packets w2 = awaited_packets ?w1"
        by (rule prepared_keeps [OF m]) (rule prepare_next_keeps)
      have "w' = w2 \<or> (\<exists>a. calculate_idle_wait_with_due_work S T clk w2 = (a, w'))"
        using assms taken None m True w1(3)
        by (auto simp: prepare_to_send_def act_bind_def act_return_def split: sum.splits option.splits prod.splits)
      then have "awaited_packets w' = awaited_packets w2 \<and> store w' = store w2"
        using idle_wait_memory by (auto simp: calculate_idle_wait_with_due_work_def)
      with kept w1 True show ?thesis using slots_kept_trans same_memory_slots by metis
    qed
  qed
qed

lemma begin_send_slots:
  assumes "begin_send S T skip_delivery skip_receipt clk w = (r, w')"
  shows "slots_kept w w' \<and> awaited_packets w' = awaited_packets w \<and>
    (\<forall>d reply. r = Inr (Packet_Prepared d reply) \<longrightarrow>
       length (awaited_packets w) < maximum_packets_awaiting_node_acknowledgement (pacing S) \<and>
       (reply = None \<longrightarrow> length (awaited_packets w) + 1 < maximum_packets_awaiting_node_acknowledgement (pacing S)))"
proof (cases "find_pacing_wait S T clk w")
  case (Some a)
  with assms show ?thesis by (auto simp: begin_send_def act_return_def)
next
  case None
  then have count: "length (awaited_packets w) < maximum_packets_awaiting_node_acknowledgement (pacing S)"
    by (auto simp: find_pacing_wait_def count_packets_awaiting_acknowledgement_def split: if_splits option.splits)
  show ?thesis
  proof (cases "is_paused w \<or> \<not> may_send_now w")
    case True
    with None assms show ?thesis by (auto simp: begin_send_def act_return_def)
  next
    case False
    with None assms have "prepare_to_send S T skip_delivery skip_receipt clk w = (r, w')" by (simp add: begin_send_def)
    from prepare_to_send_slots [OF this] count show ?thesis
      by (auto simp: may_send_other_than_replies_def count_packets_awaiting_acknowledgement_def)
  qed
qed

lemma update_named:
  assumes "\<forall>(i, a) \<in> set aw. awaited_packet_id a = i" "awaited_packet_id x = k"
  shows "\<forall>(i, a) \<in> set (AList.update k x aw). awaited_packet_id a = i"
  using assms by (induction aw) auto

lemma length_update: "length (AList.update k v al) \<le> length al + 1"
  by (induction al) auto

lemma register_slots:
  assumes "distinct (map fst (awaited_packets w))" "\<forall>(i, a) \<in> set (awaited_packets w). awaited_packet_id a = i"
  shows "length (awaited_packets (register_sent_packet T clk r w)) \<le> length (awaited_packets w) + 1"
    and "tables_ok (relay (store w)) \<Longrightarrow>
      (\<And>q. q \<in> set (rows (packets (relay (store w)))) \<Longrightarrow> on_node q \<Longrightarrow>
         packet_id q \<in> fst ` set (awaited_packets w) \<or>
         (packet_id q = recorded_packet_id r \<and> awaits_acknowledgement r \<and> recorded_deadline_at r \<noteq> None)) \<Longrightarrow>
      tables_ok (relay (store (register_sent_packet T clk r w))) \<and>
      tracked (relay (store (register_sent_packet T clk r w))) (awaited_packets (register_sent_packet T clk r w))"
proof -
  let ?code = "recorded_acknowledgement_code r"
  define w1 where "w1 t = wake_tracker (w\<lparr>awaited_packets := AList.update (recorded_packet_id r)
       \<lparr>awaited_packet_id = recorded_packet_id r, awaited_contact_id = outcome_contact_id r,
        awaited_purpose = recorded_purpose r, awaited_code = ?code, deadline = t\<rparr> (awaited_packets w)\<rparr>)" for t
  define w2 where "w2 t = snd (take_unmatched_acknowledgement T clk ?code (w1 t))" for t
  have w2: "awaited_packets (w2 t) = awaited_packets (w1 t)" "store (w2 t) = store w" for t
    by (simp_all add: w2_def w1_def take_unmatched_acknowledgement_def Let_def)
  define fin where "fin t = (case fst (take_unmatched_acknowledgement T clk ?code (w1 t)) of None \<Rightarrow> w2 t
            | Some u \<Rightarrow> handle_node_acknowledgement T clk ?code (unmatched_round_trip u) (w2 t))" for t
  have eq: "register_sent_packet T clk r w = (case recorded_deadline_at r of None \<Rightarrow> w
      | Some t \<Rightarrow> if \<not> awaits_acknowledgement r then w else fin t)"
    by (auto simp: register_sent_packet_def w1_def w2_def fin_def case_prod_beta Let_def split: option.splits)
  have fin: "slots_kept (w2 t) (fin t)" for t
    by (simp add: fin_def handle_acknowledgement_slots split: option.split)
  have "length (awaited_packets (w2 t)) \<le> length (awaited_packets w) + 1" for t
    using length_update by (simp add: w2 w1_def)
  then have "length (awaited_packets (fin t)) \<le> length (awaited_packets w) + 1" for t
    using fin [of t] le_trans unfolding slots_kept_def by blast
  then show "length (awaited_packets (register_sent_packet T clk r w)) \<le> length (awaited_packets w) + 1"
    unfolding eq by (simp split: option.split)
  assume ok: "tables_ok (relay (store w))"
    and known: "\<And>q. q \<in> set (rows (packets (relay (store w)))) \<Longrightarrow> on_node q \<Longrightarrow>
         packet_id q \<in> fst ` set (awaited_packets w) \<or>
         (packet_id q = recorded_packet_id r \<and> awaits_acknowledgement r \<and> recorded_deadline_at r \<noteq> None)"
  have "tracked (relay (store w)) (awaited_packets (w2 t))" for t
  proof -
    have "distinct (map fst (awaited_packets (w2 t)))" using assms(1) by (simp add: w2 w1_def distinct_update)
    moreover have "\<forall>(i, a) \<in> set (awaited_packets (w2 t)). awaited_packet_id a = i"
      unfolding w2 w1_def signal_simps by (simp, rule update_named [OF assms(2)]) simp
    moreover have "packet_id q \<in> fst ` set (awaited_packets (w2 t))" if "q \<in> set (rows (packets (relay (store w))))" "on_node q" for q
      using known [OF that] by (auto simp: w2 w1_def dom_update)
    ultimately show ?thesis by (simp add: tracked_def)
  qed
  then have "tables_ok (relay (store (w2 t))) \<and> tracked (relay (store (w2 t))) (awaited_packets (w2 t))" for t
    using ok by (simp add: w2)
  moreover have "tracked (relay (store w)) (awaited_packets w)" if "recorded_deadline_at r = None \<or> \<not> awaits_acknowledgement r"
    using assms known that by (auto simp: tracked_def)
  moreover from calculation(1) have "tables_ok (relay (store (fin t))) \<and> tracked (relay (store (fin t))) (awaited_packets (fin t))" for t
    using fin [of t] by (simp add: slots_kept_def)
  ultimately show "tables_ok (relay (store (register_sent_packet T clk r w))) \<and>
      tracked (relay (store (register_sent_packet T clk r w))) (awaited_packets (register_sent_packet T clk r w))"
    unfolding eq using ok by (simp split: option.split)
qed

lemma handle_outcome_memory:
  "awaited_packets (handle_recorded_outcome T clk r reply w) = awaited_packets w \<and>
   store (handle_recorded_outcome T clk r reply w) = store w"
  by (auto simp: handle_recorded_outcome_def back_off_after_full_packet_pool_def Let_def request_reconciliation_def
      record_error_def report_status_change_def split: option.splits)

lemma complete_send_slots:
  assumes "tracked (relay (store w)) (awaited_packets w)" "tables_ok (relay (store w))"
    and w'_def: "w' = complete_send S T clk answer d reply w"
  shows "tables_ok (relay (store w')) \<and> tracked (relay (store w')) (awaited_packets w') \<and>
    length (awaited_packets w') \<le> length (awaited_packets w) + 1"
proof -
  obtain recorded db' where r: "record_send_outcome_in_transaction S (descriptor_packet_id d) (send_to_node answer)
      (wall_time clk) (relay (store w)) = (recorded, db')"
    by fastforce
  have ok': "tables_ok db'"
    using db_moves_ok [OF record_send_outcome_moves assms(2), of S "descriptor_packet_id d" "send_to_node answer" "wall_time clk"] r by simp
  define w3 where "w3 = (let w2 = w\<lparr>store := (store w)\<lparr>relay := db'\<rparr>, last_send_completed_at := Some (monotonic clk)\<rparr>
      in case reply of Some p \<Rightarrow> if \<not> is_rejection (send_to_node answer)
           then w2\<lparr>replies := record_reply_sent p (monotonic clk) (replies w2)\<rparr> else w2
         | None \<Rightarrow> w2)"
  have w3: "awaited_packets w3 = awaited_packets w" "relay (store w3) = db'"
    by (auto simp: w3_def Let_def split: option.split)
  have w': "w' = (case recorded of None \<Rightarrow> w3
      | Some x \<Rightarrow> register_sent_packet T clk x (handle_recorded_outcome T clk x reply w3))"
    unfolding w'_def complete_send_def in_database_def w3_def using r by (simp add: Let_def cong: option.case_cong)
  note on = outcome_on_node [OF r assms(2)]
  show ?thesis
  proof (cases recorded)
    case None
    have "packet_id q \<in> fst ` set (awaited_packets w)" if "q \<in> set (rows (packets db'))" "on_node q" for q
      using on [OF that] None assms(1) unfolding tracked_def by (metis option.distinct(1))
    with None show ?thesis using assms(1) ok' by (simp add: w' w3 tracked_def)
  next
    case (Some x)
    let ?w4 = "handle_recorded_outcome T clk x reply w3"
    have w4: "awaited_packets ?w4 = awaited_packets w" "relay (store ?w4) = db'"
      using handle_outcome_memory w3 by simp_all
    have "packet_id q \<in> fst ` set (awaited_packets ?w4) \<or>
        (packet_id q = recorded_packet_id x \<and> awaits_acknowledgement x \<and> recorded_deadline_at x \<noteq> None)"
      if "q \<in> set (rows (packets (relay (store ?w4))))" "on_node q" for q
      using on [of q] that Some assms(1) unfolding tracked_def w4 by (metis option.inject)
    from register_slots(2) [OF _ _ _ this, of T clk] register_slots(1) [of ?w4 T clk x] show ?thesis
      using assms(1) ok' by (auto simp: w' Some w4 tracked_def)
  qed
qed
section \<open>All interleavings\<close>

datatype sender_position = Looking | Sending packet_descriptor "pending_reply option"

text \<open>
  One step of the worker. \<open>environment\<close> is everything else: other tasks may change the signals, the status, the
  pauses and the queue of replies, and other transactions may change the database as they like, as long as they put
  no packet on the node. A raise in the database thread is \<open>gave_up\<close>: it leaves the packet prepared. A link that is lost forgets the tracked packets and
  marks them in the database.
\<close>

inductive worker_step ::
  "relay_settings \<Rightarrow> worker_timing \<Rightarrow> sender_position \<times> worker \<Rightarrow> sender_position \<times> worker \<Rightarrow> bool" for S T where
  looked: "begin_send S T skip_delivery skip_receipt clk w = (r, w') \<Longrightarrow> (\<forall>d reply. r \<noteq> Inr (Packet_Prepared d reply)) \<Longrightarrow>
    worker_step S T (Looking, w) (Looking, w')"
| prepared: "begin_send S T skip_delivery skip_receipt clk w = (Inr (Packet_Prepared d reply), w') \<Longrightarrow>
    worker_step S T (Looking, w) (Sending d reply, w')"
| resets_settled: "settle_route_resets S clk reset_works contact_key key w = (r, w') \<Longrightarrow> worker_step S T (p, w) (p, w')"
| sent: "worker_step S T (Sending d reply, w) (Looking, complete_send S T clk answer d reply w)"
| gave_up: "worker_step S T (Sending d reply, w) (Looking, w)"
| acknowledged: "worker_step S T (p, w) (p, handle_node_acknowledgement T clk code round_trip w)"
| deadline_passed: "handle_passed_deadline S clk reset_works a w = (r, w') \<Longrightarrow> worker_step S T (p, w) (p, w')"
| link_lost: "worker_step S T (p, w)
    (p, snd (in_database (drop_packets_awaiting_acknowledgement now) (forget_packets_awaiting_acknowledgement w)))"
| environment: "tables_ok (relay (store w)) \<longrightarrow> tables_ok (relay (store w')) \<Longrightarrow>
    nothing_new_on_node (relay (store w)) (relay (store w')) \<Longrightarrow> awaited_packets w' = awaited_packets w \<Longrightarrow>
    last_send_completed_at w' = last_send_completed_at w \<Longrightarrow> worker_step S T (p, w) (p, w')"

definition pacing_holds :: "relay_settings \<Rightarrow> sender_position \<times> worker \<Rightarrow> bool" where
  "pacing_holds S x \<longleftrightarrow>
     (case x of (p, w) \<Rightarrow>
        tables_ok (relay (store w)) \<and> tracked (relay (store w)) (awaited_packets w) \<and>
        (let limit = maximum_packets_awaiting_node_acknowledgement (pacing S); n = length (awaited_packets w)
         in case p of
              Looking \<Rightarrow> n \<le> limit
            | Sending _ reply \<Rightarrow> n < limit \<and> (reply = None \<longrightarrow> n + 1 < limit)))"

lemma pacing_kept: "pacing_holds S (p, w) \<Longrightarrow> slots_kept w w' \<Longrightarrow> pacing_holds S (p, w')"
  by (auto simp: pacing_holds_def slots_kept_def Let_def split: sender_position.splits)

lemma link_lost_slots:
  "slots_kept w (snd (in_database (drop_packets_awaiting_acknowledgement now) (forget_packets_awaiting_acknowledgement w)))"
  using tables_ok_moves [OF restart_steps_move(2)] dropped_on_node
  by (auto simp: slots_kept_def in_database_eq forget_packets_awaiting_acknowledgement_def tracked_def)

lemma worker_step_paced: "worker_step S T x y \<Longrightarrow> pacing_holds S x \<Longrightarrow> pacing_holds S y"
proof (induction rule: worker_step.induct)
  case (looked skip_delivery skip_receipt clk w r w')
  with begin_send_slots [OF looked(1)] show ?case by (blast intro: pacing_kept)
next
  case (prepared skip_delivery skip_receipt clk w d reply w')
  with begin_send_slots [OF prepared(1)] show ?case
    by (auto simp: pacing_holds_def slots_kept_def Let_def)
next
  case (sent d reply w clk answer)
  then have "tracked (relay (store w)) (awaited_packets w)" "tables_ok (relay (store w))"
    "length (awaited_packets w) < maximum_packets_awaiting_node_acknowledgement (pacing S)"
    by (auto simp: pacing_holds_def Let_def)
  with complete_send_slots [OF this(1,2) refl, of S T clk answer d reply] show ?case
    by (auto simp: pacing_holds_def Let_def)
next
  case (environment w w' p)
  then show ?case by (blast intro: pacing_kept slots_keptI)
next
  case (gave_up d reply w)
  then show ?case by (simp add: pacing_holds_def Let_def)
qed (blast intro: pacing_kept settle_resets_slots handle_acknowledgement_slots handle_deadline_slots link_lost_slots)+

lemma worker_steps_paced: "(worker_step S T)\<^sup>*\<^sup>* x y \<Longrightarrow> pacing_holds S x \<Longrightarrow> pacing_holds S y"
  by (induction rule: rtranclp_induct) (auto intro: worker_step_paced)

text \<open>The worker starts after \<^verbatim>\<open>run_startup_recovery\<close>, when no packet is on the node.\<close>

definition started_worker :: "worker_runtime_status \<Rightarrow> datetime \<Rightarrow> system \<Rightarrow> worker" where
  "started_worker status now s = new_worker status (s\<lparr>relay := snd (recover_outbound_packets_at_startup now (relay s))\<rparr>)"

lemma started_paced: "tables_ok (relay s) \<Longrightarrow> pacing_holds S (Looking, started_worker status now s)"
  using recover_settles [of now "relay s"] tables_ok_moves [OF recover_moves]
  by (auto simp: pacing_holds_def started_worker_def new_worker_def tracked_def all_rows_def packet_is_settled_def on_node_def)
section \<open>Deadlines and route resets\<close>

lemma settle_resets_awaited: "settle_route_resets S clk reset_works contact_key key w = (r, w') \<Longrightarrow> awaited_packets w' = awaited_packets w"
  by (auto simp: settle_route_resets_def act_bind_def try_in_database_def act_return_def in_database_eq Let_def
      add_flood_resends_slots split: sum.splits if_splits option.splits prod.splits)

lemma handle_deadline_awaited:
  assumes "handle_passed_deadline S clk reset_works p w = (r, w')"
  shows "awaited_packets w' = filter (\<lambda>(i, _). i \<noteq> awaited_packet_id p) (awaited_packets w)"
  using assms
  by (auto simp: handle_passed_deadline_def in_database_eq Let_def act_return_def act_bind_def pop_awaited_eq
      dest!: settle_resets_awaited split: option.splits if_splits sum.splits prod.splits)

lemma handle_deadlines_awaited:
  "handle_deadlines_of S clk reset_works ps w = (Inr (), w') \<Longrightarrow>
     awaited_packets w' = filter (\<lambda>(i, _). i \<notin> awaited_packet_id ` set ps) (awaited_packets w) \<and> slots_kept w w'"
proof (induction ps arbitrary: w)
  case Nil
  then show ?case by (simp add: act_return_def)
next
  case (Cons p ps)
  from Cons.prems obtain w1 where first: "handle_passed_deadline S clk reset_works p w = (Inr (), w1)"
    and rest: "handle_deadlines_of S clk reset_works ps w1 = (Inr (), w')"
    by (auto simp: act_bind_eq_Inr)
  from Cons.IH [OF rest] handle_deadline_awaited [OF first] handle_deadline_slots [OF first] show ?case
    by (auto simp: case_prod_unfold conj_commute intro: slots_kept_trans)
qed

text \<open>Exactly the slots whose deadline passed are freed, and their packets are no longer on the node in the database.\<close>

lemma passed_deadlines_free_their_slots:
  assumes "handle_passed_deadlines S clk reset_works w = (Inr (), w')"
    and "tables_ok (relay (store w))" "tracked (relay (store w)) (awaited_packets w)"
  shows "awaited_packets w' = filter (\<lambda>(_, a). wall_time clk < deadline a) (awaited_packets w)"
    and "tracked (relay (store w')) (awaited_packets w')"
proof -
  let ?ps = "sort_key deadline (filter (\<lambda>p. deadline p \<le> wall_time clk) (map snd (awaited_packets w)))"
  have freed: "awaited_packets w' = filter (\<lambda>(i, _). i \<notin> awaited_packet_id ` set ?ps) (awaited_packets w) \<and> slots_kept w w'"
    using assms(1) handle_deadlines_awaited unfolding handle_passed_deadlines_def by blast
  have named: "\<forall>(i, a) \<in> set (awaited_packets w). awaited_packet_id a = i" "distinct (map fst (awaited_packets w))"
    using assms(3) by (auto simp: tracked_def)
  have "i \<notin> awaited_packet_id ` set ?ps \<longleftrightarrow> wall_time clk < deadline a" if "(i, a) \<in> set (awaited_packets w)" for i a
  proof -
    have "b = a" if "b \<in> snd ` set (awaited_packets w)" "awaited_packet_id b = i" for b
    proof -
      from that(1) obtain j where j: "(j, b) \<in> set (awaited_packets w)" by auto
      with named(1) that(2) have "j = i" by auto
      with j \<open>(i, a) \<in> set (awaited_packets w)\<close> named(2) show ?thesis by (metis eq_key_imp_eq_value)
    qed
    then have same: "b = a" if "b \<in> set ?ps" "awaited_packet_id b = i" for b using that by auto
    have a: "awaited_packet_id a = i" using that named(1) by auto
    show ?thesis
    proof (cases "wall_time clk < deadline a")
      case True
      with same show ?thesis by force
    next
      case False
      then have "a \<in> set ?ps" using that by force
      with a False show ?thesis by force
    qed
  qed
  then have "filter (\<lambda>(i, _). i \<notin> awaited_packet_id ` set ?ps) (awaited_packets w) =
      filter (\<lambda>(_, a). wall_time clk < deadline a) (awaited_packets w)"
    by (intro filter_cong) auto
  with freed show "awaited_packets w' = filter (\<lambda>(_, a). wall_time clk < deadline a) (awaited_packets w)" by simp
  from freed assms(2,3) show "tracked (relay (store w')) (awaited_packets w')" unfolding slots_kept_def by blast
qed

lemma settled_resets_are_not_repeated:
  assumes "settle_route_resets S clk True contact_key key w = (Inr (Some k), w')" "tables_ok (relay (store w))"
  shows "settle_route_resets S clk' reset_works contact_key key' w' = (Inr None, w')"
    and "\<forall>p \<in> set (rows (packets (relay (store w')))). packet_contact_id p = Some contact_key \<longrightarrow> route_reset_state p \<noteq> RESET_PENDING"
proof -
  let ?now = "wall_time clk" and ?db = "relay (store w)"
  define pending where "pending = (\<lambda>p :: packet. packet_contact_id p = Some contact_key \<and> route_reset_state p = RESET_PENDING)"
  define path_update where "path_update = Option.bind (find_contact contact_key ?db) last_path_update_at"
  obtain settlement db1 where settled: "settle_pending_route_resets_in_transaction S contact_key ?now ?db = Inr (settlement, db1)"
    and db': "relay (store w') = snd (record_route_reset_performed (packet_ids_needing_reset settlement) ?now db1)"
    using assms(1)
    by (auto simp: settle_route_resets_def act_bind_def try_in_database_def act_return_def in_database_eq Let_def
        add_flood_resends_slots split: sum.splits if_splits option.splits prod.splits)
  note eq = settle_pending_eq [OF settled assms(2), folded pending_def path_update_def]
  have "\<not> (packet_contact_id q = Some contact_key \<and> route_reset_state q = RESET_PENDING)"
    if q: "q \<in> set (rows (packets (relay (store w'))))" for q
  proof
    assume now: "packet_contact_id q = Some contact_key \<and> route_reset_state q = RESET_PENDING"
    from q obtain y where y: "y \<in> set (rows (packets db1))"
      "q = (if packet_id y \<in> set (packet_ids_needing_reset settlement) \<and> route_reset_state y = RESET_PENDING
            then y\<lparr>route_reset_state := RESET_PERFORMED, route_reset_decided_at := Some ?now\<rparr> else y)"
      by (auto simp: db' record_route_reset_performed_def Let_def)
    have y': "q = y \<and> packet_id y \<notin> set (packet_ids_needing_reset settlement)"
    proof (cases "packet_id y \<in> set (packet_ids_needing_reset settlement) \<and> route_reset_state y = RESET_PENDING")
      case True
      then have "route_reset_state q = RESET_PERFORMED" using y(2) by simp
      with now show ?thesis by simp
    next
      case False
      then have "q = y" using y(2) by (simp only: if_False)
      with False now show ?thesis by simp
    qed
    from y(1) have "y \<in> (\<lambda>x. if pending x \<and> reset_verdict path_update ?db x \<noteq> RESET_PENDING
        then settle_change path_update ?now ?db x else x) ` set (rows (packets ?db))"
      unfolding eq(2) by (simp add: pending_def)
    then obtain x where x: "x \<in> set (rows (packets ?db))"
      "y = (if pending x \<and> reset_verdict path_update ?db x \<noteq> RESET_PENDING then settle_change path_update ?now ?db x else x)"
      by blast
    have "\<not> (pending x \<and> reset_verdict path_update ?db x \<noteq> RESET_PENDING)"
    proof
      assume skipped: "pending x \<and> reset_verdict path_update ?db x \<noteq> RESET_PENDING"
      then have "y = settle_change path_update ?now ?db x" using x(2) by (simp only: if_True simp_thms)
      then have "route_reset_state y = reset_verdict path_update ?db x" by (simp add: settle_change_def del: if_split)
      with skipped have "route_reset_state y \<noteq> RESET_PENDING" by simp
      with now y' show False by simp
    qed
    moreover from calculation x(2) have "y = x" by (simp only: if_False)
    moreover from calculation now y' have "pending x" by (simp add: pending_def)
    ultimately have "y = x" "pending x" "reset_verdict path_update ?db x = RESET_PENDING" by auto
    with x(1) have "packet_id y \<in> set (packet_ids_needing_reset settlement)" by (auto simp: eq(1) pending_def)
    with y' show False by simp
  qed
  then show settled_all: "\<forall>p \<in> set (rows (packets (relay (store w')))). packet_contact_id p = Some contact_key \<longrightarrow> route_reset_state p \<noteq> RESET_PENDING"
    by blast
  then have "select_where (\<lambda>p. packet_contact_id p = Some contact_key \<and> route_reset_state p = RESET_PENDING) (packets (relay (store w'))) = []"
    by (auto simp: select_where_def filter_empty_conv)
  then show "settle_route_resets S clk' reset_works contact_key key' w' = (Inr None, w')"
    by (simp add: settle_route_resets_def act_bind_def try_in_database_def settle_pending_route_resets_in_transaction_def
        act_return_def needs_reset_def Let_def)
qed
section \<open>What a pass prepares and how long it waits\<close>

lemma fold_min_bounds: "fold min ts (t :: rat) \<le> t \<and> (\<forall>x \<in> set ts. fold min ts t \<le> x)"
proof (induction ts arbitrary: t)
  case (Cons a ts)
  from Cons.IH [of "min a t"] show ?case by auto
qed simp

lemma idle_wait_bounds:
  assumes "calculate_idle_wait T clk others eligible w = (a, w')"
    and "0 \<le> minimum_sender_sleep_seconds T" "minimum_sender_sleep_seconds T \<le> maximum_sender_sleep_seconds T"
  shows "\<exists>t. next_look_at a = Some t \<and> monotonic clk \<le> t \<and> t \<le> monotonic clk + maximum_sender_sleep_seconds T"
proof -
  let ?longest = "monotonic clk + maximum_sender_sleep_seconds T"
  obtain ts where a: "a = look_again_at (max (fold min ts ?longest) (monotonic clk + minimum_sender_sleep_seconds T))"
  proof -
    obtain ready q where n: "next_ready_time (monotonic clk) (replies w) = (ready, q)" by fastforce
    show ?thesis
      using assms(1) n that [of "(case ready of None \<Rightarrow> [] | Some t \<Rightarrow> [t]) @
          (case eligible of None \<Rightarrow> [] | Some t \<Rightarrow> if others then [t] else [])"]
      by (simp add: calculate_idle_wait_def Let_def)
  qed
  have "fold min ts ?longest \<le> ?longest" using fold_min_bounds by blast
  with assms(2,3) show ?thesis by (simp add: a look_again_at_def)
qed

lemma prepared_packet_described:
  "prepare_reply_packet contact_key key line now generation db = Inr (Some d, db') \<Longrightarrow>
     \<exists>q. packet_prepared db q db' \<and> packet_id q = descriptor_packet_id d"
  "prepare_next_packet_in_transaction S skip_delivery skip_receipt now generation db = Inr (Some d, db') \<Longrightarrow> tables_ok db \<Longrightarrow>
     \<exists>q. packet_prepared db q db' \<and> packet_id q = descriptor_packet_id d"
  using prepare_reply_packet_moves(3) [of contact_key key line now generation db "Some d" db' d]
    prepare_next_packet_spec [of S skip_delivery skip_receipt now generation db "Some d" db']
  by (fastforce simp: build_packet_descriptor_def walk_result_def)+

text \<open>What \<open>begin_send\<close> promises of the packet it prepared, and of the time of the next look when it prepared none.\<close>

definition paced_outcome :: "relay_settings \<Rightarrow> worker_timing \<Rightarrow> reading \<Rightarrow> worker \<Rightarrow> worker \<Rightarrow> begun_send \<Rightarrow> bool" where
  "paced_outcome S T clk w w' begun \<longleftrightarrow>
     (case begun of
        Packet_Prepared d reply \<Rightarrow>
          is_running w \<and> is_node_connected w \<and> \<not> is_paused w \<and>
          (\<forall>t. packet_pool_back_off_until w = Some t \<longrightarrow> t \<le> monotonic clk) \<and>
          (\<forall>t. last_send_completed_at w = Some t \<longrightarrow> t + minimum_seconds_between_sends (pacing S) \<le> monotonic clk) \<and>
          (\<exists>q. packet_prepared (relay (store w)) q (relay (store w')) \<and> packet_id q = descriptor_packet_id d)
      | Nothing_Sent a \<Rightarrow>
          packets (relay (store w')) = packets (relay (store w)) \<and>
          (\<exists>t. next_look_at a = Some t \<and> monotonic clk \<le> t \<and>
             (t \<le> monotonic clk + maximum_sender_sleep_seconds T \<or> packet_pool_back_off_until w = Some t \<or>
              (\<exists>l. last_send_completed_at w = Some l \<and> t = l + minimum_seconds_between_sends (pacing S)))))"

lemma prepare_to_send_paced:
  assumes "prepare_to_send S T skip_delivery skip_receipt clk w = (Inr begun, w')" "tables_ok (relay (store w))"
    and "0 \<le> minimum_sender_sleep_seconds T" "minimum_sender_sleep_seconds T \<le> maximum_sender_sleep_seconds T"
  shows "case begun of
      Packet_Prepared d reply \<Rightarrow> \<exists>q. packet_prepared (relay (store w)) q (relay (store w')) \<and> packet_id q = descriptor_packet_id d
    | Nothing_Sent a \<Rightarrow> packets (relay (store w')) = packets (relay (store w)) \<and>
        (\<exists>t. next_look_at a = Some t \<and> monotonic clk \<le> t \<and> t \<le> monotonic clk + maximum_sender_sleep_seconds T)"
proof -
  obtain reply q where taken: "take_next_ready_reply (monotonic clk) (replies w) = (reply, q)" by fastforce
  let ?db = "relay (store w)" and ?w1 = "w\<lparr>replies := q\<rparr>" and ?generation = "connection_generation (runtime_status w)"
  note idle = idle_wait_bounds [OF _ assms(3,4)] and memory = idle_wait_memory
  show ?thesis
  proof (cases reply)
    case (Some r)
    then obtain result db' where p: "prepare_reply_packet (pending_contact_id r) (pending_reply_key r) (pending_text r)
        (wall_time clk) ?generation ?db = Inr (result, db')"
      and w': "w' = ?w1\<lparr>store := (store w)\<lparr>relay := db'\<rparr>\<rparr>"
      and begun: "begun = (case result of None \<Rightarrow> Nothing_Sent (look_again_at (monotonic clk)) | Some d \<Rightarrow> Packet_Prepared d (Some r))"
      using assms(1) taken
      by (auto simp: prepare_to_send_def act_bind_def try_in_database_def act_return_def Let_def split: sum.splits prod.splits)
    show ?thesis
    proof (cases result)
      case None
      with prepare_reply_packet_moves(2) [OF p None] w' begun assms(3,4) show ?thesis by (simp add: look_again_at_def)
    next
      case (Some d)
      with prepared_packet_described(1) [OF p [unfolded Some]] w' begun show ?thesis by simp
    qed
  next
    case None
    show ?thesis
    proof (cases "may_send_other_than_replies S ?w1")
      case False
      then obtain a where a: "calculate_idle_wait T clk False None ?w1 = (a, w')" "begun = Nothing_Sent a"
        using assms(1) taken None by (auto simp: prepare_to_send_def act_return_def Let_def split: prod.splits)
      with idle [OF a(1)] memory [OF a(1)] show ?thesis by simp
    next
      case True
      then obtain result db' where p: "prepare_next_packet_in_transaction S skip_delivery skip_receipt (wall_time clk) ?generation ?db =
          Inr (result, db')"
        and rest: "case result of
            None \<Rightarrow> \<exists>a. calculate_idle_wait_with_due_work S T clk (?w1\<lparr>store := (store w)\<lparr>relay := db'\<rparr>\<rparr>) = (a, w') \<and> begun = Nothing_Sent a
          | Some d \<Rightarrow> w' = ?w1\<lparr>store := (store w)\<lparr>relay := db'\<rparr>\<rparr> \<and> begun = Packet_Prepared d None"
        using assms(1) taken None
        by (auto simp: prepare_to_send_def act_bind_def try_in_database_def act_return_def Let_def split: sum.splits prod.splits option.splits)
      show ?thesis
      proof (cases result)
        case None
        with rest obtain a where a: "calculate_idle_wait_with_due_work S T clk (?w1\<lparr>store := (store w)\<lparr>relay := db'\<rparr>\<rparr>) = (a, w')"
          "begun = Nothing_Sent a" by auto
        have "packets db' = packets ?db"
          using prepare_next_packet_spec [OF p assms(2)] None by (simp add: walk_result_def)
        with a(2) idle [OF a(1) [unfolded calculate_idle_wait_with_due_work_def]]
          memory [OF a(1) [unfolded calculate_idle_wait_with_due_work_def]] show ?thesis by simp
      next
        case (Some d)
        with prepared_packet_described(2) [OF p [unfolded Some] assms(2)] rest show ?thesis by simp
      qed
    qed
  qed
qed

lemma begin_send_paced:
  assumes "begin_send S T skip_delivery skip_receipt clk w = (Inr begun, w')" "tables_ok (relay (store w))"
    and "0 \<le> minimum_sender_sleep_seconds T" "minimum_sender_sleep_seconds T \<le> maximum_sender_sleep_seconds T"
  shows "paced_outcome S T clk w w' begun"
proof (cases "find_pacing_wait S T clk w")
  case (Some a)
  with assms(1) have "w' = w" "begun = Nothing_Sent a" by (auto simp: begin_send_def act_return_def)
  with Some assms(3,4) show ?thesis
    by (auto simp: paced_outcome_def find_pacing_wait_def wait_for_wakeup_def look_again_at_def split: if_splits option.splits)
next
  case None
  then have ready: "may_send_now w" "\<not> is_paused w"
    "\<And>t. packet_pool_back_off_until w = Some t \<Longrightarrow> t \<le> monotonic clk"
    "\<And>t. last_send_completed_at w = Some t \<Longrightarrow> t + minimum_seconds_between_sends (pacing S) \<le> monotonic clk"
    by (auto simp: find_pacing_wait_def split: if_splits option.splits)
  with None assms(1) have "prepare_to_send S T skip_delivery skip_receipt clk w = (Inr begun, w')" by (simp add: begin_send_def)
  from prepare_to_send_paced [OF this assms(2-4)] ready show ?thesis
    by (cases begun) (auto simp: paced_outcome_def may_send_now_def)
qed
section \<open>An acknowledgement before its packet was recorded\<close>

text \<open>The row with key \<open>i\<close> is acknowledged, with the round trip the node reported.\<close>

definition row_is_acknowledged :: "nat \<Rightarrow> int option \<Rightarrow> db \<Rightarrow> bool" where
  "row_is_acknowledged i round_trip db \<longleftrightarrow>
     (\<exists>q \<in> set (rows (packets db)). packet_id q = i \<and> packet_state q = PACKET_NODE_ACKNOWLEDGED \<and>
        round_trip_milliseconds q = round_trip)"

lemma acknowledge_loop_other_rows:
  "acknowledge_loop round_trip now ps db = (acknowledged, db') \<Longrightarrow> q \<in> set (rows (packets db)) \<Longrightarrow>
     packet_id q \<notin> packet_id ` set ps \<Longrightarrow> q \<in> set (rows (packets db'))"
proof (induction ps arbitrary: db acknowledged)
  case (Cons p ps)
  from Cons.prems(1) obtain rest db1 where rest: "acknowledge_loop round_trip now ps db1 = (rest, db')"
    and "\<exists>change. db1 = db\<lparr>packets := update_where (\<lambda>q. packet_id q = packet_id p \<and> packet_state q = packet_state p) change (packets db)\<rparr>"
    by (auto simp: Let_def split: prod.splits)
  then have "q \<in> set (rows (packets db1))" using Cons.prems(2,3) by force
  with Cons.IH [OF rest] Cons.prems(3) show ?case by simp
qed simp

lemma acknowledge_loop_row:
  "acknowledge_loop round_trip now ps db = (acknowledged, db') \<Longrightarrow> distinct (map packet_id ps) \<Longrightarrow>
     p \<in> set ps \<Longrightarrow> p \<in> set (rows (packets db)) \<Longrightarrow> row_is_acknowledged (packet_id p) round_trip db'"
proof (induction ps arbitrary: db acknowledged)
  case (Cons x ps)
  let ?change = "\<lambda>q. let q1 = q\<lparr>packet_state := PACKET_NODE_ACKNOWLEDGED, acknowledged_at := Some now,
                                    round_trip_milliseconds := round_trip\<rparr>
                        in if route_reset_state x = RESET_PENDING
                           then q1\<lparr>route_reset_state := RESET_SKIPPED_LATE_ACKNOWLEDGEMENT,
                                   route_reset_decided_at := Some now\<rparr> else q1"
  let ?named = "\<lambda>q. packet_id q = packet_id x \<and> packet_state q = packet_state x"
  let ?db1 = "db\<lparr>packets := update_where ?named ?change (packets db)\<rparr>"
  obtain rest where rest: "acknowledge_loop round_trip now ps ?db1 = (rest, db')"
    using Cons.prems(1) by (auto simp: Let_def split: prod.splits)
  have change: "packet_id (?change q) = packet_id q" "packet_state (?change q) = PACKET_NODE_ACKNOWLEDGED"
    "round_trip_milliseconds (?change q) = round_trip" for q by (simp_all add: Let_def)
  have member: "(if ?named q then ?change q else q) \<in> set (rows (packets ?db1))" if "q \<in> set (rows (packets db))" for q
    using that by simp
  show ?case
  proof (cases "p = x")
    case True
    with member [OF Cons.prems(4)] have "?change p \<in> set (rows (packets ?db1))" by simp
    moreover have "packet_id (?change p) \<notin> packet_id ` set ps"
      unfolding change(1) using Cons.prems(2) True by auto
    ultimately have "?change p \<in> set (rows (packets db'))" by (rule acknowledge_loop_other_rows [OF rest])
    then show ?thesis unfolding row_is_acknowledged_def using change by blast
  next
    case False
    with Cons.prems(2,3) have "p \<in> set ps" "\<not> ?named p" by (auto simp: rev_image_eqI)
    moreover from this member [OF Cons.prems(4)] have "p \<in> set (rows (packets ?db1))" by (simp only: if_False)
    ultimately show ?thesis using Cons.IH [OF rest] Cons.prems(2) by simp
  qed
qed simp

lemma acknowledgement_finds_row:
  assumes "record_node_acknowledgement code round_trip now db = (acknowledged, db')" "tables_ok db"
    and "p \<in> set (rows (packets db))" "expected_acknowledgement_code p = lower code" "on_node p"
    and "queued_at p = Some t" "now - timedelta_minutes LATE_ACKNOWLEDGEMENT_MATCH_MINUTES \<le> t"
  shows "packet_id p \<in> acknowledged_packet_id ` set acknowledged" "row_is_acknowledged (packet_id p) round_trip db'"
proof -
  define ps where "ps = select_where (\<lambda>p. expected_acknowledgement_code p = lower code \<and>
      packet_state p \<in> set PACKET_STATES_AWAITING_ACKNOWLEDGEMENT \<and>
      (case queued_at p of None \<Rightarrow> False | Some t \<Rightarrow> t \<ge> now - timedelta_minutes LATE_ACKNOWLEDGEMENT_MATCH_MINUTES)) (packets db)"
  have loop: "acknowledge_loop round_trip now ps db = (acknowledged, db')"
    using assms(1) by (simp add: record_node_acknowledgement_def ps_def)
  have p: "p \<in> set ps"
    using assms(3-7) by (simp add: ps_def on_node_def PACKET_STATES_AWAITING_ACKNOWLEDGEMENT_def)
  have "distinct (map packet_id ps)"
    using assms(2) by (auto simp: ps_def tables_ok_def keys_ok_def select_where_def strict_sorted_iff intro: distinct_map_filter)
  from acknowledge_loop_row [OF loop this p assms(3)] show "row_is_acknowledged (packet_id p) round_trip db'" .
  show "packet_id p \<in> acknowledged_packet_id ` set acknowledged"
    using acknowledge_loop_on_node [OF loop] p by (metis image_eqI set_map)
qed

lemma nothing_acknowledged:
  "record_node_acknowledgement code round_trip now db = ([], db') \<Longrightarrow> db' = db"
  unfolding record_node_acknowledgement_def
  by (cases "select_where (\<lambda>p. expected_acknowledgement_code p = lower code \<and>
      packet_state p \<in> set PACKET_STATES_AWAITING_ACKNOWLEDGEMENT \<and>
      (case queued_at p of None \<Rightarrow> False | Some t \<Rightarrow> t \<ge> now - timedelta_minutes LATE_ACKNOWLEDGEMENT_MATCH_MINUTES)) (packets db)")
    (auto simp: Let_def split: prod.splits)

lemma map_of_filter_value: "map_of al k = Some v \<Longrightarrow> P (k, v) \<Longrightarrow> map_of (filter P al) k = Some v"
  by (induction al) (auto split: if_splits)

text \<open>The slot is free and the row is acknowledged after the acknowledgement was handled with the packet recorded.\<close>

definition slot_is_settled :: "nat \<Rightarrow> int option \<Rightarrow> worker \<Rightarrow> bool" where
  "slot_is_settled i round_trip w \<longleftrightarrow>
     i \<notin> fst ` set (awaited_packets w) \<and> row_is_acknowledged i round_trip (relay (store w))"

lemma acknowledgement_settles:
  assumes "tables_ok (relay (store w))" "p \<in> set (rows (packets (relay (store w))))" "expected_acknowledgement_code p = lower code" "on_node p"
    and "queued_at p = Some t" "wall_time clk - timedelta_minutes LATE_ACKNOWLEDGEMENT_MATCH_MINUTES \<le> t"
  shows "slot_is_settled (packet_id p) round_trip (handle_node_acknowledgement T clk code round_trip w)"
proof -
  obtain acknowledged db' where r: "record_node_acknowledgement code round_trip (wall_time clk) (relay (store w)) = (acknowledged, db')"
    by fastforce
  note found = acknowledgement_finds_row [OF r assms]
  then have "acknowledged \<noteq> []" by auto
  with r found show ?thesis
    by (auto simp: slot_is_settled_def handle_node_acknowledgement_def in_database_def Let_def fold_pop_awaited)
qed

text \<open>After the node queued a packet, its row has the code and the time, and the tracker is registered.\<close>

lemma complete_send_queued:
  assumes "tables_ok (relay (store w))" "find_packet (descriptor_packet_id d) (relay (store w)) = Some p" "packet_state p = PACKET_PREPARED"
  obtains r w4 where
    "complete_send S T clk (Some (PacketQueuedOnNode taken code timeout)) d reply w = register_sent_packet T clk r w4"
    "awaits_acknowledgement r" "recorded_deadline_at r \<noteq> None" "recorded_packet_id r = descriptor_packet_id d"
    "recorded_acknowledgement_code r = lower code" "tables_ok (relay (store w4))"
    "unmatched_acknowledgements w4 = unmatched_acknowledgements w"
    "\<exists>q \<in> set (rows (packets (relay (store w4)))). packet_id q = descriptor_packet_id d \<and> on_node q \<and>
       expected_acknowledgement_code q = lower code \<and> queued_at q = Some (wall_time clk)"
proof -
  let ?outcome = "PacketQueuedOnNode taken code timeout" and ?i = "descriptor_packet_id d" and ?db = "relay (store w)"
  let ?q = "build_packet_outcome_changes S ?outcome (wall_time clk) p"
  have keys: "keys_ok packet_id (packets ?db)" using assms(1) by (simp add: tables_ok_def)
  define db' where "db' = snd (record_send_outcome_in_transaction S ?i ?outcome (wall_time clk) ?db)"
  have found: "find_packet ?i db' = Some ?q"
    unfolding db'_def by (rule recorded_packet_is_not_prepared [OF keys assms(2,3)])
  have id: "packet_id p = ?i" using assms(2) unfolding find_packet_def by (auto dest!: first_where_SomeD)
  obtain r where r: "fst (record_send_outcome_in_transaction S ?i ?outcome (wall_time clk) ?db) = Some r"
    "recorded_packet_id r = ?i" "awaits_acknowledgement r" "recorded_deadline_at r \<noteq> None"
    "recorded_acknowledgement_code r = lower code"
    using assms(2,3) found id
    by (auto simp: db'_def record_send_outcome_in_transaction_def Let_def describe_recorded_outcome_def awaits_acknowledgement_def)
  define w2 where "w2 = w\<lparr>store := (store w)\<lparr>relay := db'\<rparr>, last_send_completed_at := Some (monotonic clk)\<rparr>"
  define w3 where "w3 = (case reply of Some p \<Rightarrow> w2\<lparr>replies := record_reply_sent p (monotonic clk) (replies w2)\<rparr> | None \<Rightarrow> w2)"
  define w4 where "w4 = handle_recorded_outcome T clk r reply w3"
  have w4: "relay (store w4) = db'" "unmatched_acknowledgements w4 = unmatched_acknowledgements w"
    by (auto simp: w4_def w3_def w2_def handle_outcome_memory handle_recorded_outcome_def back_off_after_full_packet_pool_def
        Let_def request_reconciliation_def record_error_def report_status_change_def split: option.splits)
  have "complete_send S T clk (Some ?outcome) d reply w = register_sent_packet T clk r w4"
    using r(1) unfolding w4_def w3_def w2_def db'_def
    by (simp add: complete_send_def send_to_node_def in_database_eq Let_def cong: option.case_cong)
  moreover have "tables_ok (relay (store w4))"
    unfolding w4 db'_def by (rule db_moves_ok [OF record_send_outcome_moves assms(1)])
  moreover have "?q \<in> set (rows (packets db'))" using found unfolding find_packet_def by (auto dest!: first_where_SomeD)
  then have "\<exists>q \<in> set (rows (packets (relay (store w4)))). packet_id q = ?i \<and> on_node q \<and>
       expected_acknowledgement_code q = lower code \<and> queued_at q = Some (wall_time clk)"
    unfolding w4 by (rule bexI [rotated]) (simp add: on_node_def id)
  ultimately show ?thesis using that r w4 by blast
qed
lemma register_without_early:
  assumes "awaits_acknowledgement r" "recorded_deadline_at r \<noteq> None"
    and "recorded_acknowledgement_code r \<notin> fst ` set (unmatched_acknowledgements w)"
  shows "store (register_sent_packet T clk r w) = store w"
proof -
  have "map_of (filter P (unmatched_acknowledgements w)) (recorded_acknowledgement_code r) = None" for P
    using assms(3) by (auto simp: map_of_eq_None_iff)
  with assms(1,2) show ?thesis
    by (auto simp: register_sent_packet_def take_unmatched_acknowledgement_def Let_def forget_old_unmatched_acknowledgements_def
        wake_tracker_def)
qed

lemma register_with_early:
  assumes "awaits_acknowledgement r" "recorded_deadline_at r \<noteq> None"
    and "map_of (unmatched_acknowledgements w) (recorded_acknowledgement_code r) = Some u"
    and "monotonic clk - unmatched_received_at u < unmatched_acknowledgement_lifetime_seconds T"
  obtains w2 where "register_sent_packet T clk r w =
      handle_node_acknowledgement T clk (recorded_acknowledgement_code r) (unmatched_round_trip u) w2"
    "store w2 = store w"
proof -
  let ?keep = "\<lambda>(_, u). \<not> monotonic clk - unmatched_received_at u \<ge> unmatched_acknowledgement_lifetime_seconds T"
  have "map_of (filter ?keep (unmatched_acknowledgements w)) (recorded_acknowledgement_code r) = Some u"
    using assms(3,4) by (intro map_of_filter_value) auto
  with assms(1,2) that show ?thesis
    by (force simp: register_sent_packet_def take_unmatched_acknowledgement_def Let_def forget_old_unmatched_acknowledgements_def
        wake_tracker_def)
qed

lemma acknowledgement_order_is_irrelevant:
  assumes "tables_ok (relay (store w))" "find_packet (descriptor_packet_id d) (relay (store w)) = Some p"
    and "packet_state p = PACKET_PREPARED" "lower code = code" "code \<notin> fst ` set (unmatched_acknowledgements w)"
    and "fst (record_node_acknowledgement code round_trip (wall_time clk) (relay (store w))) = []"
    and "monotonic clk' - monotonic clk < unmatched_acknowledgement_lifetime_seconds T"
    and "wall_time clk'' - timedelta_minutes LATE_ACKNOWLEDGEMENT_MATCH_MINUTES \<le> wall_time clk'"
    and sent_def: "sent = complete_send S T clk' (Some (PacketQueuedOnNode taken code timeout)) d reply"
  shows "slot_is_settled (descriptor_packet_id d) round_trip (sent (handle_node_acknowledgement T clk code round_trip w))"
    and "slot_is_settled (descriptor_packet_id d) round_trip (handle_node_acknowledgement T clk'' code round_trip (sent w))"
proof -
  let ?i = "descriptor_packet_id d" and ?early = "handle_node_acknowledgement T clk code round_trip w"
  obtain db' where "record_node_acknowledgement code round_trip (wall_time clk) (relay (store w)) = ([], db')"
    using assms(6) by (metis prod.collapse)
  moreover from nothing_acknowledged [OF this] have "db' = relay (store w)" .
  ultimately have early: "store ?early = store w"
    "map_of (unmatched_acknowledgements ?early) code = Some \<lparr>unmatched_round_trip = round_trip, unmatched_received_at = monotonic clk\<rparr>"
    by (simp_all add: handle_node_acknowledgement_def in_database_def Let_def update_conv')
  have ready: "tables_ok (relay (store ?early))" "find_packet ?i (relay (store ?early)) = Some p" using assms(1,2) early by simp_all
  show "slot_is_settled ?i round_trip (sent ?early)"
  proof (rule complete_send_queued [OF ready assms(3), of S T clk' taken code timeout reply])
    fix r w4
    assume r: "complete_send S T clk' (Some (PacketQueuedOnNode taken code timeout)) d reply ?early = register_sent_packet T clk' r w4"
      "awaits_acknowledgement r" "recorded_deadline_at r \<noteq> None" "recorded_packet_id r = ?i"
      "recorded_acknowledgement_code r = lower code" "tables_ok (relay (store w4))"
      "unmatched_acknowledgements w4 = unmatched_acknowledgements ?early"
      "\<exists>q \<in> set (rows (packets (relay (store w4)))). packet_id q = ?i \<and> on_node q \<and>
         expected_acknowledgement_code q = lower code \<and> queued_at q = Some (wall_time clk')"
    have unmatched: "map_of (unmatched_acknowledgements w4) (recorded_acknowledgement_code r) =
        Some \<lparr>unmatched_round_trip = round_trip, unmatched_received_at = monotonic clk\<rparr>"
      using early(2) r(5,7) assms(4) by simp
    obtain w2 where w2: "register_sent_packet T clk' r w4 = handle_node_acknowledgement T clk' (lower code) round_trip w2"
      "store w2 = store w4"
      by (rule register_with_early [OF r(2,3) unmatched, of clk' T]) (use assms(7) r(5) in simp_all)
    from r(8) obtain q where q: "q \<in> set (rows (packets (relay (store w2))))" "packet_id q = ?i" "on_node q"
      "expected_acknowledgement_code q = lower (lower code)" "queued_at q = Some (wall_time clk')"
      using w2(2) assms(4) by auto
    have "slot_is_settled (packet_id q) round_trip (handle_node_acknowledgement T clk' (lower code) round_trip w2)"
      by (rule acknowledgement_settles [OF _ q(1,4,3,5)])
        (use r(6) w2(2) in \<open>simp_all add: LATE_ACKNOWLEDGEMENT_MATCH_MINUTES_def timedelta_minutes_def\<close>)
    then show ?thesis unfolding sent_def r(1) w2(1) q(2) .
  qed
  show "slot_is_settled ?i round_trip (handle_node_acknowledgement T clk'' code round_trip (sent w))"
  proof (rule complete_send_queued [OF assms(1-3), of S T clk' taken code timeout reply])
    fix r w4
    assume r: "complete_send S T clk' (Some (PacketQueuedOnNode taken code timeout)) d reply w = register_sent_packet T clk' r w4"
      "awaits_acknowledgement r" "recorded_deadline_at r \<noteq> None" "recorded_packet_id r = ?i"
      "recorded_acknowledgement_code r = lower code" "tables_ok (relay (store w4))"
      "unmatched_acknowledgements w4 = unmatched_acknowledgements w"
      "\<exists>q \<in> set (rows (packets (relay (store w4)))). packet_id q = ?i \<and> on_node q \<and>
         expected_acknowledgement_code q = lower code \<and> queued_at q = Some (wall_time clk')"
    have same: "store (register_sent_packet T clk' r w4) = store w4"
      by (rule register_without_early [OF r(2,3)]) (use assms(4,5) r(5,7) in simp)
    from r(8) obtain q where q: "q \<in> set (rows (packets (relay (store (sent w)))))" "packet_id q = ?i" "on_node q"
      "expected_acknowledgement_code q = lower code" "queued_at q = Some (wall_time clk')"
      unfolding sent_def r(1) same by blast
    have "slot_is_settled (packet_id q) round_trip (handle_node_acknowledgement T clk'' code round_trip (sent w))"
      by (rule acknowledgement_settles [OF _ q(1,4,3,5) assms(8)]) (unfold sent_def r(1) same, rule r(6))
    then show ?thesis unfolding q(2) .
  qed
qed

end
