(* ===== verification/Node_Frames.thy ===== *)
theory Node_Frames
  imports Contacts Outbound_Packets
begin

text \<open>
  The frames the worker writes to the node and what it makes of the replies (\<^verbatim>\<open>worker/node_contact_records.py\<close> and
  the builders and readers of \<^verbatim>\<open>worker/node_gateway.py\<close>). A reply is the kind of the library's event with the two
  fields of an error the worker reads. The lemmas show that every frame of a contact has its full length with each
  field at its place, and that a text message frame carries the whole text.
\<close>

section \<open>Bytes\<close>

datatype frame_error = FrameValueError | FrameOverflowError | FrameUnicodeEncodeError | FrameAssertionError

definition frame_bind :: "frame_error + 'a \<Rightarrow> ('a \<Rightarrow> frame_error + 'b) \<Rightarrow> frame_error + 'b" where
  "frame_bind m f = (case m of Inl e \<Rightarrow> Inl e | Inr x \<Rightarrow> f x)"

lemma frame_bind_simps [simp]: "frame_bind (Inl e) f = Inl e" "frame_bind (Inr x) f = f x"
  by (simp_all add: frame_bind_def)

lemma frame_bind_eq_Inr: "frame_bind m f = Inr y \<longleftrightarrow> (\<exists>x. m = Inr x \<and> f x = Inr y)"
  by (cases m) auto

text \<open>\<^verbatim>\<open>n.to_bytes(k, "little")\<close>, the same with \<^verbatim>\<open>signed=True\<close>, \<^verbatim>\<open>bytes([...])\<close>, and \<^verbatim>\<open>str.encode\<close>\<close>

definition unsigned_bytes :: "nat \<Rightarrow> int \<Rightarrow> frame_error + nat list" where
  "unsigned_bytes k n = (if 0 \<le> n \<and> n < 256 ^ k then Inr (int_to_bytes_little k n) else Inl FrameOverflowError)"

definition signed_bytes :: "nat \<Rightarrow> int \<Rightarrow> frame_error + nat list" where
  "signed_bytes k n =
     (if - (256 ^ k) \<le> 2 * n \<and> 2 * n < 256 ^ k then Inr (int_to_bytes_little k n) else Inl FrameOverflowError)"

definition byte_list :: "int list \<Rightarrow> frame_error + nat list" where
  "byte_list ns = (if list_all (\<lambda>n. 0 \<le> n \<and> n < 256) ns then Inr (map nat ns) else Inl FrameValueError)"

definition encoded_text :: "pystr \<Rightarrow> frame_error + nat list" where
  "encoded_text t = (case encode_utf8 t of Inl _ \<Rightarrow> Inl FrameUnicodeEncodeError | Inr bs \<Rightarrow> Inr bs)"

definition ljust :: "nat \<Rightarrow> nat list \<Rightarrow> nat list" where
  "ljust n bs = bs @ replicate (n - length bs) 0"

section \<open>Contact records\<close>

definition ADD_UPDATE_CONTACT_COMMAND_CODE :: nat where
  "ADD_UPDATE_CONTACT_COMMAND_CODE = 0x09"

definition CHAT_NODE_TYPE :: nat where
  "CHAT_NODE_TYPE = 1"

definition NO_FLAGS :: nat where
  "NO_FLAGS = 0"

definition NO_KNOWN_ROUTE :: nat where
  "NO_KNOWN_ROUTE = 0xFF"

definition OUT_PATH_FIELD_BYTES :: nat where
  "OUT_PATH_FIELD_BYTES = 64"

definition NAME_FIELD_BYTES :: nat where
  "NAME_FIELD_BYTES = 32"

definition ADD_UPDATE_CONTACT_FRAME_BYTES :: nat where
  "ADD_UPDATE_CONTACT_FRAME_BYTES = 144"

definition LISTED_FLOOD_ROUTE_LENGTH :: int where
  "LISTED_FLOOD_ROUTE_LENGTH = -1"

lemmas frame_constants =
  ADD_UPDATE_CONTACT_COMMAND_CODE_def CHAT_NODE_TYPE_def NO_FLAGS_def NO_KNOWN_ROUTE_def OUT_PATH_FIELD_BYTES_def
  NAME_FIELD_BYTES_def ADD_UPDATE_CONTACT_FRAME_BYTES_def

record node_contact_record =
  record_public_key :: pystr
  record_name :: pystr
  record_advert_timestamp :: int
  record_latitude :: int
  record_longitude :: int

record listed_node_contact =
  listed_public_key :: pystr
  listed_name :: pystr
  listed_out_path_length :: int

definition build_node_contact_record :: "contact_for_node \<Rightarrow> node_contact_record" where
  "build_node_contact_record c =
     \<lparr>record_public_key = for_node_public_key c, record_name = for_node_name c,
      record_advert_timestamp = for_node_advert_timestamp c, record_latitude = for_node_latitude c,
      record_longitude = for_node_longitude c\<rparr>"

definition decode_public_key :: "pystr \<Rightarrow> frame_error + nat list" where
  "decode_public_key key =
     (case bytes_fromhex key of
        None \<Rightarrow> Inl FrameValueError
      | Some bs \<Rightarrow> if length bs \<noteq> PUBLIC_KEY_SIZE then Inl FrameValueError else Inr bs)"

definition encode_name_field :: "pystr \<Rightarrow> frame_error + nat list" where
  "encode_name_field name =
     (case truncate_contact_name name of
        Inl _ \<Rightarrow> Inl FrameUnicodeEncodeError
      | Inr truncated \<Rightarrow> frame_bind (encoded_text truncated) (\<lambda>bs. Inr (ljust NAME_FIELD_BYTES bs)))"

definition build_add_update_contact_frame :: "node_contact_record \<Rightarrow> frame_error + nat list" where
  "build_add_update_contact_frame r =
     frame_bind (decode_public_key (record_public_key r)) (\<lambda>key.
     frame_bind (encode_name_field (record_name r)) (\<lambda>name_field.
     frame_bind (unsigned_bytes 4 (record_advert_timestamp r AND 0xFFFFFFFF)) (\<lambda>timestamp.
     frame_bind (signed_bytes 4 (record_latitude r)) (\<lambda>latitude.
     frame_bind (signed_bytes 4 (record_longitude r)) (\<lambda>longitude.
       let frame = [ADD_UPDATE_CONTACT_COMMAND_CODE] @ key @ [CHAT_NODE_TYPE, NO_FLAGS, NO_KNOWN_ROUTE] @
             replicate OUT_PATH_FIELD_BYTES 0 @ name_field @ timestamp @ latitude @ longitude
       in if length frame \<noteq> ADD_UPDATE_CONTACT_FRAME_BYTES then Inl FrameAssertionError else Inr frame)))))"

text \<open>A listing of the library: one name and route length per key, each of them optional.\<close>

record listing_fields =
  field_adv_name :: "pystr option"
  field_out_path_len :: "int option"

fun parse_listed_contacts :: "(pystr \<times> listing_fields) list \<Rightarrow> (pystr \<times> listed_node_contact) list \<Rightarrow> (pystr \<times> listed_node_contact) list" where
  "parse_listed_contacts [] listed = listed"
| "parse_listed_contacts ((key, entry) # rest) listed =
     parse_listed_contacts rest
       (AList.update (lower key)
          \<lparr>listed_public_key = lower key,
           listed_name = (case field_adv_name entry of None \<Rightarrow> [] | Some n \<Rightarrow> n),
           listed_out_path_length = (case field_out_path_len entry of None \<Rightarrow> LISTED_FLOOD_ROUTE_LENGTH | Some n \<Rightarrow> n)\<rparr> listed)"

section \<open>Command frames\<close>

definition SET_DEVICE_TIME_COMMAND_CODE :: nat where
  "SET_DEVICE_TIME_COMMAND_CODE = 0x06"

definition SEND_SELF_ADVERT_COMMAND_CODE :: nat where
  "SEND_SELF_ADVERT_COMMAND_CODE = 0x07"

definition SET_ADVERT_NAME_COMMAND_CODE :: nat where
  "SET_ADVERT_NAME_COMMAND_CODE = 0x08"

definition SEND_TEXT_MESSAGE_COMMAND_CODE :: nat where
  "SEND_TEXT_MESSAGE_COMMAND_CODE = 0x02"

definition SET_RADIO_PARAMETERS_COMMAND_CODE :: nat where
  "SET_RADIO_PARAMETERS_COMMAND_CODE = 0x0B"

definition SET_TRANSMIT_POWER_COMMAND_CODE :: nat where
  "SET_TRANSMIT_POWER_COMMAND_CODE = 0x0C"

definition RESET_PATH_COMMAND_CODE :: nat where
  "RESET_PATH_COMMAND_CODE = 0x0D"

definition REMOVE_CONTACT_COMMAND_CODE :: nat where
  "REMOVE_CONTACT_COMMAND_CODE = 0x0F"

definition SET_CHANNEL_COMMAND_CODE :: nat where
  "SET_CHANNEL_COMMAND_CODE = 0x20"

definition SET_OTHER_PARAMETERS_COMMAND_CODE :: int where
  "SET_OTHER_PARAMETERS_COMMAND_CODE = 0x26"

definition SET_AUTO_ADD_CONFIGURATION_COMMAND_CODE :: int where
  "SET_AUTO_ADD_CONFIGURATION_COMMAND_CODE = 0x3A"

definition SET_PATH_HASH_MODE_COMMAND_CODE :: int where
  "SET_PATH_HASH_MODE_COMMAND_CODE = 0x3D"

definition CHANNEL_SECRET_BYTES :: nat where
  "CHANNEL_SECRET_BYTES = 16"

definition CHANNEL_NAME_FIELD_BYTES :: nat where
  "CHANNEL_NAME_FIELD_BYTES = 32"

definition NODE_NAME_MAXIMUM_BYTES :: nat where
  "NODE_NAME_MAXIMUM_BYTES = 31"

definition PUBLIC_KEY_PREFIX_BYTES :: nat where
  "PUBLIC_KEY_PREFIX_BYTES = 6"

definition PLAIN_TEXT_TYPE :: nat where
  "PLAIN_TEXT_TYPE = 0"

definition FIRST_ATTEMPT :: nat where
  "FIRST_ATTEMPT = 0"

definition FLOOD_ADVERT_FLAG :: nat where
  "FLOOD_ADVERT_FLAG = 0x01"

definition FLOOD_ROUTE_TYPE :: int where
  "FLOOD_ROUTE_TYPE = 1"

definition set_node_clock_frame :: "int \<Rightarrow> frame_error + nat list" where
  "set_node_clock_frame unix_time = frame_bind (unsigned_bytes 4 unix_time) (\<lambda>bs. Inr (SET_DEVICE_TIME_COMMAND_CODE # bs))"

definition send_advert_frame :: "bool \<Rightarrow> nat list" where
  "send_advert_frame flood =
     (if flood then [SEND_SELF_ADVERT_COMMAND_CODE, FLOOD_ADVERT_FLAG] else [SEND_SELF_ADVERT_COMMAND_CODE])"

definition set_channel_frame :: "int \<Rightarrow> pystr \<Rightarrow> nat list \<Rightarrow> frame_error + nat list" where
  "set_channel_frame channel_index channel_name channel_secret =
     (if length channel_secret \<noteq> CHANNEL_SECRET_BYTES then Inl FrameValueError
      else
        frame_bind (encoded_text channel_name) (\<lambda>bs.
        frame_bind (byte_list [int SET_CHANNEL_COMMAND_CODE, channel_index]) (\<lambda>start.
          Inr (start @ ljust CHANNEL_NAME_FIELD_BYTES (take (CHANNEL_NAME_FIELD_BYTES - 1) bs) @ channel_secret))))"

definition set_node_name_frame :: "pystr \<Rightarrow> frame_error + nat list" where
  "set_node_name_frame new_name =
     frame_bind (encoded_text new_name) (\<lambda>bs.
       if \<not> (1 \<le> length bs \<and> length bs \<le> NODE_NAME_MAXIMUM_BYTES) then Inl FrameValueError
       else Inr (SET_ADVERT_NAME_COMMAND_CODE # bs))"

definition set_radio_parameters_frame :: "int \<Rightarrow> int \<Rightarrow> int \<Rightarrow> int \<Rightarrow> bool \<Rightarrow> frame_error + nat list" where
  "set_radio_parameters_frame frequency_kilohertz bandwidth_hertz spreading_factor coding_rate client_repeat =
     frame_bind (unsigned_bytes 4 frequency_kilohertz) (\<lambda>frequency.
     frame_bind (unsigned_bytes 4 bandwidth_hertz) (\<lambda>bandwidth.
     frame_bind (byte_list [spreading_factor, coding_rate, if client_repeat then 1 else 0]) (\<lambda>rest.
       Inr (SET_RADIO_PARAMETERS_COMMAND_CODE # frequency @ bandwidth @ rest))))"

definition set_transmit_power_frame :: "int \<Rightarrow> frame_error + nat list" where
  "set_transmit_power_frame transmit_power_dbm =
     frame_bind (signed_bytes 1 transmit_power_dbm) (\<lambda>bs. Inr (SET_TRANSMIT_POWER_COMMAND_CODE # bs))"

definition set_path_hash_size_frame :: "int \<Rightarrow> frame_error + nat list" where
  "set_path_hash_size_frame path_hash_size = byte_list [SET_PATH_HASH_MODE_COMMAND_CODE, 0, path_hash_size - 1]"

definition set_other_parameters_frame :: "bool \<Rightarrow> int \<Rightarrow> int \<Rightarrow> int \<Rightarrow> frame_error + nat list" where
  "set_other_parameters_frame manual_add_contacts telemetry_modes advert_location_policy multi_acks =
     byte_list [SET_OTHER_PARAMETERS_COMMAND_CODE, if manual_add_contacts then 1 else 0, telemetry_modes,
       advert_location_policy, multi_acks]"

definition set_auto_add_configuration_frame :: "int \<Rightarrow> int \<Rightarrow> frame_error + nat list" where
  "set_auto_add_configuration_frame configuration maximum_hops =
     byte_list [SET_AUTO_ADD_CONFIGURATION_COMMAND_CODE, configuration, maximum_hops]"

definition reset_path_frame :: "pystr \<Rightarrow> frame_error + nat list" where
  "reset_path_frame key = frame_bind (decode_public_key key) (\<lambda>bs. Inr (RESET_PATH_COMMAND_CODE # bs))"

definition remove_contact_frame :: "pystr \<Rightarrow> frame_error + nat list" where
  "remove_contact_frame key = frame_bind (decode_public_key key) (\<lambda>bs. Inr (REMOVE_CONTACT_COMMAND_CODE # bs))"

definition build_text_message_frame :: "pystr \<Rightarrow> pystr \<Rightarrow> int \<Rightarrow> frame_error + nat list" where
  "build_text_message_frame key line timestamp =
     frame_bind (decode_public_key key) (\<lambda>key_bytes.
     frame_bind (unsigned_bytes 4 timestamp) (\<lambda>timestamp_bytes.
     frame_bind (encoded_text line) (\<lambda>text_bytes.
       Inr ([SEND_TEXT_MESSAGE_COMMAND_CODE, PLAIN_TEXT_TYPE, FIRST_ATTEMPT] @ timestamp_bytes @
            take PUBLIC_KEY_PREFIX_BYTES key_bytes @ text_bytes))))"

section \<open>Replies\<close>

text \<open>A reply of the expected kind with its payload, or the library's error event: its reason and its code.\<close>

datatype 'p node_reply = Reply_Event 'p | Error_Event "pystr option" "int option"

datatype gateway_error =
    NodeNotConnectedError
  | NodeReplyLostError
  | NodeRejectedCommandError int
  | UnexpectedNodeReplyError

definition LOST_REPLY_REASON :: pystr where
  "LOST_REPLY_REASON = str ''no_event_received''"

definition ERR_CODE_BAD_STATE :: int where
  "ERR_CODE_BAD_STATE = 4"

fun is_lost_reply :: "'p node_reply \<Rightarrow> bool" where
  "is_lost_reply (Reply_Event _) \<longleftrightarrow> False"
| "is_lost_reply (Error_Event reason _) \<longleftrightarrow> reason = Some LOST_REPLY_REASON"

fun is_node_error :: "'p node_reply \<Rightarrow> int \<Rightarrow> bool" where
  "is_node_error (Reply_Event _) code \<longleftrightarrow> False"
| "is_node_error (Error_Event _ error_code) code \<longleftrightarrow> error_code = Some code"

fun raise_unless_successful :: "'p node_reply \<Rightarrow> gateway_error + 'p" where
  "raise_unless_successful (Reply_Event p) = Inr p"
| "raise_unless_successful (Error_Event reason code) =
     (if reason = Some LOST_REPLY_REASON then Inl NodeReplyLostError
      else case code of Some c \<Rightarrow> Inl (NodeRejectedCommandError c) | None \<Rightarrow> Inl UnexpectedNodeReplyError)"

text \<open>\<^verbatim>\<open>reset_path\<close> and \<^verbatim>\<open>remove_contact\<close>: a contact the node does not know is no error.\<close>

definition known_contact_reply :: "'p node_reply \<Rightarrow> gateway_error + bool" where
  "known_contact_reply reply =
     (if is_node_error reply ERR_CODE_NOT_FOUND then Inr False
      else case raise_unless_successful reply of Inl e \<Rightarrow> Inl e | Inr _ \<Rightarrow> Inr True)"

record message_sent_payload =
  sent_route_type :: int
  expected_ack :: "nat list"
  suggested_timeout :: int

definition build_packet_queued_outcome :: "message_sent_payload \<Rightarrow> node_send_outcome" where
  "build_packet_queued_outcome p =
     PacketQueuedOnNode (if sent_route_type p = FLOOD_ROUTE_TYPE then ROUTE_FLOOD else ROUTE_DIRECT)
       (bytes_hex (expected_ack p)) (suggested_timeout p)"

text \<open>\<^verbatim>\<open>send_text_message\<close>: what the answer of the node says of the packet.\<close>

fun send_outcome_of_reply :: "message_sent_payload node_reply \<Rightarrow> node_send_outcome" where
  "send_outcome_of_reply (Reply_Event p) = build_packet_queued_outcome p"
| "send_outcome_of_reply (Error_Event _ (Some code)) = PacketRejectedByNode code"
| "send_outcome_of_reply (Error_Event _ None) = PacketOutcomeUnknown"

section \<open>The link\<close>

text \<open>What the gateway remembers of the link, and the requests for a new connection it made.\<close>

record gateway =
  attached_client :: "bool option"
  consecutive_lost_replies :: nat
  reconnects_requested :: nat

definition attach :: "gateway \<Rightarrow> gateway" where
  "attach g = g\<lparr>attached_client := Some True, consecutive_lost_replies := 0\<rparr>"

definition detach :: "gateway \<Rightarrow> gateway" where
  "detach g = g\<lparr>attached_client := None\<rparr>"

definition record_node_push :: "gateway \<Rightarrow> gateway" where
  "record_node_push g = g\<lparr>consecutive_lost_replies := 0\<rparr>"

definition count_lost_reply :: "nat \<Rightarrow> gateway \<Rightarrow> gateway" where
  "count_lost_reply lost_replies_before_reconnect g =
     (let g1 = g\<lparr>consecutive_lost_replies := consecutive_lost_replies g + 1\<rparr>
      in if consecutive_lost_replies g1 \<ge> lost_replies_before_reconnect
         then g1\<lparr>consecutive_lost_replies := 0, reconnects_requested := reconnects_requested g1 + 1\<rparr>
         else g1)"

definition run_node_command :: "nat \<Rightarrow> bool \<Rightarrow> 'p node_reply \<Rightarrow> gateway \<Rightarrow> (gateway_error + 'p node_reply) \<times> gateway" where
  "run_node_command lost_replies_before_reconnect reply_is_optional reply g =
     (if attached_client g \<noteq> Some True then (Inl NodeNotConnectedError, g)
      else if is_lost_reply reply
      then (Inr reply, if reply_is_optional then g else count_lost_reply lost_replies_before_reconnect g)
      else (Inr reply, record_node_push g))"
section \<open>The layout of the frames\<close>

text \<open>
  What the firmware reads at fixed offsets: the key, the kind and flags, the unknown route, the empty path, the name
  up to its first zero byte, the time and the place.
\<close>

definition add_contact_layout :: "node_contact_record \<Rightarrow> nat list \<Rightarrow> bool" where
  "add_contact_layout r frame \<longleftrightarrow>
     length frame = 144 \<and> frame ! 0 = 9 \<and> Some (take 32 (drop 1 frame)) = bytes_fromhex (record_public_key r) \<and>
     take 3 (drop 33 frame) = [1, 0, 255] \<and> take 64 (drop 36 frame) = replicate 64 0 \<and>
     frame ! 131 = 0 \<and>
     (\<exists>name. truncate_contact_name (record_name r) = Inr name \<and>
        take 32 (drop 100 frame) = ljust 32 (concat (map utf8_bytes name)) \<and> utf8_length name \<le> 31) \<and>
     int_from_bytes_little (take 4 (drop 132 frame)) = record_advert_timestamp r mod 2 ^ 32 \<and>
     signed_int_from_bytes_little (take 4 (drop 136 frame)) = record_latitude r \<and>
     signed_int_from_bytes_little (drop 140 frame) = record_longitude r"

lemma length_ljust: "length bs \<le> n \<Longrightarrow> length (ljust n bs) = n"
  by (simp add: ljust_def)

lemma encoded_length: "length (concat (map utf8_bytes t)) = utf8_length t"
  by (simp add: utf8_length_def length_concat comp_def)

lemma name_field_layout:
  assumes "encode_name_field name = Inr bs" "\<forall>c \<in> set name. c < 0x110000"
  shows "\<exists>t. truncate_contact_name name = Inr t \<and> bs = ljust 32 (concat (map utf8_bytes t)) \<and> utf8_length t \<le> 31 \<and>
    length bs = 32 \<and> bs ! 31 = 0"
proof -
  obtain t where t: "truncate_contact_name name = Inr t" "bs = ljust 32 (concat (map utf8_bytes t))"
    using assms(1)
    by (auto simp: encode_name_field_def frame_bind_eq_Inr encoded_text_def encode_utf8_def NAME_FIELD_BYTES_def
        split: sum.splits if_splits)
  from truncate_contact_name_longest [OF t(1) assms(2)] have "utf8_length t \<le> 31"
    by (simp add: CONTACT_NAME_MAXIMUM_BYTES_def)
  moreover from this have "length (concat (map utf8_bytes t)) \<le> 31" by (simp add: encoded_length)
  ultimately show ?thesis using t by (auto simp: ljust_def nth_append)
qed

lemma contact_frame_layout:
  assumes "build_add_update_contact_frame r = Inr frame" "\<forall>c \<in> set (record_name r). c < 0x110000"
  shows "add_contact_layout r frame"
proof -
  obtain key name_field timestamp latitude longitude where
    parts: "decode_public_key (record_public_key r) = Inr key" "encode_name_field (record_name r) = Inr name_field"
      "unsigned_bytes 4 (record_advert_timestamp r AND 0xFFFFFFFF) = Inr timestamp"
      "signed_bytes 4 (record_latitude r) = Inr latitude" "signed_bytes 4 (record_longitude r) = Inr longitude"
    and frame: "frame = [9] @ key @ [1, 0, 255] @ replicate 64 0 @ name_field @ timestamp @ latitude @ longitude"
    using assms(1)
    by (auto simp: build_add_update_contact_frame_def frame_bind_eq_Inr Let_def frame_constants split: if_splits)
  obtain t where t: "truncate_contact_name (record_name r) = Inr t" "name_field = ljust 32 (concat (map utf8_bytes t))"
    "utf8_length t \<le> 31" "length name_field = 32" "name_field ! 31 = 0"
    using name_field_layout [OF parts(2) assms(2)] by blast
  have key: "bytes_fromhex (record_public_key r) = Some key" "length key = 32"
    using parts(1) by (auto simp: decode_public_key_def PUBLIC_KEY_SIZE_def split: option.splits if_splits)
  have mask: "n AND 0xFFFFFFFF = n mod 2 ^ 32" for n :: int
    using take_bit_eq_mask [of 32 n] by (simp add: take_bit_eq_mod mask_eq_exp_minus_1)
  have numbers: "int_from_bytes_little timestamp = record_advert_timestamp r mod 2 ^ 32" "length timestamp = 4"
    "signed_int_from_bytes_little latitude = record_latitude r" "length latitude = 4"
    "signed_int_from_bytes_little longitude = record_longitude r" "length longitude = 4"
    using parts(3-5) signed_from_to_bytes int_from_to_bytes [of 4]
    by (auto simp: unsigned_bytes_def signed_bytes_def mask split: if_splits)
  have "drop 1 frame = key @ [1, 0, 255] @ replicate 64 0 @ name_field @ timestamp @ latitude @ longitude"
    by (simp add: frame)
  moreover have "drop 33 frame = [1, 0, 255] @ replicate 64 0 @ name_field @ timestamp @ latitude @ longitude"
    by (simp add: frame key)
  moreover have "drop 36 frame = replicate 64 0 @ name_field @ timestamp @ latitude @ longitude"
    by (simp add: frame key)
  moreover have "drop 100 frame = name_field @ timestamp @ latitude @ longitude"
    by (simp add: frame key)
  moreover have "drop 132 frame = timestamp @ latitude @ longitude" "drop 136 frame = latitude @ longitude"
    "drop 140 frame = longitude"
    by (simp_all add: frame key t(4) numbers)
  moreover have "length frame = 144" by (simp add: frame key t(4) numbers)
  then have "frame ! 131 = drop 100 frame ! 31" by simp
  ultimately show ?thesis
    using t key numbers by (simp add: add_contact_layout_def frame nth_append)
qed

text \<open>A contact of the table, with a name that can be encoded and a place on earth, always gives a frame.\<close>

lemma contact_frame_exists:
  assumes "bytes_fromhex (record_public_key r) = Some key" "length key = 32" "\<not> contains_surrogate (record_name r)"
    and "\<forall>c \<in> set (record_name r). c < 0x110000"
    and "- (2 ^ 31) \<le> record_latitude r" "record_latitude r < 2 ^ 31" "- (2 ^ 31) \<le> record_longitude r" "record_longitude r < 2 ^ 31"
  shows "\<exists>frame. build_add_update_contact_frame r = Inr frame"
proof -
  obtain t where t: "truncate_contact_name (record_name r) = Inr t"
    using assms(3) by (auto simp: truncate_contact_name_def encode_utf8_def)
  have prefix: "t = take (length t) (record_name r)"
    using truncate_contact_name_longest [OF t assms(4)] by blast
  have "\<not> contains_surrogate (take k s)" if "\<not> contains_surrogate s" for k s
    using that unfolding contains_surrogate_def list_ex_iff by (meson in_set_takeD)
  with prefix assms(3) have "\<not> contains_surrogate t" by metis
  then obtain bs where bs: "encode_name_field (record_name r) = Inr bs"
    using t by (auto simp: encode_name_field_def encoded_text_def encode_utf8_def)
  have len: "length bs = 32" using name_field_layout [OF bs assms(4)] by blast
  have "(record_advert_timestamp r AND 0xFFFFFFFF) = record_advert_timestamp r mod 2 ^ 32"
    using take_bit_eq_mask [of 32 "record_advert_timestamp r"] by (simp add: take_bit_eq_mod mask_eq_exp_minus_1)
  then have "unsigned_bytes 4 (record_advert_timestamp r AND 0xFFFFFFFF) = Inr (int_to_bytes_little 4 (record_advert_timestamp r mod 2 ^ 32))"
    by (simp add: unsigned_bytes_def)
  with assms bs len show ?thesis
    by (simp add: build_add_update_contact_frame_def decode_public_key_def PUBLIC_KEY_SIZE_def signed_bytes_def frame_constants Let_def)
qed

text \<open>The firmware refuses a direct message text above 150 bytes; the frame of a sendable text carries all of it.\<close>

lemma text_frame_layout:
  assumes "build_text_message_frame key line timestamp = Inr frame"
  shows "\<exists>key_bytes. bytes_fromhex key = Some key_bytes \<and> length key_bytes = 32 \<and> 0 \<le> timestamp \<and> timestamp < 2 ^ 32 \<and>
    frame = [2, 0, 0] @ int_to_bytes_little 4 timestamp @ take 6 key_bytes @ concat (map utf8_bytes line)"
  using assms
  by (auto simp: build_text_message_frame_def frame_bind_eq_Inr decode_public_key_def PUBLIC_KEY_SIZE_def unsigned_bytes_def
      encoded_text_def encode_utf8_def SEND_TEXT_MESSAGE_COMMAND_CODE_def PLAIN_TEXT_TYPE_def FIRST_ATTEMPT_def
      PUBLIC_KEY_PREFIX_BYTES_def split: option.splits if_splits sum.splits)

end
