(* ===== verification/Contact_Reconciler.thy ===== *)
theory Contact_Reconciler
  imports Worker_State Node_Frames "HOL-Library.List_Lexorder"
begin

text \<open>
  Converging the contact table of the node to the contacts of the database (\<^verbatim>\<open>worker/contact_reconciler.py\<close>,
  \<^verbatim>\<open>worker/node_quiet_period.py\<close>). The node is a parameter: a state of any type, with one function that answers a
  frame and one that answers a listing. A pass works on the worker and the node, and ends with its summary or with
  the reason it stopped, leaving both as they were by then. The theory shows that a pass writes only frames the
  two tables ask for, that the wait before removals ends, and that on a node that keeps its table a pass
  that was not postponed leaves exactly the contacts of the database on it.
\<close>

definition CONTACT_TABLE_FULL_ERROR :: pystr where
  "CONTACT_TABLE_FULL_ERROR = str ''The node's contact table is full.''"

definition describe_add_refusal :: "int \<Rightarrow> pystr" where
  "describe_add_refusal error_code = str ''The node refused the contact with error '' @ str_of_int error_code @ str ''.''"

section \<open>Waiting for the acknowledgements\<close>

text \<open>
  One turn of the polling loop sees a reading of the clock, whether the worker shuts down, and the database. Turn
  \<open>k\<close> is \<open>polls k\<close>; with no fuel left the loop has not ended yet.
\<close>

type_synonym poll = "reading \<times> bool \<times> db"

fun wait_until_no_packet_awaits_acknowledgement :: "rat \<Rightarrow> (nat \<Rightarrow> poll) \<Rightarrow> nat \<Rightarrow> nat \<Rightarrow> bool option" where
  "wait_until_no_packet_awaits_acknowledgement monotonic_deadline polls k 0 = None"
| "wait_until_no_packet_awaits_acknowledgement monotonic_deadline polls k (Suc fuel) =
     (let (clk, is_shutting_down, db) = polls k;
          wait_has_ended = monotonic clk \<ge> monotonic_deadline
      in if \<not> is_any_packet_awaiting_node_acknowledgement (wall_time clk) db then Some True
         else if wait_has_ended \<or> is_shutting_down then Some False
         else wait_until_no_packet_awaits_acknowledgement monotonic_deadline polls (k + 1) fuel)"

definition removal_wait_seconds :: "worker_timing \<Rightarrow> reading \<Rightarrow> db \<Rightarrow> rat" where
  "removal_wait_seconds T clk db =
     (case read_latest_acknowledgement_deadline (wall_time clk) db of
        None \<Rightarrow> minimum_removal_quiet_wait_seconds T
      | Some latest \<Rightarrow>
          max (minimum_removal_quiet_wait_seconds T) (of_int (latest - wall_time clk) / 1000000 + quiet_poll_seconds T))"

section \<open>The node\<close>

record 'n node_link =
  exchange :: "nat list \<Rightarrow> 'n \<Rightarrow> (gateway_error + unit node_reply) \<times> 'n"
  listing :: "'n \<Rightarrow> (gateway_error + (pystr \<times> listing_fields) list) \<times> 'n"

definition expecting_ok :: "gateway_error + unit node_reply \<Rightarrow> gateway_error + unit" where
  "expecting_ok answer = (case answer of Inl e \<Rightarrow> Inl e | Inr reply \<Rightarrow> raise_unless_successful reply)"

definition expecting_known_contact :: "gateway_error + unit node_reply \<Rightarrow> gateway_error + bool" where
  "expecting_known_contact answer = (case answer of Inl e \<Rightarrow> Inl e | Inr reply \<Rightarrow> known_contact_reply reply)"

datatype abort_reason =
    Relay_Not_Running
  | Contacts_Not_Listed gateway_error
  | Adding_Failed nat gateway_error
  | Removing_Failed gateway_error
  | Node_Changed_Meanwhile
  | Frame_Not_Built frame_error

type_synonym ('n, 'a) pass = "worker \<times> 'n \<Rightarrow> (abort_reason + 'a) \<times> worker \<times> 'n"

definition pass_return :: "'a \<Rightarrow> ('n, 'a) pass" where
  "pass_return x s = (Inr x, s)"

definition pass_bind :: "('n, 'a) pass \<Rightarrow> ('a \<Rightarrow> ('n, 'b) pass) \<Rightarrow> ('n, 'b) pass" where
  "pass_bind m f s = (case m s of (Inl e, s1) \<Rightarrow> (Inl e, s1) | (Inr x, s1) \<Rightarrow> f x s1)"

lemma pass_bind_eq_Inr: "pass_bind m f s = (Inr y, s') \<longleftrightarrow> (\<exists>x s1. m s = (Inr x, s1) \<and> f x s1 = (Inr y, s'))"
  by (auto simp: pass_bind_def split: prod.splits sum.splits)

text \<open>\<^verbatim>\<open>NodeGateway.list_contacts\<close>: a node that is busy with another listing is asked once more.\<close>

definition list_contacts :: "'n node_link \<Rightarrow> 'n \<Rightarrow> (gateway_error + (pystr \<times> listed_node_contact) list) \<times> 'n" where
  "list_contacts N n =
     (let (reply, n1) = listing N n
      in case reply of
           Inr payload \<Rightarrow> (Inr (parse_listed_contacts payload []), n1)
         | Inl e \<Rightarrow>
             if e \<noteq> NodeRejectedCommandError ERR_CODE_BAD_STATE then (Inl e, n1)
             else let (reply2, n2) = listing N n1
                  in case reply2 of
                       Inr payload \<Rightarrow> (Inr (parse_listed_contacts payload []), n2)
                     | Inl e2 \<Rightarrow> (Inl e2, n2))"

definition add_contact :: "'n node_link \<Rightarrow> contact_for_node \<Rightarrow> ('n, int option) pass" where
  "add_contact N c s =
     (case build_add_update_contact_frame (build_node_contact_record c) of
        Inl e \<Rightarrow> (Inl (Frame_Not_Built e), s)
      | Inr frame \<Rightarrow>
          let (reply, n1) = exchange N frame (snd s); s1 = (fst s, n1)
          in case expecting_ok reply of
               Inr _ \<Rightarrow> (Inr None, s1)
             | Inl (NodeRejectedCommandError code) \<Rightarrow> (Inr (Some code), s1)
             | Inl e \<Rightarrow> (Inl (Adding_Failed (for_node_contact_id c) e), s1))"

definition remove_contact :: "'n node_link \<Rightarrow> pystr \<Rightarrow> ('n, unit) pass" where
  "remove_contact N key s =
     (case remove_contact_frame key of
        Inl e \<Rightarrow> (Inl (Frame_Not_Built e), s)
      | Inr frame \<Rightarrow>
          let (reply, n1) = exchange N frame (snd s); s1 = (fst s, n1)
          in case expecting_known_contact reply of Inr _ \<Rightarrow> (Inr (), s1) | Inl e \<Rightarrow> (Inl (Removing_Failed e), s1))"

section \<open>One pass\<close>

record reconciliation_summary =
  added_count :: int
  removed_count :: int
  failed_count :: int
  removals_postponed :: bool
  summary_node_contact_count :: int
  failed_public_keys :: "pystr list"

definition changed_anything :: "reconciliation_summary \<Rightarrow> bool" where
  "changed_anything m \<longleftrightarrow> added_count m \<noteq> 0 \<or> removed_count m \<noteq> 0 \<or> failed_count m \<noteq> 0 \<or> removals_postponed m"

definition new_summary :: "int \<Rightarrow> reconciliation_summary" where
  "new_summary count = \<lparr>added_count = 0, removed_count = 0, failed_count = 0, removals_postponed = False,
     summary_node_contact_count = count, failed_public_keys = []\<rparr>"

definition record_contact_on_node :: "reading \<Rightarrow> contact_for_node \<Rightarrow> worker \<Rightarrow> worker" where
  "record_contact_on_node clk c w =
     w\<lparr>store := snd (mark_contact_on_node (for_node_contact_id c) (for_node_public_key c) (for_node_name c) (Some (-1))
         (wall_time clk) (store w))\<rparr>"

definition record_add_failed ::
  "reading \<Rightarrow> contact_for_node \<Rightarrow> pystr \<Rightarrow> reconciliation_summary \<Rightarrow> worker \<Rightarrow> reconciliation_summary \<times> worker" where
  "record_add_failed clk c sync_error m w =
     (let w1 = w\<lparr>store := snd (mark_contact_add_failed (for_node_contact_id c) (for_node_public_key c) sync_error
                  (wall_time clk) (store w))\<rparr>;
          label = (if for_node_name c = [] then take 12 (for_node_public_key c) else for_node_name c)
      in (m\<lparr>failed_count := failed_count m + 1, failed_public_keys := failed_public_keys m @ [for_node_public_key c]\<rparr>,
          record_error (str ''Contact '' @ label @ str '' could not be added to the node: '' @ sync_error) (wall_time clk) w1))"

definition count_added :: "reconciliation_summary \<Rightarrow> reconciliation_summary" where
  "count_added m = m\<lparr>added_count := added_count m + 1, summary_node_contact_count := summary_node_contact_count m + 1\<rparr>"

fun add_missing_contacts ::
  "'n node_link \<Rightarrow> reading \<Rightarrow> contact_for_node list \<Rightarrow> reconciliation_summary \<Rightarrow>
     ('n, contact_for_node list \<times> reconciliation_summary) pass" where
  "add_missing_contacts N clk [] m = pass_return ([], m)"
| "add_missing_contacts N clk (c # cs) m =
     pass_bind (add_contact N c) (\<lambda>error_code s.
       case error_code of
         None \<Rightarrow> add_missing_contacts N clk cs (count_added m) (record_contact_on_node clk c (fst s), snd s)
       | Some code \<Rightarrow>
           if code = ERR_CODE_TABLE_FULL
           then pass_bind (add_missing_contacts N clk cs m) (\<lambda>(refused, m1). pass_return (c # refused, m1)) s
           else let (m1, w1) = record_add_failed clk c (describe_add_refusal code) m (fst s)
                in add_missing_contacts N clk cs m1 (w1, snd s))"

fun remove_contacts :: "'n node_link \<Rightarrow> pystr list \<Rightarrow> reconciliation_summary \<Rightarrow> ('n, reconciliation_summary) pass" where
  "remove_contacts N [] m = pass_return m"
| "remove_contacts N (key # keys) m =
     pass_bind (remove_contact N key) (\<lambda>_.
       remove_contacts N keys
         (m\<lparr>removed_count := removed_count m + 1, summary_node_contact_count := summary_node_contact_count m - 1\<rparr>))"

definition REMOVAL_PAUSE_REASON :: pystr where
  "REMOVAL_PAUSE_REASON = str ''contacts are being removed from the node''"

text \<open>
  The wait lets other tasks run: \<open>meanwhile\<close> is what they do to the worker, \<open>is_quiet\<close> how the wait ended. The pause
  ends in every case.
\<close>

definition remove_extra_contacts ::
  "'n node_link \<Rightarrow> bool \<Rightarrow> (worker \<Rightarrow> worker) \<Rightarrow> pystr list \<Rightarrow> int \<Rightarrow> reconciliation_summary \<Rightarrow>
     ('n, bool \<times> reconciliation_summary) pass" where
  "remove_extra_contacts N is_quiet meanwhile keys listed_generation m s =
     (if keys = [] then (Inr (False, m), s)
      else
        let w1 = meanwhile (begin_pause REMOVAL_PAUSE_REASON (fst s))
        in if \<not> is_quiet then (Inr (False, m\<lparr>removals_postponed := True\<rparr>), end_pause REMOVAL_PAUSE_REASON w1, snd s)
           else if \<not> (is_running w1 \<and> connection_generation (runtime_status w1) = listed_generation)
           then (Inl Node_Changed_Meanwhile, end_pause REMOVAL_PAUSE_REASON w1, snd s)
           else let (r, w2, n2) = remove_contacts N keys m (w1, snd s)
                in (map_sum id (\<lambda>m1. (True, m1)) r, end_pause REMOVAL_PAUSE_REASON w2, n2))"

fun retry_contacts_refused_for_full_table ::
  "'n node_link \<Rightarrow> reading \<Rightarrow> bool \<Rightarrow> bool \<Rightarrow> contact_for_node list \<Rightarrow> reconciliation_summary \<Rightarrow> ('n, reconciliation_summary) pass" where
  "retry_contacts_refused_for_full_table N clk removals_done extra_contacts_remain [] m = pass_return m"
| "retry_contacts_refused_for_full_table N clk removals_done extra_contacts_remain (c # cs) m =
     (if extra_contacts_remain then retry_contacts_refused_for_full_table N clk removals_done extra_contacts_remain cs m
      else
        pass_bind (if removals_done then add_contact N c else pass_return (Some ERR_CODE_TABLE_FULL)) (\<lambda>error_code s.
          case error_code of
            None \<Rightarrow> retry_contacts_refused_for_full_table N clk removals_done extra_contacts_remain cs (count_added m)
                      (record_contact_on_node clk c (fst s), snd s)
          | Some code \<Rightarrow>
              let (m1, w1) = record_add_failed clk c
                    (if code = ERR_CODE_TABLE_FULL then CONTACT_TABLE_FULL_ERROR else describe_add_refusal code) m (fst s)
              in retry_contacts_refused_for_full_table N clk removals_done extra_contacts_remain cs m1 (w1, snd s)))"

fun mark_contacts_found_on_node ::
  "reading \<Rightarrow> contact_for_node list \<Rightarrow> (pystr \<times> listed_node_contact) list \<Rightarrow> worker \<Rightarrow> worker" where
  "mark_contacts_found_on_node clk [] listed w = w"
| "mark_contacts_found_on_node clk (c # cs) listed w =
     (case map_of listed (for_node_public_key c) of
        None \<Rightarrow> mark_contacts_found_on_node clk cs listed w
      | Some l \<Rightarrow>
          mark_contacts_found_on_node clk cs listed
            (w\<lparr>store := snd (mark_contact_on_node (for_node_contact_id c) (for_node_public_key c) (listed_name l)
                (Some (listed_out_path_length l)) (wall_time clk) (store w))\<rparr>))"

definition missing_contacts :: "contact_for_node list \<Rightarrow> (pystr \<times> listed_node_contact) list \<Rightarrow> contact_for_node list" where
  "missing_contacts database_contacts listed = filter (\<lambda>c. for_node_public_key c \<notin> fst ` set listed) database_contacts"

definition extra_public_keys :: "contact_for_node list \<Rightarrow> (pystr \<times> listed_node_contact) list \<Rightarrow> pystr \<Rightarrow> pystr list" where
  "extra_public_keys database_contacts listed own_public_key =
     sort (remdups (filter (\<lambda>key. key \<notin> for_node_public_key ` set database_contacts \<and> key \<noteq> own_public_key) (map fst listed)))"

definition reconcile_contacts_once ::
  "'n node_link \<Rightarrow> reading \<Rightarrow> bool \<Rightarrow> (worker \<Rightarrow> worker) \<Rightarrow> ('n, reconciliation_summary) pass" where
  "reconcile_contacts_once N clk is_quiet meanwhile s =
     (let generation = connection_generation (runtime_status (fst s)); (answer, n1) = list_contacts N (snd s)
      in case answer of
           Inl e \<Rightarrow> (Inl (Contacts_Not_Listed e), fst s, n1)
         | Inr listed \<Rightarrow>
             let database_contacts = list_contacts_for_node (store (fst s));
                 own_public_key = read_configured_public_key (store (fst s));
                 extra = extra_public_keys database_contacts listed own_public_key
             in pass_bind (add_missing_contacts N clk (missing_contacts database_contacts listed) (new_summary (int (length listed))))
                  (\<lambda>(refused, m1). pass_bind (remove_extra_contacts N is_quiet meanwhile extra generation m1)
                  (\<lambda>(removals_done, m2). pass_bind
                    (retry_contacts_refused_for_full_table N clk removals_done (extra \<noteq> [] \<and> \<not> removals_done) refused m2)
                  (\<lambda>m3 s3. (Inr m3, mark_contacts_found_on_node clk database_contacts listed (fst s3), snd s3))))
                  (fst s, n1))"

definition reconcile_contacts ::
  "'n node_link \<Rightarrow> reading \<Rightarrow> bool \<Rightarrow> (worker \<Rightarrow> worker) \<Rightarrow> ('n, reconciliation_summary) pass" where
  "reconcile_contacts N clk is_quiet meanwhile s =
     (if \<not> is_running (fst s) then (Inl Relay_Not_Running, s)
      else
        pass_bind (reconcile_contacts_once N clk is_quiet meanwhile) (\<lambda>m s1.
          (Inr m, wake_sender (report_status_change (fst s1\<lparr>runtime_status := (runtime_status (fst s1))
             \<lparr>node_contact_count := Some (summary_node_contact_count m)\<rparr>\<rparr>)), snd s1)) s)"
section \<open>The wait ends\<close>

text \<open>
  While sending is paused no packet gets a new deadline: what awaits an acknowledgement at a turn awaited it when the wait began.
  Then the wait ends after the first turn that lasts past the latest deadline, and it ends quiet.
\<close>

lemma latest_deadline_bounds:
  assumes "p \<in> set (select_packets_awaiting_node_acknowledgement now db)" "acknowledgement_deadline_at p = Some t"
  shows "\<exists>latest. read_latest_acknowledgement_deadline now db = Some latest \<and> t \<le> latest"
proof -
  have "t \<in> set (List.map_filter acknowledgement_deadline_at (select_packets_awaiting_node_acknowledgement now db))"
    using assms by (force simp: List.map_filter_def)
  then obtain u us where "List.map_filter acknowledgement_deadline_at (select_packets_awaiting_node_acknowledgement now db) = u # us" "t \<in> set (u # us)"
    by (cases "List.map_filter acknowledgement_deadline_at (select_packets_awaiting_node_acknowledgement now db)") auto
  with fold_max_ge [OF this(2)] show ?thesis by (simp add: read_latest_acknowledgement_deadline_def)
qed

definition awaited_deadlines :: "datetime \<Rightarrow> db \<Rightarrow> datetime set" where
  "awaited_deadlines now db =
     {t. \<exists>p \<in> set (select_packets_awaiting_node_acknowledgement now db). acknowledgement_deadline_at p = Some t}"

text \<open>Turn \<open>k\<close> comes at least \<open>k\<close> polls after the start, on a clock whose two times agree.\<close>

definition polls_follow :: "worker_timing \<Rightarrow> reading \<Rightarrow> db \<Rightarrow> (nat \<Rightarrow> poll) \<Rightarrow> bool" where
  "polls_follow T start db polls \<longleftrightarrow>
     (\<forall>k. \<exists>clk db'. polls k = (clk, False, db') \<and>
        monotonic start + of_nat k * quiet_poll_seconds T \<le> monotonic clk \<and>
        of_int (wall_time clk - wall_time start) / 1000000 = monotonic clk - monotonic start \<and>
        awaited_deadlines (wall_time clk) db' \<subseteq> awaited_deadlines (wall_time start) db)"

lemma wait_is_over:
  assumes "polls_follow T start db polls" "polls k = (clk, shutting, db')"
    and "monotonic start + removal_wait_seconds T start db \<le> monotonic clk" "0 < quiet_poll_seconds T"
  shows "\<not> is_any_packet_awaiting_node_acknowledgement (wall_time clk) db'"
proof
  assume "is_any_packet_awaiting_node_acknowledgement (wall_time clk) db'"
  then obtain p where p: "p \<in> set (select_packets_awaiting_node_acknowledgement (wall_time clk) db')"
    unfolding is_any_packet_awaiting_node_acknowledgement_def using last_in_set by blast
  then obtain t where t: "acknowledgement_deadline_at p = Some t" "wall_time clk < t"
    by (auto simp: select_packets_awaiting_node_acknowledgement_def split: option.splits)
  have follow: "of_int (wall_time clk - wall_time start) / 1000000 = monotonic clk - monotonic start"
    "awaited_deadlines (wall_time clk) db' \<subseteq> awaited_deadlines (wall_time start) db"
    using assms(1,2) by (metis Pair_inject polls_follow_def)+
  have "t \<in> awaited_deadlines (wall_time start) db"
    using p t(1) follow(2) by (auto simp: awaited_deadlines_def)
  then obtain latest where latest: "read_latest_acknowledgement_deadline (wall_time start) db = Some latest" "t \<le> latest"
    unfolding awaited_deadlines_def using latest_deadline_bounds by blast
  have "of_int (latest - wall_time start) / 1000000 < removal_wait_seconds T start db"
    using assms(4) latest(1) by (simp add: removal_wait_seconds_def less_max_iff_disj)
  also have "\<dots> \<le> of_int (wall_time clk - wall_time start) / 1000000" using assms(3) follow(1) by simp
  finally have "(of_int (latest - wall_time start) :: rat) < of_int (wall_time clk - wall_time start)" by simp
  then have "latest < wall_time clk" by simp
  with t(2) latest(2) show False by simp
qed

lemma removal_wait_ends:
  assumes "polls_follow T start db polls" "0 < quiet_poll_seconds T"
    and "removal_wait_seconds T start db \<le> of_nat n * quiet_poll_seconds T" "k \<le> n"
  shows "wait_until_no_packet_awaits_acknowledgement (monotonic start + removal_wait_seconds T start db) polls k (Suc n - k) = Some True"
  using assms(4)
proof (induction "n - k" arbitrary: k)
  case 0
  then have k: "k = n" by simp
  obtain clk db' where p: "polls n = (clk, False, db')" "monotonic start + of_nat n * quiet_poll_seconds T \<le> monotonic clk"
    using assms(1) unfolding polls_follow_def by blast
  have "monotonic start + removal_wait_seconds T start db \<le> monotonic clk" using p(2) assms(3) by linarith
  from wait_is_over [OF assms(1) p(1) this assms(2)] p(1) show ?case by (simp add: k)
next
  case (Suc j)
  then have fuel: "Suc n - k = Suc (Suc n - (k + 1))" "j = n - (k + 1)" "k + 1 \<le> n" by simp_all
  obtain clk db' where p: "polls k = (clk, False, db')" using assms(1) unfolding polls_follow_def by blast
  show ?case
  proof (cases "is_any_packet_awaiting_node_acknowledgement (wall_time clk) db'")
    case True
    with wait_is_over [OF assms(1) p _ assms(2)]
    have "\<not> monotonic start + removal_wait_seconds T start db \<le> monotonic clk" by blast
    with True p Suc.hyps(1) [OF fuel(2,3)] show ?thesis unfolding fuel(1) by simp
  next
    case False
    with p show ?thesis unfolding fuel(1) by simp
  qed
qed

section \<open>What a pass writes\<close>

text \<open>A node that remembers the frames it got. What it answers may depend on all of them.\<close>

definition remembering_node ::
  "(nat list \<Rightarrow> nat list list \<Rightarrow> gateway_error + unit node_reply) \<Rightarrow>
     (nat list list \<Rightarrow> gateway_error + (pystr \<times> listing_fields) list) \<Rightarrow>
     nat list list node_link" where
  "remembering_node answers contents =
     \<lparr>exchange = \<lambda>frame sent. (answers frame sent, sent @ [frame]), listing = \<lambda>sent. (contents sent, sent)\<rparr>"

definition frame_is_asked_for :: "system \<Rightarrow> (pystr \<times> listed_node_contact) list \<Rightarrow> bool \<Rightarrow> nat list \<Rightarrow> bool" where
  "frame_is_asked_for s listed is_quiet frame \<longleftrightarrow>
     (\<exists>c \<in> set (list_contacts_for_node s). for_node_public_key c \<notin> fst ` set listed \<and>
        build_add_update_contact_frame (build_node_contact_record c) = Inr frame) \<or>
     (is_quiet \<and> (\<exists>key \<in> fst ` set listed. key \<notin> for_node_public_key ` set (list_contacts_for_node s) \<and>
        key \<noteq> read_configured_public_key s \<and> remove_contact_frame key = Inr frame))"
text \<open>Every frame a pass adds to those sent before satisfies \<open>P\<close>, and its value, if it has one, satisfies \<open>Q\<close>.\<close>

definition sends_only :: "(nat list \<Rightarrow> bool) \<Rightarrow> ('a \<Rightarrow> bool) \<Rightarrow> (nat list list, 'a) pass \<Rightarrow> bool" where
  "sends_only P Q m \<longleftrightarrow>
     (\<forall>w sent. list_all P sent \<longrightarrow>
        (case m (w, sent) of (r, _, sent') \<Rightarrow> list_all P sent' \<and> (case r of Inl _ \<Rightarrow> True | Inr x \<Rightarrow> Q x)))"

lemma sends_bind: "sends_only P Q m \<Longrightarrow> (\<And>x. Q x \<Longrightarrow> sends_only P R (f x)) \<Longrightarrow> sends_only P R (pass_bind m f)"
proof (unfold sends_only_def, intro allI impI)
  fix w sent
  assume m: "\<forall>w sent. list_all P sent \<longrightarrow>
        (case m (w, sent) of (r, _, sent') \<Rightarrow> list_all P sent' \<and> (case r of Inl _ \<Rightarrow> True | Inr x \<Rightarrow> Q x))"
    and f: "\<And>x. Q x \<Longrightarrow> \<forall>w sent. list_all P sent \<longrightarrow>
        (case f x (w, sent) of (r, _, sent') \<Rightarrow> list_all P sent' \<and> (case r of Inl _ \<Rightarrow> True | Inr x \<Rightarrow> R x))"
    and sent: "list_all P sent"
  obtain r w1 sent1 where one: "m (w, sent) = (r, w1, sent1)" by (metis prod_cases3)
  have "list_all P sent1 \<and> (case r of Inl _ \<Rightarrow> True | Inr x \<Rightarrow> Q x)"
    using m [rule_format, OF sent, of w] unfolding one by simp
  then show "case pass_bind m f (w, sent) of (r, _, sent') \<Rightarrow> list_all P sent' \<and> (case r of Inl _ \<Rightarrow> True | Inr x \<Rightarrow> R x)"
    using f by (cases r) (simp_all add: pass_bind_def one)
qed

lemma sends_return: "Q x \<Longrightarrow> sends_only P Q (pass_return x)"
  by (simp add: sends_only_def pass_return_def)

lemma sends_memory: "sends_only P Q m \<Longrightarrow> sends_only P Q (\<lambda>s. m (g (fst s), snd s))"
  by (simp add: sends_only_def)

lemma sends_weaken: "sends_only P Q m \<Longrightarrow> (\<And>x. Q x \<Longrightarrow> R x) \<Longrightarrow> sends_only P R m"
proof -
  assume m: "sends_only P Q m" and weaker: "\<And>x. Q x \<Longrightarrow> R x"
  have "pass_bind m pass_return = m"
    by (auto simp: pass_bind_def pass_return_def fun_eq_iff split: prod.splits sum.splits)
  moreover have "sends_only P R (pass_bind m pass_return)"
    by (rule sends_bind [OF m], rule sends_return, rule weaker)
  ultimately show "sends_only P R m" by simp
qed

lemma sends_noted:
  "(\<And>m1. sends_only P Q (f m1)) \<Longrightarrow>
     sends_only P Q (\<lambda>s. let (m1, w1) = record_add_failed clk c e m (fst s) in f m1 (w1, snd s))"
  by (simp add: sends_only_def case_prod_beta Let_def)

definition asked_to_add :: "(nat list \<Rightarrow> bool) \<Rightarrow> contact_for_node \<Rightarrow> bool" where
  "asked_to_add P c \<longleftrightarrow> (\<forall>frame. build_add_update_contact_frame (build_node_contact_record c) = Inr frame \<longrightarrow> P frame)"

definition asked_to_remove :: "(nat list \<Rightarrow> bool) \<Rightarrow> pystr \<Rightarrow> bool" where
  "asked_to_remove P key \<longleftrightarrow> (\<forall>frame. remove_contact_frame key = Inr frame \<longrightarrow> P frame)"

lemma add_contact_sends: "asked_to_add P c \<Longrightarrow> sends_only P (\<lambda>_. True) (add_contact (remembering_node answers contents) c)"
  by (auto simp: sends_only_def asked_to_add_def add_contact_def remembering_node_def Let_def split: sum.splits gateway_error.splits)

lemma remove_contact_sends: "asked_to_remove P key \<Longrightarrow> sends_only P (\<lambda>_. True) (remove_contact (remembering_node answers contents) key)"
  by (auto simp: sends_only_def asked_to_remove_def remove_contact_def remembering_node_def Let_def split: sum.splits)

lemma add_missing_sends:
  "\<forall>c \<in> set cs. asked_to_add P c \<Longrightarrow>
     sends_only P (\<lambda>(refused, _). set refused \<subseteq> set cs) (add_missing_contacts (remembering_node answers contents) clk cs m)"
proof (induction cs arbitrary: m)
  case Nil
  show ?case by (simp add: sends_return)
next
  case (Cons c cs)
  let ?N = "remembering_node answers contents" and ?Q = "\<lambda>(refused, _ :: reconciliation_summary). set refused \<subseteq> set (c # cs)"
  have IH: "sends_only P ?Q (add_missing_contacts ?N clk cs m)" for m
    by (rule sends_weaken [OF Cons.IH]) (use Cons.prems in auto)
  have keep: "sends_only P ?Q (pass_bind (add_missing_contacts ?N clk cs m) (\<lambda>(refused, m1). pass_return (c # refused, m1)))"
    by (rule sends_bind [OF IH], clarify, rule sends_return) simp
  have note_failure: "sends_only P ?Q (\<lambda>s. let (m1, w1) = record_add_failed clk c e m (fst s) in add_missing_contacts ?N clk cs m1 (w1, snd s))" for e
    by (rule sends_noted [OF IH])
  have "sends_only P ?Q (\<lambda>s. case error_code of
         None \<Rightarrow> add_missing_contacts ?N clk cs (count_added m) (record_contact_on_node clk c (fst s), snd s)
       | Some code \<Rightarrow>
           if code = ERR_CODE_TABLE_FULL
           then pass_bind (add_missing_contacts ?N clk cs m) (\<lambda>(refused, m1). pass_return (c # refused, m1)) s
           else let (m1, w1) = record_add_failed clk c (describe_add_refusal code) m (fst s)
                in add_missing_contacts ?N clk cs m1 (w1, snd s))" for error_code
    using sends_memory [OF IH] keep note_failure
    by (cases error_code; cases "error_code = Some ERR_CODE_TABLE_FULL") simp_all
  then show ?case
    unfolding add_missing_contacts.simps
    by (intro sends_bind [OF add_contact_sends]) (use Cons.prems in auto)
qed

lemma remove_contacts_sends:
  "\<forall>key \<in> set keys. asked_to_remove P key \<Longrightarrow> sends_only P (\<lambda>_. True) (remove_contacts (remembering_node answers contents) keys m)"
  by (induction keys arbitrary: m) (auto intro: sends_return sends_bind [OF remove_contact_sends])

lemma remove_extra_sends:
  "\<forall>key \<in> set keys. is_quiet \<longrightarrow> asked_to_remove P key \<Longrightarrow>
     sends_only P (\<lambda>_. True) (remove_extra_contacts (remembering_node answers contents) is_quiet meanwhile keys generation m)"
  using remove_contacts_sends [of keys P answers contents m]
  by (auto simp: sends_only_def remove_extra_contacts_def Let_def split: prod.splits sum.splits)

lemma retry_sends:
  "\<forall>c \<in> set cs. asked_to_add P c \<Longrightarrow>
     sends_only P (\<lambda>_. True) (retry_contacts_refused_for_full_table (remembering_node answers contents) clk removals_done remain cs m)"
proof (induction cs arbitrary: m)
  case Nil
  show ?case by (simp add: sends_return)
next
  case (Cons c cs)
  let ?N = "remembering_node answers contents"
  let ?retry = "retry_contacts_refused_for_full_table ?N clk removals_done remain cs"
  have IH: "sends_only P (\<lambda>_. True) (?retry m)" for m using Cons by simp
  have first: "sends_only P (\<lambda>_. True) (if removals_done then add_contact ?N c else pass_return (Some ERR_CODE_TABLE_FULL))"
    using Cons.prems by (auto intro: add_contact_sends sends_return)
  have handled: "sends_only P (\<lambda>_. True) (\<lambda>s. case error_code of
            None \<Rightarrow> ?retry (count_added m) (record_contact_on_node clk c (fst s), snd s)
          | Some code \<Rightarrow>
              let (m1, w1) = record_add_failed clk c
                    (if code = ERR_CODE_TABLE_FULL then CONTACT_TABLE_FULL_ERROR else describe_add_refusal code) m (fst s)
              in ?retry m1 (w1, snd s))" for error_code
    using sends_memory [OF IH] sends_noted [OF IH] by (cases error_code) simp_all
  show ?case
  proof (cases remain)
    case True
    with IH show ?thesis by simp
  next
    case False
    show ?thesis
      unfolding retry_contacts_refused_for_full_table.simps if_not_P [OF False]
      by (rule sends_bind [OF first]) (rule handled)
  qed
qed

lemma reconciliation_sends_what_is_asked_for:
  "case reconcile_contacts_once (remembering_node answers contents) clk is_quiet meanwhile (w, []) of (_, _, sent) \<Rightarrow>
     list_all (\<lambda>frame. \<exists>listed. fst (list_contacts (remembering_node answers contents) []) = Inr listed \<and>
       frame_is_asked_for (store w) listed is_quiet frame) sent"
proof (cases "fst (list_contacts (remembering_node answers contents) [])")
  case (Inl e)
  then show ?thesis
    by (auto simp: reconcile_contacts_once_def list_contacts_def remembering_node_def Let_def split: prod.splits sum.splits)
next
  case (Inr listed)
  let ?N = "remembering_node answers contents" and ?P = "frame_is_asked_for (store w) listed is_quiet"
  let ?db = "list_contacts_for_node (store w)" and ?own = "read_configured_public_key (store w)"
  have n1: "list_contacts ?N [] = (Inr listed, [])"
    using Inr by (auto simp: list_contacts_def remembering_node_def Let_def split: prod.splits sum.splits)
  have add: "\<forall>c \<in> set (missing_contacts ?db listed). asked_to_add ?P c"
    by (auto simp: missing_contacts_def asked_to_add_def frame_is_asked_for_def)
  have remove: "\<forall>key \<in> set (extra_public_keys ?db listed ?own). is_quiet \<longrightarrow> asked_to_remove ?P key"
    by (auto simp: extra_public_keys_def asked_to_remove_def frame_is_asked_for_def)
  have retry: "sends_only ?P (\<lambda>_. True) (retry_contacts_refused_for_full_table ?N clk removals_done remain refused m)"
    if "set refused \<subseteq> set (missing_contacts ?db listed)" for removals_done remain refused m
    by (rule retry_sends) (use that add in blast)
  have finish: "sends_only ?P (\<lambda>_. True) (\<lambda>s. (Inr m, mark_contacts_found_on_node clk ?db listed (fst s), snd s))" for m :: reconciliation_summary
    by (simp add: sends_only_def)
  have "sends_only ?P (\<lambda>_. True)
     (pass_bind (add_missing_contacts ?N clk (missing_contacts ?db listed) m0)
       (\<lambda>(refused, m1). pass_bind (remove_extra_contacts ?N is_quiet meanwhile (extra_public_keys ?db listed ?own) generation m1)
       (\<lambda>(removals_done, m2). pass_bind (retry_contacts_refused_for_full_table ?N clk removals_done (remain removals_done) refused m2)
       (\<lambda>m3 s3. (Inr m3, mark_contacts_found_on_node clk ?db listed (fst s3), snd s3)))))" for m0 generation remain
    by (rule sends_bind [OF add_missing_sends [OF add]])
      (auto intro!: sends_bind [OF remove_extra_sends [OF remove]] sends_bind [OF retry] finish)
  then show ?thesis
    using Inr by (auto simp: reconcile_contacts_once_def n1 sends_only_def Let_def split: prod.splits)
qed
section \<open>Convergence\<close>

text \<open>
  The documented behaviour of the firmware's contact table: a listing names the stored keys; an add takes a free
  place or is refused as full, and never forgets another contact; a remove forgets the contact or does not know it.
\<close>

definition listing_names_table :: "'n node_link \<Rightarrow> ('n \<Rightarrow> pystr set) \<Rightarrow> bool" where
  "listing_names_table N tbl \<longleftrightarrow>
     (\<forall>n. finite (tbl n) \<and>
        (case listing N n of (reply, n') \<Rightarrow>
           tbl n' = tbl n \<and> (case reply of Inr l \<Rightarrow> (lower \<circ> fst) ` set l = tbl n | Inl _ \<Rightarrow> False)))"

definition add_takes_free_place :: "nat \<Rightarrow> 'n node_link \<Rightarrow> ('n \<Rightarrow> pystr set) \<Rightarrow> bool" where
  "add_takes_free_place capacity N tbl \<longleftrightarrow>
     (\<forall>n key rest. length key = 32 \<longrightarrow> length rest = 111 \<longrightarrow>
        (case exchange N (ADD_UPDATE_CONTACT_COMMAND_CODE # key @ rest) n of (reply, n') \<Rightarrow>
           if bytes_hex key \<in> tbl n \<or> card (tbl n) < capacity
           then reply = Inr (Reply_Event ()) \<and> tbl n' = insert (bytes_hex key) (tbl n)
           else reply = Inr (Error_Event None (Some ERR_CODE_TABLE_FULL)) \<and> tbl n' = tbl n))"

definition remove_forgets_contact :: "'n node_link \<Rightarrow> ('n \<Rightarrow> pystr set) \<Rightarrow> bool" where
  "remove_forgets_contact N tbl \<longleftrightarrow>
     (\<forall>n key. length key = 32 \<longrightarrow>
        (case exchange N (REMOVE_CONTACT_COMMAND_CODE # key) n of (reply, n') \<Rightarrow>
           tbl n' = tbl n - {bytes_hex key} \<and>
           reply = (if bytes_hex key \<in> tbl n then Inr (Reply_Event ()) else Inr (Error_Event None (Some ERR_CODE_NOT_FOUND)))))"

definition node_keeps_table :: "nat \<Rightarrow> 'n node_link \<Rightarrow> ('n \<Rightarrow> pystr set) \<Rightarrow> bool" where
  "node_keeps_table capacity N tbl \<longleftrightarrow>
     listing_names_table N tbl \<and> add_takes_free_place capacity N tbl \<and> remove_forgets_contact N tbl"

lemma kept_node_answers_add:
  assumes "node_keeps_table capacity N tbl" "length key = 32" "length rest = 111"
    and "exchange N (ADD_UPDATE_CONTACT_COMMAND_CODE # key @ rest) n = (reply, n')"
  shows "if bytes_hex key \<in> tbl n \<or> card (tbl n) < capacity
    then reply = Inr (Reply_Event ()) \<and> tbl n' = insert (bytes_hex key) (tbl n)
    else reply = Inr (Error_Event None (Some ERR_CODE_TABLE_FULL)) \<and> tbl n' = tbl n"
proof -
  have "add_takes_free_place capacity N tbl" using assms(1) by (simp add: node_keeps_table_def)
  from this [unfolded add_takes_free_place_def, THEN spec [of _ n], THEN spec [of _ key], THEN spec [of _ rest]] assms(2-4)
  show ?thesis by simp
qed

lemma kept_node_answers_remove:
  assumes "node_keeps_table capacity N tbl" "length key = 32"
    and "exchange N (REMOVE_CONTACT_COMMAND_CODE # key) n = (reply, n')"
  shows "tbl n' = tbl n - {bytes_hex key}"
    "reply = (if bytes_hex key \<in> tbl n then Inr (Reply_Event ()) else Inr (Error_Event None (Some ERR_CODE_NOT_FOUND)))"
proof -
  have "remove_forgets_contact N tbl" using assms(1) by (simp add: node_keeps_table_def)
  from this [unfolded remove_forgets_contact_def, THEN spec [of _ n], THEN spec [of _ key]] assms(2,3)
  show "tbl n' = tbl n - {bytes_hex key}"
    "reply = (if bytes_hex key \<in> tbl n then Inr (Reply_Event ()) else Inr (Error_Event None (Some ERR_CODE_NOT_FOUND)))" by simp_all
qed

text \<open>What PostgreSQL stores of a contact: a key of the card format, a text of code points, and 32-bit integers.\<close>

definition key_is_stored :: "pystr \<Rightarrow> bool" where
  "key_is_stored key \<longleftrightarrow> length key = 64 \<and> list_all is_lower_hex key"

lemma lower_hex_value: "is_lower_hex c \<Longrightarrow> \<exists>n < 16. c = hex_digit n"
proof -
  assume "is_lower_hex c"
  then consider "48 \<le> c" "c \<le> 57" | "97 \<le> c" "c \<le> 102"
    by (auto simp: is_lower_hex_def is_digit_def in_range_def)
  then show ?thesis
  proof cases
    case 1
    then show ?thesis by (intro exI [of _ "c - 48"]) (auto simp: hex_digit_def)
  next
    case 2
    then show ?thesis by (intro exI [of _ "c - 87"]) (auto simp: hex_digit_def)
  qed
qed

lemma hex_text_is_bytes:
  "length key = 2 * n \<Longrightarrow> list_all is_lower_hex key \<Longrightarrow> \<exists>bs. bytes_ok bs \<and> length bs = n \<and> key = bytes_hex bs"
proof (induction n arbitrary: key)
  case 0
  then show ?case by (intro exI [of _ "[]"]) simp
next
  case (Suc n)
  from Suc.prems(1) obtain a b rest where key: "key = a # b # rest" "length rest = 2 * n"
    by (auto simp: length_Suc_conv)
  with Suc.prems(2) have "is_lower_hex a" "is_lower_hex b" by simp_all
  then obtain x y where xy: "x < 16" "a = hex_digit x" "y < 16" "b = hex_digit y"
    using lower_hex_value by blast
  from Suc.IH [OF key(2)] Suc.prems(2) key(1) obtain bs where bs: "bytes_ok bs" "length bs = n" "rest = bytes_hex bs" by auto
  with xy key show ?case by (intro exI [of _ "(16 * x + y) # bs"]) (simp add: bytes_ok_def)
qed

lemma stored_key_decodes:
  assumes "key_is_stored key"
  obtains bs where "decode_public_key key = Inr bs" "bytes_fromhex key = Some bs" "length bs = 32" "bytes_hex bs = key"
proof -
  have "length key = 2 * 32" "list_all is_lower_hex key" using assms by (simp_all add: key_is_stored_def)
  from hex_text_is_bytes [OF this] obtain bs where bs: "bytes_ok bs" "length bs = 32" "key = bytes_hex bs" by blast
  then have "bytes_fromhex key = Some bs" by simp
  moreover from this bs(2) have "decode_public_key key = Inr bs" by (simp add: decode_public_key_def PUBLIC_KEY_SIZE_def)
  ultimately show ?thesis using that bs(2,3) by blast
qed

lemma add_contact_on_kept_node:
  assumes "node_keeps_table capacity N tbl" "key_is_stored (for_node_public_key c)" "list_all scalar_value (for_node_name c)"
    and "- (2 ^ 31) \<le> for_node_latitude c" "for_node_latitude c < 2 ^ 31"
    and "- (2 ^ 31) \<le> for_node_longitude c" "for_node_longitude c < 2 ^ 31"
  shows "\<exists>n'. add_contact N c (w, n) =
      (Inr (if for_node_public_key c \<in> tbl n \<or> card (tbl n) < capacity then None else Some ERR_CODE_TABLE_FULL), w, n') \<and>
    tbl n' = (if for_node_public_key c \<in> tbl n \<or> card (tbl n) < capacity then insert (for_node_public_key c) (tbl n) else tbl n)"
proof -
  let ?r = "build_node_contact_record c" and ?key = "for_node_public_key c"
  obtain bs where bs: "bytes_fromhex ?key = Some bs" "length bs = 32" "bytes_hex bs = ?key"
    using stored_key_decodes [OF assms(2)] by blast
  have name: "\<not> contains_surrogate (for_node_name c)" "\<forall>x \<in> set (for_node_name c). x < 0x110000"
    using assms(3) by (auto simp: list_all_iff scalar_value_def contains_surrogate_def list_ex_iff)
  obtain frame where frame: "build_add_update_contact_frame ?r = Inr frame"
    using contact_frame_exists [of ?r bs] bs name assms(4-7) by (auto simp: build_node_contact_record_def)
  have layout: "add_contact_layout ?r frame"
    by (rule contact_frame_layout [OF frame]) (use name in \<open>simp add: build_node_contact_record_def\<close>)
  then have sizes: "length frame = 144" "frame ! 0 = 9" "take 32 (drop 1 frame) = bs"
    using bs by (simp_all add: add_contact_layout_def build_node_contact_record_def)
  have "\<exists>rest. length rest = 111 \<and> frame = 9 # bs @ rest"
  proof (cases frame)
    case (Cons b bytes)
    with sizes have "b = 9" "take 32 bytes = bs" "length bytes = 143" by simp_all
    with Cons show ?thesis by (intro exI [of _ "drop 32 bytes"]) auto
  qed (use sizes in simp)
  then obtain rest where split: "frame = ADD_UPDATE_CONTACT_COMMAND_CODE # bs @ rest" "length rest = 111"
    by (auto simp: ADD_UPDATE_CONTACT_COMMAND_CODE_def)
  obtain reply n' where x: "exchange N frame n = (reply, n')" by fastforce
  have answer: "if ?key \<in> tbl n \<or> card (tbl n) < capacity
      then reply = Inr (Reply_Event ()) \<and> tbl n' = insert ?key (tbl n)
      else reply = Inr (Error_Event None (Some ERR_CODE_TABLE_FULL)) \<and> tbl n' = tbl n"
    using kept_node_answers_add [OF assms(1) bs(2) split(2) x [unfolded split(1)]] by (simp only: bs(3))
  show ?thesis
  proof (cases "?key \<in> tbl n \<or> card (tbl n) < capacity")
    case True
    with answer show ?thesis by (simp add: add_contact_def expecting_ok_def frame x)
  next
    case False
    with answer have "reply = Inr (Error_Event None (Some ERR_CODE_TABLE_FULL))" "tbl n' = tbl n" by simp_all
    with False show ?thesis by (simp add: add_contact_def expecting_ok_def frame x)
  qed
qed

lemma remove_contact_on_kept_node:
  assumes "node_keeps_table capacity N tbl" "key_is_stored key"
  shows "\<exists>n'. remove_contact N key (w, n) = (Inr (), w, n') \<and> tbl n' = tbl n - {key}"
proof -
  obtain bs where bs: "decode_public_key key = Inr bs" "length bs = 32" "bytes_hex bs = key"
    using stored_key_decodes [OF assms(2)] by blast
  obtain reply n' where x: "exchange N (REMOVE_CONTACT_COMMAND_CODE # bs) n = (reply, n')" by fastforce
  from kept_node_answers_remove [OF assms(1) bs(2) x, unfolded bs(3)]
  have answer: "tbl n' = tbl n - {key}"
    "reply = (if key \<in> tbl n then Inr (Reply_Event ()) else Inr (Error_Event None (Some ERR_CODE_NOT_FOUND)))" .
  obtain b where "expecting_known_contact reply = Inr b"
    using answer(2) by (cases "key \<in> tbl n") (auto simp: expecting_known_contact_def known_contact_reply_def)
  with answer(1) show ?thesis by (auto simp: remove_contact_def remove_contact_frame_def bs(1) x)
qed

text \<open>What a pass leaves of the worker: the same contacts, and those of \<open>A\<close> noted as being on the node.\<close>

definition ident :: "contact \<Rightarrow> nat \<times> pystr" where
  "ident c = (contact_id c, public_key c)"

definition node_ident :: "contact_for_node \<Rightarrow> nat \<times> pystr" where
  "node_ident c = (for_node_contact_id c, for_node_public_key c)"

definition settled_contacts :: "system \<Rightarrow> (nat \<times> pystr) set" where
  "settled_contacts s = {p. \<forall>c \<in> set (rows (contacts (relay s))). ident c = p \<longrightarrow> node_sync_state c = ON_NODE}"

definition noted_on_node :: "(nat \<times> pystr) set \<Rightarrow> worker \<Rightarrow> worker \<Rightarrow> bool" where
  "noted_on_node A w w' \<longleftrightarrow>
     map ident (rows (contacts (relay (store w')))) = map ident (rows (contacts (relay (store w)))) \<and>
     A \<union> settled_contacts (store w) \<subseteq> settled_contacts (store w') \<and>
     is_running w' = is_running w \<and> connection_generation (runtime_status w') = connection_generation (runtime_status w)"

lemma noted_nothing: "noted_on_node {} w w"
  by (simp add: noted_on_node_def)

lemma noted_trans: "noted_on_node A w w1 \<Longrightarrow> noted_on_node B w1 w2 \<Longrightarrow> noted_on_node (A \<union> B) w w2"
  by (simp add: noted_on_node_def) blast

lemma noted_mono: "noted_on_node A w w' \<Longrightarrow> B \<subseteq> A \<Longrightarrow> noted_on_node B w w'"
  unfolding noted_on_node_def by (auto dest: subset_trans)

lemma noted_rows:
  assumes "rows (contacts (relay (store w'))) = map f (rows (contacts (relay (store w))))" "\<And>c. ident (f c) = ident c"
    and "\<And>c. node_sync_state (f c) = (if ident c \<in> A then ON_NODE else node_sync_state c)"
    and "is_running w' = is_running w" "connection_generation (runtime_status w') = connection_generation (runtime_status w)"
  shows "noted_on_node A w w'"
  using assms by (auto simp: noted_on_node_def settled_contacts_def)

lemma noted_mark:
  "noted_on_node {(i, key)} w (w\<lparr>store := snd (mark_contact_on_node i key name path now (store w))\<rparr>)"
proof (rule noted_rows)
  let ?named = "\<lambda>c. contact_id c = i \<and> public_key c = key"
  let ?mark = "\<lambda>c. if ?named c \<and> \<not> (node_sync_state c = ON_NODE \<and> node_synced_at c \<noteq> None)
    then c\<lparr>node_sync_state := ON_NODE, node_sync_error := [], node_synced_at := Some now\<rparr> else c"
  let ?f = "\<lambda>c. if ?named (?mark c) then (?mark c)\<lparr>node_name := name, node_out_path_length := path\<rparr> else ?mark c"
  show "rows (contacts (relay (store (w\<lparr>store := snd (mark_contact_on_node i key name path now (store w))\<rparr>)))) =
      map ?f (rows (contacts (relay (store w))))"
    by (simp add: mark_contact_on_node_def update_contacts_def Let_def comp_def)
  show "ident (?f c) = ident c" for c by (simp add: ident_def)
  show "node_sync_state (?f c) = (if ident c \<in> {(i, key)} then ON_NODE else node_sync_state c)" for c
    by (auto simp: ident_def)
qed (simp_all add: is_running_def)

lemma noted_record: "noted_on_node {node_ident c} w (record_contact_on_node clk c w)"
  unfolding record_contact_on_node_def node_ident_def by (rule noted_mark)

definition for_node_fits :: "contact_for_node \<Rightarrow> bool" where
  "for_node_fits c \<longleftrightarrow>
     key_is_stored (for_node_public_key c) \<and> list_all scalar_value (for_node_name c) \<and>
     - (2 ^ 31) \<le> for_node_latitude c \<and> for_node_latitude c < 2 ^ 31 \<and>
     - (2 ^ 31) \<le> for_node_longitude c \<and> for_node_longitude c < 2 ^ 31"

lemma place_is_free:
  assumes "T \<subseteq> W" "k \<in> W" "finite W" "card W \<le> capacity"
  shows "k \<in> T \<or> card T < capacity"
proof (rule disjCI)
  assume "\<not> card T < capacity"
  with assms have "card W \<le> card T" by simp
  with assms(1,3) have "T = W" using card_seteq by blast
  with assms(2) show "k \<in> T" by simp
qed

lemma add_missing_on_kept_node:
  assumes "node_keeps_table capacity N tbl" "\<forall>c \<in> set cs. for_node_fits c"
  shows "\<exists>refused m1 w1 n1 added. add_missing_contacts N clk cs m (w, n) = (Inr (refused, m1), w1, n1) \<and>
    failed_count m1 = failed_count m \<and> removals_postponed m1 = removals_postponed m \<and>
    set cs = added \<union> set refused \<and> tbl n1 = tbl n \<union> for_node_public_key ` added \<and>
    noted_on_node (node_ident ` added) w w1 \<and>
    (\<forall>W. tbl n \<union> for_node_public_key ` set cs \<subseteq> W \<longrightarrow> finite W \<longrightarrow> card W \<le> capacity \<longrightarrow> refused = [])"
  using assms(2)
proof (induction cs arbitrary: m w n)
  case Nil
  show ?case by (intro exI [of _ "[]"] exI [of _ m] exI [of _ w] exI [of _ n] exI [of _ "{}"]) (simp add: pass_return_def noted_nothing)
next
  case (Cons c cs)
  let ?accepted = "for_node_public_key c \<in> tbl n \<or> card (tbl n) < capacity"
  obtain n0 where first: "add_contact N c (w, n) = (Inr (if ?accepted then None else Some ERR_CODE_TABLE_FULL), w, n0)"
    "tbl n0 = (if ?accepted then insert (for_node_public_key c) (tbl n) else tbl n)"
    using add_contact_on_kept_node [OF assms(1), of c w n] Cons.prems by (auto simp: for_node_fits_def)
  have fits: "\<forall>c \<in> set cs. for_node_fits c" using Cons.prems by simp
  show ?case
  proof (cases ?accepted)
    case True
    obtain refused m1 w1 n1 added where IH:
      "add_missing_contacts N clk cs (count_added m) (record_contact_on_node clk c w, n0) = (Inr (refused, m1), w1, n1)"
      "failed_count m1 = failed_count (count_added m)" "removals_postponed m1 = removals_postponed (count_added m)"
      "set cs = added \<union> set refused" "tbl n1 = tbl n0 \<union> for_node_public_key ` added"
      "noted_on_node (node_ident ` added) (record_contact_on_node clk c w) w1"
      "\<forall>W. tbl n0 \<union> for_node_public_key ` set cs \<subseteq> W \<longrightarrow> finite W \<longrightarrow> card W \<le> capacity \<longrightarrow> refused = []"
      using Cons.IH [OF fits, of "count_added m" "record_contact_on_node clk c w" n0] by (elim exE conjE) (rule that)
    have "noted_on_node (node_ident ` insert c added) w w1"
      using noted_trans [OF noted_record IH(6)] by simp
    moreover have "add_missing_contacts N clk (c # cs) m (w, n) = (Inr (refused, m1), w1, n1)"
      using True first(1) IH(1) by (simp add: pass_bind_def)
    moreover have "tbl n1 = tbl n \<union> for_node_public_key ` insert c added" using True first(2) IH(5) by simp
    moreover have "set (c # cs) = insert c added \<union> set refused" using IH(4) by simp
    moreover have "\<forall>W. tbl n \<union> for_node_public_key ` set (c # cs) \<subseteq> W \<longrightarrow> finite W \<longrightarrow> card W \<le> capacity \<longrightarrow> refused = []"
      using IH(7) True first(2) by simp
    moreover have "failed_count m1 = failed_count m" "removals_postponed m1 = removals_postponed m"
      using IH(2,3) by (simp_all add: count_added_def)
    ultimately show ?thesis
      by (intro exI [of _ refused] exI [of _ m1] exI [of _ w1] exI [of _ n1] exI [of _ "insert c added"] conjI) (simp_all only:)
  next
    case False
    obtain refused m1 w1 n1 added where IH:
      "add_missing_contacts N clk cs m (w, n0) = (Inr (refused, m1), w1, n1)"
      "failed_count m1 = failed_count m" "removals_postponed m1 = removals_postponed m"
      "set cs = added \<union> set refused" "tbl n1 = tbl n0 \<union> for_node_public_key ` added"
      "noted_on_node (node_ident ` added) w w1"
      using Cons.IH [OF fits, of m w n0] by (elim exE conjE) (rule that)
    have "\<forall>W. tbl n \<union> for_node_public_key ` set (c # cs) \<subseteq> W \<longrightarrow> finite W \<longrightarrow> card W \<le> capacity \<longrightarrow> c # refused = []"
      using place_is_free [of "tbl n" _ "for_node_public_key c" capacity] False by auto
    moreover have "add_missing_contacts N clk (c # cs) m (w, n) = (Inr (c # refused, m1), w1, n1)"
      using False first(1) IH(1) by (simp add: pass_bind_def pass_return_def)
    moreover have "tbl n1 = tbl n \<union> for_node_public_key ` added" using False first(2) IH(5) by simp
    moreover have "set (c # cs) = added \<union> set (c # refused)" using IH(4) by simp
    ultimately show ?thesis using IH(2,3,6)
      by (intro exI [of _ "c # refused"] exI [of _ m1] exI [of _ w1] exI [of _ n1] exI [of _ added] conjI) (simp_all only:)
  qed
qed

lemma retry_on_kept_node:
  assumes "node_keeps_table capacity N tbl" "\<forall>c \<in> set cs. for_node_fits c"
    and "tbl n \<union> for_node_public_key ` set cs \<subseteq> W" "finite W" "card W \<le> capacity"
  shows "\<exists>m1 w1 n1. retry_contacts_refused_for_full_table N clk True False cs m (w, n) = (Inr m1, w1, n1) \<and>
    failed_count m1 = failed_count m \<and> removals_postponed m1 = removals_postponed m \<and>
    tbl n1 = tbl n \<union> for_node_public_key ` set cs \<and> noted_on_node (node_ident ` set cs) w w1"
  using assms(2,3)
proof (induction cs arbitrary: m w n)
  case Nil
  then show ?case by (simp add: pass_return_def noted_nothing)
next
  case (Cons c cs)
  have accepted: "for_node_public_key c \<in> tbl n \<or> card (tbl n) < capacity"
    by (rule place_is_free [of _ W]) (use Cons.prems assms(4,5) in auto)
  then obtain n0 where first: "add_contact N c (w, n) = (Inr None, w, n0)" "tbl n0 = insert (for_node_public_key c) (tbl n)"
    using add_contact_on_kept_node [OF assms(1), of c w n] Cons.prems by (auto simp: for_node_fits_def)
  obtain m1 w1 n1 where IH:
    "retry_contacts_refused_for_full_table N clk True False cs (count_added m) (record_contact_on_node clk c w, n0) = (Inr m1, w1, n1)"
    "failed_count m1 = failed_count (count_added m)" "removals_postponed m1 = removals_postponed (count_added m)"
    "tbl n1 = tbl n0 \<union> for_node_public_key ` set cs" "noted_on_node (node_ident ` set cs) (record_contact_on_node clk c w) w1"
    using Cons.IH [of n0 "count_added m" "record_contact_on_node clk c w"] Cons.prems first(2) by auto
  have "noted_on_node ({node_ident c} \<union> node_ident ` set cs) w w1" by (rule noted_trans [OF noted_record IH(5)])
  with first IH show ?case by (simp add: pass_bind_def count_added_def)
qed

lemma remove_contacts_on_kept_node:
  assumes "node_keeps_table capacity N tbl" "\<forall>key \<in> set keys. key_is_stored key"
  shows "\<exists>m1 n1. remove_contacts N keys m (w, n) = (Inr m1, w, n1) \<and> failed_count m1 = failed_count m \<and>
    removals_postponed m1 = removals_postponed m \<and> tbl n1 = tbl n - set keys"
  using assms(2)
proof (induction keys arbitrary: m n)
  case Nil
  then show ?case by (simp add: pass_return_def)
next
  case (Cons key keys)
  then obtain n0 where first: "remove_contact N key (w, n) = (Inr (), w, n0)" "tbl n0 = tbl n - {key}"
    using remove_contact_on_kept_node [OF assms(1), of key w n] by auto
  let ?m = "m\<lparr>removed_count := removed_count m + 1, summary_node_contact_count := summary_node_contact_count m - 1\<rparr>"
  obtain m1 n1 where IH: "remove_contacts N keys ?m (w, n0) = (Inr m1, w, n1)" "failed_count m1 = failed_count ?m"
    "removals_postponed m1 = removals_postponed ?m" "tbl n1 = tbl n0 - set keys"
    using Cons.IH [of ?m n0] Cons.prems by auto
  with first show ?case by (auto simp: pass_bind_def)
qed

lemma kept_node_lists:
  assumes "node_keeps_table capacity N tbl"
  shows "finite (tbl n)" "\<exists>listed n1. list_contacts N n = (Inr listed, n1) \<and> tbl n1 = tbl n \<and> fst ` set listed = tbl n"
proof -
  obtain reply n1 where x: "listing N n = (reply, n1)" by fastforce
  have "listing_names_table N tbl" using assms by (simp add: node_keeps_table_def)
  from this [unfolded listing_names_table_def, THEN spec [of _ n]] x
  have here: "finite (tbl n)" "tbl n1 = tbl n" "case reply of Inr l \<Rightarrow> (lower \<circ> fst) ` set l = tbl n | Inl _ \<Rightarrow> False"
    by simp_all
  from here(1) show "finite (tbl n)" .
  from here(3) obtain l where l: "reply = Inr l" "(lower \<circ> fst) ` set l = tbl n" by (cases reply) simp_all
  have parsed: "fst ` set (parse_listed_contacts l listed) = fst ` set listed \<union> (lower \<circ> fst) ` set l" for l listed
  proof (induction l listed rule: parse_listed_contacts.induct)
    case (2 key entry rest listed)
    then show ?case by (simp add: dom_map_of_conv_image_fst [symmetric] update_conv' dom_fun_upd del: dom_fun_upd) auto
  qed simp
  have "list_contacts N n = (Inr (parse_listed_contacts l []), n1)"
    by (simp add: list_contacts_def x l(1))
  with here(2) parsed [of l "[]"] l(2) show "\<exists>listed n1. list_contacts N n = (Inr listed, n1) \<and> tbl n1 = tbl n \<and> fst ` set listed = tbl n"
    by simp
qed

lemma marks_noted:
  "noted_on_node (node_ident ` {c \<in> set cs. for_node_public_key c \<in> fst ` set listed}) w (mark_contacts_found_on_node clk cs listed w)"
proof (induction cs arbitrary: w)
  case Nil
  show ?case by (simp add: noted_nothing)
next
  case (Cons c cs)
  show ?case
  proof (cases "map_of listed (for_node_public_key c)")
    case None
    then have "for_node_public_key c \<notin> fst ` set listed" by (simp add: map_of_eq_None_iff)
    then have "{x \<in> set (c # cs). for_node_public_key x \<in> fst ` set listed} = {x \<in> set cs. for_node_public_key x \<in> fst ` set listed}"
      by auto
    with Cons None show ?thesis by simp
  next
    case (Some l)
    then have "for_node_public_key c \<in> fst ` set listed" by (metis map_of_eq_None_iff option.distinct(1))
    then have "{x \<in> set (c # cs). for_node_public_key x \<in> fst ` set listed} =
        insert c {x \<in> set cs. for_node_public_key x \<in> fst ` set listed}" by auto
    then show ?thesis
      using Some noted_trans [OF noted_mark Cons] by (simp add: node_ident_def)
  qed
qed

text \<open>What the other tasks do while the reconciler waits: they keep the contacts, the relay mode and the connection.\<close>

definition leaves_contacts_alone :: "(worker \<Rightarrow> worker) \<Rightarrow> bool" where
  "leaves_contacts_alone meanwhile \<longleftrightarrow> (\<forall>w. noted_on_node {} w (meanwhile w))"

lemma pause_noted: "noted_on_node {} w (begin_pause reason w)" "noted_on_node {} w (end_pause reason w)"
  by (simp_all add: noted_on_node_def settled_contacts_def begin_pause_def end_pause_def wake_sender_def is_running_def)

lemma remove_extra_on_kept_node:
  assumes "node_keeps_table capacity N tbl" "\<forall>key \<in> set keys. key_is_stored key" "leaves_contacts_alone meanwhile"
    and "is_running w" "connection_generation (runtime_status w) = generation"
  shows "\<exists>m1 w1 n1. remove_extra_contacts N True meanwhile keys generation m (w, n) = (Inr (keys \<noteq> [], m1), w1, n1) \<and>
    failed_count m1 = failed_count m \<and> removals_postponed m1 = removals_postponed m \<and> tbl n1 = tbl n - set keys \<and>
    noted_on_node {} w w1"
proof (cases "keys = []")
  case True
  then show ?thesis by (simp add: remove_extra_contacts_def noted_nothing)
next
  case False
  let ?w1 = "meanwhile (begin_pause REMOVAL_PAUSE_REASON w)"
  have w1: "noted_on_node {} w ?w1"
    using noted_trans [OF pause_noted(1)] assms(3) by (fastforce simp: leaves_contacts_alone_def)
  then have ok: "is_running ?w1 \<and> connection_generation (runtime_status ?w1) = generation"
    using assms(4,5) by (simp add: noted_on_node_def)
  obtain m1 n1 where r: "remove_contacts N keys m (?w1, n) = (Inr m1, ?w1, n1)" "failed_count m1 = failed_count m"
    "removals_postponed m1 = removals_postponed m" "tbl n1 = tbl n - set keys"
    using remove_contacts_on_kept_node [OF assms(1,2)] by blast
  have "remove_extra_contacts N True meanwhile keys generation m (w, n) =
      (Inr (True, m1), end_pause REMOVAL_PAUSE_REASON ?w1, n1)"
    using False ok r(1) by (simp add: remove_extra_contacts_def Let_def)
  with False r(2-4) noted_trans [OF w1 pause_noted(2)] show ?thesis by simp
qed

definition wanted_keys :: "system \<Rightarrow> pystr set \<Rightarrow> pystr set" where
  "wanted_keys s table = for_node_public_key ` set (list_contacts_for_node s) \<union> table \<inter> {read_configured_public_key s}"

lemma reconciliation_pass_converges:
  fixes w n
  assumes "node_keeps_table capacity N tbl" "\<forall>key \<in> tbl n. key_is_stored key" "leaves_contacts_alone meanwhile"
    and "\<forall>c \<in> set (list_contacts_for_node (store w)). for_node_fits c"
    and "is_running w" "card (wanted_keys (store w) (tbl n)) \<le> capacity"
  shows "\<exists>m w1 n1. reconcile_contacts_once N clk True meanwhile (w, n) = (Inr m, w1, n1) \<and>
    tbl n1 = wanted_keys (store w) (tbl n) \<and> failed_count m = 0 \<and> \<not> removals_postponed m \<and>
    noted_on_node (node_ident ` set (list_contacts_for_node (store w))) w w1"
proof -
  let ?db = "list_contacts_for_node (store w)" and ?own = "read_configured_public_key (store w)"
  let ?W = "wanted_keys (store w) (tbl n)" and ?generation = "connection_generation (runtime_status w)"
  obtain listed n1 where l: "list_contacts N n = (Inr listed, n1)" "tbl n1 = tbl n" "fst ` set listed = tbl n"
    using kept_node_lists(2) [OF assms(1)] by blast
  let ?missing = "missing_contacts ?db listed" and ?extra = "extra_public_keys ?db listed ?own"
  have missing: "set ?missing = {c \<in> set ?db. for_node_public_key c \<notin> tbl n}" by (auto simp: missing_contacts_def l(3))
  have extra: "set ?extra = tbl n - ?W" by (auto simp: extra_public_keys_def wanted_keys_def l(3) [symmetric])
  have W: "finite ?W" by (simp add: wanted_keys_def)
  have fits: "\<forall>c \<in> set ?missing. for_node_fits c" using assms(4) missing by simp
  obtain refused m1 w1 n2 added where add:
    "add_missing_contacts N clk ?missing (new_summary (int (length listed))) (w, n1) = (Inr (refused, m1), w1, n2)"
    "failed_count m1 = failed_count (new_summary (int (length listed)))"
    "removals_postponed m1 = removals_postponed (new_summary (int (length listed)))"
    "set ?missing = added \<union> set refused" "tbl n2 = tbl n1 \<union> for_node_public_key ` added"
    "noted_on_node (node_ident ` added) w w1"
    "\<forall>W. tbl n1 \<union> for_node_public_key ` set ?missing \<subseteq> W \<longrightarrow> finite W \<longrightarrow> card W \<le> capacity \<longrightarrow> refused = []"
    using add_missing_on_kept_node [OF assms(1) fits, of clk "new_summary (int (length listed))" w n1] by (elim exE conjE) (rule that)
  have w1: "is_running w1" "connection_generation (runtime_status w1) = ?generation"
    using add(6) assms(5) by (simp_all add: noted_on_node_def)
  have stored: "\<forall>key \<in> set ?extra. key_is_stored key" using assms(2) extra by blast
  obtain m2 w2 n3 where rem:
    "remove_extra_contacts N True meanwhile ?extra ?generation m1 (w1, n2) = (Inr (?extra \<noteq> [], m2), w2, n3)"
    "failed_count m2 = failed_count m1" "removals_postponed m2 = removals_postponed m1" "tbl n3 = tbl n2 - set ?extra"
    "noted_on_node {} w1 w2"
    using remove_extra_on_kept_node [OF assms(1) stored assms(3) w1, of m1 n2] by (elim exE conjE) (rule that)
  have added_W: "for_node_public_key ` added \<subseteq> ?W" "for_node_public_key ` set refused \<subseteq> ?W"
    using add(4) missing by (auto simp: wanted_keys_def)
  then have n3: "tbl n3 = (tbl n \<inter> ?W) \<union> for_node_public_key ` added"
    unfolding rem(4) add(5) l(2) extra by blast
  obtain m3 w3 n4 where retry:
    "retry_contacts_refused_for_full_table N clk (?extra \<noteq> []) False refused m2 (w2, n3) = (Inr m3, w3, n4)"
    "failed_count m3 = failed_count m2" "removals_postponed m3 = removals_postponed m2"
    "tbl n4 = tbl n3 \<union> for_node_public_key ` set refused" "noted_on_node (node_ident ` set refused) w2 w3"
  proof (cases "?extra = []")
    case True
    then have "tbl n \<subseteq> ?W" using extra by auto
    then have "tbl n1 \<union> for_node_public_key ` set ?missing \<subseteq> ?W" using l(2) missing by (auto simp: wanted_keys_def)
    with add(7) W assms(6) have "refused = []" by blast
    then show ?thesis using that [of m2 w2 n3] by (simp add: pass_return_def noted_nothing)
  next
    case False
    have "\<forall>c \<in> set refused. for_node_fits c" using fits add(4) by blast
    moreover have "tbl n3 \<union> for_node_public_key ` set refused \<subseteq> ?W" using n3 added_W by blast
    ultimately obtain m3 w3 n4 where
      "retry_contacts_refused_for_full_table N clk True False refused m2 (w2, n3) = (Inr m3, w3, n4)"
      "failed_count m3 = failed_count m2" "removals_postponed m3 = removals_postponed m2"
      "tbl n4 = tbl n3 \<union> for_node_public_key ` set refused" "noted_on_node (node_ident ` set refused) w2 w3"
      using retry_on_kept_node [OF assms(1) _ _ W assms(6), of refused n3 clk m2 w2] by blast
    with False show ?thesis using that [of m3 w3 n4] by simp
  qed
  let ?w4 = "mark_contacts_found_on_node clk ?db listed w3"
  have "reconcile_contacts_once N clk True meanwhile (w, n) = (Inr m3, ?w4, n4)"
    using add(1) rem(1) retry(1) by (simp add: reconcile_contacts_once_def l(1) pass_bind_def Let_def)
  moreover have "tbl n4 = ?W"
    unfolding retry(4) n3 using add(4) missing added_W by (auto simp: wanted_keys_def)
  moreover have "failed_count m3 = 0" "\<not> removals_postponed m3"
    using add(2,3) rem(2,3) retry(2,3) by (simp_all add: new_summary_def)
  moreover have "noted_on_node (node_ident ` set ?db) w ?w4"
  proof -
    have "set ?db \<subseteq> added \<union> set refused \<union> {c \<in> set ?db. for_node_public_key c \<in> fst ` set listed}"
      using add(4) missing l(3) by auto
    then have "node_ident ` set ?db \<subseteq> node_ident ` added \<union> {} \<union> node_ident ` set refused \<union>
        node_ident ` {c \<in> set ?db. for_node_public_key c \<in> fst ` set listed}"
      using image_mono [of _ _ node_ident] by (simp only: image_Un [symmetric] Un_empty_right)
    moreover have "noted_on_node (node_ident ` added \<union> {} \<union> node_ident ` set refused \<union>
        node_ident ` {c \<in> set ?db. for_node_public_key c \<in> fst ` set listed}) w ?w4"
      by (intro noted_trans [OF noted_trans [OF noted_trans [OF add(6) rem(5)] retry(5)]] marks_noted)
    ultimately show ?thesis by (rule noted_mono [rotated])
  qed
  ultimately show ?thesis by blast
qed

lemma all_settled:
  assumes "noted_on_node (node_ident ` set (list_contacts_for_node (store w))) w w'"
  shows "\<forall>c \<in> set (list_contacts_for_node (store w')). for_node_sync_state c = ON_NODE"
proof -
  have "node_ident ` set (list_contacts_for_node s) = set (map ident (rows (contacts (relay s))))" for s
    by (simp add: list_contacts_for_node_def node_ident_def [abs_def] ident_def [abs_def] image_image)
  with assms have "set (map ident (rows (contacts (relay (store w'))))) \<subseteq> settled_contacts (store w')"
    by (simp only: noted_on_node_def) blast
  then show ?thesis by (auto simp: settled_contacts_def list_contacts_for_node_def)
qed

lemma reconciling_reaches_the_wanted_table:
  fixes w n
  assumes "node_keeps_table capacity N tbl" "\<forall>key \<in> tbl n. key_is_stored key" "leaves_contacts_alone meanwhile"
    and "\<forall>c \<in> set (list_contacts_for_node (store w)). for_node_fits c"
    and "is_running w" "card (wanted_keys (store w) (tbl n)) \<le> capacity"
  shows "\<exists>m w1 n1. reconcile_contacts N clk True meanwhile (w, n) = (Inr m, w1, n1) \<and>
    tbl n1 = wanted_keys (store w) (tbl n) \<and> failed_count m = 0 \<and> \<not> removals_postponed m \<and>
    (\<forall>c \<in> set (list_contacts_for_node (store w1)). for_node_sync_state c = ON_NODE)"
proof -
  obtain m w1 n1 where pass: "reconcile_contacts_once N clk True meanwhile (w, n) = (Inr m, w1, n1)"
    "tbl n1 = wanted_keys (store w) (tbl n)" "failed_count m = 0" "\<not> removals_postponed m"
    "noted_on_node (node_ident ` set (list_contacts_for_node (store w))) w w1"
    using reconciliation_pass_converges [OF assms, of clk] by (elim exE conjE) (rule that)
  have "list_contacts_for_node (store (wake_sender (report_status_change (w1\<lparr>runtime_status := st\<rparr>)))) =
      list_contacts_for_node (store w1)" for st
    by (simp add: wake_sender_def report_status_change_def)
  with pass all_settled [OF pass(5)] assms(5) show ?thesis
    by (simp add: reconcile_contacts_def pass_bind_def)
qed

end
