(* ===== verification/Task_Properties.thy ===== *)
theory Task_Properties
  imports Sender_Properties Contact_Reconciler Sample_Relay
begin

text \<open>
  What the tasks of the worker guarantee together: the pacing of the sender, the tracker of acknowledgements, the
  reconciler of the contact table, and the frames they write.
\<close>

definition sample_status :: worker_runtime_status where
  "sample_status = new_runtime_status (str ''worker'') 0 (str ''serial'') JNull"

definition sample_worker :: worker where
  "sample_worker = (started_worker sample_status 0 (empty_system\<lparr>relay := sample_db\<rparr>))
     \<lparr>runtime_status := sample_status\<lparr>relay_mode_now := MODE_RUNNING, connection_state := LINK_CONNECTED\<rparr>\<rparr>"

definition sample_reading :: reading where
  "sample_reading = \<lparr>wall_time = 1000, monotonic = 50\<rparr>"

abbreviation sample_begin :: "(py_error + begun_send) \<times> worker" where
  "sample_begin \<equiv> begin_send default_settings default_worker_timing (\<lambda>_. False) (\<lambda>_. False) sample_reading sample_worker"

lemma sample_worker_ok: "tables_ok (relay (store sample_worker))"
  unfolding sample_worker_def started_worker_def by code_simp

lemma sample_prepares: "\<exists>d w. sample_begin = (Inr (Packet_Prepared d None), w)"
proof -
  have "case sample_begin of (Inr (Packet_Prepared _ None), _) \<Rightarrow> True | _ \<Rightarrow> False" by code_simp
  then show ?thesis by (auto split: prod.splits sum.splits begun_send.splits option.splits)
qed


section \<open>The sender\<close>



text \<open>
  C14: A pass of the sender hands a packet to the node only while the relay runs on a connected node and nobody
  paused it, not before the end of the back-off, and not before the shortest time between two sends passed; the packet
  is the one it prepared. Otherwise it leaves every packet alone and looks again no later than the longest sleep,
  or at the moment the pacing allows the next send.
\<close>

theorem sends_are_paced:
  assumes "begin_send S T skip_delivery skip_receipt clk w = (Inr begun, w')" "tables_ok (relay (store w))"
    and "0 \<le> minimum_sender_sleep_seconds T" "minimum_sender_sleep_seconds T \<le> maximum_sender_sleep_seconds T"
  shows "case begun of
      Packet_Prepared d reply \<Rightarrow>
        is_running w \<and> is_node_connected w \<and> \<not> is_paused w \<and>
        (\<forall>t. packet_pool_back_off_until w = Some t \<longrightarrow> t \<le> monotonic clk) \<and>
        (\<forall>t. last_send_completed_at w = Some t \<longrightarrow> t + minimum_seconds_between_sends (pacing S) \<le> monotonic clk) \<and>
        (\<exists>q. packet_prepared (relay (store w)) q (relay (store w')) \<and> packet_id q = descriptor_packet_id d)
    | Nothing_Sent a \<Rightarrow>
        packets (relay (store w')) = packets (relay (store w)) \<and>
        (\<exists>t. next_look_at a = Some t \<and> monotonic clk \<le> t \<and>
           (t \<le> monotonic clk + maximum_sender_sleep_seconds T \<or> packet_pool_back_off_until w = Some t \<or>
            (\<exists>l. last_send_completed_at w = Some l \<and> t = l + minimum_seconds_between_sends (pacing S))))"
  using begin_send_paced [OF assms] unfolding paced_outcome_def .

theorem sends_are_paced_witness:
  "\<exists>d w q. sample_begin = (Inr (Packet_Prepared d None), w) \<and> packet_prepared (relay (store sample_worker)) q (relay (store w))"
proof -
  obtain d w where r: "sample_begin = (Inr (Packet_Prepared d None), w)" using sample_prepares by blast
  have t: "0 \<le> minimum_sender_sleep_seconds default_worker_timing"
    "minimum_sender_sleep_seconds default_worker_timing \<le> maximum_sender_sleep_seconds default_worker_timing"
    by (simp_all add: default_worker_timing_def)
  from sends_are_paced [OF r sample_worker_ok t] r show ?thesis by auto
qed

section \<open>The tracker\<close>

text \<open>
  C6: An acknowledgement may come before the answer of the send it belongs to. Handled in either order, the two
  leave the packet acknowledged, with the round trip the node reported, and its place on the node free.
\<close>

theorem early_acknowledgement_is_matched:
  assumes "tables_ok (relay (store w))" "find_packet (descriptor_packet_id d) (relay (store w)) = Some p"
    and "packet_state p = PACKET_PREPARED" "lower code = code" "code \<notin> fst ` set (unmatched_acknowledgements w)"
    and "fst (record_node_acknowledgement code round_trip (wall_time clk) (relay (store w))) = []"
    and "monotonic clk' - monotonic clk < unmatched_acknowledgement_lifetime_seconds T"
    and "wall_time clk'' - timedelta_minutes LATE_ACKNOWLEDGEMENT_MATCH_MINUTES \<le> wall_time clk'"
    and "sent = complete_send S T clk' (Some (PacketQueuedOnNode taken code timeout)) d reply"
  shows "slot_is_settled (descriptor_packet_id d) round_trip (sent (handle_node_acknowledgement T clk code round_trip w)) \<and>
    slot_is_settled (descriptor_packet_id d) round_trip (handle_node_acknowledgement T clk'' code round_trip (sent w))"
  using acknowledgement_order_is_irrelevant [OF assms] by blast

theorem early_acknowledgement_is_matched_witness:
  "\<exists>d w. sample_begin = (Inr (Packet_Prepared d None), w) \<and>
     slot_is_settled (descriptor_packet_id d) (Some 90)
       (complete_send default_settings default_worker_timing sample_reading (Some (PacketQueuedOnNode ROUTE_FLOOD (str ''ab12'') 5000)) d None
         (handle_node_acknowledgement default_worker_timing sample_reading (str ''ab12'') (Some 90) w))"
proof -
  obtain d w where r: "sample_begin = (Inr (Packet_Prepared d None), w)" using sample_prepares by blast
  let ?checks = "\<lambda>d w. tables_ok (relay (store w)) \<and>
      (case find_packet (descriptor_packet_id d) (relay (store w)) of None \<Rightarrow> False | Some p \<Rightarrow> packet_state p = PACKET_PREPARED) \<and>
      unmatched_acknowledgements w = [] \<and>
      fst (record_node_acknowledgement (str ''ab12'') (Some 90) 1000 (relay (store w))) = []"
  have "case sample_begin of (Inr (Packet_Prepared d None), w) \<Rightarrow> ?checks d w | _ \<Rightarrow> False" by code_simp
  then have checks: "?checks d w" unfolding r by simp
  then obtain p where p: "find_packet (descriptor_packet_id d) (relay (store w)) = Some p" "packet_state p = PACKET_PREPARED"
    by (auto split: option.splits)
  have l: "lower (str ''ab12'') = str ''ab12''" by code_simp
  have "slot_is_settled (descriptor_packet_id d) (Some 90)
       (complete_send default_settings default_worker_timing sample_reading (Some (PacketQueuedOnNode ROUTE_FLOOD (str ''ab12'') 5000)) d None
         (handle_node_acknowledgement default_worker_timing sample_reading (str ''ab12'') (Some 90) w))"
    by (rule early_acknowledgement_is_matched [where clk'' = sample_reading, OF _ p l _ _ _ _ refl, THEN conjunct1])
      (use checks in \<open>simp_all add: sample_reading_def default_worker_timing_def timedelta_minutes_def LATE_ACKNOWLEDGEMENT_MATCH_MINUTES_def\<close>)
  with r show ?thesis by blast
qed

text \<open>
  C25: When the deadlines that passed are handled, exactly their places on the node are free, and every packet the
  database still has on the node is one whose deadline is ahead.
\<close>

theorem passed_deadlines_free_exactly_their_slots:
  assumes "handle_passed_deadlines S clk reset_works w = (Inr (), w')"
    and "tables_ok (relay (store w))" "tracked (relay (store w)) (awaited_packets w)"
  shows "awaited_packets w' = filter (\<lambda>(_, a). wall_time clk < deadline a) (awaited_packets w) \<and>
    (\<forall>p \<in> set (rows (packets (relay (store w')))). on_node p \<longrightarrow>
       (\<exists>a. (packet_id p, a) \<in> set (awaited_packets w) \<and> wall_time clk < deadline a))"
  using passed_deadlines_free_their_slots [OF assms] by (force simp: tracked_def)

definition sample_sent_worker :: worker where
  "sample_sent_worker = (case sample_begin of
     (Inr (Packet_Prepared d reply), w) \<Rightarrow>
       complete_send default_settings default_worker_timing sample_reading (Some (PacketQueuedOnNode ROUTE_FLOOD (str ''ab12'') 5000)) d reply w
   | (_, w) \<Rightarrow> w)"

theorem passed_deadlines_free_exactly_their_slots_witness:
  "length (awaited_packets sample_sent_worker) = 1 \<and>
   (\<exists>w. handle_passed_deadlines default_settings \<lparr>wall_time = 10000000, monotonic = 70\<rparr> False sample_sent_worker = (Inr (), w) \<and>
      awaited_packets w = [])"
proof -
  let ?run = "handle_passed_deadlines default_settings \<lparr>wall_time = 10000000, monotonic = 70\<rparr> False sample_sent_worker"
  have "case ?run of (Inr _, _) \<Rightarrow> True | _ \<Rightarrow> False" by code_simp
  then obtain w where r: "?run = (Inr (), w)" by (auto split: prod.splits sum.splits)
  have checks: "tables_ok (relay (store sample_sent_worker))" "length (awaited_packets sample_sent_worker) = 1"
    "\<forall>p \<in> set (rows (packets (relay (store sample_sent_worker)))). packet_id p \<in> fst ` set (awaited_packets sample_sent_worker)"
    "\<forall>(i, a) \<in> set (awaited_packets sample_sent_worker). awaited_packet_id a = i \<and> deadline a \<le> 10000000"
    by code_simp+
  then have "distinct (map fst (awaited_packets sample_sent_worker))" by (cases "awaited_packets sample_sent_worker") auto
  with checks have "tracked (relay (store sample_sent_worker)) (awaited_packets sample_sent_worker)" by (auto simp: tracked_def)
  with passed_deadlines_free_exactly_their_slots [OF r checks(1)]
  have "awaited_packets w = filter (\<lambda>(_, a). 10000000 < deadline a) (awaited_packets sample_sent_worker)" by simp
  also have "\<dots> = []" using checks(4) by (auto simp: filter_empty_conv)
  finally show ?thesis using r checks(2) by blast
qed




section \<open>The reconciler\<close>

text \<open>
  C15: The wait before contacts are removed ends. When each turn lasts at least one poll, a number of turns that covers
  the removal wait is enough, and the wait ends quiet: while sending is paused no acknowledgement is awaited longer
  than those that were awaited at the start.
\<close>

theorem quiet_wait_ends:
  assumes "polls_follow T start db polls" "0 < quiet_poll_seconds T"
    and "removal_wait_seconds T start db \<le> of_nat n * quiet_poll_seconds T"
  shows "wait_until_no_packet_awaits_acknowledgement (monotonic start + removal_wait_seconds T start db) polls 0 (Suc n) = Some True"
  using removal_wait_ends [OF assms le0] by simp

theorem quiet_wait_ends_witness:
  "wait_until_no_packet_awaits_acknowledgement 80
     (\<lambda>k. (\<lparr>wall_time = 1000 + int k * 500000, monotonic = 50 + of_nat k / 2\<rparr>, False, relay (store sample_sent_worker))) 0 61 = Some True"
proof -
  let ?polls = "\<lambda>k :: nat. (\<lparr>wall_time = 1000 + int k * 500000, monotonic = 50 + of_nat k / 2 :: rat\<rparr>, False, relay (store sample_sent_worker))"
  have "awaited_deadlines (1000 + int k * 500000) db \<subseteq> awaited_deadlines 1000 db" for k db
    by (auto simp: awaited_deadlines_def select_packets_awaiting_node_acknowledgement_def)
  then have "polls_follow default_worker_timing sample_reading (relay (store sample_sent_worker)) ?polls"
    by (simp add: polls_follow_def sample_reading_def default_worker_timing_def)
  moreover have "removal_wait_seconds default_worker_timing sample_reading (relay (store sample_sent_worker)) = 30" by code_simp
  moreover have "(0 :: rat) < quiet_poll_seconds default_worker_timing" "(30 :: rat) \<le> of_nat 60 * quiet_poll_seconds default_worker_timing"
    by (simp_all add: default_worker_timing_def)
  ultimately show ?thesis
    using quiet_wait_ends [of default_worker_timing sample_reading "relay (store sample_sent_worker)" ?polls 60]
    by (simp add: sample_reading_def)
qed

text \<open>
  C13: Whatever the node answers, a pass of the reconciler writes only frames the two contact tables ask for: it adds
  contacts of the database that the node did not list, and it removes, only after a quiet wait, contacts the node
  listed that the database does not have, never the entry of the node itself.
\<close>

theorem reconciler_writes_only_what_differs:
  "case reconcile_contacts_once (remembering_node answers contents) clk is_quiet meanwhile (w, []) of (_, _, sent) \<Rightarrow>
     list_all (\<lambda>frame. \<exists>listed. fst (list_contacts (remembering_node answers contents) []) = Inr listed \<and>
       ((\<exists>c \<in> set (list_contacts_for_node (store w)). for_node_public_key c \<notin> fst ` set listed \<and>
           build_add_update_contact_frame (build_node_contact_record c) = Inr frame) \<or>
        (is_quiet \<and> (\<exists>key \<in> fst ` set listed. key \<notin> for_node_public_key ` set (list_contacts_for_node (store w)) \<and>
           key \<noteq> read_configured_public_key (store w) \<and> remove_contact_frame key = Inr frame)))) sent"
  using reconciliation_sends_what_is_asked_for unfolding frame_is_asked_for_def .

text \<open>
  C5: On a node that keeps its contact table, a pass whose wait was quiet ends, and the node then has exactly the
  contacts of the database, beside its own entry if it had one; no contact failed and every contact is recorded as
  being on the node. A table that is full of contacts to remove does not stop it.
\<close>

theorem reconciliation_converges:
  assumes "node_keeps_table capacity N tbl" "\<forall>key \<in> tbl n. key_is_stored key" "leaves_contacts_alone meanwhile"
    and "\<forall>c \<in> set (list_contacts_for_node (store w)). for_node_fits c"
    and "is_running w" "card (wanted_keys (store w) (tbl n)) \<le> capacity"
  shows "\<exists>m w1 n1. reconcile_contacts N clk True meanwhile (w, n) = (Inr m, w1, n1) \<and>
    tbl n1 = for_node_public_key ` set (list_contacts_for_node (store w)) \<union> tbl n \<inter> {read_configured_public_key (store w)} \<and>
    failed_count m = 0 \<and> \<not> removals_postponed m \<and>
    (\<forall>c \<in> set (list_contacts_for_node (store w1)). for_node_sync_state c = ON_NODE)"
  using reconciling_reaches_the_wanted_table [OF assms] unfolding wanted_keys_def .

text \<open>A node with a table of keys.\<close>

definition table_node :: "nat \<Rightarrow> nat list list node_link" where
  "table_node capacity =
     \<lparr>exchange = \<lambda>frame keys.
        let key = take 32 (tl frame); known = bytes_hex key \<in> bytes_hex ` set keys
        in if hd frame = ADD_UPDATE_CONTACT_COMMAND_CODE then
             if known \<or> card (bytes_hex ` set keys) < capacity then (Inr (Reply_Event ()), key # keys)
             else (Inr (Error_Event None (Some ERR_CODE_TABLE_FULL)), keys)
           else if hd frame = REMOVE_CONTACT_COMMAND_CODE then
             (Inr (if known then Reply_Event () else Error_Event None (Some ERR_CODE_NOT_FOUND)),
              filter (\<lambda>k. bytes_hex k \<noteq> bytes_hex key) keys)
           else (Inr (Error_Event None None), keys),
      listing = \<lambda>keys. (Inr (map (\<lambda>k. (bytes_hex k, \<lparr>field_adv_name = None, field_out_path_len = None\<rparr>)) keys), keys)\<rparr>"

lemma table_node_keeps_table: "node_keeps_table capacity (table_node capacity) (\<lambda>keys. bytes_hex ` set keys)"
proof -
  have "lower (bytes_hex k) = bytes_hex k" for k
    by (induction k) (auto simp: lower_def lower_char_def is_upper_def in_range_def hex_digit_def)
  then have "listing_names_table (table_node capacity) (\<lambda>keys. bytes_hex ` set keys)"
    by (auto simp: listing_names_table_def table_node_def image_image)
  moreover have "add_takes_free_place capacity (table_node capacity) (\<lambda>keys. bytes_hex ` set keys)"
    by (simp add: add_takes_free_place_def table_node_def Let_def)
  moreover have "remove_forgets_contact (table_node capacity) (\<lambda>keys. bytes_hex ` set keys)"
    by (auto simp: remove_forgets_contact_def table_node_def Let_def ADD_UPDATE_CONTACT_COMMAND_CODE_def REMOVE_CONTACT_COMMAND_CODE_def)
      (metis (mono_tags, lifting) image_eqI mem_Collect_eq)
  ultimately show ?thesis by (simp add: node_keeps_table_def)
qed

text \<open>The node has room for two contacts and is full: of the first device and of a contact nobody knows.\<close>

theorem reconciliation_converges_witness:
  "\<exists>m w1 n1. reconcile_contacts (table_node 2) sample_reading True id (sample_worker, [replicate 32 17, replicate 32 170 :: nat list]) = (Inr m, w1, n1) \<and>
     bytes_hex ` set n1 = {replicate 64 49, replicate 64 50} \<and> failed_count m = 0"
proof -
  let ?n = "[replicate 32 17, replicate 32 170] :: nat list list" and ?tbl = "\<lambda>keys. bytes_hex ` set keys"
  have keys: "bytes_hex (replicate 32 17) = replicate 64 49" "bytes_hex (replicate 32 170) = replicate 64 97"
    "map for_node_public_key (list_contacts_for_node (store sample_worker)) = [replicate 64 49, replicate 64 50]"
    "read_configured_public_key (store sample_worker) = []"
    by code_simp+
  then have db: "for_node_public_key ` set (list_contacts_for_node (store sample_worker)) = {replicate 64 49, replicate 64 50}"
    by (metis empty_set list.simps(15) set_map)
  have wanted: "wanted_keys (store sample_worker) (?tbl ?n) = {replicate 64 49, replicate 64 50}"
    unfolding wanted_keys_def db keys(4) using keys(1,2) by auto
  have "key_is_stored (replicate 64 49)" "key_is_stored (replicate 64 97)" by code_simp+
  then have stored: "\<forall>key \<in> ?tbl ?n. key_is_stored key" using keys(1,2) by simp
  have alone: "leaves_contacts_alone id" by (simp add: leaves_contacts_alone_def noted_nothing)
  have "list_all for_node_fits (list_contacts_for_node (store sample_worker))" by code_simp
  then have fits: "\<forall>c \<in> set (list_contacts_for_node (store sample_worker)). for_node_fits c" by (simp add: list_all_iff)
  have running: "is_running sample_worker" by code_simp
  have "card (wanted_keys (store sample_worker) (?tbl ?n)) \<le> 2" unfolding wanted by (simp add: card_insert_le_m1)
  from reconciliation_converges [OF table_node_keeps_table stored alone fits running this, of sample_reading]
  obtain m w1 n1 where "reconcile_contacts (table_node 2) sample_reading True id (sample_worker, ?n) = (Inr m, w1, n1)"
    "?tbl n1 = wanted_keys (store sample_worker) (?tbl ?n)" "failed_count m = 0"
    unfolding wanted_keys_def by blast
  with wanted show ?thesis by auto
qed

section \<open>Frames\<close>



end
