(* ===== verification/Spec2Isabelle.thy ===== *)
theory Spec2Isabelle
  imports Relay_Steps Worker_Properties Account_Properties Node_Properties Task_Properties
begin

text \<open>
  A verification development of HopTalk Relay, a store-and-forward messenger on a LoRa mesh node.

  A phone sends a text as numbered parts in direct messages of at most 150 bytes. The relay records every
  received direct message in an inbox, processes it in one database transaction, queues the reply, and a
  sender loop hands one packet at a time to the radio node: replies, then receipts for the sender's devices
  and the parts of messages for the recipient's devices, each repeated in rounds until the device confirms.
  The development follows the directories of \<^verbatim>\<open>src/src\<close>. Definitions keep the names of the source; a
  Python exception is an \<open>Inl\<close> of the type \<open>exn\<close>, a returned value an \<open>Inr\<close>, and every branch of a service
  is a branch of its definition.

  The parts and their theories:

  \<^item> \<open>Relay_Prelude\<close>: Python values, exceptions and the shared lemmas and rule collections.

  \<^item> \<^verbatim>\<open>protocol/\<close>. \<open>Field_Grammar\<close> (\<^verbatim>\<open>constants.py\<close>, \<^verbatim>\<open>field_grammar.py\<close>, \<^verbatim>\<open>text_validation.py\<close>,
  \<^verbatim>\<open>usernames.py\<close>, \<^verbatim>\<open>passwords.py\<close>, \<^verbatim>\<open>received_sets.py\<close>), \<open>Message_Types\<close>, \<open>Parsing\<close>, \<open>Formatting\<close>,
  \<open>Error_Replies\<close> (with \<^verbatim>\<open>messaging/reply_keys.py\<close>) and \<open>Message_Splitting\<close>. A field of the wire is the
  locale \<open>wire_field\<close>, interpreted on every converter. \<open>Protocol_Properties\<close> states the round trips in both
  directions, that the parser is total and canonical, that every error answer can be sent, that the server
  never answers a server, and that splitting is lossless and optimal.

  \<^item> The database. \<open>Tables\<close> models a table as its rows in key order with the next key, and Django's
  querysets as list functions; the locales \<open>keyed_table\<close> and \<open>locked_row_table\<close> give the laws of keys and of
  a locked row. \<open>Data_Model\<close> has one record per model of \<^verbatim>\<open>directory/models.py\<close> and
  \<^verbatim>\<open>messaging/models.py\<close>, and the record \<open>db\<close> of all tables. A transaction is a function from \<open>db\<close> to a
  result and a \<open>db\<close>; a raise leaves the old \<open>db\<close>. \<open>Retry_Schedule\<close> has the operator's settings
  (\<^verbatim>\<open>relay_settings.py\<close>), the times of attempts (\<^verbatim>\<open>retry_schedule.py\<close>) and the wrapper that repeats a
  transaction after a deadlock (\<^verbatim>\<open>service_transactions.py\<close>).

  \<^item> State machines of \<^verbatim>\<open>messaging/\<close>. \<open>Deliveries\<close>, \<open>Receipts\<close> and \<open>Database_Moves\<close> hold, for every table,
  the steps a row may make as inductive relations (\<open>delivery_step\<close>, \<open>packet_step\<close>) or as an order
  (\<open>receipt_evolves\<close>, \<open>message_evolves\<close>). They are the abstract specification: \<open>db_moves\<close> says that every
  row of every table only makes such steps, and every service is proved to refine it, once, beside its
  definition (the lemmas named \<open>..._moves\<close>).

  \<^item> Services of \<^verbatim>\<open>messaging/\<close> and \<^verbatim>\<open>directory/\<close>. \<open>Refresh_Sessions\<close>, \<open>Incoming_Messages\<close> (with
  \<^verbatim>\<open>fan_out.py\<close>), \<open>Reads_And_Acknowledgements\<close>, \<open>Accounts\<close>, \<open>Inbound_Log\<close> (with the redaction of
  \<^verbatim>\<open>logging_configuration.py\<close>), \<open>Request_Processing\<close>, \<open>Outbound_Scheduling\<close>, \<open>Route_Resets\<close> and
  \<open>Outbound_Packets\<close>: every operation, with the lemmas of its branches. \<open>Uploads\<close> follows a message through
  a whole upload.

  \<^item> \<^verbatim>\<open>worker/\<close>. \<open>Reply_Queue\<close> is the in-memory queue of replies and its suppression of repeats. \<open>Relay_Modes\<close>
  decides from the attached node, the stored configuration and the active setup run whether the relay runs, and
  which commands it refuses.

  \<^item> The tasks of the worker. \<open>Worker_State\<close> is what the tasks share in memory, beside the record \<open>system\<close> of
  the tables. \<open>Acknowledgement_Tracker\<close> and \<open>Sender_Loop\<close> follow one packet to the node and its acknowledgement
  back, cut where the source waits for the node, so that other tasks may run in between. \<open>Sender_Properties\<close> has the step
  relation \<open>worker_step\<close> of all interleavings and its invariant: the tracker knows every packet on the node.
  \<open>Node_Frames\<close> has the frames the gateway writes and how it reads replies. \<open>Contact_Reconciler\<close> is a
  pass over the node's contact table; it shows that the pass writes only what differs, that its wait ends, and
  that a node which keeps its table holds exactly the wanted contacts after a pass.

  \<^item> \<^verbatim>\<open>node/\<close>. \<open>Node_Model\<close> has the rows of \<^verbatim>\<open>node/models.py\<close> and the record \<open>system\<close> (the database of the
  relay, the tables of the node and the notifications sent to the worker). \<open>Node_Information\<close> is the report about a
  node and its JSON. \<open>Setup_Runs\<close> and \<open>Node_Commands\<close> are the setup wizard and the queue of commands it gives to
  the worker; \<open>Setup_Steps\<close> proves what each of their operations keeps. \<open>Node_Settings\<close> is the stored configuration,
  \<open>Identity_Backups\<close> the encrypted backup of the node's key, \<open>Pairing_Sessions\<close> the sessions that listen for new
  contacts. \<open>Byte_Strings\<close> (bytes, little-endian integers, hexadecimal digits) and \<open>Contact_Cards\<close> read the advert
  packet inside a contact card.

  \<^item> \<open>Contacts\<close>: \<^verbatim>\<open>directory/contacts.py\<close>, \<^verbatim>\<open>directory/node_sync.py\<close>, \<^verbatim>\<open>directory/users.py\<close> and
  \<^verbatim>\<open>messaging/maintenance.py\<close>: adding and deleting contacts and users, with Django's cascade written out as one
  function over the tables, what the reconciler writes, and the daily pruning. \<open>Contact_Properties\<close> has their
  invariants: well-formed contacts, and no foreign key without its row.

  \<^item> \<open>Setup_Properties\<close> composes the operations of the wizard, the commands and the worker into the step relations
  \<open>setup_step\<close> (all of them) and \<open>open_step\<close> (all but a completed configuration), and shows that runs and commands
  never disagree and what every step keeps. \<open>Setup_Progress\<close> shows that the wizard can always complete, and holds
  the properties of every reachable state. \<open>delete_old_node_commands\<close> is modelled but not a step: it forgets a
  command 90 days after it ended, also one a run that waited so long still refers to.

  \<^item> Properties. \<open>Sample_Relay\<close> and \<open>Sample_Node\<close> are a small relay in use and a node on which the witnesses
  evaluate the services. \<open>Messaging_Properties\<close>, \<open>Worker_Properties\<close>, \<open>Account_Properties\<close> and
  \<open>Node_Properties\<close> hold the properties of the services, \<open>Task_Properties\<close> those of the tasks; \<open>Relay_Steps\<close> composes all transactions of the messenger into one step
  relation and states what every run keeps.

  Parameters of the model, for code that is not in the repository or cannot be read as a function: the
  grapheme segmenter of the \<^verbatim>\<open>regex\<close> package, the Unicode normalisation NFC, the password hashers of Django,
  SHA-256, the Ed25519 verifier of \<^verbatim>\<open>PyCryptodome\<close>, the authenticated cipher, the curve operation and the text of JSON
  (record \<open>backup_services\<close>), and the text of datetimes and coordinates (record \<open>text_conversions\<close>). A hypothesis
  about one of them states its documented behaviour only, and the witness gives a
  function that has it. The node is a parameter too: its answer to a frame is an argument, or a \<open>node_link\<close> with a
  state of its own, whose contact table is the hypothesis \<open>node_keeps_table\<close>.

  Loops. Loops over rows and texts are structural recursion. \<open>retry_from\<close> counts attempts, which the source bounds by
  three; its measure is the attempts left. Only the polling loop
  \<open>wait_until_no_packet_awaits_acknowledgement\<close> runs on fuel, one unit per turn; \<open>quiet_wait_ends\<close> shows that
  as many turns as cover the removal wait, and one more, are enough. Times are integers (microseconds of the clock) and Python integers
  are unbounded, so no arithmetic wraps; masks of parts are natural numbers with bitwise operations.

  Concurrency. Every service runs in one transaction that locks the device or the row it changes, and
  PostgreSQL serialises what conflicts; the step relation of \<open>Relay_Steps\<close> is therefore one whole transaction
  per step, in any order and with any arguments. Rows another transaction has locked appear as an argument
  (\<open>SKIP LOCKED\<close> leaves them out), and the retry wrapper takes the result of each attempt as a function of its number.

  Not modelled: reading the environment, Django's settings, migrations and the panel's views and templates
  (presentation and HTTP); the event loop of the worker (when a task runs, timeouts, cancellation), the
  supervision of the link and the steps that reset and configure the radio through the third-party library
  \<^verbatim>\<open>meshcore\<close>; the status banner of the operator and the download of radio presets.
\<close>

end
